(* ===== verification/GoPrelude.thy ===== *)
theory GoPrelude
  imports Complex_Main "HOL-Library.Finite_Map" "HOL-Library.Sublist"
begin

text \<open>
  Shared vocabulary of the development.

  A Go function that returns \<open>(T, error)\<close> is modelled by a function into \<open>('a, 'e) res\<close>: \<open>Ok\<close> for a
  nil error, \<open>Err\<close> for a non-nil error, and \<open>Panic\<close> for a run-time panic (nil dereference, index out
  of range), which no error handling of the source catches.  A Go map is an \<open>fmap\<close>; where the code
  distinguishes a nil map from an empty one the map is under \<open>option\<close>.  A Go string is a \<open>string\<close>
  of bytes.  The second half translates the functions of the package \<open>strings\<close> that the code calls.
\<close>

named_theorems go_simps \<open>unfolding equations of the result type and the string functions\<close>
named_theorems frame \<open>what an operation leaves unchanged\<close>

section \<open>Results of fallible code\<close>

datatype ('a, 'e) res = Ok 'a | Err 'e | Panic

fun bind_res :: "('a, 'e) res \<Rightarrow> ('a \<Rightarrow> ('b, 'e) res) \<Rightarrow> ('b, 'e) res" where
  "bind_res (Ok x) f = f x"
| "bind_res (Err e) f = Err e"
| "bind_res Panic f = Panic"

fun map_err :: "('e \<Rightarrow> 'f) \<Rightarrow> ('a, 'e) res \<Rightarrow> ('a, 'f) res" where
  "map_err h (Ok x) = Ok x"
| "map_err h (Err e) = Err (h e)"
| "map_err h Panic = Panic"

fun is_Ok :: "('a, 'e) res \<Rightarrow> bool" where
  "is_Ok (Ok x) = True"
| "is_Ok (Err e) = False"
| "is_Ok Panic = False"

fun the_Ok :: "('a, 'e) res \<Rightarrow> 'a" where
  "the_Ok (Ok x) = x"

fun ok_or :: "'e \<Rightarrow> 'a option \<Rightarrow> ('a, 'e) res" where
  "ok_or e None = Err e"
| "ok_or e (Some x) = Ok x"

lemma bind_res_Ok_iff: "bind_res r f = Ok y \<longleftrightarrow> (\<exists>x. r = Ok x \<and> f x = Ok y)"
  by (cases r) auto

lemma bind_res_OkE:
  assumes "bind_res r f = Ok y"
  obtains x where "r = Ok x" and "f x = Ok y"
  using assms by (auto simp: bind_res_Ok_iff)

lemma map_err_Ok_iff [simp]: "map_err h r = Ok x \<longleftrightarrow> r = Ok x"
  by (cases r) auto

lemma map_err_Ok_iff' [simp]: "Ok x = map_err h r \<longleftrightarrow> r = Ok x"
  by (cases r) auto

lemma ok_or_Ok_iff [simp]: "ok_or e r = Ok x \<longleftrightarrow> r = Some x"
  by (cases r) auto

lemma ok_or_not_Panic [simp]: "ok_or e r \<noteq> Panic"
  by (cases r) auto

lemma bind_res_assoc [simp]: "bind_res (bind_res r f) g = bind_res r (\<lambda>x. bind_res (f x) g)"
  by (cases r) auto

lemma is_Ok_iff: "is_Ok r \<longleftrightarrow> (\<exists>x. r = Ok x)"
  by (cases r) auto

lemma is_Ok_the: "is_Ok r \<Longrightarrow> r = Ok (the_Ok r)"
  by (cases r) auto

text \<open>Results with a state: a call that changes the state, and what follows it when it returns normally.\<close>

fun sbind :: "'s \<times> ('a, 'e) res \<Rightarrow> ('a \<Rightarrow> 's \<Rightarrow> 's \<times> ('b, 'e) res) \<Rightarrow> 's \<times> ('b, 'e) res" where
  "sbind (s, Ok x) f = f x s"
| "sbind (s, Err e) f = (s, Err e)"
| "sbind (s, Panic) f = (s, Panic)"

lemma sbind_OkE:
  assumes "sbind p f = (s', Ok y)"
  obtains s x where "p = (s, Ok x)" and "f x s = (s', Ok y)"
  using assms by (cases "(p, f)" rule: sbind.cases) auto

section \<open>Finite maps\<close>

lemma fmap_eqI: "(\<And>k. fmlookup m k = fmlookup n k) \<Longrightarrow> m = n"
  by (rule fmap_ext) simp

lemma fmmap_inverse:
  assumes "\<And>x. g (f x) = x"
  shows "fmmap g (fmmap f m) = m"
  by (rule fmap_eqI) (simp add: option.map_comp o_def assms option.map_ident)

definition values_list :: "('k, 'v) fmap \<Rightarrow> ('k \<times> 'v) list \<Rightarrow> bool" where
  "values_list m ps \<longleftrightarrow> distinct (map fst ps) \<and> map_of ps = fmlookup m"

text \<open>
  \<open>values_list m ps\<close>: the list \<open>ps\<close> is one of the orders in which \<open>range m\<close> may enumerate the map.
  Go leaves that order unspecified, so operations that iterate a map take the order as an argument.
\<close>

lemma values_listD:
  assumes "values_list m ps"
  shows "(k, v) \<in> set ps \<longleftrightarrow> fmlookup m k = Some v"
  using assms unfolding values_list_def by (metis map_of_eq_Some_iff)

lemma values_list_exists: "\<exists>ps. values_list m ps"
proof (induction m)
  case fmempty
  show ?case by (rule exI [of _ "[]"]) (auto simp: values_list_def)
next
  case (fmupd x y m)
  then obtain ps where ps: "values_list m ps" by blast
  have "x \<notin> fst ` set ps"
    using ps fmupd(2) by (force simp: values_listD)
  then have "values_list (fmupd x y m) ((x, y) # ps)"
    using ps by (auto simp: values_list_def fun_eq_iff)
  then show ?case by blast
qed

section \<open>The package strings\<close>

definition HasPrefix :: "string \<Rightarrow> string \<Rightarrow> bool" where
  "HasPrefix s p \<longleftrightarrow> take (length p) s = p"

definition HasSuffix :: "string \<Rightarrow> string \<Rightarrow> bool" where
  "HasSuffix s p \<longleftrightarrow> length p \<le> length s \<and> drop (length s - length p) s = p"

definition TrimPrefix :: "string \<Rightarrow> string \<Rightarrow> string" where
  "TrimPrefix s p = (if HasPrefix s p then drop (length p) s else s)"

definition TrimSuffix :: "string \<Rightarrow> string \<Rightarrow> string" where
  "TrimSuffix s p = (if HasSuffix s p then take (length s - length p) s else s)"

text \<open>\<open>strings.Split(s, sep)\<close> and \<open>strings.Count(s, sep)\<close> for a separator of one byte.\<close>

fun split_at_byte :: "char \<Rightarrow> string \<Rightarrow> string \<Rightarrow> string list" where
  "split_at_byte c acc [] = [rev acc]"
| "split_at_byte c acc (x # xs) =
     (if x = c then rev acc # split_at_byte c [] xs else split_at_byte c (x # acc) xs)"

definition split_byte :: "char \<Rightarrow> string \<Rightarrow> string list" where
  "split_byte c s = split_at_byte c [] s"

definition count_byte :: "char \<Rightarrow> string \<Rightarrow> nat" where
  "count_byte c s = length (filter (\<lambda>x. x = c) s)"

lemma HasPrefix_iff: "HasPrefix s p \<longleftrightarrow> (\<exists>r. s = p @ r)"
  unfolding HasPrefix_def by (metis append_eq_conv_conj append_take_drop_id)

lemma HasPrefix_append [simp]: "HasPrefix (p @ r) p"
  by (auto simp: HasPrefix_iff)

lemma HasSuffix_iff: "HasSuffix s p \<longleftrightarrow> (\<exists>r. s = r @ p)"
proof
  assume "HasSuffix s p"
  then show "\<exists>r. s = r @ p"
    unfolding HasSuffix_def by (metis append_take_drop_id)
qed (auto simp: HasSuffix_def)

lemma HasSuffix_append [simp]: "HasSuffix (r @ p) p"
  by (auto simp: HasSuffix_iff)

lemma TrimPrefix_append [simp]: "TrimPrefix (p @ r) p = r"
  by (simp add: TrimPrefix_def)

lemma TrimSuffix_append [simp]: "TrimSuffix (r @ p) p = r"
  by (simp add: TrimSuffix_def)

lemma split_at_byte_none: "c \<notin> set s \<Longrightarrow> split_at_byte c acc s = [rev acc @ s]"
  by (induction s arbitrary: acc) auto

lemma split_at_byte_sep:
  "c \<notin> set s \<Longrightarrow> split_at_byte c acc (s @ c # t) = (rev acc @ s) # split_byte c t"
  by (induction s arbitrary: acc) (auto simp: split_byte_def)

lemma split_byte_none [simp]: "c \<notin> set s \<Longrightarrow> split_byte c s = [s]"
  by (simp add: split_byte_def split_at_byte_none)

lemma split_byte_sep: "c \<notin> set s \<Longrightarrow> split_byte c (s @ c # t) = s # split_byte c t"
  using split_at_byte_sep [of c s "[]" t] by (simp add: split_byte_def)

lemma split_at_byte_nonempty [simp]: "split_at_byte c acc s \<noteq> []"
  by (induction s arbitrary: acc) auto

lemma split_byte_nonempty [simp]: "split_byte c s \<noteq> []"
  by (simp add: split_byte_def)

lemma last_split_at_byte_append:
  "c \<notin> set t \<Longrightarrow> last (split_at_byte c acc (s @ c # t)) = t"
  by (induction s arbitrary: acc) (auto simp: split_at_byte_none)

lemma last_split_byte: "c \<notin> set t \<Longrightarrow> last (split_byte c (s @ c # t)) = t"
  by (simp add: split_byte_def last_split_at_byte_append)

lemma length_split_at_byte: "length (split_at_byte c acc s) = Suc (count_byte c s)"
  by (induction s arbitrary: acc) (auto simp: count_byte_def)

lemma length_split_byte: "length (split_byte c s) = Suc (count_byte c s)"
  by (simp add: split_byte_def length_split_at_byte)

lemma count_byte_append [simp]: "count_byte c (s @ t) = count_byte c s + count_byte c t"
  by (simp add: count_byte_def)

lemmas string_funs = HasPrefix_def HasSuffix_def TrimPrefix_def TrimSuffix_def

end
