(* ===== verification/Http.thy ===== *)
theory Http
  imports GoPrelude
begin

text \<open>
  What the handlers use of \<open>net/http\<close> and \<open>path\<close>: the response writer, \<open>http.Error\<close>, and the lexical
  cleaning of slash separated paths.

  A response writer fixes the status with the first \<open>WriteHeader\<close> or, with 200, at the first \<open>Write\<close>;
  later calls of \<open>WriteHeader\<close> have no effect, and neither have header changes after that.
\<close>

section \<open>Responses\<close>

record 'b response =
  rsp_Status :: "nat option"
  rsp_Header :: "(string, string) fmap"
  rsp_Body :: "'b list"

definition empty_response :: "'b response" where
  "empty_response = \<lparr>rsp_Status = None, rsp_Header = fmempty, rsp_Body = []\<rparr>"

definition WriteHeader :: "nat \<Rightarrow> 'b response \<Rightarrow> 'b response" where
  "WriteHeader code w = (if rsp_Status w = None then w\<lparr>rsp_Status := Some code\<rparr> else w)"

definition Write :: "'b \<Rightarrow> 'b response \<Rightarrow> 'b response" where
  "Write b w = (WriteHeader 200 w)\<lparr>rsp_Body := rsp_Body w @ [b]\<rparr>"

definition Header_Set :: "string \<Rightarrow> string \<Rightarrow> 'b response \<Rightarrow> 'b response" where
  "Header_Set k v w =
     (if rsp_Status w = None then w\<lparr>rsp_Header := fmupd k v (rsp_Header w)\<rparr> else w)"

definition http_Error :: "'b \<Rightarrow> nat \<Rightarrow> 'b response \<Rightarrow> 'b response" where
  "http_Error msg code w =
     Write msg (WriteHeader code
       (Header_Set ''X-Content-Type-Options'' ''nosniff''
         (Header_Set ''Content-Type'' ''text/plain; charset=utf-8'' w)))"

text \<open>The status the client sees: a handler that returns without writing sends 200.\<close>

definition status :: "'b response \<Rightarrow> nat" where
  "status w = (case rsp_Status w of None \<Rightarrow> 200 | Some c \<Rightarrow> c)"

abbreviation StatusOK :: nat where "StatusOK \<equiv> 200"
abbreviation StatusCreated :: nat where "StatusCreated \<equiv> 201"
abbreviation StatusBadRequest :: nat where "StatusBadRequest \<equiv> 400"
abbreviation StatusUnauthorized :: nat where "StatusUnauthorized \<equiv> 401"
abbreviation StatusForbidden :: nat where "StatusForbidden \<equiv> 403"
abbreviation StatusNotFound :: nat where "StatusNotFound \<equiv> 404"
abbreviation StatusInternalServerError :: nat where "StatusInternalServerError \<equiv> 500"

lemma status_http_Error [simp]: "rsp_Status w = None \<Longrightarrow> status (http_Error msg code w) = code"
  by (simp add: status_def http_Error_def Write_def WriteHeader_def Header_Set_def)

lemma body_http_Error [simp]: "rsp_Body (http_Error msg code w) = rsp_Body w @ [msg]"
  by (simp add: http_Error_def Write_def WriteHeader_def Header_Set_def)

lemma empty_response_simps [simp]:
  "rsp_Status empty_response = None" "rsp_Body empty_response = []" "rsp_Header empty_response = fmempty"
  "status empty_response = 200"
  by (simp_all add: empty_response_def status_def)

lemma status_Write [simp]: "status (Write b w) = status w"
  by (auto simp: status_def Write_def WriteHeader_def)

lemma status_WriteHeader [simp]: "rsp_Status w = None \<Longrightarrow> status (WriteHeader c w) = c"
  by (simp add: status_def WriteHeader_def)

lemma rsp_Status_Header_Set [simp]: "rsp_Status (Header_Set k v w) = rsp_Status w"
  by (simp add: Header_Set_def)

lemma rsp_Body_simps [simp]:
  "rsp_Body (Write b w) = rsp_Body w @ [b]" "rsp_Body (WriteHeader c w) = rsp_Body w"
  "rsp_Body (Header_Set k v w) = rsp_Body w"
  by (simp_all add: Write_def WriteHeader_def Header_Set_def)

section \<open>Paths\<close>

text \<open>
  \<open>path.Clean\<close>: components are pushed on a stack (here in reverse); empty ones and \<open>.\<close> vanish, \<open>..\<close>
  removes the component before it, and stays only at the front of a path that is not rooted.
\<close>

definition dotdot :: string where "dotdot = ''..''"

fun clean_stack :: "bool \<Rightarrow> string list \<Rightarrow> string list \<Rightarrow> string list" where
  "clean_stack rooted st [] = rev st"
| "clean_stack rooted st (c # cs) =
     (if c = '''' \<or> c = ''.'' then clean_stack rooted st cs
      else if c = dotdot then
        (case st of
           [] \<Rightarrow> clean_stack rooted (if rooted then [] else [dotdot]) cs
         | d # ds \<Rightarrow> clean_stack rooted (if d = dotdot then dotdot # st else ds) cs)
      else clean_stack rooted (c # st) cs)"

fun join_slash :: "string list \<Rightarrow> string" where
  "join_slash [] = ''''"
| "join_slash [c] = c"
| "join_slash (c # d # cs) = c @ CHR ''/'' # join_slash (d # cs)"

definition is_rooted :: "string \<Rightarrow> bool" where
  "is_rooted p \<longleftrightarrow> HasPrefix p ''/''"

definition path_Clean :: "string \<Rightarrow> string" where
  "path_Clean p =
     (let cs = clean_stack (is_rooted p) [] (split_byte (CHR ''/'') p) in
      if is_rooted p then CHR ''/'' # join_slash cs
      else if cs = [] then ''.'' else join_slash cs)"

text \<open>\<open>path.Join\<close> and, on the systems the node runs on, \<open>filepath.Join\<close>: empty elements are ignored.\<close>

definition path_Join :: "string list \<Rightarrow> string" where
  "path_Join elems =
     (let es = filter (\<lambda>e. e \<noteq> '''') elems in if es = [] then '''' else path_Clean (join_slash es))"

lemma split_at_byte_append:
  "split_at_byte c acc (s @ c # t) = split_at_byte c acc s @ split_byte c t"
  by (induction s arbitrary: acc) (auto simp: split_byte_def)

lemma split_byte_append: "split_byte c (s @ c # t) = split_byte c s @ split_byte c t"
  by (simp add: split_byte_def split_at_byte_append)

lemma clean_stack_no_dotdot:
  assumes "dotdot \<notin> set cs"
  shows "clean_stack rooted st cs = rev st @ filter (\<lambda>c. c \<noteq> '''' \<and> c \<noteq> ''.'') cs"
  using assms by (induction cs arbitrary: st) auto

lemma clean_stack_rooted:
  "dotdot \<notin> set st \<Longrightarrow> dotdot \<notin> set (clean_stack True st cs)"
proof (induction cs arbitrary: st)
  case Nil
  then show ?case by simp
next
  case (Cons c cs)
  then show ?case by (cases st) auto
qed

lemma clean_stack_append:
  "clean_stack rooted st (xs @ ys) = clean_stack rooted (rev (clean_stack rooted st xs)) ys"
  by (induction xs arbitrary: st) (auto split: list.splits)

lemma join_slash_append:
  "xs \<noteq> [] \<Longrightarrow> ys \<noteq> [] \<Longrightarrow> join_slash (xs @ ys) = join_slash xs @ CHR ''/'' # join_slash ys"
proof (induction xs rule: join_slash.induct)
  case (2 c)
  then show ?case by (cases ys) auto
qed auto

end
