(* ===== verification/Json.thy ===== *)
theory Json
  imports GoPrelude
begin

text \<open>
  JSON documents and what the code does with them.

  The code keeps the node state as the bytes of a JSON document.  The development keeps the document
  itself: \<open>json\<close> is the value that the bytes denote, objects being finite maps (member order and
  white space are below the model).  The decoders follow \<open>encoding/json\<close> for the field types the code
  uses: an absent or \<open>null\<close> member leaves the zero value, a member of the wrong kind is an error.
  Member names are compared exactly.

  RFC 6902 patches are applied by \<open>github.com/evanphx/json-patch\<close> and computed by
  \<open>github.com/wI2L/jsondiff\<close>.  Both are parameters of the model; \<open>patch_laws\<close> and \<open>diff_laws\<close> state the
  documented behaviour the code relies on: operations apply in order, and \<open>add\<close>, \<open>replace\<close>,
  \<open>remove\<close> at a path that runs through objects do what RFC 6902 says.
\<close>

section \<open>Documents\<close>

datatype json =
    JNull
  | JBool bool
  | JNum rat
  | JStr string
  | JArr "json list"
  | JObj "(string, json) fmap"

datatype decode_error = TypeMismatch | NotAnObject | NilEntry

fun dec_string :: "json option \<Rightarrow> (string, decode_error) res" where
  "dec_string None = Ok ''''"
| "dec_string (Some JNull) = Ok ''''"
| "dec_string (Some (JStr s)) = Ok s"
| "dec_string (Some _) = Err TypeMismatch"

text \<open>A document decoded into a struct: \<open>null\<close> leaves every field at its zero value.\<close>

fun as_object :: "json option \<Rightarrow> (string, json) fmap option" where
  "as_object (Some (JObj m)) = Some m"
| "as_object (Some JNull) = Some fmempty"
| "as_object _ = None"

definition dec_field :: "(string, json) fmap \<Rightarrow> string \<Rightarrow> (string, decode_error) res" where
  "dec_field m k = dec_string (fmlookup m k)"

text \<open>A member of type \<open>map[string]T\<close>: \<open>None\<close> is the nil map.\<close>

definition dec_entries ::
  "(json \<Rightarrow> ('a, decode_error) res) \<Rightarrow> (string, json) fmap \<Rightarrow> ((string, 'a) fmap, decode_error) res"
where
  "dec_entries dec m =
     (if fmpred (\<lambda>k v. is_Ok (dec v)) m then Ok (fmmap (\<lambda>v. the_Ok (dec v)) m)
      else Err TypeMismatch)"

fun dec_map ::
  "(json \<Rightarrow> ('a, decode_error) res) \<Rightarrow> json option
   \<Rightarrow> ((string, 'a) fmap option, decode_error) res"
where
  "dec_map dec None = Ok None"
| "dec_map dec (Some JNull) = Ok None"
| "dec_map dec (Some (JObj m)) = bind_res (dec_entries dec m) (\<lambda>x. Ok (Some x))"
| "dec_map dec (Some _) = Err TypeMismatch"

fun enc_map :: "('a \<Rightarrow> json) \<Rightarrow> (string, 'a) fmap option \<Rightarrow> json" where
  "enc_map enc None = JNull"
| "enc_map enc (Some m) = JObj (fmmap enc m)"

text \<open>A struct member with \<open>omitempty\<close> is left out when it holds the empty string.\<close>

definition enc_omitempty :: "string \<Rightarrow> string \<Rightarrow> (string \<times> json) list" where
  "enc_omitempty name s = (if s = '''' then [] else [(name, JStr s)])"

lemma dec_entries_fmmap:
  assumes "\<And>x. dec (enc x) = Ok x"
  shows "dec_entries dec (fmmap enc m) = Ok m"
  using assms by (auto simp: dec_entries_def is_Ok_iff fmap.map_comp o_def fmap.map_ident fmpred_iff)

lemma dec_map_enc_map [simp]:
  assumes "\<And>x. dec (enc x) = Ok x"
  shows "dec_map dec (Some (enc_map enc m)) = Ok m"
  using assms by (cases m) (simp_all add: dec_entries_fmmap)

lemma dec_entries_Ok_iff:
  "dec_entries dec m = Ok n \<longleftrightarrow> fmrel (\<lambda>v x. dec v = Ok x) m n"
proof
  assume "dec_entries dec m = Ok n"
  then have ok: "fmpred (\<lambda>k v. is_Ok (dec v)) m" and n: "n = fmmap (\<lambda>v. the_Ok (dec v)) m"
    by (auto simp: dec_entries_def split: if_splits)
  show "fmrel (\<lambda>v x. dec v = Ok x) m n"
  proof (rule fmrelI)
    fix k
    show "rel_option (\<lambda>v x. dec v = Ok x) (fmlookup m k) (fmlookup n k)"
      using ok by (cases "fmlookup m k") (auto simp: n fmpred_iff intro: is_Ok_the)
  qed
next
  assume rel: "fmrel (\<lambda>v x. dec v = Ok x) m n"
  have entry: "\<exists>x. dec v = Ok x \<and> fmlookup n k = Some x" if "fmlookup m k = Some v" for k v
    using fmrelD [OF rel, of k] that by (cases "fmlookup n k") auto
  have "fmpred (\<lambda>k v. is_Ok (dec v)) m"
    using entry by (force simp: fmpred_iff is_Ok_iff)
  moreover have "fmmap (\<lambda>v. the_Ok (dec v)) m = n"
  proof (rule fmap_eqI)
    fix k
    show "fmlookup (fmmap (\<lambda>v. the_Ok (dec v)) m) k = fmlookup n k"
      using fmrelD [OF rel, of k] entry [of k] by (cases "fmlookup m k") auto
  qed
  ultimately show "dec_entries dec m = Ok n" by (simp add: dec_entries_def)
qed

lemma dec_entries_fmupd:
  assumes "dec_entries dec m = Ok n" and "dec v = Ok x"
  shows "dec_entries dec (fmupd k v m) = Ok (fmupd k x n)"
  using assms by (simp add: dec_entries_Ok_iff fmrel_upd)

lemma dec_entries_fmdrop:
  assumes "dec_entries dec m = Ok n"
  shows "dec_entries dec (fmdrop k m) = Ok (fmdrop k n)"
  using assms by (simp add: dec_entries_Ok_iff fmrel_drop)

lemma dec_entries_lookup:
  assumes "dec_entries dec m = Ok n"
  shows "rel_option (\<lambda>v x. dec v = Ok x) (fmlookup m k) (fmlookup n k)"
  using assms by (simp add: dec_entries_Ok_iff fmrelD)

lemma dec_entries_None_iff:
  assumes "dec_entries dec m = Ok n"
  shows "fmlookup m k = None \<longleftrightarrow> fmlookup n k = None"
  using dec_entries_lookup [OF assms, of k]
  by (cases "fmlookup m k"; cases "fmlookup n k") auto

lemma dec_map_SomeE:
  assumes "dec_map dec j = Ok (Some n)"
  obtains m where "j = Some (JObj m)" and "dec_entries dec m = Ok n"
  using assms by (cases "(dec, j)" rule: dec_map.cases) (auto simp: bind_res_Ok_iff)

section \<open>JSON pointers and patches\<close>

datatype patch_op = PAdd string json | PReplace string json | PRemove string

fun unescape :: "string \<Rightarrow> string" where
  "unescape (x # y # xs) =
     (if x = CHR ''~'' \<and> y = CHR ''1'' then CHR ''/'' # unescape xs
      else if x = CHR ''~'' \<and> y = CHR ''0'' then CHR ''~'' # unescape xs
      else x # unescape (y # xs))"
| "unescape [x] = [x]"
| "unescape [] = []"

definition ptr_tokens :: "string \<Rightarrow> string list" where
  "ptr_tokens p = map unescape (tl (split_byte (CHR ''/'') p))"

text \<open>A member name that a pointer can carry as it is.\<close>

definition plain_key :: "string \<Rightarrow> bool" where
  "plain_key k \<longleftrightarrow> CHR ''/'' \<notin> set k \<and> CHR ''~'' \<notin> set k"

lemma unescape_plain [simp]: "CHR ''~'' \<notin> set k \<Longrightarrow> unescape k = k"
  by (induction k rule: unescape.induct) auto

lemma ptr_tokens_Nil: "ptr_tokens '''' = []"
  by (simp add: ptr_tokens_def)

lemma ptr_tokens_Cons:
  "plain_key k \<Longrightarrow> ptr_tokens (CHR ''/'' # k) = [k]"
  using split_byte_sep [of "CHR ''/''" "[]" k]
  by (simp add: ptr_tokens_def plain_key_def)

lemma ptr_tokens_append:
  assumes "plain_key k"
  shows "ptr_tokens (CHR ''/'' # k @ CHR ''/'' # p) = k # ptr_tokens (CHR ''/'' # p)"
  using split_byte_sep [of "CHR ''/''" "[]" "k @ CHR ''/'' # p"]
    split_byte_sep [of "CHR ''/''" k p] split_byte_sep [of "CHR ''/''" "[]" p] assms
  by (simp add: ptr_tokens_def plain_key_def)

text \<open>
  \<open>obj_edit ks f d\<close> edits the object that holds the last name of the path \<open>ks\<close>.  The outer \<open>None\<close> says
  that the path runs through something that is not an object (no law is assumed for that case); the
  inner \<open>None\<close> is the error of a missing path.
\<close>

fun obj_edit ::
  "string list \<Rightarrow> (string \<Rightarrow> (string, json) fmap \<Rightarrow> (string, json) fmap option) \<Rightarrow> json
   \<Rightarrow> json option option"
where
  "obj_edit [k] f (JObj m) = Some (map_option JObj (f k m))"
| "obj_edit (k # l # ks) f (JObj m) =
     (case fmlookup m k of
        None \<Rightarrow> Some None
      | Some d \<Rightarrow>
          (case obj_edit (l # ks) f d of
             None \<Rightarrow> None
           | Some None \<Rightarrow> Some None
           | Some (Some d') \<Rightarrow> Some (Some (JObj (fmupd k d' m)))))"
| "obj_edit _ f _ = None"

fun obj_op :: "patch_op \<Rightarrow> json \<Rightarrow> json option option" where
  "obj_op (PAdd p v) d =
     (if p = '''' then Some (Some v) else obj_edit (ptr_tokens p) (\<lambda>k m. Some (fmupd k v m)) d)"
| "obj_op (PReplace p v) d =
     obj_edit (ptr_tokens p)
       (\<lambda>k m. if fmlookup m k = None then None else Some (fmupd k v m)) d"
| "obj_op (PRemove p) d =
     obj_edit (ptr_tokens p)
       (\<lambda>k m. if fmlookup m k = None then None else Some (fmdrop k m)) d"

type_synonym patch_apply = "patch_op list \<Rightarrow> json \<Rightarrow> json option"
type_synonym json_diff = "json \<Rightarrow> json \<Rightarrow> patch_op list option"

text \<open>What the code relies on of \<open>jsonpatch.Patch.Apply\<close> and of \<open>jsondiff.Compare\<close>.\<close>

definition patch_laws :: "patch_apply \<Rightarrow> bool" where
  "patch_laws ap \<longleftrightarrow>
     (\<forall>d. ap [] d = Some d) \<and>
     (\<forall>op ops d. ap (op # ops) d = Option.bind (ap [op] d) (ap ops)) \<and>
     (\<forall>op d r. obj_op op d = Some r \<longrightarrow> ap [op] d = r)"

definition diff_laws :: "patch_apply \<Rightarrow> json_diff \<Rightarrow> bool" where
  "diff_laws ap df \<longleftrightarrow> (\<forall>a b. \<exists>p. df a b = Some p \<and> ap p a = Some b)"

lemma patch_laws_Nil: "patch_laws ap \<Longrightarrow> ap [] d = Some d"
  by (simp add: patch_laws_def)

lemma patch_laws_Cons:
  assumes "patch_laws ap"
  shows "ap (op # ops) d = Option.bind (ap [op] d) (ap ops)"
proof -
  from assms have "\<forall>op ops d. ap (op # ops) d = Option.bind (ap [op] d) (ap ops)"
    unfolding patch_laws_def by blast
  then show ?thesis by blast
qed

lemma patch_laws_op: "patch_laws ap \<Longrightarrow> obj_op op d = Some r \<Longrightarrow> ap [op] d = r"
  unfolding patch_laws_def by blast

lemma patch_laws_step:
  assumes "patch_laws ap" and "obj_op op d = Some (Some d')"
  shows "ap (op # ops) d = ap ops d'"
  using patch_laws_op [OF assms] by (subst patch_laws_Cons [OF assms(1)]) simp

lemma diff_lawsE:
  assumes "diff_laws ap df"
  obtains p where "df a b = Some p" and "ap p a = Some b"
  using assms unfolding diff_laws_def by blast

text \<open>
  The two-level paths that the transitions use: a member of a top-level map, and one field of such a
  member.
\<close>

lemma obj_edit2:
  assumes "fmlookup m k = Some (JObj n)"
  shows "obj_edit [k, l] f (JObj m) =
     Some (map_option (\<lambda>n'. JObj (fmupd k (JObj n') m)) (f l n))"
  using assms by (cases "f l n") auto

lemma obj_edit3:
  assumes "fmlookup m k = Some (JObj n)" and "fmlookup n l = Some (JObj e)"
  shows "obj_edit [k, l, q] f (JObj m) =
     Some (map_option (\<lambda>e'. JObj (fmupd k (JObj (fmupd l (JObj e') n)) m)) (f q e))"
  using assms by (cases "f q e") auto

text \<open>An instance of the two interfaces, used where a theorem is applied to concrete values.\<close>

fun rfc_apply :: "patch_apply" where
  "rfc_apply [] d = Some d"
| "rfc_apply (op # ops) d =
     (case obj_op op d of Some (Some d') \<Rightarrow> rfc_apply ops d' | _ \<Rightarrow> None)"

definition whole_diff :: "json_diff" where
  "whole_diff a b = Some [PAdd '''' b]"

lemma rfc_apply_laws: "patch_laws rfc_apply"
  by (auto simp: patch_laws_def split: option.splits)

lemma whole_diff_laws: "diff_laws rfc_apply whole_diff"
  by (simp add: diff_laws_def whole_diff_def)

end
