(* ===== verification/Base64.thy ===== *)
theory Base64
  imports GoPrelude
begin

text \<open>
  \<open>base64.StdEncoding\<close>: the encoding with padding, and the decoder, which skips line breaks, accepts
  padding only at the end and does not look at the unused bits of the last quantum.  Bytes are the
  characters of a string.
\<close>

definition b64_char :: "nat \<Rightarrow> char" where
  "b64_char n =
     (if n < 26 then char_of (65 + n) else if n < 52 then char_of (71 + n)
      else if n < 62 then char_of (n - 4) else if n = 62 then CHR ''+'' else CHR ''/'')"

definition b64_value :: "char \<Rightarrow> nat option" where
  "b64_value c =
     (let n = of_char c :: nat in
      if 65 \<le> n \<and> n \<le> 90 then Some (n - 65) else if 97 \<le> n \<and> n \<le> 122 then Some (n - 71)
      else if 48 \<le> n \<and> n \<le> 57 then Some (n + 4) else if c = CHR ''+'' then Some 62
      else if c = CHR ''/'' then Some 63 else None)"

abbreviation byte :: "char \<Rightarrow> nat" where "byte c \<equiv> of_char c"

fun base64_encode :: "string \<Rightarrow> string" where
  "base64_encode [] = []"
| "base64_encode [a] =
     [b64_char (byte a div 4), b64_char (byte a mod 4 * 16), CHR ''='', CHR ''='']"
| "base64_encode [a, b] =
     [b64_char (byte a div 4), b64_char (byte a mod 4 * 16 + byte b div 16),
      b64_char (byte b mod 16 * 4), CHR ''='']"
| "base64_encode (a # b # c # s) =
     b64_char (byte a div 4) # b64_char (byte a mod 4 * 16 + byte b div 16) #
     b64_char (byte b mod 16 * 4 + byte c div 64) # b64_char (byte c mod 64) # base64_encode s"

definition quantum1 :: "nat \<Rightarrow> nat \<Rightarrow> char" where "quantum1 x y = char_of (x * 4 + y div 16)"
definition quantum2 :: "nat \<Rightarrow> nat \<Rightarrow> char" where "quantum2 y z = char_of (y mod 16 * 16 + z div 4)"
definition quantum3 :: "nat \<Rightarrow> nat \<Rightarrow> char" where "quantum3 z v = char_of (z mod 4 * 64 + v)"

fun decode_quanta :: "string \<Rightarrow> string option" where
  "decode_quanta [] = Some []"
| "decode_quanta (a # b # c # d # s) =
     (case (b64_value a, b64_value b) of
        (Some x, Some y) \<Rightarrow>
          (if c = CHR ''='' then (if d = CHR ''='' \<and> s = [] then Some [quantum1 x y] else None)
           else
             (case b64_value c of
                None \<Rightarrow> None
              | Some z \<Rightarrow>
                  (if d = CHR ''='' then (if s = [] then Some [quantum1 x y, quantum2 y z] else None)
                   else
                     (case b64_value d of
                        None \<Rightarrow> None
                      | Some v \<Rightarrow>
                          map_option (\<lambda>r. quantum1 x y # quantum2 y z # quantum3 z v # r)
                            (decode_quanta s)))))
      | _ \<Rightarrow> None)"
| "decode_quanta _ = None"

definition line_break :: "char \<Rightarrow> bool" where
  "line_break c \<longleftrightarrow> of_char c = (10::nat) \<or> of_char c = (13::nat)"

definition base64_decode :: "string \<Rightarrow> string option" where
  "base64_decode s = decode_quanta (filter (\<lambda>c. \<not> line_break c) s)"

lemma b64_char_facts:
  assumes "n < 64"
  shows "b64_value (b64_char n) = Some n" and "b64_char n \<noteq> CHR ''=''" and "\<not> line_break (b64_char n)"
proof -
  have "n < 26 \<or> 26 \<le> n \<and> n < 52 \<or> 52 \<le> n \<and> n < 62 \<or> n = 62 \<or> n = 63" using assms by linarith
  then have "b64_value (b64_char n) = Some n \<and> byte (b64_char n) \<notin> {10, 13, 61}"
    by (elim disjE) (auto simp: b64_char_def b64_value_def Let_def)
  then show "b64_value (b64_char n) = Some n" "b64_char n \<noteq> CHR ''=''" "\<not> line_break (b64_char n)"
    by (auto simp: line_break_def)
qed

lemma byte_bound: "byte c < 256"
  using of_char_of [of "byte c"] by (metis char_of_char mod_less_divisor of_char_of zero_less_numeral)

lemma byte_parts [simp]:
  "byte a div 4 < 64" "byte a mod 4 * 16 < 64" "byte a mod 4 * 16 + byte b div 16 < 64"
  "byte b mod 16 * 4 < 64" "byte b mod 16 * 4 + byte c div 64 < 64" "byte c mod 64 < 64"
  using byte_bound [of a] byte_bound [of b] byte_bound [of c] by linarith+

lemma quantum_bytes [simp]:
  "quantum1 (byte a div 4) (byte a mod 4 * 16 + byte b div 16) = a"
  "quantum1 (byte a div 4) (byte a mod 4 * 16) = a"
  "quantum2 (byte a mod 4 * 16 + byte b div 16) (byte b mod 16 * 4 + byte c div 64) = b"
  "quantum2 (byte a mod 4 * 16 + byte b div 16) (byte b mod 16 * 4) = b"
  "quantum3 (byte b mod 16 * 4 + byte c div 64) (byte c mod 64) = c"
proof -
  have "byte b div 16 < 16" and "byte c div 64 < 4" using byte_bound [of b] byte_bound [of c] by linarith+
  then show "quantum1 (byte a div 4) (byte a mod 4 * 16 + byte b div 16) = a"
    "quantum1 (byte a div 4) (byte a mod 4 * 16) = a"
    "quantum2 (byte a mod 4 * 16 + byte b div 16) (byte b mod 16 * 4 + byte c div 64) = b"
    "quantum2 (byte a mod 4 * 16 + byte b div 16) (byte b mod 16 * 4) = b"
    "quantum3 (byte b mod 16 * 4 + byte c div 64) (byte c mod 64) = c"
    by (simp_all add: quantum1_def quantum2_def quantum3_def)
qed

lemma encode_no_breaks: "filter (\<lambda>c. \<not> line_break c) (base64_encode s) = base64_encode s"
  by (induction s rule: base64_encode.induct) (simp_all add: b64_char_facts, simp_all add: line_break_def)

lemma decode_encode: "decode_quanta (base64_encode s) = Some s"
  by (induction s rule: base64_encode.induct) (simp_all add: b64_char_facts)

lemma base64_roundtrip [simp]: "base64_decode (base64_encode s) = Some s"
  by (simp add: base64_decode_def encode_no_breaks decode_encode)

section \<open>The URL alphabet without padding\<close>

text \<open>\<open>base64.RawURLEncoding\<close>: the same with two other characters, and padding is refused.\<close>

definition to_url :: "char \<Rightarrow> char" where
  "to_url c = (if c = CHR ''+'' then CHR ''-'' else if c = CHR ''/'' then CHR ''_'' else c)"

definition of_url :: "char \<Rightarrow> char" where
  "of_url c = (if c = CHR ''-'' then CHR ''+'' else if c = CHR ''_'' then CHR ''/'' else c)"

definition raw_url_encode :: "string \<Rightarrow> string" where
  "raw_url_encode s = map to_url (filter (\<lambda>c. c \<noteq> CHR ''='') (base64_encode s))"

definition padding :: "nat \<Rightarrow> string" where
  "padding n = (if n mod 4 = 2 then ''=='' else if n mod 4 = 3 then ''='' else [])"

definition raw_url_decode :: "string \<Rightarrow> string option" where
  "raw_url_decode s =
     (let t = filter (\<lambda>c. \<not> line_break c) s in
      if list_ex (\<lambda>c. c = CHR ''+'' \<or> c = CHR ''/'' \<or> c = CHR ''='') t then None
      else decode_quanta (map of_url t @ padding (length t)))"

lemma padding_add4 [simp]: "padding (Suc (Suc (Suc (Suc n)))) = padding n"
  by (simp add: padding_def)

lemma strip_padding:
  "filter (\<lambda>c. c \<noteq> CHR ''='') (base64_encode s) @ padding (length (filter (\<lambda>c. c \<noteq> CHR ''='') (base64_encode s))) =
     base64_encode s"
  by (induction s rule: base64_encode.induct) (simp_all add: b64_char_facts, simp_all add: padding_def)

lemma encode_alphabet:
  "c \<in> set (base64_encode s) \<Longrightarrow> c = CHR ''='' \<or> (\<exists>n < 64. c = b64_char n)"
  by (induction s rule: base64_encode.induct) (auto intro: byte_parts)

lemma b64_char_not_url: "n < 64 \<Longrightarrow> b64_char n \<noteq> CHR ''-'' \<and> b64_char n \<noteq> CHR ''_''"
  using b64_char_facts(1) [of n] by (auto simp: b64_value_def)

lemma url_char:
  assumes "c \<in> set (base64_encode s)" and "c \<noteq> CHR ''=''"
  shows "of_url (to_url c) = c" and "\<not> line_break (to_url c)"
    and "to_url c \<noteq> CHR ''+''" and "to_url c \<noteq> CHR ''/''" and "to_url c \<noteq> CHR ''=''"
  using encode_alphabet [OF assms(1)] assms(2) b64_char_not_url b64_char_facts(3)
  by (auto simp: of_url_def to_url_def) (auto simp: line_break_def)

lemma raw_url_roundtrip [simp]: "raw_url_decode (raw_url_encode s) = Some s"
proof -
  let ?e = "filter (\<lambda>c. c \<noteq> CHR ''='') (base64_encode s)"
  have e: "of_url (to_url c) = c \<and> \<not> line_break (to_url c) \<and> to_url c \<noteq> CHR ''+'' \<and> to_url c \<noteq> CHR ''/''
      \<and> to_url c \<noteq> CHR ''=''" if "c \<in> set ?e" for c
    using that url_char [of c s] by auto
  have f: "filter (\<lambda>c. \<not> line_break c) (map to_url ?e) = map to_url ?e"
    using e by (simp add: filter_id_conv)
  have m: "map of_url (map to_url ?e) = ?e" unfolding map_map by (rule map_idI) (simp add: e o_def del: set_filter)
  have x: "\<not> list_ex (\<lambda>c. c = CHR ''+'' \<or> c = CHR ''/'' \<or> c = CHR ''='') (map to_url ?e)"
    using e by (auto simp: list_ex_iff simp del: set_filter)
  show ?thesis unfolding raw_url_decode_def raw_url_encode_def Let_def f
    using x m strip_padding [of s] decode_encode [of s] by simp
qed

end
