(* ===== verification/BffAuth.thy ===== *)
theory BffAuth
  imports Http Json Base64
begin

text \<open>
  Authentication between nodes: \<open>internal/bffauth\<close>.

  A node asks for a challenge for a public key, signs it, and gets a token for the signature.
  The cryptography of \<open>atcrypto\<close> and the library \<open>golang-jwt\<close> are the fields of \<open>crypto\<close> and \<open>jwt_lib\<close>;
  \<open>key_laws\<close> and \<open>token_laws\<close> state what the code relies on.  Random identifiers and the readings of
  the clock are arguments: \<open>clk n\<close> is the n-th reading in a call, in nanoseconds.  Decoding a body gives
  \<open>None\<close> for bytes that are no JSON document.
\<close>

datatype bff_error =
    SessionNotFound
  | BadSignatureEncoding
  | SignatureMismatch
  | SigningFailed
  | TokenUnparsable
  | TokenInvalid
  | TokenExpired
  | MissingAuthorization
  | BadAuthorizationFormat
  | MissingToken
  | BadAudience
  | PersisterFailed

datatype bff_text = Plain string | UnauthorizedText bff_error | JsonText json

type_synonym bff_response = "bff_text response"

section \<open>Challenges and proofs: challenge.go\<close>

record ('sk, 'pk) crypto =
  HashAndSign :: "'sk \<Rightarrow> string \<Rightarrow> string option"
  HashAndVerify :: "'pk \<Rightarrow> string \<Rightarrow> string \<Rightarrow> bool"
  ParsePublicBytesP256 :: "string \<Rightarrow> 'pk option"

definition GenerateChallenge :: "string \<Rightarrow> (string, bff_error) res" where
  "GenerateChallenge uuid = Ok uuid"

definition GenerateProof :: "('sk, 'pk) crypto \<Rightarrow> string \<Rightarrow> 'sk \<Rightarrow> (string, bff_error) res" where
  "GenerateProof C challenge privateKey =
     bind_res (ok_or SigningFailed (HashAndSign C privateKey challenge)) (\<lambda>sig. Ok (base64_encode sig))"

definition VerifyProof :: "('sk, 'pk) crypto \<Rightarrow> string \<Rightarrow> string \<Rightarrow> 'pk \<Rightarrow> (bool, bff_error) res" where
  "VerifyProof C challenge proof publicKey =
     bind_res (ok_or BadSignatureEncoding (base64_decode proof)) (\<lambda>signatureBytes.
       if HashAndVerify C publicKey challenge signatureBytes then Ok True else Err SignatureMismatch)"

section \<open>Challenge sessions: session.go\<close>

record 'pk challenge_session =
  SessionID :: string
  cs_DID :: string
  cs_PublicKey :: 'pk
  cs_Challenge :: string
  cs_ExpiresAt :: int

text \<open>The interface \<open>ChallengeSessionPersister\<close>; \<open>'s\<close> is the state behind it.\<close>

record ('s, 'pk) persister =
  SaveSession :: "'pk challenge_session \<Rightarrow> 's \<Rightarrow> 's \<times> (unit, bff_error) res"
  GetSession :: "string \<Rightarrow> 's \<Rightarrow> ('pk challenge_session, bff_error) res"
  DeleteSession :: "string \<Rightarrow> 's \<Rightarrow> 's \<times> (unit, bff_error) res"

record 'pk in_memory =
  im_store :: "(string, 'pk challenge_session) fmap"
  im_usedChallenges :: "(string, bool) fmap"

definition NewInMemorySessionPersister :: "'pk in_memory" where
  "NewInMemorySessionPersister = \<lparr>im_store = fmempty, im_usedChallenges = fmempty\<rparr>"

definition im_SaveSession :: "'pk challenge_session \<Rightarrow> 'pk in_memory \<Rightarrow> 'pk in_memory \<times> (unit, bff_error) res" where
  "im_SaveSession session p =
     (p\<lparr>im_store := fmupd (SessionID session) session (im_store p),
        im_usedChallenges := fmupd (cs_Challenge session) True (im_usedChallenges p)\<rparr>, Ok ())"

definition im_GetSession :: "string \<Rightarrow> 'pk in_memory \<Rightarrow> ('pk challenge_session, bff_error) res" where
  "im_GetSession sessionID p = ok_or SessionNotFound (fmlookup (im_store p) sessionID)"

definition im_DeleteSession :: "string \<Rightarrow> 'pk in_memory \<Rightarrow> 'pk in_memory \<times> (unit, bff_error) res" where
  "im_DeleteSession sessionID p = (p\<lparr>im_store := fmdrop sessionID (im_store p)\<rparr>, Ok ())"

definition in_memory_persister :: "('pk in_memory, 'pk) persister" where
  "in_memory_persister =
     \<lparr>SaveSession = im_SaveSession, GetSession = im_GetSession, DeleteSession = im_DeleteSession\<rparr>"

section \<open>Tokens: jwt.go\<close>

record claims =
  ExpiresAt :: "int option"
  IssuedAt :: "int option"
  Audience :: "string list"

datatype sig_method = SigningMethodHMAC | OtherMethod string

text \<open>
  \<open>jwt_SignedString c k\<close> signs with HS256; \<open>jwt_ParseWithClaims\<close> takes the token, the function that
  gives the key for the method of the token, and the time; its answer are the claims and \<open>Valid\<close>.
\<close>

record jwt_lib =
  jwt_NumericDate :: "int \<Rightarrow> int"
  jwt_SignedString :: "claims \<Rightarrow> string \<Rightarrow> string option"
  jwt_ParseWithClaims :: "string \<Rightarrow> (sig_method \<Rightarrow> string option) \<Rightarrow> int \<Rightarrow> (claims \<times> bool) option"

definition token_lifetime :: int where "token_lifetime = 15 * 60 * 10 ^ 9"

definition GenerateJWT ::
  "jwt_lib \<Rightarrow> string \<Rightarrow> string \<Rightarrow> (nat \<Rightarrow> int) \<Rightarrow> (string, bff_error) res"
where
  "GenerateJWT J signingKey did clk =
     (let claims = \<lparr>ExpiresAt = Some (jwt_NumericDate J (clk 0 + token_lifetime)),
                    IssuedAt = Some (jwt_NumericDate J (clk 1)), Audience = [did]\<rparr> in
      ok_or SigningFailed (jwt_SignedString J claims signingKey))"

fun hmac_key :: "string \<Rightarrow> sig_method \<Rightarrow> string option" where
  "hmac_key signingKey SigningMethodHMAC = Some signingKey"
| "hmac_key signingKey (OtherMethod alg) = None"

definition ValidateJWT ::
  "jwt_lib \<Rightarrow> string \<Rightarrow> string \<Rightarrow> (nat \<Rightarrow> int) \<Rightarrow> (claims, bff_error) res"
where
  "ValidateJWT J tokenString signingKey clk =
     (case jwt_ParseWithClaims J tokenString (hmac_key signingKey) (clk 0) of
        None \<Rightarrow> Err TokenUnparsable
      | Some (claims, valid) \<Rightarrow>
          if \<not> valid then Err TokenInvalid
          else (case ExpiresAt claims of
                  Some e \<Rightarrow> (if e < clk 1 then Err TokenExpired else Ok claims)
                | None \<Rightarrow> Ok claims))"

definition ValidateRequest ::
  "jwt_lib \<Rightarrow> string \<Rightarrow> string \<Rightarrow> (nat \<Rightarrow> int) \<Rightarrow> (unit, bff_error) res"
where
  "ValidateRequest J authHeader signingKey clk =
     (if authHeader = '''' then Err MissingAuthorization
      else if \<not> HasPrefix authHeader ''Bearer '' then Err BadAuthorizationFormat
      else
        (let token = drop (length ''Bearer '') authHeader in
         if token = '''' then Err MissingToken
         else bind_res (ValidateJWT J token signingKey clk) (\<lambda>_. Ok ())))"

section \<open>The provider: provider.go\<close>

record ('s, 'sk, 'pk) provider =
  challengePersister :: "('s, 'pk) persister"
  pv_signingKey :: string
  pv_crypto :: "('sk, 'pk) crypto"
  pv_jwt :: jwt_lib

definition NewProvider ::
  "('sk, 'pk) crypto \<Rightarrow> jwt_lib \<Rightarrow> ('s, 'pk) persister \<Rightarrow> string \<Rightarrow> ('s, 'sk, 'pk) provider"
where
  "NewProvider C J persister signingKey =
     \<lparr>challengePersister = persister, pv_signingKey = signingKey, pv_crypto = C, pv_jwt = J\<rparr>"

text \<open>
  A field of type \<open>[]byte\<close> is base64 in JSON, or an array of small numbers; \<open>null\<close> and an absent one
  are the empty slice.
\<close>

fun dec_byte :: "json \<Rightarrow> (char, decode_error) res" where
  "dec_byte (JNum q) =
     (if of_int \<lfloor>q\<rfloor> = q \<and> 0 \<le> q \<and> q \<le> 255 then Ok (char_of (nat \<lfloor>q\<rfloor>)) else Err TypeMismatch)"
| "dec_byte JNull = Ok (CHR 0x00)"
| "dec_byte _ = Err TypeMismatch"

fun dec_bytes :: "json option \<Rightarrow> (string, decode_error) res" where
  "dec_bytes (Some (JStr s)) = ok_or TypeMismatch (base64_decode s)"
| "dec_bytes None = Ok []"
| "dec_bytes (Some JNull) = Ok []"
| "dec_bytes (Some (JArr xs)) =
     (if list_all (\<lambda>x. is_Ok (dec_byte x)) xs then Ok (map (\<lambda>x. the_Ok (dec_byte x)) xs)
      else Err TypeMismatch)"
| "dec_bytes _ = Err TypeMismatch"

definition dec_challenge_request :: "json option \<Rightarrow> (string \<times> string, decode_error) res" where
  "dec_challenge_request body =
     bind_res (ok_or NotAnObject (as_object body)) (\<lambda>m.
     bind_res (dec_field m ''did'') (\<lambda>did.
     bind_res (dec_bytes (fmlookup m ''public_key_bytes'')) (\<lambda>key. Ok (did, key))))"

definition dec_auth_request :: "json option \<Rightarrow> (string \<times> string, decode_error) res" where
  "dec_auth_request body =
     bind_res (ok_or NotAnObject (as_object body)) (\<lambda>m.
     bind_res (dec_field m ''session_id'') (\<lambda>sid.
     bind_res (dec_field m ''proof'') (\<lambda>proof. Ok (sid, proof))))"

text \<open>\<open>uuid1\<close> is the challenge and \<open>uuid2\<close> the identifier of the session.\<close>

definition handleChallenge ::
  "('s, 'sk, 'pk) provider \<Rightarrow> json option \<Rightarrow> string \<Rightarrow> string \<Rightarrow> (nat \<Rightarrow> int) \<Rightarrow> 's \<Rightarrow> 's \<times> bff_response"
where
  "handleChallenge P body uuid1 uuid2 clk s =
     (case dec_challenge_request body of
        Ok (did, keyBytes) \<Rightarrow>
          (case GenerateChallenge uuid1 of
             Ok challenge \<Rightarrow>
               (case ParsePublicBytesP256 (pv_crypto P) keyBytes of
                  None \<Rightarrow> (s, http_Error (Plain ''Failed to parse public key'') StatusInternalServerError empty_response)
                | Some key \<Rightarrow>
                    (let session = \<lparr>SessionID = uuid2, cs_DID = did, cs_PublicKey = key, cs_Challenge = challenge,
                                    cs_ExpiresAt = clk 0 + token_lifetime\<rparr> in
                     (case SaveSession (challengePersister P) session s of
                        (s', Ok _) \<Rightarrow>
                          (s', Write (JsonText (JObj (fmap_of_list
                                 [(''challenge'', JStr challenge), (''Session'', JStr uuid2)])))
                               (Header_Set ''Content-Type'' ''application/json'' empty_response))
                      | (s', _) \<Rightarrow>
                          (s', http_Error (Plain ''Failed to save session'') StatusInternalServerError empty_response))))
           | _ \<Rightarrow> (s, http_Error (Plain ''Failed to generate challenge'') StatusInternalServerError empty_response))
      | _ \<Rightarrow> (s, http_Error (Plain ''Invalid request body'') StatusBadRequest empty_response))"

definition handleAuth ::
  "('s, 'sk, 'pk) provider \<Rightarrow> json option \<Rightarrow> (nat \<Rightarrow> int) \<Rightarrow> 's \<Rightarrow> 's \<times> bff_response"
where
  "handleAuth P body clk s =
     (case dec_auth_request body of
        Ok (sessionID, proof) \<Rightarrow>
          (case GetSession (challengePersister P) sessionID s of
             Ok session \<Rightarrow>
               (case DeleteSession (challengePersister P) sessionID s of
                  (s', Ok _) \<Rightarrow>
                    (s',
                     if VerifyProof (pv_crypto P) (cs_Challenge session) proof (cs_PublicKey session) \<noteq> Ok True
                     then http_Error (Plain ''Invalid proof'') StatusUnauthorized empty_response
                     else
                       (case GenerateJWT (pv_jwt P) (pv_signingKey P) (cs_DID session) clk of
                          Ok token \<Rightarrow>
                            (case ValidateJWT (pv_jwt P) token (pv_signingKey P) (\<lambda>n. clk (n + 2)) of
                               Ok _ \<Rightarrow>
                                 Write (JsonText (JObj (fmap_of_list [(''token'', JStr token)])))
                                   (Header_Set ''Content-Type'' ''application/json'' empty_response)
                             | _ \<Rightarrow> http_Error (Plain ''Failed to validate token'') StatusInternalServerError empty_response)
                        | _ \<Rightarrow> http_Error (Plain ''Failed to generate token'') StatusInternalServerError empty_response))
                | (s', _) \<Rightarrow>
                    (s', http_Error (Plain ''Failed to delete session'') StatusInternalServerError empty_response))
           | _ \<Rightarrow> (s, http_Error (Plain ''Invalid session'') StatusBadRequest empty_response))
      | _ \<Rightarrow> (s, http_Error (Plain ''Invalid request body'') StatusBadRequest empty_response))"

definition handleTest ::
  "('s, 'sk, 'pk) provider \<Rightarrow> string \<Rightarrow> (nat \<Rightarrow> int) \<Rightarrow> bff_response"
where
  "handleTest P authHeader clk =
     (case ValidateRequest (pv_jwt P) authHeader (pv_signingKey P) clk of
        Err e \<Rightarrow> http_Error (UnauthorizedText e) StatusUnauthorized empty_response
      | _ \<Rightarrow>
          Write (JsonText (JObj (fmap_of_list [(''message'', JStr ''Hello, world!'')])))
            (WriteHeader StatusOK empty_response))"

definition ValidateToken ::
  "('s, 'sk, 'pk) provider \<Rightarrow> string \<Rightarrow> (nat \<Rightarrow> int) \<Rightarrow> (string, bff_error) res"
where
  "ValidateToken P token clk =
     bind_res (ValidateJWT (pv_jwt P) token (pv_signingKey P) clk) (\<lambda>claims.
       let dids = Audience claims in
       if length dids > 1 \<or> length dids \<le> 0 then Err BadAudience else Ok (dids ! 0))"

section \<open>Runs of the provider\<close>

text \<open>The calls a provider may get, each with the random identifiers and clock readings it uses.\<close>

datatype bff_call =
    Challenge "json option" string string "nat \<Rightarrow> int"
  | Auth "json option" "nat \<Rightarrow> int"
  | Test string "nat \<Rightarrow> int"

fun provider_step :: "('s, 'sk, 'pk) provider \<Rightarrow> bff_call \<Rightarrow> 's \<Rightarrow> 's \<times> bff_response" where
  "provider_step P (Challenge body uuid1 uuid2 clk) s = handleChallenge P body uuid1 uuid2 clk s"
| "provider_step P (Auth body clk) s = handleAuth P body clk s"
| "provider_step P (Test authHeader clk) s = (s, handleTest P authHeader clk)"

text \<open>The exchanges for which a token was handed out: the session, the proof and the token.\<close>

fun token_of :: "bff_text list \<Rightarrow> string option" where
  "token_of [JsonText (JObj m)] = (case fmlookup m ''token'' of Some (JStr t) \<Rightarrow> Some t | _ \<Rightarrow> None)"
| "token_of _ = None"

fun issues :: "bff_call \<Rightarrow> bff_response \<Rightarrow> (string \<times> string \<times> string) list" where
  "issues (Auth body clk) w =
     (case (dec_auth_request body, token_of (rsp_Body w)) of
        (Ok (sid, proof), Some token) \<Rightarrow> (if status w = StatusOK then [(sid, proof, token)] else [])
      | _ \<Rightarrow> [])"
| "issues _ w = []"

fun issued :: "('s, 'sk, 'pk) provider \<Rightarrow> bff_call list \<Rightarrow> 's \<Rightarrow> (string \<times> string \<times> string) list" where
  "issued P [] s = []"
| "issued P (c # cs) s =
     (let (s', w) = provider_step P c s in issues c w @ issued P cs s')"

text \<open>The sessions that the calls of a run set up.\<close>

fun challenged :: "bff_call list \<Rightarrow> string list" where
  "challenged [] = []"
| "challenged (Challenge body uuid1 uuid2 clk # cs) = uuid2 # challenged cs"
| "challenged (_ # cs) = challenged cs"

text \<open>
  \<open>granted V cs (sid, p, t)\<close>: one of the calls asked for a challenge for a public key, it was given the
  session \<open>sid\<close>, \<open>p\<close> proves the possession of that key, and \<open>t\<close> is a token for the DID of that call.
\<close>

definition granted ::
  "('s, 'sk, 'pk) provider \<Rightarrow> bff_call list \<Rightarrow> string \<times> string \<times> string \<Rightarrow> bool"
where
  "granted V cs e \<longleftrightarrow>
     (case e of (sid, p, t) \<Rightarrow>
        \<exists>body challenge clk did keyBytes key clk'. Challenge body challenge sid clk \<in> set cs \<and>
          dec_challenge_request body = Ok (did, keyBytes) \<and>
          ParsePublicBytesP256 (pv_crypto V) keyBytes = Some key \<and>
          VerifyProof (pv_crypto V) challenge p key = Ok True \<and>
          GenerateJWT (pv_jwt V) (pv_signingKey V) did clk' = Ok t)"

lemma granted_mono: "granted V cs e \<Longrightarrow> set cs \<subseteq> set cs' \<Longrightarrow> granted V cs' e"
  unfolding granted_def by (cases e) blast

lemma challenged_member: "Challenge body u1 sid clk \<in> set cs \<Longrightarrow> sid \<in> set (challenged cs)"
  by (induction cs rule: challenged.induct) auto

lemma granted_challenged: "granted V cs e \<Longrightarrow> fst e \<in> set (challenged cs)"
  by (cases e) (auto simp: granted_def dest: challenged_member)

section \<open>What a persister promises\<close>

text \<open>
  \<open>sessions s\<close> is what is stored behind the interface: reading answers with it, saving adds one session,
  deleting removes one, and an operation that fails changes nothing.
\<close>

locale session_persister =
  fixes P :: "('s, 'pk) persister" and sessions :: "'s \<Rightarrow> string \<Rightarrow> 'pk challenge_session option"
  assumes get_session: "GetSession P i s = Ok x \<Longrightarrow> sessions s i = Some x"
    and save_session: "SaveSession P x s = (s', r) \<Longrightarrow>
      sessions s' = (if r = Ok () then (sessions s)(SessionID x \<mapsto> x) else sessions s)"
    and delete_session: "DeleteSession P i s = (s', r) \<Longrightarrow>
      sessions s' = (if r = Ok () then (sessions s)(i := None) else sessions s)"
begin

text \<open>An exchange answered out of the stored session, or out of a challenge of the run.\<close>

definition from_session ::
  "('s, 'sk, 'pk) provider \<Rightarrow> 's \<Rightarrow> string \<times> string \<times> string \<Rightarrow> bool"
where
  "from_session V s e \<longleftrightarrow>
     (case e of (sid, proof, token) \<Rightarrow>
        \<exists>x clk. sessions s sid = Some x \<and>
          VerifyProof (pv_crypto V) (cs_Challenge x) proof (cs_PublicKey x) = Ok True \<and>
          GenerateJWT (pv_jwt V) (pv_signingKey V) (cs_DID x) clk = Ok token)"

lemma auth_step:
  assumes "challengePersister V = P" and "handleAuth V body clk s = (s', w)"
  shows "sessions s' = sessions s \<and> issues (Auth body clk) w = [] \<or>
    (\<exists>sid. sid \<in> dom (sessions s) \<and> sessions s' = (sessions s)(sid := None) \<and>
      (issues (Auth body clk) w = [] \<or>
       (\<exists>proof token. issues (Auth body clk) w = [(sid, proof, token)] \<and> from_session V s (sid, proof, token))))"
proof (cases "dec_auth_request body")
  case (Ok q)
  obtain sid pf where q: "q = (sid, pf)" by (cases q)
  show ?thesis
  proof (cases "GetSession P sid s")
    case get: (Ok x)
    note x = get_session [OF get]
    obtain t r where del: "DeleteSession P sid s = (t, r)" by (cases "DeleteSession P sid s")
    note del' = delete_session [OF del]
    show ?thesis using assms Ok q get del del' x
      by (auto simp: handleAuth_def from_session_def Write_def WriteHeader_def Header_Set_def status_def dom_def
          split: res.splits if_splits)
  qed (use assms Ok q in \<open>auto simp: handleAuth_def\<close>)
qed (use assms in \<open>auto simp: handleAuth_def\<close>)

lemma challenge_step:
  assumes "challengePersister V = P" and "handleChallenge V body uuid1 uuid2 clk s = (s', w)"
  shows "sessions s' = sessions s \<or>
    (\<exists>did keyBytes key. dec_challenge_request body = Ok (did, keyBytes) \<and>
       ParsePublicBytesP256 (pv_crypto V) keyBytes = Some key \<and>
       sessions s' = (sessions s)(uuid2 \<mapsto> \<lparr>SessionID = uuid2, cs_DID = did, cs_PublicKey = key,
         cs_Challenge = uuid1, cs_ExpiresAt = clk 0 + token_lifetime\<rparr>))"
proof (cases "dec_challenge_request body")
  case (Ok q)
  obtain did keyBytes where q: "q = (did, keyBytes)" by (cases q)
  show ?thesis
  proof (cases "ParsePublicBytesP256 (pv_crypto V) keyBytes")
    case key: (Some key)
    let ?x = "\<lparr>SessionID = uuid2, cs_DID = did, cs_PublicKey = key,
         cs_Challenge = uuid1, cs_ExpiresAt = clk 0 + token_lifetime\<rparr>"
    obtain t r where save: "SaveSession P ?x s = (t, r)" by (cases "SaveSession P ?x s")
    have "s' = t" using assms Ok q key save
      by (auto simp: handleChallenge_def GenerateChallenge_def Let_def split: res.splits)
    with save_session [OF save] Ok q key show ?thesis by auto
  qed (use assms Ok q in \<open>auto simp: handleChallenge_def GenerateChallenge_def\<close>)
qed (use assms in \<open>auto simp: handleChallenge_def\<close>)

text \<open>What is handed out after a challenge rests on a session of before or on that challenge.\<close>

lemma from_session_challenge:
  assumes "challengePersister V = P" and "handleChallenge V body uuid1 uuid2 clk s = (s', w)"
    and "from_session V s' e"
  shows "from_session V s e \<or> granted V [Challenge body uuid1 uuid2 clk] e"
  using challenge_step [OF assms(1,2)] assms(3)
  by (auto simp: from_session_def granted_def split: prod.splits if_splits) blast

lemma from_session_delete:
  "from_session V s' e \<Longrightarrow> sessions s' = (sessions s)(sid := None) \<Longrightarrow> from_session V s e \<and> fst e \<noteq> sid"
  by (auto simp: from_session_def split: prod.splits if_splits)

lemma from_session_same: "sessions s' = sessions s \<Longrightarrow> from_session V s' e = from_session V s e"
  by (simp add: from_session_def)

lemma from_session_dom: "from_session V s e \<Longrightarrow> fst e \<in> dom (sessions s)"
  by (auto simp: from_session_def)

lemma issued_run:
  assumes "challengePersister V = P" and "distinct (challenged cs)"
    and "dom (sessions s) \<inter> set (challenged cs) = {}"
  shows "distinct (map fst (issued V cs s)) \<and>
    (\<forall>e \<in> set (issued V cs s). from_session V s e \<or> granted V cs e)"
  using assms(2,3)
proof (induction cs arbitrary: s)
  case (Cons c cs)
  obtain s' w where step: "provider_step V c s = (s', w)" by (cases "provider_step V c s")
  show ?case
  proof (cases c)
    case (Challenge body uuid1 uuid2 clk)
    then have h: "handleChallenge V body uuid1 uuid2 clk s = (s', w)" using step by simp
    have "dom (sessions s') \<subseteq> insert uuid2 (dom (sessions s))"
      using challenge_step [OF assms(1) h] by auto
    with Cons.prems Challenge have "distinct (challenged cs)" and "dom (sessions s') \<inter> set (challenged cs) = {}"
      by auto
    note IH = Cons.IH [OF this]
    have "from_session V s e \<or> granted V (c # cs) e" if "from_session V s' e \<or> granted V cs e" for e
      using that from_session_challenge [OF assms(1) h] granted_mono [of V] Challenge
      by (metis list.set_intros(1) list.set_intros(2) empty_set empty_subsetI insert_subset list.simps(15) set_subset_Cons)
    with IH step Challenge show ?thesis by auto
  next
    case (Auth body clk)
    then have h: "handleAuth V body clk s = (s', w)" using step by simp
    have ch: "challenged (c # cs) = challenged cs" using Auth by simp
    note ch1 = Cons.prems [unfolded ch]
    have mono: "granted V cs e \<Longrightarrow> granted V (c # cs) e" for e by (rule granted_mono [of V cs]) auto
    from auth_step [OF assms(1) h] show ?thesis
    proof (elim disjE exE conjE)
      assume same: "sessions s' = sessions s" "issues (Auth body clk) w = []"
      with Cons.IH [of s'] ch1 step Auth mono show ?thesis
        by (auto simp: from_session_same [OF same(1)])
    next
      fix sid assume sid: "sid \<in> dom (sessions s)" and s': "sessions s' = (sessions s)(sid := None)"
        and no: "issues (Auth body clk) w = []"
      have "dom (sessions s') \<inter> set (challenged cs) = {}" using ch1 s' by auto
      note IH = Cons.IH [OF ch1(1) this]
      have "\<forall>e \<in> set (issued V cs s'). from_session V s e \<or> granted V (c # cs) e"
        using IH mono from_session_delete [OF _ s'] by blast
      with IH step Auth no show ?thesis by simp
    next
      fix sid p t assume sid: "sid \<in> dom (sessions s)" and s': "sessions s' = (sessions s)(sid := None)"
        and e: "issues (Auth body clk) w = [(sid, p, t)]" and held: "from_session V s (sid, p, t)"
      have "dom (sessions s') \<inter> set (challenged cs) = {}" using ch1 s' by auto
      note IH = Cons.IH [OF ch1(1) this]
      have "fst e \<noteq> sid" if "e \<in> set (issued V cs s')" for e
      proof -
        have "from_session V s' e \<or> granted V cs e" using IH that by blast
        then show ?thesis using from_session_delete [OF _ s'] granted_challenged sid ch1(2) by blast
      qed
      then have "sid \<notin> set (map fst (issued V cs s'))" by auto
      moreover have "\<forall>e \<in> set (issued V cs s'). from_session V s e \<or> granted V (c # cs) e"
        using IH mono from_session_delete [OF _ s'] by blast
      ultimately show ?thesis using IH e held step Auth by simp
    qed
  next
    case (Test h clk)
    have "distinct (challenged cs)" and "dom (sessions s) \<inter> set (challenged cs) = {}"
      using Cons.prems Test by simp_all
    note IH = Cons.IH [OF this]
    have "\<forall>e \<in> set (issued V cs s). from_session V s e \<or> granted V (c # cs) e"
      using IH granted_mono [of V cs _ "c # cs"] by (meson set_subset_Cons)
    with IH step Test show ?thesis by auto
  qed
qed simp

end

lemma in_memory_sessions: "session_persister in_memory_persister (\<lambda>p. fmlookup (im_store p))"
  by unfold_locales
    (auto simp: in_memory_persister_def im_GetSession_def im_SaveSession_def im_DeleteSession_def fun_eq_iff
      split: option.splits)

interpretation in_memory: session_persister in_memory_persister "\<lambda>p. fmlookup (im_store p)"
  by (rule in_memory_sessions)

lemma NewInMemory_empty: "fmlookup (im_store NewInMemorySessionPersister) = Map.empty"
  by (simp add: NewInMemorySessionPersister_def fun_eq_iff)

text \<open>
  C11: a challenge is good for one token, and only for the holder of the key it was asked for.  In every
  run of the provider over the in-memory sessions, whatever the order of the calls, no session
  yields two tokens, and each token handed out belongs to a challenge of the run: the proof verifies
  against its public key and the token is for its DID.  The session identifiers are fresh.
\<close>

theorem challenge_used_once:
  assumes "distinct (challenged cs)"
  shows "distinct (map fst (issued (NewProvider C J in_memory_persister k) cs NewInMemorySessionPersister)) \<and>
    (\<forall>e \<in> set (issued (NewProvider C J in_memory_persister k) cs NewInMemorySessionPersister).
       granted (NewProvider C J in_memory_persister k) cs e)"
  using in_memory.issued_run [OF _ assms, of "NewProvider C J in_memory_persister k" NewInMemorySessionPersister]
  by (simp add: NewInMemory_empty in_memory.from_session_def NewProvider_def)

section \<open>Proofs and tokens\<close>

text \<open>A signature verifies with the public key; \<open>pub\<close> gives the public key of a private one.\<close>

definition key_laws :: "('sk, 'pk) crypto \<Rightarrow> ('sk \<Rightarrow> 'pk) \<Rightarrow> bool" where
  "key_laws C pub \<longleftrightarrow>
     (\<forall>sk m sig. HashAndSign C sk m = Some sig \<longrightarrow> HashAndVerify C (pub sk) m sig)"

text \<open>The proof made with the private key of a challenge's public key passes.\<close>

lemma proof_verifies:
  assumes "key_laws C pub" and "GenerateProof C challenge sk = Ok p"
  shows "VerifyProof C challenge p (pub sk) = Ok True"
  using assms by (auto simp: GenerateProof_def VerifyProof_def key_laws_def bind_res_Ok_iff split: option.splits)

text \<open>
  The token library: a token signed with HS256 parses, with the same key, to the claims that were signed
  until they expire, and is refused from then on.
\<close>

definition token_laws :: "jwt_lib \<Rightarrow> bool" where
  "token_laws J \<longleftrightarrow>
     (\<forall>c e key token keyfunc now. jwt_SignedString J c key = Some token \<longrightarrow> ExpiresAt c = Some e \<longrightarrow>
        keyfunc SigningMethodHMAC = Some key \<longrightarrow>
        jwt_ParseWithClaims J token keyfunc now = (if now < e then Some (c, True) else None))"

lemma issued_token_parses:
  assumes "token_laws J" and "GenerateJWT J key did clk = Ok token"
  shows "\<exists>c. ExpiresAt c = Some (jwt_NumericDate J (clk 0 + token_lifetime)) \<and> Audience c = [did] \<and>
    jwt_ParseWithClaims J token (hmac_key key) now =
      (if now < jwt_NumericDate J (clk 0 + token_lifetime) then Some (c, True) else None)"
proof -
  let ?c = "\<lparr>ExpiresAt = Some (jwt_NumericDate J (clk 0 + token_lifetime)),
                    IssuedAt = Some (jwt_NumericDate J (clk 1)), Audience = [did]\<rparr>"
  have "jwt_SignedString J ?c key = Some token" using assms(2) by (simp add: GenerateJWT_def Let_def)
  with assms(1) show ?thesis unfolding token_laws_def by (intro exI [of _ ?c]) simp
qed

text \<open>
  A token made by \<open>GenerateJWT\<close> for a DID is answered by \<open>ValidateToken\<close> with that DID, and it opens
  the test route, exactly until its lifetime of fifteen minutes (rounded by the library) is over.
\<close>

theorem token_valid_until_expiry:
  assumes "token_laws (pv_jwt V)" and "GenerateJWT (pv_jwt V) (pv_signingKey V) did clk = Ok token"
    and "token \<noteq> ''''"
  shows "(ValidateToken V token clk' = Ok did \<longleftrightarrow>
       clk' 0 < jwt_NumericDate (pv_jwt V) (clk 0 + token_lifetime) \<and>
       clk' 1 \<le> jwt_NumericDate (pv_jwt V) (clk 0 + token_lifetime)) \<and>
    (status (handleTest V (''Bearer '' @ token) clk') = StatusOK \<longleftrightarrow> is_Ok (ValidateToken V token clk'))"
proof -
  obtain c where "ExpiresAt c = Some (jwt_NumericDate (pv_jwt V) (clk 0 + token_lifetime))" "Audience c = [did]"
    "jwt_ParseWithClaims (pv_jwt V) token (hmac_key (pv_signingKey V)) (clk' 0) =
      (if clk' 0 < jwt_NumericDate (pv_jwt V) (clk 0 + token_lifetime) then Some (c, True) else None)"
    using issued_token_parses [OF assms(1,2)] by blast
  moreover have "status (Write (x :: bff_text) (WriteHeader StatusOK empty_response)) = StatusOK" for x
    by (simp add: Write_def WriteHeader_def status_def)
  ultimately show ?thesis using assms(3)
    by (auto simp: ValidateToken_def ValidateJWT_def handleTest_def ValidateRequest_def HasPrefix_def)
qed

section \<open>The theorems applied\<close>

text \<open>
  A toy signature, the key followed by the message, and a token library that signs one claim: for bob,
  at time 0.
\<close>

definition sample_crypto :: "(string, string) crypto" where
  "sample_crypto =
     \<lparr>HashAndSign = (\<lambda>sk m. Some (sk @ m)), HashAndVerify = (\<lambda>pk m sig. sig = pk @ m),
      ParsePublicBytesP256 = Some\<rparr>"

definition bob_claims :: claims where
  "bob_claims = \<lparr>ExpiresAt = Some token_lifetime, IssuedAt = Some 0, Audience = [''bob'']\<rparr>"

definition sample_jwt :: jwt_lib where
  "sample_jwt =
     \<lparr>jwt_NumericDate = (\<lambda>t. t div 10 ^ 9 * 10 ^ 9),
      jwt_SignedString = (\<lambda>c key. if c = bob_claims \<and> key = ''k'' then Some ''token'' else None),
      jwt_ParseWithClaims = (\<lambda>token keyfunc now.
        if token = ''token'' \<and> keyfunc SigningMethodHMAC = Some ''k'' \<and> now < token_lifetime
        then Some (bob_claims, True) else None)\<rparr>"

definition sample_provider :: "(string in_memory, string, string) provider" where
  "sample_provider = NewProvider sample_crypto sample_jwt in_memory_persister ''k''"

lemma sample_token_laws: "token_laws sample_jwt"
  by (auto simp: token_laws_def sample_jwt_def bob_claims_def)

text \<open>Bob asks for a challenge, proves his key, and tries the same proof again.\<close>

definition bob_run :: "bff_call list" where
  "bob_run =
     [Challenge (Some (JObj (fmap_of_list
        [(''did'', JStr ''bob''), (''public_key_bytes'', JStr (base64_encode ''key''))]))) ''c'' ''s'' (\<lambda>_. 0),
      Auth (Some (JObj (fmap_of_list
        [(''session_id'', JStr ''s''), (''proof'', JStr (base64_encode ''keyc''))]))) (\<lambda>_. 0),
      Auth (Some (JObj (fmap_of_list
        [(''session_id'', JStr ''s''), (''proof'', JStr (base64_encode ''keyc''))]))) (\<lambda>_. 0)]"

lemma bob_issued:
  "issued sample_provider bob_run NewInMemorySessionPersister = [(''s'', base64_encode ''keyc'', ''token'')]"
  by (simp add: bob_run_def sample_provider_def NewProvider_def in_memory_persister_def
      handleChallenge_def handleAuth_def dec_challenge_request_def dec_auth_request_def dec_field_def
      GenerateChallenge_def Let_def sample_crypto_def sample_jwt_def VerifyProof_def GenerateJWT_def ValidateJWT_def
      im_SaveSession_def im_GetSession_def im_DeleteSession_def NewInMemorySessionPersister_def bob_claims_def
      token_lifetime_def Write_def WriteHeader_def Header_Set_def status_def http_Error_def
      del: base64_encode.simps)

lemma challenge_used_once_witness:
  "issued sample_provider bob_run NewInMemorySessionPersister = [(''s'', base64_encode ''keyc'', ''token'')] \<and>
   granted sample_provider bob_run (''s'', base64_encode ''keyc'', ''token'')"
proof -
  have "distinct (challenged bob_run)" by (simp add: bob_run_def)
  from challenge_used_once [OF this, of sample_crypto sample_jwt "''k''"]
  show ?thesis using bob_issued by (simp add: sample_provider_def [symmetric] del: base64_encode.simps)
qed

lemma token_valid_until_expiry_witness:
  "ValidateToken sample_provider ''token'' (\<lambda>_. token_lifetime - 1) = Ok ''bob'' \<and>
   status (handleTest sample_provider (''Bearer '' @ ''token'') (\<lambda>_. token_lifetime)) \<noteq> StatusOK"
proof -
  have laws: "token_laws (pv_jwt sample_provider)"
    by (simp add: sample_provider_def NewProvider_def sample_token_laws)
  have gen: "GenerateJWT (pv_jwt sample_provider) (pv_signingKey sample_provider) ''bob'' (\<lambda>_. 0) = Ok ''token''"
    by (simp add: sample_provider_def NewProvider_def GenerateJWT_def sample_jwt_def bob_claims_def token_lifetime_def)
  have date: "jwt_NumericDate (pv_jwt sample_provider) (0 + token_lifetime) = token_lifetime"
    by (simp add: sample_provider_def NewProvider_def sample_jwt_def token_lifetime_def)
  have t: "''token'' \<noteq> ''''" by simp
  note r = token_valid_until_expiry [OF laws gen t, unfolded date]
  have "ValidateToken sample_provider ''token'' (\<lambda>_. token_lifetime) = Err TokenUnparsable"
    by (simp add: ValidateToken_def ValidateJWT_def sample_provider_def NewProvider_def sample_jwt_def)
  with r [of "\<lambda>_. token_lifetime - 1"] r [of "\<lambda>_. token_lifetime"] show ?thesis by simp
qed

end
