(* ===== verification/BffDemo.thy ===== *)
theory BffDemo
  imports BffAuth
begin

text \<open>
  The demonstration of the authentication between nodes: the server \<open>bffauth/cmd/server/main.go\<close> and the client
  \<open>bffauth/cmd/client/main.go\<close>, and the conversation of the two.

  The keys come from the environment (\<open>os.Getenv\<close>) and are parsed by a parameter.  The network of the
  conversation hands each request to the server and its answer to the client, or loses it.
\<close>

section \<open>The server\<close>

record demo_request =
  dq_Method :: string
  dq_Path :: string
  dq_Authorization :: string
  dq_Body :: "json option"

text \<open>\<open>draw\<close>: the two identifiers that a request makes, and the readings of the clock.\<close>

record demo_draw =
  dd_Challenge :: string
  dd_Session :: string
  dd_Clock :: "nat \<Rightarrow> int"

record ('s, 'sk, 'pk) test_server =
  td_challengePersister :: "('s, 'pk option) persister"
  td_signingKey :: string
  td_publicKey :: 'pk
  td_crypto :: "('sk, 'pk) crypto"
  td_jwt :: jwt_lib

abbreviation StatusMethodNotAllowed :: nat where "StatusMethodNotAllowed \<equiv> 405"

definition method_not_allowed :: bff_response where
  "method_not_allowed = http_Error (Plain ''Method not allowed'') StatusMethodNotAllowed empty_response"

definition json_answer :: "(string \<times> json) list \<Rightarrow> bff_response" where
  "json_answer ms =
     Write (JsonText (JObj (fmap_of_list ms))) (Header_Set ''Content-Type'' ''application/json'' empty_response)"

text \<open>A session of the demonstration has no DID and no key.\<close>

definition challengeHandler ::
  "('s, 'sk, 'pk) test_server \<Rightarrow> demo_draw \<Rightarrow> demo_request \<Rightarrow> 's \<Rightarrow> 's \<times> bff_response"
where
  "challengeHandler S D r s =
     (if dq_Method r \<noteq> ''GET'' then (s, method_not_allowed)
      else
        (case GenerateChallenge (dd_Challenge D) of
           Ok challenge \<Rightarrow>
             (let session = \<lparr>SessionID = dd_Session D, cs_DID = '''', cs_PublicKey = None, cs_Challenge = challenge,
                             cs_ExpiresAt = dd_Clock D 0 + token_lifetime\<rparr> in
              (case SaveSession (td_challengePersister S) session s of
                 (s', Ok _) \<Rightarrow> (s', json_answer [(''challenge'', JStr challenge), (''session'', JStr (dd_Session D))])
               | (s', _) \<Rightarrow> (s', http_Error (Plain ''Failed to save session'') StatusInternalServerError empty_response)))
         | _ \<Rightarrow> (s, http_Error (Plain ''Failed to generate challenge'') StatusInternalServerError empty_response)))"

definition authHandler ::
  "('s, 'sk, 'pk) test_server \<Rightarrow> demo_draw \<Rightarrow> demo_request \<Rightarrow> 's \<Rightarrow> 's \<times> bff_response"
where
  "authHandler S D r s =
     (if dq_Method r \<noteq> ''POST'' then (s, method_not_allowed)
      else
        (case dec_auth_request (dq_Body r) of
           Ok (sessionID, proof) \<Rightarrow>
             (case GetSession (td_challengePersister S) sessionID s of
                Ok session \<Rightarrow>
                  (case DeleteSession (td_challengePersister S) sessionID s of
                     (s', Ok _) \<Rightarrow>
                       (s',
                        if VerifyProof (td_crypto S) (cs_Challenge session) proof (td_publicKey S) \<noteq> Ok True
                        then http_Error (Plain ''Invalid proof'') StatusUnauthorized empty_response
                        else
                          (case GenerateJWT (td_jwt S) (td_signingKey S) ''test-did'' (dd_Clock D) of
                             Ok token \<Rightarrow> json_answer [(''token'', JStr token)]
                           | _ \<Rightarrow> http_Error (Plain ''Failed to generate token'') StatusInternalServerError empty_response))
                   | (s', _) \<Rightarrow> (s', http_Error (Plain ''Failed to delete session'') StatusInternalServerError empty_response))
              | _ \<Rightarrow> (s, http_Error (Plain ''Invalid session'') StatusBadRequest empty_response))
         | _ \<Rightarrow> (s, http_Error (Plain ''Invalid request body'') StatusBadRequest empty_response)))"

definition HelloWorldAuthenticatedHandler ::
  "('s, 'sk, 'pk) test_server \<Rightarrow> demo_draw \<Rightarrow> demo_request \<Rightarrow> bff_response"
where
  "HelloWorldAuthenticatedHandler S D r =
     (if dq_Method r \<noteq> ''GET'' then method_not_allowed
      else
        (case ValidateRequest (td_jwt S) (dq_Authorization r) (td_signingKey S) (dd_Clock D) of
           Ok _ \<Rightarrow> json_answer [(''message'', JStr ''Hello, world!'')]
         | _ \<Rightarrow> http_Error (Plain ''Unauthorized'') StatusUnauthorized empty_response))"

datatype demo_error =
    EnvMissing string
  | KeyUnparsable
  | RequestLost string
  | ResponseUnparsable string
  | ProofFailed bff_error
  | UnexpectedMessage string

definition demo_server ::
  "('sk, 'pk) crypto \<Rightarrow> jwt_lib \<Rightarrow> (string \<Rightarrow> 'pk option) \<Rightarrow> (string \<Rightarrow> string) \<Rightarrow> (('pk option in_memory, 'sk, 'pk) test_server, demo_error) res"
where
  "demo_server C J parse getenv =
     bind_res (ok_or KeyUnparsable (parse (getenv ''ALICE_PUBLIC_KEY_MULTIBASE''))) (\<lambda>publicKey.
       Ok \<lparr>td_challengePersister = in_memory_persister, td_signingKey = ''test-signing-key'', td_publicKey = publicKey,
           td_crypto = C, td_jwt = J\<rparr>)"

definition demo_ServeHTTP ::
  "('s, 'sk, 'pk) test_server \<Rightarrow> demo_draw \<Rightarrow> demo_request \<Rightarrow> 's \<Rightarrow> 's \<times> bff_response"
where
  "demo_ServeHTTP S D r s =
     (if dq_Path r = ''/challenge'' then challengeHandler S D r s
      else if dq_Path r = ''/auth'' then authHandler S D r s
      else if dq_Path r = ''/hello'' then (s, HelloWorldAuthenticatedHandler S D r)
      else (s, http_Error (Plain ''404 page not found'') StatusNotFound empty_response))"

section \<open>The client\<close>

text \<open>
  The answer that the client reads is the JSON of the body, \<open>None\<close> when it is no JSON or cannot be read; the
  client does not look at the status.
\<close>

type_synonym 'w demo_net = "demo_request \<Rightarrow> 'w \<Rightarrow> 'w \<times> json option option"

definition decode_members :: "(string, json) fmap option \<Rightarrow> string \<Rightarrow> (string, decode_error) res" where
  "decode_members m k = (case m of None \<Rightarrow> Err NotAnObject | Some m \<Rightarrow> dec_field m k)"

definition getChallenge :: "'w demo_net \<Rightarrow> 'w \<Rightarrow> 'w \<times> (string \<times> string, demo_error) res" where
  "getChallenge send w =
     (case send \<lparr>dq_Method = ''GET'', dq_Path = ''/challenge'', dq_Authorization = '''', dq_Body = None\<rparr> w of
        (w', None) \<Rightarrow> (w', Err (RequestLost ''challenge''))
      | (w', Some body) \<Rightarrow>
          (w', map_err (\<lambda>_. ResponseUnparsable ''challenge'')
            (bind_res (decode_members (as_object body) ''challenge'') (\<lambda>c.
             bind_res (decode_members (as_object body) ''session'') (\<lambda>s. Ok (c, s))))))"

definition submitProof :: "'w demo_net \<Rightarrow> string \<Rightarrow> string \<Rightarrow> 'w \<Rightarrow> 'w \<times> (string, demo_error) res" where
  "submitProof send sessionID proof w =
     (case send \<lparr>dq_Method = ''POST'', dq_Path = ''/auth'', dq_Authorization = '''',
            dq_Body = Some (JObj (fmap_of_list [(''session_id'', JStr sessionID), (''proof'', JStr proof)]))\<rparr> w of
        (w', None) \<Rightarrow> (w', Err (RequestLost ''auth''))
      | (w', Some body) \<Rightarrow>
          (w', map_err (\<lambda>_. ResponseUnparsable ''auth'') (decode_members (as_object body) ''token'')))"

definition getHelloWorld :: "'w demo_net \<Rightarrow> string \<Rightarrow> 'w \<Rightarrow> 'w \<times> (string, demo_error) res" where
  "getHelloWorld send token w =
     (case send \<lparr>dq_Method = ''GET'', dq_Path = ''/hello'', dq_Authorization = ''Bearer '' @ token, dq_Body = None\<rparr> w of
        (w', None) \<Rightarrow> (w', Err (RequestLost ''hello''))
      | (w', Some body) \<Rightarrow>
          (w', map_err (\<lambda>_. ResponseUnparsable ''hello'') (decode_members (as_object body) ''message'')))"

definition demo_client ::
  "('sk, 'pk) crypto \<Rightarrow> (string \<Rightarrow> 'sk option) \<Rightarrow> (string \<Rightarrow> string) \<Rightarrow> 'w demo_net \<Rightarrow> 'w \<Rightarrow> 'w \<times> (unit, demo_error) res"
where
  "demo_client C parse getenv send w =
     (let alicePrivateKey = getenv ''ALICE_PRIVATE_KEY_MULTIBASE'' in
      if alicePrivateKey = '''' then (w, Err (EnvMissing ''ALICE_PRIVATE_KEY_MULTIBASE''))
      else
     (case parse alicePrivateKey of
        None \<Rightarrow> (w, Err KeyUnparsable)
      | Some privateKey \<Rightarrow>
     (case getChallenge send w of
        (w, Err e) \<Rightarrow> (w, Err e)
      | (w, Panic) \<Rightarrow> (w, Panic)
      | (w, Ok (challenge, session)) \<Rightarrow>
     (case GenerateProof C challenge privateKey of
        Err e \<Rightarrow> (w, Err (ProofFailed e))
      | Panic \<Rightarrow> (w, Panic)
      | Ok proof \<Rightarrow>
     (case submitProof send session proof w of
        (w, Err e) \<Rightarrow> (w, Err e)
      | (w, Panic) \<Rightarrow> (w, Panic)
      | (w, Ok token) \<Rightarrow>
     (case getHelloWorld send token w of
        (w, Err e) \<Rightarrow> (w, Err e)
      | (w, Panic) \<Rightarrow> (w, Panic)
      | (w, Ok message) \<Rightarrow>
          (w, if message \<noteq> ''Hello, world!'' then Err (UnexpectedMessage message) else Ok ())))))))"

section \<open>The keys\<close>

text \<open>
  \<open>cmd/keygen/main.go\<close> draws a key and prints the two halves; \<open>mb_Generate\<close> is the key that is drawn.
\<close>

record ('sk, 'pk) multibase =
  mb_Generate :: "'sk option"
  mb_PublicKey :: "'sk \<Rightarrow> 'pk option"
  mb_Private :: "'sk \<Rightarrow> string"
  mb_Public :: "'pk \<Rightarrow> string"
  mb_ParsePrivate :: "string \<Rightarrow> 'sk option"
  mb_ParsePublic :: "string \<Rightarrow> 'pk option"

datatype keygen_error = NoPrivateKey | NoPublicKey

definition keygen :: "('sk, 'pk) multibase \<Rightarrow> (string \<times> string, keygen_error) res" where
  "keygen M =
     bind_res (ok_or NoPrivateKey (mb_Generate M)) (\<lambda>privateKey.
     bind_res (ok_or NoPublicKey (mb_PublicKey M privateKey)) (\<lambda>publicKey.
       Ok (mb_Private M privateKey, mb_Public M publicKey)))"

text \<open>The library parses what it prints, and a printed key is not empty.\<close>

definition multibase_laws :: "('sk, 'pk) multibase \<Rightarrow> ('sk \<Rightarrow> 'pk) \<Rightarrow> bool" where
  "multibase_laws M pub \<longleftrightarrow>
     (\<forall>sk pk. (mb_PublicKey M sk = Some pk \<longrightarrow> pk = pub sk) \<and> mb_Private M sk \<noteq> '''' \<and>
        mb_ParsePrivate M (mb_Private M sk) = Some sk \<and> mb_ParsePublic M (mb_Public M pk) = Some pk)"

text \<open>\<open>bffauth/client.go\<close>: the client of the nodes is a stub, whose token every node refuses.\<close>

definition client_GetToken :: "string \<Rightarrow> (string, bff_error) res" where
  "client_GetToken did = Ok ''''"

lemma stub_token_refused:
  "client_GetToken did = Ok token \<Longrightarrow> ValidateRequest J (''Bearer '' @ token) key clk = Err MissingToken"
  by (auto simp: client_GetToken_def ValidateRequest_def HasPrefix_def)

section \<open>The conversation\<close>

text \<open>What the client reads of an answer, and a network that loses nothing; each request has its draw.\<close>

fun answer_json :: "bff_text list \<Rightarrow> json option" where
  "answer_json [JsonText j] = Some j"
| "answer_json _ = None"

definition direct ::
  "('s, 'sk, 'pk) test_server \<Rightarrow> (nat \<Rightarrow> demo_draw) \<Rightarrow> ('s \<times> nat) demo_net"
where
  "direct S draw q w =
     (let (s', rsp) = demo_ServeHTTP S (draw (snd w)) q (fst w) in ((s', Suc (snd w)), Some (answer_json (rsp_Body rsp))))"

lemma json_answer_body [simp]: "rsp_Body (json_answer ms) = [JsonText (JObj (fmap_of_list ms))]"
  by (simp add: json_answer_def Write_def)

lemma demo_serverE:
  assumes "demo_server C J parse getenv = Ok S"
  obtains pk where "parse (getenv ''ALICE_PUBLIC_KEY_MULTIBASE'') = Some pk" and
    "S = \<lparr>td_challengePersister = in_memory_persister, td_signingKey = ''test-signing-key'', td_publicKey = pk,
       td_crypto = C, td_jwt = J\<rparr>"
  using assms by (auto simp: demo_server_def bind_res_Ok_iff)

lemma getChallenge_direct:
  assumes "td_challengePersister S = in_memory_persister"
  shows "\<exists>s'. getChallenge (direct S draw) (s, n) = ((s', Suc n), Ok (dd_Challenge (draw n), dd_Session (draw n))) \<and>
    im_store s' = fmupd (dd_Session (draw n))
      \<lparr>SessionID = dd_Session (draw n), cs_DID = '''', cs_PublicKey = None, cs_Challenge = dd_Challenge (draw n),
       cs_ExpiresAt = dd_Clock (draw n) 0 + token_lifetime\<rparr> (im_store s)"
  using assms
  by (simp add: getChallenge_def direct_def demo_ServeHTTP_def challengeHandler_def GenerateChallenge_def
      in_memory_persister_def im_SaveSession_def decode_members_def dec_field_def Let_def)

lemma submitProof_direct:
  assumes "td_challengePersister S = in_memory_persister" and "fmlookup (im_store s) sid = Some x"
    and "VerifyProof (td_crypto S) (cs_Challenge x) proof (td_publicKey S) = Ok True"
    and "GenerateJWT (td_jwt S) (td_signingKey S) ''test-did'' (dd_Clock (draw n)) = Ok token"
  shows "\<exists>s'. submitProof (direct S draw) sid proof (s, n) = ((s', Suc n), Ok token) \<and> im_store s' = fmdrop sid (im_store s)"
  using assms
  by (simp add: submitProof_def direct_def demo_ServeHTTP_def authHandler_def dec_auth_request_def dec_field_def
      in_memory_persister_def im_GetSession_def im_DeleteSession_def decode_members_def)

lemma submitProof_refused:
  assumes "td_challengePersister S = in_memory_persister" and "fmlookup (im_store s) sid = Some x"
    and "VerifyProof (td_crypto S) (cs_Challenge x) proof (td_publicKey S) \<noteq> Ok True"
  shows "\<exists>s'. submitProof (direct S draw) sid proof (s, n) = ((s', Suc n), Err (ResponseUnparsable ''auth'')) \<and>
    im_store s' = fmdrop sid (im_store s)"
  using assms
  by (simp add: submitProof_def direct_def demo_ServeHTTP_def authHandler_def dec_auth_request_def dec_field_def
      in_memory_persister_def im_GetSession_def im_DeleteSession_def decode_members_def)

lemma getHelloWorld_direct:
  assumes "token \<noteq> ''''"
  shows "getHelloWorld (direct S draw) token (s, n) =
    ((s, Suc n), if is_Ok (ValidateJWT (td_jwt S) token (td_signingKey S) (dd_Clock (draw n))) then Ok ''Hello, world!''
       else Err (ResponseUnparsable ''hello''))"
  using assms
  by (cases "ValidateJWT (td_jwt S) token (td_signingKey S) (dd_Clock (draw n))")
    (simp_all add: getHelloWorld_def direct_def demo_ServeHTTP_def HelloWorldAuthenticatedHandler_def ValidateRequest_def
      HasPrefix_def decode_members_def dec_field_def)

lemma demo_token_valid:
  assumes "token_laws J" and "GenerateJWT J key did clk = Ok token"
  shows "is_Ok (ValidateJWT J token key clk') \<longleftrightarrow>
    clk' 0 < jwt_NumericDate J (clk 0 + token_lifetime) \<and> clk' 1 \<le> jwt_NumericDate J (clk 0 + token_lifetime)"
proof -
  obtain c where "ExpiresAt c = Some (jwt_NumericDate J (clk 0 + token_lifetime))"
    "jwt_ParseWithClaims J token (hmac_key key) (clk' 0) =
      (if clk' 0 < jwt_NumericDate J (clk 0 + token_lifetime) then Some (c, True) else None)"
    using issued_token_parses [OF assms] by blast
  then show ?thesis by (auto simp: ValidateJWT_def)
qed

text \<open>The client up to its proof: its session is in the store.  What follows is \<open>client_rest\<close>.\<close>

definition client_rest :: "'w demo_net \<Rightarrow> string \<Rightarrow> string \<Rightarrow> 'w \<Rightarrow> 'w \<times> (unit, demo_error) res" where
  "client_rest send sid pf w =
     (case submitProof send sid pf w of
        (w, Err e) \<Rightarrow> (w, Err e)
      | (w, Panic) \<Rightarrow> (w, Panic)
      | (w, Ok token) \<Rightarrow>
         (case getHelloWorld send token w of
            (w, Err e) \<Rightarrow> (w, Err e)
          | (w, Panic) \<Rightarrow> (w, Panic)
          | (w, Ok message) \<Rightarrow>
              (w, if message \<noteq> ''Hello, world!'' then Err (UnexpectedMessage message) else Ok ())))"

lemma demo_client_asks:
  assumes "td_challengePersister S = in_memory_persister"
    and "getenv ''ALICE_PRIVATE_KEY_MULTIBASE'' \<noteq> ''''" and "parse (getenv ''ALICE_PRIVATE_KEY_MULTIBASE'') = Some sk"
    and "HashAndSign C sk (dd_Challenge (draw n)) = Some sig"
  obtains s1 x where "fmlookup (im_store s1) (dd_Session (draw n)) = Some x" and "cs_Challenge x = dd_Challenge (draw n)"
    and "fmdrop (dd_Session (draw n)) (im_store s1) = fmdrop (dd_Session (draw n)) (im_store s)"
    and "demo_client C parse getenv (direct S draw) (s, n) = client_rest (direct S draw) (dd_Session (draw n)) (base64_encode sig) (s1, Suc n)"
proof -
  let ?c = "dd_Challenge (draw n)" and ?sid = "dd_Session (draw n)"
  let ?x = "\<lparr>SessionID = ?sid, cs_DID = '''', cs_PublicKey = None, cs_Challenge = ?c,
      cs_ExpiresAt = dd_Clock (draw n) 0 + token_lifetime\<rparr>"
  obtain s1 where s1: "getChallenge (direct S draw) (s, n) = ((s1, Suc n), Ok (?c, ?sid))"
    and store: "im_store s1 = fmupd ?sid ?x (im_store s)"
    using getChallenge_direct [OF assms(1)] by blast
  have made: "GenerateProof C ?c sk = Ok (base64_encode sig)" using assms(4) by (simp add: GenerateProof_def)
  have "fmdrop ?sid (im_store s1) = fmdrop ?sid (im_store s)" by (intro fmap_eqI) (simp add: store)
  moreover have "fmlookup (im_store s1) ?sid = Some ?x" "cs_Challenge ?x = ?c" by (simp_all add: store)
  moreover have "demo_client C parse getenv (direct S draw) (s, n) =
      client_rest (direct S draw) ?sid (base64_encode sig) (s1, Suc n)"
    using assms(2) by (simp only: demo_client_def client_rest_def Let_def assms(3) option.case s1 prod.case res.case made if_False)
  ultimately show thesis using that by blast
qed

lemma demo_conversation_aux:
  assumes "token_laws J" and "demo_server C J parse_public getenv = Ok S"
    and "parse_public (getenv ''ALICE_PUBLIC_KEY_MULTIBASE'') = Some pk"
    and "getenv' ''ALICE_PRIVATE_KEY_MULTIBASE'' \<noteq> ''''" and "parse_private (getenv' ''ALICE_PRIVATE_KEY_MULTIBASE'') = Some sk"
    and "HashAndSign C sk (dd_Challenge (draw n)) = Some sig"
    and "GenerateJWT J ''test-signing-key'' ''test-did'' (dd_Clock (draw (Suc n))) = Ok token" and "token \<noteq> ''''"
    and "expiry = jwt_NumericDate J (dd_Clock (draw (Suc n)) 0 + token_lifetime)"
    and "demo_client C parse_private getenv' (direct S draw) (s, n) = ((s', n'), r)"
  shows "(r = Ok () \<longleftrightarrow> HashAndVerify C pk (dd_Challenge (draw n)) sig \<and>
       dd_Clock (draw (n + 2)) 0 < expiry \<and> dd_Clock (draw (n + 2)) 1 \<le> expiry) \<and>
    (key_laws C pub \<longrightarrow> pk = pub sk \<longrightarrow> HashAndVerify C pk (dd_Challenge (draw n)) sig) \<and>
    n' \<le> n + 3 \<and> im_store s' = fmdrop (dd_Session (draw n)) (im_store s)"
proof -
  have S: "S = \<lparr>td_challengePersister = in_memory_persister, td_signingKey = ''test-signing-key'', td_publicKey = pk,
      td_crypto = C, td_jwt = J\<rparr>"
    using assms(2,3) by (auto elim: demo_serverE)
  then have P: "td_challengePersister S = in_memory_persister" by simp
  let ?c = "dd_Challenge (draw n)" and ?sid = "dd_Session (draw n)"
  obtain s1 x where found: "fmlookup (im_store s1) ?sid = Some x" "cs_Challenge x = ?c"
    and gone: "fmdrop ?sid (im_store s1) = fmdrop ?sid (im_store s)"
    and client: "demo_client C parse_private getenv' (direct S draw) (s, n) = client_rest (direct S draw) ?sid (base64_encode sig) (s1, Suc n)"
    by (rule demo_client_asks [where draw = draw and n = n and getenv = getenv' and parse = parse_private, OF P assms(4-6)])
  have verify: "VerifyProof (td_crypto S) (cs_Challenge x) (base64_encode sig) (td_publicKey S) =
      (if HashAndVerify C pk ?c sig then Ok True else Err SignatureMismatch)"
    by (simp add: VerifyProof_def S found(2))
  have valid: "is_Ok (ValidateJWT (td_jwt S) token (td_signingKey S) (dd_Clock (draw (Suc (Suc n))))) \<longleftrightarrow>
      dd_Clock (draw (n + 2)) 0 < expiry \<and> dd_Clock (draw (n + 2)) 1 \<le> expiry"
    using demo_token_valid [OF assms(1,7)] S assms(9) by simp
  have "(r = Ok () \<longleftrightarrow> HashAndVerify C pk ?c sig \<and>
      dd_Clock (draw (n + 2)) 0 < expiry \<and> dd_Clock (draw (n + 2)) 1 \<le> expiry) \<and>
    n' \<le> n + 3 \<and> im_store s' = fmdrop ?sid (im_store s)"
  proof (cases "HashAndVerify C pk ?c sig")
    case True
    obtain s2 where s2: "submitProof (direct S draw) ?sid (base64_encode sig) (s1, Suc n) = ((s2, Suc (Suc n)), Ok token)"
      "im_store s2 = fmdrop ?sid (im_store s)"
      using submitProof_direct [OF P found(1), of "base64_encode sig" draw "Suc n" token] verify True assms(7) S gone by auto
    show ?thesis
      using assms(10) client True s2 getHelloWorld_direct [OF assms(8), of S draw s2 "Suc (Suc n)"] valid
      by (auto simp: client_rest_def split: if_splits)
  next
    case False
    obtain s2 where "submitProof (direct S draw) ?sid (base64_encode sig) (s1, Suc n) =
        ((s2, Suc (Suc n)), Err (ResponseUnparsable ''auth''))" "im_store s2 = fmdrop ?sid (im_store s)"
      using submitProof_refused [OF P found(1), of "base64_encode sig" draw "Suc n"] verify False gone by auto
    then show ?thesis using assms(10) client False by (auto simp: client_rest_def)
  qed
  moreover have "HashAndVerify C pk ?c sig" if "key_laws C pub" "pk = pub sk"
    using that assms(6) by (simp add: key_laws_def)
  ultimately show ?thesis by blast
qed

text \<open>
  Over a network that loses nothing the client ends with the greeting exactly when its signature of the
  challenge verifies under the key of the server and the greeting is asked for before the token expires; in
  particular it does with the matching key.  In each case it sends no more than three requests, and the
  session of its challenge is gone.
\<close>

theorem demo_conversation:
  assumes "token_laws J" and "demo_server C J parse_public getenv = Ok S"
    and "parse_public (getenv ''ALICE_PUBLIC_KEY_MULTIBASE'') = Some pk"
    and "getenv' ''ALICE_PRIVATE_KEY_MULTIBASE'' \<noteq> ''''" and "parse_private (getenv' ''ALICE_PRIVATE_KEY_MULTIBASE'') = Some sk"
    and "HashAndSign C sk (dd_Challenge (draw n)) = Some sig"
    and "GenerateJWT J ''test-signing-key'' ''test-did'' (dd_Clock (draw (Suc n))) = Ok token" and "token \<noteq> ''''"
    and "expiry = jwt_NumericDate J (dd_Clock (draw (Suc n)) 0 + token_lifetime)"
    and "demo_client C parse_private getenv' (direct S draw) (s, n) = ((s', n'), r)"
  shows "(r = Ok () \<longleftrightarrow> HashAndVerify C pk (dd_Challenge (draw n)) sig \<and>
       dd_Clock (draw (n + 2)) 0 < expiry \<and> dd_Clock (draw (n + 2)) 1 \<le> expiry) \<and>
    (key_laws C pub \<longrightarrow> pk = pub sk \<longrightarrow> HashAndVerify C pk (dd_Challenge (draw n)) sig) \<and>
    n' \<le> n + 3 \<and> im_store s' = fmdrop (dd_Session (draw n)) (im_store s)"
  using assms by (rule demo_conversation_aux)

text \<open>
  The keys that \<open>keygen\<close> prints are a pair for the demonstration: with one in the environment of the server and the
  other in that of the client, the server starts, and the client ends with the greeting if the token has not
  expired when it asks for it.
\<close>

theorem generated_keys_greet:
  assumes "token_laws J" and "key_laws C pub" and "multibase_laws M pub"
    and "keygen M = Ok (getenv' ''ALICE_PRIVATE_KEY_MULTIBASE'', getenv ''ALICE_PUBLIC_KEY_MULTIBASE'')"
    and "\<And>sk. HashAndSign C sk (dd_Challenge (draw n)) \<noteq> None"
    and "GenerateJWT J ''test-signing-key'' ''test-did'' (dd_Clock (draw (Suc n))) = Ok token" and "token \<noteq> ''''"
    and "expiry = jwt_NumericDate J (dd_Clock (draw (Suc n)) 0 + token_lifetime)"
    and "dd_Clock (draw (n + 2)) 0 < expiry" and "dd_Clock (draw (n + 2)) 1 \<le> expiry"
  shows "\<exists>S. demo_server C J (mb_ParsePublic M) getenv = Ok S \<and>
    snd (demo_client C (mb_ParsePrivate M) getenv' (direct S draw) (s, n)) = Ok ()"
proof -
  obtain sk pk where gen: "mb_PublicKey M sk = Some pk" "getenv' ''ALICE_PRIVATE_KEY_MULTIBASE'' = mb_Private M sk"
    "getenv ''ALICE_PUBLIC_KEY_MULTIBASE'' = mb_Public M pk"
    using assms(4) by (auto simp: keygen_def bind_res_Ok_iff)
  have laws: "mb_PublicKey M sk = Some pk \<longrightarrow> pk = pub sk" "mb_Private M sk \<noteq> ''''"
    "mb_ParsePrivate M (mb_Private M sk) = Some sk" "mb_ParsePublic M (mb_Public M pk) = Some pk" for sk pk
    using assms(3) unfolding multibase_laws_def by blast+
  from gen laws(1) have keys: "mb_PublicKey M sk = Some (pub sk)" "getenv' ''ALICE_PRIVATE_KEY_MULTIBASE'' = mb_Private M sk"
    "getenv ''ALICE_PUBLIC_KEY_MULTIBASE'' = mb_Public M (pub sk)"
    by blast+
  then have priv: "getenv' ''ALICE_PRIVATE_KEY_MULTIBASE'' \<noteq> ''''" "mb_ParsePrivate M (getenv' ''ALICE_PRIVATE_KEY_MULTIBASE'') = Some sk"
    and pub: "mb_ParsePublic M (getenv ''ALICE_PUBLIC_KEY_MULTIBASE'') = Some (pub sk)"
    using laws(2-4) by simp_all
  obtain sig where sig: "HashAndSign C sk (dd_Challenge (draw n)) = Some sig" using assms(5) by blast
  obtain S where S: "demo_server C J (mb_ParsePublic M) getenv = Ok S" using pub by (simp add: demo_server_def)
  obtain s' n' r where run: "demo_client C (mb_ParsePrivate M) getenv' (direct S draw) (s, n) = ((s', n'), r)"
    by (metis prod.exhaust)
  have "r = Ok ()"
    using demo_conversation_aux [OF assms(1) S pub priv sig assms(6-8) run] assms(2,9,10) by blast
  with S run show ?thesis by auto
qed

section \<open>The theorem applied\<close>

definition demo_claims :: claims where
  "demo_claims = \<lparr>ExpiresAt = Some token_lifetime, IssuedAt = Some 0, Audience = [''test-did'']\<rparr>"

definition demo_jwt :: jwt_lib where
  "demo_jwt =
     \<lparr>jwt_NumericDate = (\<lambda>t. t),
      jwt_SignedString = (\<lambda>c key. if c = demo_claims \<and> key = ''test-signing-key'' then Some ''token'' else None),
      jwt_ParseWithClaims = (\<lambda>token keyfunc now.
        if token = ''token'' \<and> keyfunc SigningMethodHMAC = Some ''test-signing-key'' \<and> now < token_lifetime
        then Some (demo_claims, True) else None)\<rparr>"

lemma demo_token_laws: "token_laws demo_jwt"
  by (auto simp: token_laws_def demo_jwt_def demo_claims_def)

abbreviation demo_draws :: "nat \<Rightarrow> demo_draw" where
  "demo_draws \<equiv> \<lambda>n. \<lparr>dd_Challenge = ''c'', dd_Session = ''s'', dd_Clock = (\<lambda>_. 0)\<rparr>"

lemma demo_conversation_witness:
  "\<exists>S s' n'. demo_server sample_crypto demo_jwt Some (\<lambda>_. ''alice'') = Ok S \<and>
    demo_client sample_crypto Some (\<lambda>_. ''alice'') (direct S demo_draws) (NewInMemorySessionPersister, 0) = ((s', n'), Ok ()) \<and>
    n' \<le> 3 \<and> im_store s' = fmempty"
proof -
  obtain S where S: "demo_server sample_crypto demo_jwt Some (\<lambda>_. ''alice'') = Ok S" by (simp add: demo_server_def)
  obtain s' n' r where run: "demo_client sample_crypto Some (\<lambda>_. ''alice'') (direct S demo_draws)
      (NewInMemorySessionPersister, 0) = ((s', n'), r)"
    by (metis prod.exhaust)
  have gen: "GenerateJWT demo_jwt ''test-signing-key'' ''test-did'' (dd_Clock (demo_draws (Suc 0))) = Ok ''token''"
    by (simp add: GenerateJWT_def demo_jwt_def demo_claims_def token_lifetime_def)
  have sig: "HashAndSign sample_crypto ''alice'' (dd_Challenge (demo_draws 0)) = Some ''alicec''"
    by (simp add: sample_crypto_def)
  note talk = demo_conversation [OF demo_token_laws S _ _ _ sig gen _ refl run]
  have "HashAndVerify sample_crypto ''alice'' ''c'' ''alicec''" "0 < jwt_NumericDate demo_jwt token_lifetime"
    by (simp_all add: sample_crypto_def demo_jwt_def token_lifetime_def)
  with talk have "r = Ok () \<and> n' \<le> 3 \<and> im_store s' = fmdrop ''s'' (im_store NewInMemorySessionPersister)" by simp
  with S run show ?thesis by (auto simp: NewInMemorySessionPersister_def)
qed

definition sample_multibase :: "(string, string) multibase" where
  "sample_multibase =
     \<lparr>mb_Generate = Some ''alice'', mb_PublicKey = Some, mb_Private = (\<lambda>k. CHR ''z'' # k), mb_Public = (\<lambda>k. CHR ''z'' # k),
      mb_ParsePrivate = (\<lambda>s. Some (tl s)), mb_ParsePublic = (\<lambda>s. Some (tl s))\<rparr>"

lemma generated_keys_greet_witness:
  "\<exists>S. demo_server sample_crypto demo_jwt (mb_ParsePublic sample_multibase) (\<lambda>_. ''zalice'') = Ok S \<and>
    snd (demo_client sample_crypto (mb_ParsePrivate sample_multibase) (\<lambda>_. ''zalice'') (direct S demo_draws)
      (NewInMemorySessionPersister, 0)) = Ok ()"
proof (rule generated_keys_greet [where pub = "\<lambda>k. k" and token = "''token''" and n = 0 and draw = demo_draws,
      OF demo_token_laws _ _ _ _ _ _ refl])
  show "key_laws sample_crypto (\<lambda>k. k)" by (simp add: key_laws_def sample_crypto_def)
  show "multibase_laws sample_multibase (\<lambda>k. k)" by (simp add: multibase_laws_def sample_multibase_def)
  show "keygen sample_multibase = Ok (''zalice'', ''zalice'')" by (simp add: keygen_def sample_multibase_def)
  show "HashAndSign sample_crypto sk (dd_Challenge (demo_draws 0)) \<noteq> None" for sk by (simp add: sample_crypto_def)
  show "GenerateJWT demo_jwt ''test-signing-key'' ''test-did'' (dd_Clock (demo_draws (Suc 0))) = Ok ''token''"
    by (simp add: GenerateJWT_def demo_jwt_def demo_claims_def token_lifetime_def)
qed (simp_all add: demo_jwt_def token_lifetime_def)

end
