(* ===== verification/BffRace.thy ===== *)
theory BffRace
  imports BffAuth
begin

text \<open>
  The provider of \<open>internal/bffauth\<close> with requests served at the same time.  The server runs every handler in
  its own goroutine, and nothing holds the session between the reading and the deletion in \<open>handleAuth\<close>.  A handler
  is written as the sequence of its operations on the persister; run alone it is the handler of \<open>BffAuth\<close>.  Each
  operation is taken as one step, which is the best case: the maps of the persister have no lock.
\<close>

section \<open>Handlers as sequences of operations\<close>

text \<open>\<open>Op g f\<close> changes what is stored by \<open>g\<close> and goes on as \<open>f\<close> says of what was stored before.\<close>

datatype ('s, 'a) ops = Return 'a | Op "'s \<Rightarrow> 's" "'s \<Rightarrow> ('s, 'a) ops"

primrec run_ops :: "('s, 'a) ops \<Rightarrow> 's \<Rightarrow> 's \<times> 'a" where
  "run_ops (Return a) = (\<lambda>s. (s, a))"
| "run_ops (Op g f) = (\<lambda>s. run_ops (f s) (g s))"

fun op_step :: "('s, 'a) ops \<Rightarrow> 's \<Rightarrow> 's \<times> ('s, 'a) ops" where
  "op_step (Return a) s = (s, Return a)"
| "op_step (Op g f) s = (g s, f s)"

definition store_op :: "('s \<Rightarrow> 's \<times> 'r) \<Rightarrow> ('r \<Rightarrow> ('s, 'a) ops) \<Rightarrow> ('s, 'a) ops" where
  "store_op q k = Op (\<lambda>s. fst (q s)) (\<lambda>s. k (snd (q s)))"

definition load_op :: "('s \<Rightarrow> 'r) \<Rightarrow> ('r \<Rightarrow> ('s, 'a) ops) \<Rightarrow> ('s, 'a) ops" where
  "load_op q k = Op (\<lambda>s. s) (\<lambda>s. k (q s))"

lemma run_store_op: "run_ops (store_op q k) s = (let (s', r) = q s in run_ops (k r) s')"
  by (simp add: store_op_def split: prod.splits)

lemma run_load_op: "run_ops (load_op q k) s = run_ops (k (q s)) s"
  by (simp add: load_op_def)

text \<open>\<open>handleAuth\<close>: its two operations, and what it answers when it holds the session.\<close>

definition auth_answer ::
  "('s, 'sk, 'pk) provider \<Rightarrow> 'pk challenge_session \<Rightarrow> string \<Rightarrow> (nat \<Rightarrow> int) \<Rightarrow> bff_response"
where
  "auth_answer P session proof clk =
     (if VerifyProof (pv_crypto P) (cs_Challenge session) proof (cs_PublicKey session) \<noteq> Ok True
      then http_Error (Plain ''Invalid proof'') StatusUnauthorized empty_response
      else
        (case GenerateJWT (pv_jwt P) (pv_signingKey P) (cs_DID session) clk of
           Ok token \<Rightarrow>
             (case ValidateJWT (pv_jwt P) token (pv_signingKey P) (\<lambda>n. clk (n + 2)) of
                Ok _ \<Rightarrow>
                  Write (JsonText (JObj (fmap_of_list [(''token'', JStr token)])))
                    (Header_Set ''Content-Type'' ''application/json'' empty_response)
              | _ \<Rightarrow> http_Error (Plain ''Failed to validate token'') StatusInternalServerError empty_response)
         | _ \<Rightarrow> http_Error (Plain ''Failed to generate token'') StatusInternalServerError empty_response))"

definition auth_ops ::
  "('s, 'sk, 'pk) provider \<Rightarrow> json option \<Rightarrow> (nat \<Rightarrow> int) \<Rightarrow> ('s, bff_response) ops"
where
  "auth_ops P body clk =
     (case dec_auth_request body of
        Ok (sessionID, proof) \<Rightarrow>
          load_op (GetSession (challengePersister P) sessionID) (\<lambda>r. case r of
             Ok session \<Rightarrow>
               store_op (DeleteSession (challengePersister P) sessionID) (\<lambda>r. Return (case r of
                  Ok _ \<Rightarrow> auth_answer P session proof clk
                | _ \<Rightarrow> http_Error (Plain ''Failed to delete session'') StatusInternalServerError empty_response))
           | _ \<Rightarrow> Return (http_Error (Plain ''Invalid session'') StatusBadRequest empty_response))
      | _ \<Rightarrow> Return (http_Error (Plain ''Invalid request body'') StatusBadRequest empty_response))"

lemma auth_ops_alone: "run_ops (auth_ops P body clk) s = handleAuth P body clk s"
  by (simp add: auth_ops_def handleAuth_def auth_answer_def run_load_op run_store_op
      split: res.splits prod.splits)

text \<open>The other handlers do at most one operation, so that they are one step.\<close>

fun call_ops :: "('s, 'sk, 'pk) provider \<Rightarrow> bff_call \<Rightarrow> ('s, bff_response) ops" where
  "call_ops P (Challenge body uuid1 uuid2 clk) = store_op (handleChallenge P body uuid1 uuid2 clk) Return"
| "call_ops P (Auth body clk) = auth_ops P body clk"
| "call_ops P (Test authHeader clk) = Return (handleTest P authHeader clk)"

lemma call_ops_alone: "run_ops (call_ops P c) s = provider_step P c s"
  by (cases c) (simp_all add: auth_ops_alone run_store_op split: prod.splits)

section \<open>Interleavings\<close>

text \<open>A schedule names the request that does the next operation; requests that are done stay as they are.\<close>

type_synonym 's serving = "(bff_call \<times> ('s, bff_response) ops) list"

definition serve_one :: "nat \<Rightarrow> 's \<times> 's serving \<Rightarrow> 's \<times> 's serving" where
  "serve_one i S =
     (if i < length (snd S) then
        (case op_step (snd (snd S ! i)) (fst S) of (s', p') \<Rightarrow> (s', (snd S)[i := (fst (snd S ! i), p')]))
      else S)"

definition serve :: "nat list \<Rightarrow> 's \<times> 's serving \<Rightarrow> 's \<times> 's serving" where
  "serve sched S = fold serve_one sched S"

definition arrive :: "('s, 'sk, 'pk) provider \<Rightarrow> bff_call list \<Rightarrow> 's serving" where
  "arrive P cs = map (\<lambda>c. (c, call_ops P c)) cs"

text \<open>The exchanges that the answered requests stand for.\<close>

fun answered :: "bff_call \<times> ('s, bff_response) ops \<Rightarrow> (string \<times> string \<times> string) list" where
  "answered (c, Return w) = issues c w"
| "answered (c, Op g f) = []"

definition exchanged :: "'s serving \<Rightarrow> (string \<times> string \<times> string) list" where
  "exchanged ps = concat (map answered ps)"

text \<open>
  What each request keeps whatever the others do: every operation keeps \<open>I\<close>, which speaks of what is stored, and
  an answer hands out only what \<open>F\<close> allows.
\<close>

primrec keeps :: "('s \<Rightarrow> bool) \<Rightarrow> (bff_response \<Rightarrow> bool) \<Rightarrow> ('s, bff_response) ops \<Rightarrow> bool" where
  "keeps I F (Return w) = F w"
| "keeps I F (Op g f) = (\<forall>s. I s \<longrightarrow> I (g s) \<and> keeps I F (f s))"

lemma keeps_step: "keeps I F p \<Longrightarrow> I s \<Longrightarrow> op_step p s = (s', p') \<Longrightarrow> I s' \<and> keeps I F p'"
  by (cases p) auto

lemma serve_keeps:
  assumes "I s" and "\<forall>(c, p) \<in> set ps. keeps I (F c) p" and "serve sched (s, ps) = (s', ps')"
  shows "I s' \<and> (\<forall>(c, p) \<in> set ps'. keeps I (F c) p)"
  using assms
proof (induction sched arbitrary: s ps)
  case (Cons i sched)
  show ?case
  proof (cases "i < length ps")
    case True
    obtain c p where cp: "ps ! i = (c, p)" by (cases "ps ! i")
    obtain t q where step: "op_step p s = (t, q)" by (cases "op_step p s")
    have "(c, p) \<in> set ps" using True cp nth_mem by metis
    with Cons.prems(2) have "keeps I (F c) p" by auto
    from keeps_step [OF this Cons.prems(1) step] have "I t" "keeps I (F c) q" by auto
    moreover from this have "\<forall>(c, p) \<in> set (ps[i := (c, q)]). keeps I (F c) p"
      using Cons.prems(2) set_update_subset_insert [of ps i "(c, q)"] by auto
    moreover have "serve sched (t, ps[i := (c, q)]) = (s', ps')"
      using Cons.prems(3) True cp step by (simp add: serve_def serve_one_def)
    ultimately show ?thesis using Cons.IH by blast
  next
    case False
    then have "serve sched (s, ps) = (s', ps')" using Cons.prems(3) by (simp add: serve_def serve_one_def)
    with Cons show ?thesis by blast
  qed
qed (simp add: serve_def)

lemma serve_exchanged:
  assumes "I s" and "\<And>c. c \<in> set cs \<Longrightarrow> keeps I (\<lambda>w. \<forall>e \<in> set (issues c w). G e) (call_ops P c)"
    and "serve sched (s, arrive P cs) = (s', ps')" and "e \<in> set (exchanged ps')"
  shows "G e"
proof -
  have "\<forall>(c, p) \<in> set (arrive P cs). keeps I (\<lambda>w. \<forall>e \<in> set (issues c w). G e) p"
    using assms(2) by (auto simp: arrive_def)
  from serve_keeps [where I = I, OF assms(1) this assms(3)]
  have "\<forall>(c, p) \<in> set ps'. keeps I (\<lambda>w. \<forall>e \<in> set (issues c w). G e) p" by blast
  moreover obtain c p where "(c, p) \<in> set ps'" "e \<in> set (answered (c, p))"
    using assms(4) by (auto simp: exchanged_def)
  ultimately show ?thesis by (cases p) auto
qed

section \<open>What survives\<close>

text \<open>
  \<open>held V s0 cs sid x\<close>: \<open>x\<close> is the session that was stored as \<open>sid\<close> at the start, or that one of the calls
  sets up.
\<close>

context session_persister
begin

definition held ::
  "('s, 'sk, 'pk) provider \<Rightarrow> 's \<Rightarrow> bff_call list \<Rightarrow> string \<Rightarrow> 'pk challenge_session \<Rightarrow> bool"
where
  "held V s0 cs sid x \<longleftrightarrow>
     sessions s0 sid = Some x \<or>
     (\<exists>body challenge clk did keyBytes key. Challenge body challenge sid clk \<in> set cs \<and>
        dec_challenge_request body = Ok (did, keyBytes) \<and>
        ParsePublicBytesP256 (pv_crypto V) keyBytes = Some key \<and>
        x = \<lparr>SessionID = sid, cs_DID = did, cs_PublicKey = key, cs_Challenge = challenge,
             cs_ExpiresAt = clk 0 + token_lifetime\<rparr>)"

definition all_held :: "('s, 'sk, 'pk) provider \<Rightarrow> 's \<Rightarrow> bff_call list \<Rightarrow> 's \<Rightarrow> bool" where
  "all_held V s0 cs s \<longleftrightarrow> (\<forall>sid x. sessions s sid = Some x \<longrightarrow> held V s0 cs sid x)"

lemma challenge_keeps_held:
  assumes "challengePersister V = P" and "Challenge body uuid1 uuid2 clk \<in> set cs" and "all_held V s0 cs s"
  shows "all_held V s0 cs (fst (handleChallenge V body uuid1 uuid2 clk s))"
proof -
  obtain s' w where h: "handleChallenge V body uuid1 uuid2 clk s = (s', w)"
    by (cases "handleChallenge V body uuid1 uuid2 clk s")
  from challenge_step [OF assms(1) h] show ?thesis
  proof (elim disjE exE conjE)
    fix did keyBytes and key :: 'pk
    let ?x = "\<lparr>SessionID = uuid2, cs_DID = did, cs_PublicKey = key,
         cs_Challenge = uuid1, cs_ExpiresAt = clk 0 + token_lifetime\<rparr>"
    assume "dec_challenge_request body = Ok (did, keyBytes)" "ParsePublicBytesP256 (pv_crypto V) keyBytes = Some key"
      and s': "sessions s' = (sessions s)(uuid2 \<mapsto> ?x)"
    with assms(2) have "held V s0 cs uuid2 ?x" by (auto simp: held_def)
    with assms(3) h s' show ?thesis by (simp add: all_held_def)
  qed (use assms(3) h in \<open>simp add: all_held_def\<close>)
qed

lemma delete_keeps_held: "all_held V s0 cs s \<Longrightarrow> all_held V s0 cs (fst (DeleteSession P sid s))"
  using delete_session [of sid s] by (cases "DeleteSession P sid s") (auto simp: all_held_def split: if_splits)

lemma auth_answer_held:
  assumes "dec_auth_request body = Ok (sid, proof)" and "held V s0 cs sid x"
    and "e \<in> set (issues (Auth body clk) (auth_answer V x proof clk))"
  shows "from_session V s0 e \<or> granted V cs e"
proof -
  have ok: "VerifyProof (pv_crypto V) (cs_Challenge x) proof (cs_PublicKey x) = Ok True"
    and "\<exists>token. e = (sid, proof, token) \<and> GenerateJWT (pv_jwt V) (pv_signingKey V) (cs_DID x) clk = Ok token"
    using assms(1,3) by (auto simp: auth_answer_def split: res.splits if_splits)
  then obtain token where e: "e = (sid, proof, token)"
    "GenerateJWT (pv_jwt V) (pv_signingKey V) (cs_DID x) clk = Ok token" by blast
  from assms(2) ok e show ?thesis by (auto simp: held_def from_session_def granted_def) blast+
qed

lemma auth_keeps:
  assumes "challengePersister V = P"
  shows "keeps (all_held V s0 cs) (\<lambda>w. \<forall>e \<in> set (issues (Auth body clk) w). from_session V s0 e \<or> granted V cs e)
    (auth_ops V body clk)"
proof (cases "dec_auth_request body")
  case (Ok q)
  obtain sid pf where q: "q = (sid, pf)" by (cases q)
  have "\<forall>e \<in> set (issues (Auth body clk) (auth_answer V x pf clk)). from_session V s0 e \<or> granted V cs e"
    if "GetSession P sid s = Ok x" "all_held V s0 cs s" for x s
  proof -
    have "held V s0 cs sid x" using get_session [OF that(1)] that(2) by (simp add: all_held_def)
    with auth_answer_held [of body sid pf V s0 cs x _ clk] Ok q show ?thesis by blast
  qed
  moreover have "issues (Auth body clk) (http_Error (Plain m) c empty_response) = []" for m c
    by (simp split: res.splits)
  ultimately show ?thesis using Ok q assms
    by (auto simp: auth_ops_def load_op_def store_op_def delete_keeps_held simp del: issues.simps split: res.splits)
qed (simp_all add: auth_ops_def)

lemma call_keeps:
  assumes "challengePersister V = P" and "c \<in> set cs"
  shows "keeps (all_held V s0 cs) (\<lambda>w. \<forall>e \<in> set (issues c w). from_session V s0 e \<or> granted V cs e) (call_ops V c)"
  using assms auth_keeps [OF assms(1)] challenge_keeps_held [OF assms(1)]
  by (cases c) (auto simp: store_op_def)

lemma exchanges_held:
  assumes "challengePersister V = P" and "serve sched (s0, arrive V cs) = (s, ps)" and "e \<in> set (exchanged ps)"
  shows "from_session V s0 e \<or> granted V cs e"
  using serve_exchanged [where I = "all_held V s0 cs", OF _ call_keeps [OF assms(1)] assms(2,3)]
  by (simp add: all_held_def held_def)

end

text \<open>
  C12: the proof of possession survives any interleaving.  Whatever the order in which the operations of concurrent
  requests take place, every token handed out is one for the DID of a session, and with it goes a proof that
  verifies against the public key of that session: one that was stored at the start, or the one of a challenge
  among the requests.  In particular a session that was deleted before the requests arrived yields nothing.
\<close>

theorem concurrent_exchanges_granted:
  assumes "serve sched (s0, arrive (NewProvider C J in_memory_persister k) cs) = (s, ps)"
    and "(sid, p, t) \<in> set (exchanged ps)"
  shows "(\<exists>x clk. fmlookup (im_store s0) sid = Some x \<and>
       VerifyProof C (cs_Challenge x) p (cs_PublicKey x) = Ok True \<and> GenerateJWT J k (cs_DID x) clk = Ok t) \<or>
    granted (NewProvider C J in_memory_persister k) cs (sid, p, t)"
  using in_memory.exchanges_held [OF _ assms]
  by (simp add: NewProvider_def in_memory.from_session_def)

section \<open>What does not\<close>

text \<open>
  Bob's proof, sent twice at the same time: both requests read the session before either deletes it.
\<close>

definition bob_challenge :: bff_call where
  "bob_challenge = hd bob_run"

definition bob_waiting :: "string in_memory" where
  "bob_waiting = fst (provider_step sample_provider bob_challenge NewInMemorySessionPersister)"

lemmas bob_defs = bob_waiting_def bob_challenge_def bob_run_def sample_provider_def NewProvider_def
  in_memory_persister_def handleChallenge_def dec_challenge_request_def dec_auth_request_def dec_field_def
  GenerateChallenge_def Let_def sample_crypto_def sample_jwt_def VerifyProof_def GenerateJWT_def ValidateJWT_def
  im_SaveSession_def im_GetSession_def im_DeleteSession_def NewInMemorySessionPersister_def bob_claims_def
  token_lifetime_def Write_def WriteHeader_def Header_Set_def status_def http_Error_def

lemmas serving_defs = serve_def serve_one_def arrive_def exchanged_def auth_ops_def auth_answer_def load_op_def
  store_op_def

text \<open>
  A session is good for one token only when the requests come one after the other: the same proof in two
  concurrent requests yields two tokens, where the requests in sequence yield one.
\<close>

theorem proof_races_itself:
  "exchanged (snd (serve [0, 1, 0, 1] (bob_waiting, arrive sample_provider (tl bob_run)))) =
     [(''s'', base64_encode ''keyc'', ''token''), (''s'', base64_encode ''keyc'', ''token'')] \<and>
   exchanged (snd (serve [0, 0, 1, 1] (bob_waiting, arrive sample_provider (tl bob_run)))) =
     [(''s'', base64_encode ''keyc'', ''token'')]"
  by (simp add: bob_defs serving_defs del: base64_encode.simps)

lemma concurrent_exchanges_granted_witness:
  "length (exchanged (snd (serve [0, 1, 0, 1] (bob_waiting, arrive sample_provider (tl bob_run))))) = 2 \<and>
   (\<exists>x clk. fmlookup (im_store bob_waiting) ''s'' = Some x \<and>
      VerifyProof sample_crypto (cs_Challenge x) (base64_encode ''keyc'') (cs_PublicKey x) = Ok True \<and>
      GenerateJWT sample_jwt ''k'' (cs_DID x) clk = Ok ''token'')"
proof -
  let ?S = "serve [0, 1, 0, 1] (bob_waiting, arrive sample_provider (tl bob_run))"
  have two: "exchanged (snd ?S) =
      [(''s'', base64_encode ''keyc'', ''token''), (''s'', base64_encode ''keyc'', ''token'')]"
    by (simp add: bob_defs serving_defs del: base64_encode.simps)
  have none: "\<not> granted sample_provider (tl bob_run) e" for e
    by (simp add: granted_def bob_run_def split: prod.splits)
  have "serve [0, 1, 0, 1] (bob_waiting, arrive (NewProvider sample_crypto sample_jwt in_memory_persister ''k'') (tl bob_run))
      = (fst ?S, snd ?S)" by (simp add: sample_provider_def)
  from concurrent_exchanges_granted [OF this, of "''s''" "base64_encode ''keyc''" "''token''"]
  show ?thesis using two none by (simp add: sample_provider_def [symmetric] del: base64_encode.simps)
qed

end
