(* ===== verification/AppTypes.thy ===== *)
theory AppTypes
  imports Json
begin

text \<open>
  The data that the node manages: applications (\<open>internal/app\<close>), processes (\<open>internal/process/process.go\<close>),
  reverse proxy rules (\<open>internal/node/reverse_proxy/proxy.go\<close>) and users (\<open>internal/node/state/state.go\<close>),
  with the JSON encoding their struct tags give them.  \<open>enc_\<close> is \<open>json.Marshal\<close>, \<open>dec_\<close> is
  \<open>json.Unmarshal\<close>.  A map entry that is JSON \<open>null\<close> (a nil pointer in the Go map) is rejected by the
  decoders here: the schema that every stored state satisfies only admits objects there.
\<close>

section \<open>Packages and installations\<close>

type_synonym DriverType = string

definition DriverTypeUnknown :: DriverType where "DriverTypeUnknown = ''unknown''"
definition DriverTypeNoop :: DriverType where "DriverTypeNoop = ''noop''"
definition DriverTypeDocker :: DriverType where "DriverTypeDocker = ''docker''"
definition DriverTypeWeb :: DriverType where "DriverTypeWeb = ''web''"

lemmas driver_types =
  DriverTypeUnknown_def DriverTypeNoop_def DriverTypeDocker_def DriverTypeWeb_def

definition driverTypes :: "string \<rightharpoonup> DriverType" where
  "driverTypes =
     [''unknown'' \<mapsto> DriverTypeUnknown, ''noop'' \<mapsto> DriverTypeNoop,
      ''docker'' \<mapsto> DriverTypeDocker, ''web'' \<mapsto> DriverTypeWeb]"

definition DriverTypeFromString :: "string \<Rightarrow> DriverType" where
  "DriverTypeFromString s = (case driverTypes s of None \<Rightarrow> DriverTypeUnknown | Some t \<Rightarrow> t)"

record package =
  pkg_Driver :: DriverType
  pkg_DriverConfig :: "(string, json) fmap option"
  pkg_RegistryURLBase :: string
  pkg_RegistryPackageID :: string
  pkg_RegistryPackageTag :: string

definition LifecycleStateInstalling :: string where "LifecycleStateInstalling = ''installing''"
definition LifecycleStateInstalled :: string where "LifecycleStateInstalled = ''installed''"

text \<open>The embedded pointer \<open>*Package\<close> may be nil.\<close>

record installation =
  app_ID :: string
  app_UserID :: string
  app_Name :: string
  app_Version :: string
  app_State :: string
  app_Package :: "package option"

definition dec_str :: "(string, json) fmap \<Rightarrow> string \<Rightarrow> (string, decode_error) res" where
  "dec_str m k = dec_string (fmlookup m k)"

definition enc_package :: "package \<Rightarrow> (string \<times> json) list" where
  "enc_package p =
     [(''driver'', JStr (pkg_Driver p)),
      (''driver_config'', enc_map id (pkg_DriverConfig p)),
      (''registry_url_base'', JStr (pkg_RegistryURLBase p)),
      (''registry_app_id'', JStr (pkg_RegistryPackageID p)),
      (''registry_tag'', JStr (pkg_RegistryPackageTag p))]"

definition package_keys :: "string list" where
  "package_keys =
     [''driver'', ''driver_config'', ''registry_url_base'', ''registry_app_id'', ''registry_tag'']"

text \<open>
  A nil embedded pointer contributes no members; decoding allocates the struct as soon as one of its
  members is present.
\<close>

definition dec_package ::
  "(string, json) fmap \<Rightarrow> (package option, decode_error) res"
where
  "dec_package m =
     (if list_all (\<lambda>k. fmlookup m k = None) package_keys then Ok None
      else
        bind_res (dec_str m ''driver'') (\<lambda>d.
        bind_res (dec_map Ok (fmlookup m ''driver_config'')) (\<lambda>c.
        bind_res (dec_str m ''registry_url_base'') (\<lambda>u.
        bind_res (dec_str m ''registry_app_id'') (\<lambda>i.
        bind_res (dec_str m ''registry_tag'') (\<lambda>t.
          Ok (Some \<lparr>pkg_Driver = d, pkg_DriverConfig = c, pkg_RegistryURLBase = u,
                    pkg_RegistryPackageID = i, pkg_RegistryPackageTag = t\<rparr>)))))))"

definition enc_installation :: "installation \<Rightarrow> json" where
  "enc_installation a =
     JObj (fmap_of_list
       ([(''id'', JStr (app_ID a)), (''user_id'', JStr (app_UserID a)),
         (''name'', JStr (app_Name a)), (''version'', JStr (app_Version a)),
         (''state'', JStr (app_State a))]
        @ (case app_Package a of None \<Rightarrow> [] | Some p \<Rightarrow> enc_package p)))"

fun dec_installation :: "json \<Rightarrow> (installation, decode_error) res" where
  "dec_installation (JObj m) =
     bind_res (dec_str m ''id'') (\<lambda>i.
     bind_res (dec_str m ''user_id'') (\<lambda>u.
     bind_res (dec_str m ''name'') (\<lambda>n.
     bind_res (dec_str m ''version'') (\<lambda>v.
     bind_res (dec_str m ''state'') (\<lambda>s.
     bind_res (dec_package m) (\<lambda>p.
       Ok \<lparr>app_ID = i, app_UserID = u, app_Name = n, app_Version = v, app_State = s,
           app_Package = p\<rparr>))))))"
| "dec_installation JNull = Err NilEntry"
| "dec_installation _ = Err NotAnObject"

section \<open>Processes\<close>

type_synonym process_id = string

record process =
  proc_ID :: process_id
  proc_AppID :: string
  proc_UserID :: string
  proc_Created :: string

text \<open>The UUID that \<open>uuid.NewString\<close> returns is an argument.\<close>

definition NewID :: "DriverType \<Rightarrow> string \<Rightarrow> process_id" where
  "NewID driver uuid = driver @ '':'' @ uuid"

datatype id_error = MalformedProcessID process_id

definition driverFromID :: "process_id \<Rightarrow> (DriverType, id_error) res" where
  "driverFromID pid =
     (let sep = split_byte (CHR '':'') pid in
      if length sep < 2 then Err (MalformedProcessID pid) else Ok (DriverTypeFromString (sep ! 0)))"

definition enc_process :: "process \<Rightarrow> json" where
  "enc_process p =
     JObj (fmap_of_list
       [(''id'', JStr (proc_ID p)), (''app_id'', JStr (proc_AppID p)),
        (''user_id'', JStr (proc_UserID p)), (''created'', JStr (proc_Created p))])"

fun dec_process :: "json \<Rightarrow> (process, decode_error) res" where
  "dec_process (JObj m) =
     bind_res (dec_str m ''id'') (\<lambda>i.
     bind_res (dec_str m ''app_id'') (\<lambda>a.
     bind_res (dec_str m ''user_id'') (\<lambda>u.
     bind_res (dec_str m ''created'') (\<lambda>c.
       Ok \<lparr>proc_ID = i, proc_AppID = a, proc_UserID = u, proc_Created = c\<rparr>))))"
| "dec_process JNull = Err NilEntry"
| "dec_process _ = Err NotAnObject"

section \<open>Reverse proxy rules\<close>

definition ProxyRuleFileServer :: string where "ProxyRuleFileServer = ''file''"
definition ProxyRuleRedirect :: string where "ProxyRuleRedirect = ''redirect''"
definition ProxyRuleEmbeddedFrontend :: string where
  "ProxyRuleEmbeddedFrontend = ''embedded_frontend''"

lemmas rule_types = ProxyRuleFileServer_def ProxyRuleRedirect_def ProxyRuleEmbeddedFrontend_def

record rule =
  rule_ID :: string
  rule_Type :: string
  rule_Matcher :: string
  rule_Target :: string
  rule_AppID :: string

definition enc_rule :: "rule \<Rightarrow> json" where
  "enc_rule r =
     JObj (fmap_of_list
       [(''id'', JStr (rule_ID r)), (''type'', JStr (rule_Type r)),
        (''matcher'', JStr (rule_Matcher r)), (''target'', JStr (rule_Target r)),
        (''app_id'', JStr (rule_AppID r))])"

fun dec_rule :: "json \<Rightarrow> (rule, decode_error) res" where
  "dec_rule (JObj m) =
     bind_res (dec_str m ''id'') (\<lambda>i.
     bind_res (dec_str m ''type'') (\<lambda>t.
     bind_res (dec_str m ''matcher'') (\<lambda>p.
     bind_res (dec_str m ''target'') (\<lambda>g.
     bind_res (dec_str m ''app_id'') (\<lambda>a.
       Ok \<lparr>rule_ID = i, rule_Type = t, rule_Matcher = p, rule_Target = g, rule_AppID = a\<rparr>)))))"
| "dec_rule JNull = Err NilEntry"
| "dec_rule _ = Err NotAnObject"

section \<open>Users\<close>

record user =
  user_ID :: string
  user_Username :: string
  user_DID :: string

definition enc_user :: "user \<Rightarrow> json" where
  "enc_user u =
     JObj (fmap_of_list
       ([(''id'', JStr (user_ID u)), (''username'', JStr (user_Username u))]
        @ enc_omitempty ''atproto_did'' (user_DID u)))"

fun dec_user :: "json \<Rightarrow> (user, decode_error) res" where
  "dec_user (JObj m) =
     bind_res (dec_str m ''id'') (\<lambda>i.
     bind_res (dec_str m ''username'') (\<lambda>n.
     bind_res (dec_str m ''atproto_did'') (\<lambda>d.
       Ok \<lparr>user_ID = i, user_Username = n, user_DID = d\<rparr>)))"
| "dec_user JNull = Err NilEntry"
| "dec_user _ = Err NotAnObject"

section \<open>Encoding and decoding are inverse\<close>

lemma dec_enc_process [simp]: "dec_process (enc_process p) = Ok p"
  by (simp add: enc_process_def dec_str_def)

lemma dec_enc_rule [simp]: "dec_rule (enc_rule r) = Ok r"
  by (simp add: enc_rule_def dec_str_def)

lemma dec_enc_user [simp]: "dec_user (enc_user u) = Ok u"
  by (simp add: enc_user_def dec_str_def enc_omitempty_def fmap_of_list.rep_eq del: fmap_of_list_simps)

lemma dec_enc_package:
  "dec_package (fmap_of_list (xs @ enc_package p)) = Ok (Some p)"
  if "list_all (\<lambda>k. map_of xs k = None) package_keys"
  using that
  by (simp add: dec_package_def enc_package_def dec_str_def package_keys_def fmap_of_list.rep_eq
      map_add_def del: fmap_of_list_simps fmap_of_list_app split: option.splits)

lemma dec_enc_installation [simp]: "dec_installation (enc_installation a) = Ok a"
proof (cases "app_Package a")
  case None
  then show ?thesis
    by (simp add: enc_installation_def dec_str_def dec_package_def package_keys_def)
next
  case (Some p)
  show ?thesis
    using Some dec_enc_package
      [of "[(''id'', JStr (app_ID a)), (''user_id'', JStr (app_UserID a)),
            (''name'', JStr (app_Name a)), (''version'', JStr (app_Version a)),
            (''state'', JStr (app_State a))]" p]
    by (simp add: enc_installation_def dec_str_def enc_package_def package_keys_def)
qed

section \<open>Process identifiers name their driver\<close>

lemma driverTypes_Some: "driverTypes d = Some t \<Longrightarrow> t = d \<and> CHR '':'' \<notin> set d"
  by (auto simp: driverTypes_def driver_types split: if_splits)

lemma driverFromID_NewID:
  assumes "driverTypes d \<noteq> None"
  shows "driverFromID (NewID d uuid) = Ok d"
proof -
  from assms obtain t where t: "driverTypes d = Some t" by blast
  then have d: "t = d" "CHR '':'' \<notin> set d" using driverTypes_Some by blast+
  have "split_byte (CHR '':'') (d @ CHR '':'' # uuid) = d # split_byte (CHR '':'') uuid"
    using d(2) by (rule split_byte_sep)
  then show ?thesis
    using t d by (simp add: driverFromID_def NewID_def DriverTypeFromString_def
        Suc_le_eq [symmetric] length_split_byte)
qed

end
