(* ===== verification/ProcessManager.thy ===== *)
theory ProcessManager
  imports AppTypes
begin

text \<open>
  Starting and stopping processes: \<open>internal/process/driver.go\<close>, \<open>internal/process/manager.go\<close>,
  \<open>internal/web/driver.go\<close> and the docker driver and package manager (\<open>internal/docker\<close>).

  A driver is the record of its methods over a world \<open>'w\<close> that holds what runs outside the node.  The
  docker client is such an outside interface: \<open>docker_client\<close> is a parameter, \<open>docker_laws\<close> states what
  the driver relies on.  Maps that the code iterates come with the order of iteration as an argument.
\<close>

datatype proc_error =
    ErrNoProcFound process_id
  | ErrProcessAlreadyRunning process_id
  | ErrDriverNotFound DriverType
  | ExtractDriverFailed process_id id_error
  | MultipleContainers process_id
  | ConfigUndecodable
  | DockerError string
  | InvalidPackageDriver DriverType
  | PackageIOError string
  | RestoreProcessFailed process_id proc_error

text \<open>\<open>errors.Is(err, ErrNoProcFound)\<close>; the error of a restore is formatted with \<open>%s\<close> and not wrapped.\<close>

fun is_ErrNoProcFound :: "proc_error \<Rightarrow> bool" where
  "is_ErrNoProcFound (ErrNoProcFound i) = True"
| "is_ErrNoProcFound _ = False"

section \<open>Drivers\<close>

type_synonym ('w, 'a) action = "'w \<Rightarrow> 'w \<times> ('a, proc_error) res"

record 'w driver =
  drv_Type :: DriverType
  drv_StartProcess :: "process_id \<Rightarrow> installation \<Rightarrow> ('w, unit) action"
  drv_StopProcess :: "process_id \<Rightarrow> ('w, unit) action"
  drv_IsRunning :: "process_id \<Rightarrow> 'w \<Rightarrow> (bool, proc_error) res"
  drv_ListRunningProcesses :: "'w \<Rightarrow> (process_id list, proc_error) res"

text \<open>The argument of \<open>NewNoopDriver\<close> is stored and never read: \<open>Type\<close> is a constant.\<close>

definition NewNoopDriver :: "DriverType \<Rightarrow> 'w driver" where
  "NewNoopDriver driverType =
     \<lparr>drv_Type = DriverTypeNoop,
      drv_StartProcess = (\<lambda>_ _ w. (w, Ok ())),
      drv_StopProcess = (\<lambda>_ w. (w, Ok ())),
      drv_IsRunning = (\<lambda>_ _. Ok False),
      drv_ListRunningProcesses = (\<lambda>_. Ok [])\<rparr>"

definition web_NewDriver :: "'w driver" where
  "web_NewDriver = NewNoopDriver DriverTypeWeb"

section \<open>The process manager\<close>

type_synonym 'w process_manager = "(DriverType, 'w driver) fmap"

definition NewProcessManager :: "'w driver list \<Rightarrow> 'w process_manager" where
  "NewProcessManager drivers = fold (\<lambda>d m. fmupd (drv_Type d) d m) drivers fmempty"

fun list_running_loop ::
  "'w \<Rightarrow> (DriverType \<times> 'w driver) list \<Rightarrow> process_id list \<Rightarrow> (process_id list, proc_error) res"
where
  "list_running_loop w [] allProcs = Ok allProcs"
| "list_running_loop w ((_, d) # ds) allProcs =
     bind_res (drv_ListRunningProcesses d w) (\<lambda>procs. list_running_loop w ds (allProcs @ procs))"

definition pm_ListRunningProcesses ::
  "(DriverType \<times> 'w driver) list \<Rightarrow> 'w \<Rightarrow> (process_id list, proc_error) res"
where
  "pm_ListRunningProcesses ps w = list_running_loop w ps []"

text \<open>\<open>driverFromID\<close> followed by the lookup, as \<open>IsRunning\<close> and \<open>StopProcess\<close> do it.\<close>

definition pm_driver_of ::
  "'w process_manager \<Rightarrow> process_id \<Rightarrow> ('w driver, proc_error) res"
where
  "pm_driver_of pm pid =
     bind_res (map_err (ExtractDriverFailed pid) (driverFromID pid)) (\<lambda>driverType.
       ok_or (ErrDriverNotFound driverType) (fmlookup pm driverType))"

definition pm_IsRunning :: "'w process_manager \<Rightarrow> process_id \<Rightarrow> 'w \<Rightarrow> (bool, proc_error) res" where
  "pm_IsRunning pm pid w = bind_res (pm_driver_of pm pid) (\<lambda>d. drv_IsRunning d pid w)"

text \<open>\<open>app.Driver\<close> is read through the embedded package, which may be nil.\<close>

definition pm_StartProcess ::
  "'w process_manager \<Rightarrow> process_id \<Rightarrow> installation \<Rightarrow> ('w, unit) action"
where
  "pm_StartProcess pm pid a w =
     (case app_Package a of
        None \<Rightarrow> (w, Panic)
      | Some p \<Rightarrow>
          (case fmlookup pm (pkg_Driver p) of
             None \<Rightarrow> (w, Err (ErrDriverNotFound (pkg_Driver p)))
           | Some d \<Rightarrow>
               (case drv_IsRunning d pid w of
                  Ok running \<Rightarrow>
                    if running then (w, Err (ErrProcessAlreadyRunning pid))
                    else drv_StartProcess d pid a w
                | Err e \<Rightarrow> (w, Err e)
                | Panic \<Rightarrow> (w, Panic))))"

definition pm_StopProcess :: "'w process_manager \<Rightarrow> process_id \<Rightarrow> ('w, unit) action" where
  "pm_StopProcess pm pid w =
     (case pm_driver_of pm pid of
        Ok d \<Rightarrow> drv_StopProcess d pid w
      | Err e \<Rightarrow> (w, Err e)
      | Panic \<Rightarrow> (w, Panic))"

fun pm_RestoreFromState ::
  "'w process_manager \<Rightarrow> (process_id \<times> installation) list \<Rightarrow> ('w, unit) action"
where
  "pm_RestoreFromState pm [] w = (w, Ok ())"
| "pm_RestoreFromState pm ((pid, a) # rest) w =
     (case pm_StartProcess pm pid a w of
        (w', Ok _) \<Rightarrow> pm_RestoreFromState pm rest w'
      | (w', Err e) \<Rightarrow> (w', Err (RestoreProcessFailed pid e))
      | (w', Panic) \<Rightarrow> (w', Panic))"

section \<open>Docker\<close>

text \<open>
  The configuration of a container: the members that the SDK defines stay JSON, and decoding the whole
  (\<open>json.Unmarshal\<close> into SDK types) is a parameter.
\<close>

record docker_config =
  cfg_ExposedPorts :: "string list"
  cfg_Env :: "string list"
  cfg_PortBindings :: json
  cfg_Mounts :: json

record container_spec =
  spec_Image :: string
  spec_ExposedPorts :: "string set"
  spec_Env :: "string list"
  spec_Labels :: "(string, string) fmap"
  spec_PortBindings :: json
  spec_Mounts :: json

record container =
  ctr_ID :: string
  ctr_Labels :: "(string, string) fmap"

record 'w docker_client =
  ContainerCreate :: "container_spec \<Rightarrow> 'w \<Rightarrow> 'w \<times> (string, string) res"
  ContainerStart :: "string \<Rightarrow> 'w \<Rightarrow> 'w \<times> (unit, string) res"
  ContainerStop :: "string \<Rightarrow> 'w \<Rightarrow> 'w \<times> (unit, string) res"
  ContainerList :: "string \<Rightarrow> 'w \<Rightarrow> (container list, string) res"
  ImageList :: "string \<Rightarrow> 'w \<Rightarrow> (nat, string) res"
  ImagePull :: "string \<Rightarrow> 'w \<Rightarrow> 'w \<times> (unit, string) res"
  ImageRemove :: "string \<Rightarrow> 'w \<Rightarrow> 'w \<times> (unit, string) res"
  decode_InstallationConfig :: "json \<Rightarrow> docker_config option"

definition habitatLabel :: string where "habitatLabel = ''habitat_proc_id''"

definition repoURLFromPackage :: "package \<Rightarrow> string" where
  "repoURLFromPackage p =
     pkg_RegistryURLBase p @ ''/'' @ pkg_RegistryPackageID p @ '':'' @ pkg_RegistryPackageTag p"

definition docker_StartProcess ::
  "'w docker_client \<Rightarrow> process_id \<Rightarrow> installation \<Rightarrow> ('w, unit) action"
where
  "docker_StartProcess C processID install w =
     (case app_Package install of
        None \<Rightarrow> (w, Panic)
      | Some p \<Rightarrow>
          (case decode_InstallationConfig C (enc_map id (pkg_DriverConfig p)) of
             None \<Rightarrow> (w, Err ConfigUndecodable)
           | Some cfg \<Rightarrow>
               (case ContainerCreate C
                       \<lparr>spec_Image = repoURLFromPackage p,
                        spec_ExposedPorts = set (cfg_ExposedPorts cfg), spec_Env = cfg_Env cfg,
                        spec_Labels = fmap_of_list [(habitatLabel, processID)],
                        spec_PortBindings = cfg_PortBindings cfg, spec_Mounts = cfg_Mounts cfg\<rparr> w of
                  (w1, Err e) \<Rightarrow> (w1, Err (DockerError e))
                | (w1, Panic) \<Rightarrow> (w1, Panic)
                | (w1, Ok ctr) \<Rightarrow>
                    (let (w2, r) = ContainerStart C ctr w1 in (w2, map_err DockerError r)))))"

definition getContainerWithProcessID ::
  "'w docker_client \<Rightarrow> process_id \<Rightarrow> 'w \<Rightarrow> (container option, proc_error) res"
where
  "getContainerWithProcessID C processID w =
     bind_res (map_err DockerError (ContainerList C (habitatLabel @ ''='' @ processID) w)) (\<lambda>ctrs.
       if length ctrs > 1 then Err (MultipleContainers processID)
       else if length ctrs = 0 then Ok None
       else Ok (Some (ctrs ! 0)))"

definition docker_StopProcess :: "'w docker_client \<Rightarrow> process_id \<Rightarrow> ('w, unit) action" where
  "docker_StopProcess C processID w =
     (case getContainerWithProcessID C processID w of
        Err e \<Rightarrow> (w, Err e)
      | Panic \<Rightarrow> (w, Panic)
      | Ok None \<Rightarrow> (w, Err (ErrNoProcFound processID))
      | Ok (Some ctr) \<Rightarrow>
          (let (w', r) = ContainerStop C (ctr_ID ctr) w in (w', map_err DockerError r)))"

definition docker_IsRunning :: "'w docker_client \<Rightarrow> process_id \<Rightarrow> 'w \<Rightarrow> (bool, proc_error) res" where
  "docker_IsRunning C pid w =
     bind_res (getContainerWithProcessID C pid w) (\<lambda>c. Ok (c \<noteq> None))"

text \<open>Reading a missing label gives the empty string.\<close>

definition docker_ListRunningProcesses ::
  "'w docker_client \<Rightarrow> 'w \<Rightarrow> (process_id list, proc_error) res"
where
  "docker_ListRunningProcesses C w =
     bind_res (map_err DockerError (ContainerList C habitatLabel w)) (\<lambda>ctrs.
       Ok (map (\<lambda>c. case fmlookup (ctr_Labels c) habitatLabel of None \<Rightarrow> '''' | Some v \<Rightarrow> v) ctrs))"

definition docker_NewDriver :: "'w docker_client \<Rightarrow> 'w driver" where
  "docker_NewDriver C =
     \<lparr>drv_Type = DriverTypeDocker,
      drv_StartProcess = docker_StartProcess C,
      drv_StopProcess = docker_StopProcess C,
      drv_IsRunning = docker_IsRunning C,
      drv_ListRunningProcesses = docker_ListRunningProcesses C\<rparr>"

section \<open>The docker package manager\<close>

record 'w package_manager =
  pkgm_Driver :: DriverType
  pkgm_IsInstalled :: "package \<Rightarrow> string \<Rightarrow> 'w \<Rightarrow> (bool, proc_error) res"
  pkgm_InstallPackage :: "package \<Rightarrow> string \<Rightarrow> ('w, unit) action"
  pkgm_UninstallPackage :: "package \<Rightarrow> string \<Rightarrow> ('w, unit) action"
  pkgm_RestoreFromState :: "(string \<times> installation) list \<Rightarrow> ('w, unit) action"

definition docker_IsInstalled ::
  "'w docker_client \<Rightarrow> package \<Rightarrow> string \<Rightarrow> 'w \<Rightarrow> (bool, proc_error) res"
where
  "docker_IsInstalled C packageSpec version w =
     bind_res (map_err DockerError (ImageList C (repoURLFromPackage packageSpec) w))
       (\<lambda>images. Ok (images > 0))"

definition docker_InstallPackage ::
  "'w docker_client \<Rightarrow> package \<Rightarrow> string \<Rightarrow> ('w, unit) action"
where
  "docker_InstallPackage C packageSpec version w =
     (if pkg_Driver packageSpec \<noteq> DriverTypeDocker
      then (w, Err (InvalidPackageDriver (pkg_Driver packageSpec)))
      else
        (let (w', r) = ImagePull C (repoURLFromPackage packageSpec) w in (w', map_err DockerError r)))"

definition docker_UninstallPackage ::
  "'w docker_client \<Rightarrow> package \<Rightarrow> string \<Rightarrow> ('w, unit) action"
where
  "docker_UninstallPackage C packageURL version w =
     (let (w', r) = ImageRemove C (repoURLFromPackage packageURL) w in (w', map_err DockerError r))"

text \<open>
  \<open>RestoreFromState\<close> keeps going after a failure and returns the last error; the docker and the web
  package manager share this loop, \<open>driver\<close> and \<open>install\<close> being their own.
\<close>

fun restore_packages_loop ::
  "DriverType \<Rightarrow> (package \<Rightarrow> string \<Rightarrow> ('w, unit) action) \<Rightarrow> (unit, proc_error) res
   \<Rightarrow> (string \<times> installation) list \<Rightarrow> ('w, unit) action"
where
  "restore_packages_loop driver install err [] w = (w, err)"
| "restore_packages_loop driver install err ((_, a) # rest) w =
     (case app_Package a of
        None \<Rightarrow> (w, Panic)
      | Some p \<Rightarrow>
          if pkg_Driver p = driver
          then
            (case install p (app_Version a) w of
               (w', Ok _) \<Rightarrow> restore_packages_loop driver install err rest w'
             | (w', Err perr) \<Rightarrow> restore_packages_loop driver install (Err perr) rest w'
             | (w', Panic) \<Rightarrow> (w', Panic))
          else restore_packages_loop driver install err rest w)"

definition docker_RestoreFromState ::
  "'w docker_client \<Rightarrow> (string \<times> installation) list \<Rightarrow> ('w, unit) action"
where
  "docker_RestoreFromState C apps w =
     restore_packages_loop DriverTypeDocker (docker_InstallPackage C) (Ok ()) apps w"

definition docker_NewPackageManager :: "'w docker_client \<Rightarrow> 'w package_manager" where
  "docker_NewPackageManager C =
     \<lparr>pkgm_Driver = DriverTypeDocker,
      pkgm_IsInstalled = docker_IsInstalled C,
      pkgm_InstallPackage = docker_InstallPackage C,
      pkgm_UninstallPackage = docker_UninstallPackage C,
      pkgm_RestoreFromState = docker_RestoreFromState C\<rparr>"

section \<open>Dispatch\<close>

lemma pm_driver_of_NewID:
  assumes "driverTypes t \<noteq> None" and "fmlookup pm t = Some d"
  shows "pm_driver_of pm (NewID t uuid) = Ok d"
  using assms by (simp add: pm_driver_of_def driverFromID_NewID)

lemma process_dispatch_aux:
  assumes "driverTypes t \<noteq> None" and "fmlookup pm t = Some d"
  shows "pm_IsRunning pm (NewID t uuid) w = drv_IsRunning d (NewID t uuid) w"
    and "pm_StopProcess pm (NewID t uuid) w = drv_StopProcess d (NewID t uuid) w"
  using pm_driver_of_NewID [OF assms] by (simp_all add: pm_IsRunning_def pm_StopProcess_def)

text \<open>
  The identifier given to a process leads back to the driver that its installation names: what is
  started with that driver is asked for and stopped with that driver, and a process that the driver
  reports as running is never started a second time.
\<close>

theorem process_dispatch:
  assumes "driverTypes t \<noteq> None" and "fmlookup pm t = Some d"
    and "app_Package a = Some p" and "pkg_Driver p = t"
  shows "pm_IsRunning pm (NewID t uuid) w = drv_IsRunning d (NewID t uuid) w \<and>
     pm_StopProcess pm (NewID t uuid) w = drv_StopProcess d (NewID t uuid) w \<and>
     (pm_IsRunning pm (NewID t uuid) w = Ok False \<longrightarrow>
        pm_StartProcess pm (NewID t uuid) a w = drv_StartProcess d (NewID t uuid) a w) \<and>
     (pm_IsRunning pm (NewID t uuid) w = Ok True \<longrightarrow>
        pm_StartProcess pm (NewID t uuid) a w = (w, Err (ErrProcessAlreadyRunning (NewID t uuid))))"
  using process_dispatch_aux [OF assms(1,2)] assms by (simp add: pm_StartProcess_def)

definition sample_package :: "DriverType \<Rightarrow> package" where
  "sample_package t =
     \<lparr>pkg_Driver = t, pkg_DriverConfig = Some fmempty, pkg_RegistryURLBase = ''registry'',
      pkg_RegistryPackageID = ''app'', pkg_RegistryPackageTag = ''1''\<rparr>"

definition sample_app :: "DriverType \<Rightarrow> installation" where
  "sample_app t =
     \<lparr>app_ID = ''a1'', app_UserID = ''u1'', app_Name = ''app'', app_Version = ''1'',
      app_State = ''installed'', app_Package = Some (sample_package t)\<rparr>"

lemma process_dispatch_witness:
  "pm_StartProcess (NewProcessManager [NewNoopDriver DriverTypeNoop]) (NewID DriverTypeNoop ''1'')
     (sample_app DriverTypeNoop) () = ((), Ok ())"
proof -
  let ?pm = "NewProcessManager [NewNoopDriver DriverTypeNoop] :: unit process_manager"
  let ?d = "NewNoopDriver DriverTypeNoop :: unit driver"
  have d: "driverTypes DriverTypeNoop \<noteq> None" "fmlookup ?pm DriverTypeNoop = Some ?d"
    by (simp_all add: driverTypes_def driver_types NewProcessManager_def NewNoopDriver_def)
  have "drv_IsRunning ?d (NewID DriverTypeNoop ''1'') () = Ok False"
    and start: "drv_StartProcess ?d (NewID DriverTypeNoop ''1'') (sample_app DriverTypeNoop) () = ((), Ok ())"
    by (simp_all add: NewNoopDriver_def)
  then show ?thesis
    using process_dispatch [OF d, of "sample_app DriverTypeNoop" "sample_package DriverTypeNoop" "''1''" "()"]
    by (simp only:) (simp add: sample_app_def sample_package_def)
qed

text \<open>
  The web driver is registered under the type that \<open>noopDriver.Type\<close> returns, so a manager with the
  docker and the web driver finds no driver for any web application.
\<close>

theorem web_processes_never_start:
  assumes "app_Package a = Some p" and "pkg_Driver p = DriverTypeWeb"
  shows "pm_StartProcess (NewProcessManager [docker_NewDriver C, web_NewDriver]) pid a w =
     (w, Err (ErrDriverNotFound DriverTypeWeb))"
  using assms
  by (simp add: pm_StartProcess_def NewProcessManager_def web_NewDriver_def NewNoopDriver_def
      docker_NewDriver_def driver_types)

section \<open>Restoring processes\<close>

lemma pm_RestoreFromState_append:
  assumes "pm_RestoreFromState pm xs w = (w', Ok ())"
  shows "pm_RestoreFromState pm (xs @ ys) w = pm_RestoreFromState pm ys w'"
  using assms by (induction pm xs w arbitrary: w' rule: pm_RestoreFromState.induct)
    (auto split: prod.splits res.splits)

text \<open>
  Restoring starts the processes one after the other and stops at the first that fails, whose
  identifier and error it reports; the processes before it stay started.
\<close>

theorem restore_stops_at_first_failure:
  "(\<exists>w'. pm_RestoreFromState pm xs w = (w', Ok ())) \<or>
   (\<exists>pre pid a post w1 w'. xs = pre @ (pid, a) # post \<and> pm_RestoreFromState pm pre w = (w1, Ok ()) \<and>
      ((\<exists>e. pm_StartProcess pm pid a w1 = (w', Err e) \<and>
            pm_RestoreFromState pm xs w = (w', Err (RestoreProcessFailed pid e))) \<or>
       (pm_StartProcess pm pid a w1 = (w', Panic) \<and> pm_RestoreFromState pm xs w = (w', Panic))))"
proof (induction xs arbitrary: w)
  case Nil
  then show ?case by simp
next
  case (Cons x xs)
  obtain pid a where x: "x = (pid, a)" by (cases x)
  obtain w1 r where s: "pm_StartProcess pm pid a w = (w1, r)" by (cases "pm_StartProcess pm pid a w")
  show ?case
  proof (cases r)
    case (Ok u)
    have step: "pm_RestoreFromState pm (x # ys) w = pm_RestoreFromState pm ys w1" for ys
      using s Ok x by simp
    show ?thesis
      using Cons.IH [of w1]
    proof (elim disjE exE conjE)
      fix pre pid' a' post w2 w'
      assume *: "xs = pre @ (pid', a') # post" "pm_RestoreFromState pm pre w1 = (w2, Ok ())"
        "pm_StartProcess pm pid' a' w2 = (w', Panic)" "pm_RestoreFromState pm xs w1 = (w', Panic)"
      then show ?thesis
        by (intro disjI2 exI [of _ "x # pre"] exI [of _ pid'] exI [of _ a'] exI [of _ post]) (simp add: step)
    next
      fix pre pid' a' post w2 w' e
      assume *: "xs = pre @ (pid', a') # post" "pm_RestoreFromState pm pre w1 = (w2, Ok ())"
        "pm_StartProcess pm pid' a' w2 = (w', Err e)"
        "pm_RestoreFromState pm xs w1 = (w', Err (RestoreProcessFailed pid' e))"
      then show ?thesis
        by (intro disjI2 exI [of _ "x # pre"] exI [of _ pid'] exI [of _ a'] exI [of _ post]) (simp add: step)
    qed (simp add: step)
  next
    case (Err e)
    then show ?thesis using s x
      by - (rule disjI2, rule exI [of _ "[]"], rule exI [of _ pid], rule exI [of _ a], rule exI [of _ xs], simp)
  next
    case Panic
    then show ?thesis using s x
      by - (rule disjI2, rule exI [of _ "[]"], rule exI [of _ pid], rule exI [of _ a], rule exI [of _ xs], simp)
  qed
qed

section \<open>The life of a docker process\<close>

text \<open>
  What the driver relies on of the docker client, with \<open>live w\<close> the running containers and \<open>pending w\<close>
  the labels of the created ones: listing returns the running containers that carry the label, creating
  runs nothing, starting runs what was created, stopping removes it.
\<close>

definition label_match :: "string \<Rightarrow> container \<Rightarrow> bool" where
  "label_match f c =
     (let k = takeWhile (\<lambda>x. x \<noteq> CHR ''='') f in
      if k = f then fmlookup (ctr_Labels c) f \<noteq> None
      else fmlookup (ctr_Labels c) k = Some (drop (Suc (length k)) f))"

definition docker_laws ::
  "'w docker_client \<Rightarrow> ('w \<Rightarrow> container list) \<Rightarrow> ('w \<Rightarrow> string \<rightharpoonup> (string, string) fmap) \<Rightarrow> bool"
where
  "docker_laws C live pending \<longleftrightarrow>
     (\<forall>f w cs. ContainerList C f w = Ok cs \<longrightarrow> cs = filter (label_match f) (live w)) \<and>
     (\<forall>spec w w' i. ContainerCreate C spec w = (w', Ok i) \<longrightarrow>
        live w' = live w \<and> pending w' i = Some (spec_Labels spec)) \<and>
     (\<forall>i w w' ls. ContainerStart C i w = (w', Ok ()) \<longrightarrow> pending w i = Some ls \<longrightarrow>
        (\<exists>xs ys. live w = xs @ ys \<and> live w' = xs @ \<lparr>ctr_ID = i, ctr_Labels = ls\<rparr> # ys)) \<and>
     (\<forall>i w w'. ContainerStop C i w = (w', Ok ()) \<longrightarrow>
        live w' = filter (\<lambda>c. ctr_ID c \<noteq> i) (live w))"

definition runs :: "('w \<Rightarrow> container list) \<Rightarrow> process_id \<Rightarrow> 'w \<Rightarrow> container list" where
  "runs live pid w = filter (\<lambda>c. fmlookup (ctr_Labels c) habitatLabel = Some pid) (live w)"

lemma label_match_habitat:
  "label_match (habitatLabel @ ''='' @ pid) c \<longleftrightarrow> fmlookup (ctr_Labels c) habitatLabel = Some pid"
  by (simp add: label_match_def habitatLabel_def)

lemma docker_lawsE:
  assumes "docker_laws C live pending"
  shows "ContainerList C f w = Ok cs \<Longrightarrow> cs = filter (label_match f) (live w)"
    and "ContainerCreate C spec w = (w', Ok i) \<Longrightarrow>
      live w' = live w \<and> pending w' i = Some (spec_Labels spec)"
    and "ContainerStart C i w = (w', Ok ()) \<Longrightarrow> pending w i = Some ls \<Longrightarrow>
      \<exists>xs ys. live w = xs @ ys \<and> live w' = xs @ \<lparr>ctr_ID = i, ctr_Labels = ls\<rparr> # ys"
    and "ContainerStop C i w = (w', Ok ()) \<Longrightarrow> live w' = filter (\<lambda>c. ctr_ID c \<noteq> i) (live w)"
  using assms unfolding docker_laws_def by metis+

lemma getContainer_runs:
  assumes "docker_laws C live pending" and "getContainerWithProcessID C pid w = Ok r"
  shows "runs live pid w = (case r of None \<Rightarrow> [] | Some c \<Rightarrow> [c])"
proof -
  from assms(2) obtain cs where l: "ContainerList C (habitatLabel @ ''='' @ pid) w = Ok cs"
    and r: "\<not> length cs > 1" "r = (if length cs = 0 then None else Some (cs ! 0))"
    by (auto simp: getContainerWithProcessID_def bind_res_Ok_iff split: if_splits)
  have "cs = runs live pid w"
    unfolding docker_lawsE(1) [OF assms(1) l] runs_def label_match_habitat ..
  with r show ?thesis by (cases "runs live pid w"; auto)
qed

lemma docker_IsRunning_runs:
  assumes "docker_laws C live pending" and "docker_IsRunning C pid w = Ok b"
  shows "b \<longleftrightarrow> runs live pid w \<noteq> []"
  using assms(2) getContainer_runs [OF assms(1)]
  by (auto simp: docker_IsRunning_def bind_res_Ok_iff split: option.splits)

lemma docker_StartProcess_runs:
  assumes "docker_laws C live pending" and "docker_StartProcess C pid a w = (w', Ok ())"
  shows "\<exists>i. length (runs live pid w') = Suc (length (runs live pid w)) \<and>
     \<lparr>ctr_ID = i, ctr_Labels = fmap_of_list [(habitatLabel, pid)]\<rparr> \<in> set (runs live pid w')"
proof -
  let ?ls = "fmap_of_list [(habitatLabel, pid)]"
  from assms(2) obtain spec i w1 where "ContainerCreate C spec w = (w1, Ok i)"
    and "spec_Labels spec = ?ls" and start: "ContainerStart C i w1 = (w', Ok ())"
    by (auto simp: docker_StartProcess_def Let_def split: option.splits prod.splits res.splits)
  then have w1: "live w1 = live w" "pending w1 i = Some ?ls"
    using docker_lawsE(2) [OF assms(1)] by auto
  then obtain xs ys where "live w = xs @ ys" "live w' = xs @ \<lparr>ctr_ID = i, ctr_Labels = ?ls\<rparr> # ys"
    using docker_lawsE(3) [OF assms(1) start w1(2)] by auto
  then show ?thesis by (intro exI [of _ i]) (simp add: runs_def)
qed

lemma docker_StopProcess_runs:
  assumes "docker_laws C live pending" and "docker_StopProcess C pid w = (w', Ok ())"
  shows "length (runs live pid w) = 1 \<and> runs live pid w' = []"
proof -
  from assms(2) obtain c where g: "getContainerWithProcessID C pid w = Ok (Some c)"
    and stop: "ContainerStop C (ctr_ID c) w = (w', Ok ())"
    by (auto simp: docker_StopProcess_def Let_def split: option.splits prod.splits res.splits)
  have runs: "runs live pid w = [c]"
    using getContainer_runs [OF assms(1) g] by simp
  moreover have "runs live pid w' = filter (\<lambda>x. ctr_ID x \<noteq> ctr_ID c) (runs live pid w)"
    using docker_lawsE(4) [OF assms(1) stop] by (simp add: runs_def conj_commute)
  ultimately show ?thesis by simp
qed

text \<open>
  A docker process that was started under a fresh identifier is reported as running, cannot be
  started again, and is no longer reported once it was stopped.
\<close>

theorem docker_process_lifecycle:
  assumes "docker_laws C live pending" and "fmlookup pm DriverTypeDocker = Some (docker_NewDriver C)"
    and "app_Package a = Some p" and "pkg_Driver p = DriverTypeDocker"
    and "pm_StartProcess pm (NewID DriverTypeDocker uuid) a w = (w1, Ok ())"
  shows "(\<forall>b. pm_IsRunning pm (NewID DriverTypeDocker uuid) w1 = Ok b \<longrightarrow> b) \<and>
     snd (pm_StartProcess pm (NewID DriverTypeDocker uuid) a w1) \<noteq> Ok () \<and>
     (\<forall>w2 b. pm_StopProcess pm (NewID DriverTypeDocker uuid) w1 = (w2, Ok ()) \<longrightarrow>
        pm_IsRunning pm (NewID DriverTypeDocker uuid) w2 = Ok b \<longrightarrow> \<not> b)"
proof -
  let ?pid = "NewID DriverTypeDocker uuid"
  have t: "driverTypes DriverTypeDocker \<noteq> None" by (simp add: driverTypes_def driver_types)
  have q: "pm_IsRunning pm ?pid v = docker_IsRunning C ?pid v" for v
    using process_dispatch_aux(1) [OF t assms(2)] by (simp add: docker_NewDriver_def)
  have stop: "pm_StopProcess pm ?pid v = docker_StopProcess C ?pid v" for v
    using process_dispatch_aux(2) [OF t assms(2)] by (simp add: docker_NewDriver_def)
  have start: "docker_StartProcess C ?pid a w = (w1, Ok ())"
    using assms(2-5) by (auto simp: pm_StartProcess_def docker_NewDriver_def split: res.splits if_splits)
  have live: "runs live ?pid w1 \<noteq> []"
    using docker_StartProcess_runs [OF assms(1) start] by auto
  have run: "\<forall>b. pm_IsRunning pm ?pid w1 = Ok b \<longrightarrow> b"
    using docker_IsRunning_runs [OF assms(1)] live unfolding q by blast
  moreover have "snd (pm_StartProcess pm ?pid a w1) \<noteq> Ok ()"
    using assms(2-4) run unfolding q
    by (auto simp: pm_StartProcess_def docker_NewDriver_def split: res.splits)
  moreover have "\<not> b" if "pm_StopProcess pm ?pid w1 = (w2, Ok ())" "pm_IsRunning pm ?pid w2 = Ok b" for w2 b
    using docker_IsRunning_runs [OF assms(1)] docker_StopProcess_runs [OF assms(1)] that
    unfolding q stop by blast
  ultimately show ?thesis by blast
qed

text \<open>A docker client whose world is the list of running containers and the labels of the created ones.\<close>

type_synonym toy_docker = "container list \<times> (string \<rightharpoonup> (string, string) fmap)"

definition sample_client :: "toy_docker docker_client" where
  "sample_client =
     \<lparr>ContainerCreate = (\<lambda>spec (l, p). ((l, p(''c'' \<mapsto> spec_Labels spec)), Ok ''c'')),
      ContainerStart = (\<lambda>i (l, p). (case p i of
          None \<Rightarrow> ((l, p), Err ''no such container'')
        | Some ls \<Rightarrow> ((\<lparr>ctr_ID = i, ctr_Labels = ls\<rparr> # l, p), Ok ()))),
      ContainerStop = (\<lambda>i (l, p). ((filter (\<lambda>c. ctr_ID c \<noteq> i) l, p), Ok ())),
      ContainerList = (\<lambda>f (l, p). Ok (filter (label_match f) l)),
      ImageList = (\<lambda>_ _. Ok 0),
      ImagePull = (\<lambda>_ w. (w, Ok ())),
      ImageRemove = (\<lambda>_ w. (w, Ok ())),
      decode_InstallationConfig = (\<lambda>j. Some \<lparr>cfg_ExposedPorts = [], cfg_Env = [],
        cfg_PortBindings = JNull, cfg_Mounts = JNull\<rparr>)\<rparr>"

lemma insert_front: "\<exists>xs ys. l = xs @ ys \<and> c # l = xs @ c # ys"
  by (rule exI [of _ "[]"]) simp

lemma sample_client_laws: "docker_laws sample_client fst snd"
  unfolding docker_laws_def
  by (intro conjI) (auto simp: sample_client_def insert_front split: option.splits)

lemma docker_process_lifecycle_witness:
  "\<exists>w1. pm_StartProcess (NewProcessManager [docker_NewDriver sample_client]) (NewID DriverTypeDocker ''1'')
       (sample_app DriverTypeDocker) ([], Map.empty) = (w1, Ok ()) \<and>
     pm_IsRunning (NewProcessManager [docker_NewDriver sample_client]) (NewID DriverTypeDocker ''1'') w1 = Ok True"
proof -
  let ?pm = "NewProcessManager [docker_NewDriver sample_client]" and ?pid = "NewID DriverTypeDocker ''1''"
  have pm: "fmlookup ?pm DriverTypeDocker = Some (docker_NewDriver sample_client)"
    by (simp add: NewProcessManager_def docker_NewDriver_def)
  have t: "driverTypes DriverTypeDocker \<noteq> None" by (simp add: driverTypes_def driver_types)
  have app: "app_Package (sample_app DriverTypeDocker) = Some (sample_package DriverTypeDocker)"
    "pkg_Driver (sample_package DriverTypeDocker) = DriverTypeDocker"
    by (simp_all add: sample_app_def sample_package_def)
  obtain w1 where start: "pm_StartProcess ?pm ?pid (sample_app DriverTypeDocker) ([], Map.empty) = (w1, Ok ())"
    and w1: "fst w1 = [\<lparr>ctr_ID = ''c'', ctr_Labels = fmap_of_list [(habitatLabel, ?pid)]\<rparr>]"
    using pm app by (simp add: pm_StartProcess_def docker_NewDriver_def docker_IsRunning_def
        getContainerWithProcessID_def docker_StartProcess_def sample_client_def)
  have "\<exists>b. pm_IsRunning ?pm ?pid w1 = Ok b"
    unfolding process_dispatch_aux(1) [OF t pm]
    using w1 by (cases w1) (simp add: docker_NewDriver_def docker_IsRunning_def
        getContainerWithProcessID_def sample_client_def ex_bool_eq)
  then show ?thesis
    using docker_process_lifecycle [OF sample_client_laws pm app start] start by auto
qed

lemma web_processes_never_start_witness:
  "pm_StartProcess (NewProcessManager [docker_NewDriver sample_client, web_NewDriver]) ''web:1'' (sample_app DriverTypeWeb)
     ([], Map.empty) =
     (([], Map.empty), Err (ErrDriverNotFound DriverTypeWeb))"
  by (rule web_processes_never_start [of _ "sample_package DriverTypeWeb"])
    (simp_all add: sample_app_def sample_package_def)

end
