(* ===== verification/FileSystem.thy ===== *)
theory FileSystem
  imports Http "HOL-Library.Sublist"
begin

text \<open>
  What the code uses of \<open>os\<close> and \<open>path/filepath\<close>: a tree of directories and files, keyed by the components of
  absolute paths.

  There are no links, and the process may do everything (it runs as root in its container), so that an
  operation fails for what is in the tree only.
\<close>

section \<open>Paths\<close>

text \<open>The components that a path leads to, from the working directory \<open>cwd\<close>.\<close>

definition locate :: "string list \<Rightarrow> string \<Rightarrow> string list" where
  "locate cwd p = clean_stack True [] ((if is_rooted p then [] else cwd) @ split_byte (CHR ''/'') p)"

lemma clean_stack_clean:
  "clean_stack True st (clean_stack False [] cs) = clean_stack True st cs"
proof -
  have "clean_stack True st (clean_stack False acc cs) = clean_stack True st (rev acc @ cs)"
    if "\<forall>c \<in> set acc. c \<noteq> '''' \<and> c \<noteq> ''.''" "\<exists>n d. acc = d @ replicate n dotdot \<and> dotdot \<notin> set d" for acc
    using that
  proof (induction cs arbitrary: acc)
    case (Cons c cs)
    obtain n d where acc: "acc = d @ replicate n dotdot" "dotdot \<notin> set d" using Cons.prems(2) by blast
    show ?case
    proof (cases "c = '''' \<or> c = ''.''")
      case True
      have "clean_stack True st (rev acc @ c # cs) = clean_stack True st (rev acc @ cs)"
        using True by (simp add: clean_stack_append)
      with True Cons show ?thesis by simp
    next
      case plain: False
      show ?thesis
      proof (cases "c = dotdot")
        case up: True
        show ?thesis
        proof (cases d)
          case Nil
          have "clean_stack False acc (c # cs) = clean_stack False (dotdot # acc) cs"
            using up plain acc Nil by (cases n) (auto simp: dotdot_def)
          moreover have "\<exists>m d'. dotdot # acc = d' @ replicate m dotdot \<and> dotdot \<notin> set d'"
            using acc Nil by (intro exI [of _ "Suc n"] exI [of _ "[]"]) simp
          ultimately show ?thesis
            using Cons.IH [of "dotdot # acc"] Cons.prems(1) up by (auto simp: dotdot_def)
        next
          case (Cons x d')
          have x: "x \<noteq> dotdot" "x \<noteq> ''''" "x \<noteq> ''.''" using acc Cons Cons.prems(1) by auto
          let ?acc = "d' @ replicate n dotdot"
          have "clean_stack False acc (c # cs) = clean_stack False ?acc cs"
            using up plain acc Cons x by (auto simp: dotdot_def)
          moreover have "clean_stack True st (clean_stack False ?acc cs) = clean_stack True st (rev ?acc @ cs)"
            by (rule Cons.IH) (use acc Cons Cons.prems(1) in auto)
          moreover have "clean_stack True st (rev acc @ c # cs) = clean_stack True st (rev ?acc @ cs)"
            using up x by (simp add: acc(1) Cons clean_stack_append) (simp add: dotdot_def)
          ultimately show ?thesis by simp
        qed
      next
        case False
        have "\<exists>m d'. c # acc = d' @ replicate m dotdot \<and> dotdot \<notin> set d'"
          using acc False by (intro exI [of _ n] exI [of _ "c # d"]) auto
        then show ?thesis using Cons.IH [of "c # acc"] Cons.prems(1) plain False by auto
      qed
    qed
  qed simp
  from this [of "[]"] show ?thesis by simp
qed

lemma split_join_slash:
  "cs \<noteq> [] \<Longrightarrow> \<forall>c \<in> set cs. CHR ''/'' \<notin> set c \<Longrightarrow> split_byte (CHR ''/'') (join_slash cs) = cs"
  by (induction cs rule: join_slash.induct) (auto simp: split_byte_sep)

lemma split_at_byte_no_sep: "c \<notin> set acc \<Longrightarrow> x \<in> set (split_at_byte c acc s) \<Longrightarrow> c \<notin> set x"
proof (induction s arbitrary: acc)
  case (Cons a s)
  then show ?case using Cons.IH [of "[]"] Cons.IH [of "a # acc"] by (auto split: if_splits)
qed auto

lemma split_byte_no_sep: "x \<in> set (split_byte c s) \<Longrightarrow> c \<notin> set x"
  using split_at_byte_no_sep [of c "[]" x s] by (simp add: split_byte_def)

lemma clean_stack_subset: "set (clean_stack r st cs) \<subseteq> set st \<union> set cs \<union> {dotdot}"
  by (induction r st cs rule: clean_stack.induct) (auto split: list.splits if_splits)

lemma clean_stack_rooted_idem: "clean_stack True [] (clean_stack True [] cs) = clean_stack True [] cs"
proof -
  let ?d = "clean_stack True [] cs"
  have "dotdot \<notin> set ?d" by (simp add: clean_stack_rooted)
  moreover have "'''' \<notin> set (clean_stack True st cs) \<and> ''.'' \<notin> set (clean_stack True st cs)"
    if "'''' \<notin> set st \<and> ''.'' \<notin> set st" for st
    using that by (induction True st cs rule: clean_stack.induct) (auto simp: dotdot_def split: list.splits)
  ultimately show ?thesis
    using clean_stack_no_dotdot [of ?d True "[]"] by (auto simp: filter_id_conv)
qed

text \<open>Cleaning a path does not change where it leads.\<close>

lemma locate_Clean:
  assumes "p \<noteq> ''''"
  shows "locate cwd (path_Clean p) = locate cwd p"
proof (cases "is_rooted p")
  case True
  let ?cs = "clean_stack True [] (split_byte (CHR ''/'') p)"
  have ns: "\<forall>c \<in> set ?cs. CHR ''/'' \<notin> set c"
    using clean_stack_subset [of True "[]" "split_byte (CHR ''/'') p"] split_byte_no_sep
    by (fastforce simp: dotdot_def)
  have "split_byte (CHR ''/'') (CHR ''/'' # join_slash ?cs) = '''' # split_byte (CHR ''/'') (join_slash ?cs)"
    using split_byte_sep [of "CHR ''/''" "''''" "join_slash ?cs"] by simp
  moreover have "clean_stack True [] ('''' # split_byte (CHR ''/'') (join_slash ?cs)) = ?cs"
  proof (cases "?cs = []")
    case True
    then show ?thesis by (simp add: split_byte_def)
  next
    case False
    then show ?thesis by (simp add: split_join_slash [OF False ns] clean_stack_rooted_idem)
  qed
  ultimately show ?thesis
    using True by (simp add: locate_def path_Clean_def Let_def is_rooted_def HasPrefix_def)
next
  case False
  let ?cs = "clean_stack False [] (split_byte (CHR ''/'') p)"
  have ns: "\<forall>c \<in> set ?cs. CHR ''/'' \<notin> set c"
    using clean_stack_subset [of False "[]" "split_byte (CHR ''/'') p"] split_byte_no_sep
    by (fastforce simp: dotdot_def)
  have clean: "clean_stack True st ?cs = clean_stack True st (split_byte (CHR ''/'') p)" for st
    by (rule clean_stack_clean)
  show ?thesis
  proof (cases "?cs = []")
    case True
    have "clean_stack True [] (cwd @ [''.'']) = clean_stack True [] (cwd @ split_byte (CHR ''/'') p)"
      using clean [of "rev (clean_stack True [] cwd)"] True by (simp add: clean_stack_append)
    then show ?thesis
      using False True by (simp add: locate_def path_Clean_def Let_def is_rooted_def HasPrefix_def split_byte_def)
  next
    case ne: False
    obtain c cs where c: "?cs = c # cs" using ne by (cases ?cs) auto
    have "'''' \<notin> set (clean_stack False st ds)" if "'''' \<notin> set st" for st ds
      using that by (induction False st ds rule: clean_stack.induct) (auto simp: dotdot_def split: list.splits)
    then have "c \<noteq> ''''" using c by (metis list.set_intros(1) empty_iff list.set(1))
    moreover have "CHR ''/'' \<notin> set c" using ns c by auto
    ultimately have "\<not> is_rooted (join_slash ?cs)"
      by (cases c; cases cs) (auto simp: c is_rooted_def HasPrefix_def)
    then show ?thesis
      using False ne by (simp add: locate_def path_Clean_def Let_def split_join_slash [OF ne ns]
          clean_stack_append clean)
  qed
qed

lemma locate_Join:
  assumes "d \<noteq> ''''"
  shows "locate cwd (path_Join [d, p]) = clean_stack True (rev (locate cwd d)) (split_byte (CHR ''/'') p)"
proof (cases "p = ''''")
  case True
  then have "locate cwd (path_Join [d, p]) = locate cwd d" using assms by (simp add: path_Join_def locate_Clean)
  then show ?thesis using True by (simp add: split_byte_def)
next
  case False
  have "is_rooted (d @ CHR ''/'' # p) = is_rooted d" using assms by (cases d) (auto simp: is_rooted_def HasPrefix_def)
  then show ?thesis
    using assms False
    by (simp add: path_Join_def locate_Clean) (simp add: locate_def split_byte_append clean_stack_append)
qed

section \<open>The tree\<close>

datatype node = DirNode | FileNode string

type_synonym fs = "(string list, node) fmap"

datatype os_error = NotExist | NotDirectory | IsDirectory

fun is_file :: "node option \<Rightarrow> bool" where
  "is_file (Some (FileNode c)) = True"
| "is_file _ = False"

text \<open>Some directory of the path is a file.\<close>

definition file_above :: "fs \<Rightarrow> string list \<Rightarrow> bool" where
  "file_above t p = list_ex (\<lambda>q. q \<noteq> p \<and> is_file (fmlookup t q)) (prefixes p)"

definition os_Stat :: "string list \<Rightarrow> fs \<Rightarrow> (node, os_error) res" where
  "os_Stat p t = (if file_above t p then Err NotDirectory else ok_or NotExist (fmlookup t p))"

definition os_IsNotExist :: "(node, os_error) res \<Rightarrow> bool" where
  "os_IsNotExist r \<longleftrightarrow> r = Err NotExist"

text \<open>A failing \<open>MkdirAll\<close> meets the file before it makes a directory.\<close>

definition os_MkdirAll :: "string list \<Rightarrow> fs \<Rightarrow> fs \<times> (unit, os_error) res" where
  "os_MkdirAll p t =
     (if list_ex (\<lambda>q. is_file (fmlookup t q)) (prefixes p) then (t, Err NotDirectory)
      else (fold (\<lambda>q. fmupd q DirNode) (prefixes p) t, Ok ()))"

text \<open>Opening a file for writing and creating it if need be; \<open>os.Create\<close> empties it, too.\<close>

definition os_OpenFile :: "string list \<Rightarrow> fs \<Rightarrow> fs \<times> (unit, os_error) res" where
  "os_OpenFile p t =
     (if file_above t p then (t, Err NotDirectory)
      else
        (case fmlookup t p of
           Some DirNode \<Rightarrow> (t, Err IsDirectory)
         | Some (FileNode c) \<Rightarrow> (t, Ok ())
         | None \<Rightarrow>
             if fmlookup t (butlast p) = Some DirNode then (fmupd p (FileNode '''') t, Ok ())
             else (t, Err NotExist)))"

definition os_Create :: "string list \<Rightarrow> fs \<Rightarrow> fs \<times> (unit, os_error) res" where
  "os_Create p t =
     (case os_OpenFile p t of
        (t', Ok _) \<Rightarrow> (fmupd p (FileNode '''') t', Ok ())
      | (t', r) \<Rightarrow> (t', r))"

text \<open>Writing from the start of an open file: what is longer than the new text stays.\<close>

definition write_start :: "string list \<Rightarrow> string \<Rightarrow> fs \<Rightarrow> fs" where
  "write_start p c t =
     (case fmlookup t p of
        Some (FileNode old) \<Rightarrow> fmupd p (FileNode (c @ drop (length c) old)) t
      | _ \<Rightarrow> t)"

definition os_RemoveAll :: "string list \<Rightarrow> fs \<Rightarrow> fs \<times> (unit, os_error) res" where
  "os_RemoveAll p t =
     (if file_above t p then (t, Err NotDirectory) else (fmfilter (\<lambda>q. \<not> prefix p q) t, Ok ()))"

section \<open>Trees stay trees\<close>

text \<open>The root is a directory, and what is in the tree is in a directory of the tree.\<close>

definition wf_fs :: "fs \<Rightarrow> bool" where
  "wf_fs t \<longleftrightarrow>
     fmlookup t [] = Some DirNode \<and>
     (\<forall>p. fmlookup t p \<noteq> None \<longrightarrow> p \<noteq> [] \<longrightarrow> fmlookup t (butlast p) = Some DirNode)"

lemma dirs_above:
  assumes "wf_fs t" and "fmlookup t p \<noteq> None" and "strict_prefix q p"
  shows "fmlookup t q = Some DirNode"
  using assms(2,3)
proof (induction p rule: rev_induct)
  case (snoc x p)
  then have p: "fmlookup t p = Some DirNode" using assms(1) by (auto simp: wf_fs_def)
  have "q = p \<or> strict_prefix q p" using snoc.prems(2) by (auto simp: strict_prefix_def)
  with p snoc.IH show ?case by auto
qed simp

lemma no_file_above: "wf_fs t \<Longrightarrow> fmlookup t p \<noteq> None \<Longrightarrow> \<not> file_above t p"
  using dirs_above [of t p] by (fastforce simp: file_above_def list_ex_iff strict_prefix_def)

lemma Stat_wf: "wf_fs t \<Longrightarrow> fmlookup t p = Some x \<Longrightarrow> os_Stat p t = Ok x"
  using no_file_above [of t p] by (simp add: os_Stat_def)

lemma lookup_fold: "fmlookup (fold (\<lambda>q. fmupd q v) qs t) p = (if p \<in> set qs then Some v else fmlookup t p)"
  by (induction qs arbitrary: t) auto

lemma MkdirAll_lookup:
  "os_MkdirAll p t = (t', Ok ()) \<Longrightarrow> fmlookup t' q = (if prefix q p then Some DirNode else fmlookup t q)"
  by (auto simp: os_MkdirAll_def lookup_fold split: if_splits)

lemma MkdirAll_files:
  "os_MkdirAll p t = (t', r) \<Longrightarrow> is_file (fmlookup t' q) = is_file (fmlookup t q)"
  by (auto simp: os_MkdirAll_def lookup_fold list_ex_iff split: if_splits)

lemma wf_fsI:
  "fmlookup t [] = Some DirNode \<Longrightarrow>
    (\<And>p x. fmlookup t (p @ [x]) \<noteq> None \<Longrightarrow> fmlookup t p = Some DirNode) \<Longrightarrow> wf_fs t"
  unfolding wf_fs_def by (metis append_butlast_last_id)

lemma wf_fsD: "wf_fs t \<Longrightarrow> fmlookup t (p @ [x]) \<noteq> None \<Longrightarrow> fmlookup t p = Some DirNode"
  unfolding wf_fs_def by (metis append_is_Nil_conv butlast_snoc not_Cons_self2)

lemma wf_MkdirAll [intro]: "wf_fs t \<Longrightarrow> wf_fs (fst (os_MkdirAll p t))"
proof (cases "os_MkdirAll p t")
  case (Pair t' r)
  assume wf: "wf_fs t"
  show ?thesis
  proof (cases r)
    case (Ok u)
    then have l: "fmlookup t' q = (if prefix q p then Some DirNode else fmlookup t q)" for q
      using MkdirAll_lookup [of p t t' q] Pair by simp
    have "wf_fs t'"
      by (rule wf_fsI) (use wf_fsD [OF wf] in \<open>auto simp: l dest: prefix_order.trans split: if_splits\<close>,
        auto simp: prefix_def)
    with Pair show ?thesis by simp
  qed (use Pair wf in \<open>auto simp: os_MkdirAll_def split: if_splits\<close>)
qed

lemma wf_upd_file:
  assumes "wf_fs t" and "fmlookup t p \<noteq> Some DirNode" and "p \<noteq> []" and "fmlookup t (butlast p) = Some DirNode"
  shows "wf_fs (fmupd p (FileNode c) t)"
proof (rule wf_fsI)
  show "fmlookup (fmupd p (FileNode c) t) [] = Some DirNode" using assms(1,3) by (auto simp: wf_fs_def)
  show "fmlookup (fmupd p (FileNode c) t) q = Some DirNode"
    if "fmlookup (fmupd p (FileNode c) t) (q @ [x]) \<noteq> None" for q x
    using that assms wf_fsD [OF assms(1), of q x] by (auto split: if_splits)
qed

lemma OpenFile_Ok:
  assumes "wf_fs t" and "os_OpenFile p t = (t', Ok u)"
  shows "\<exists>old. fmlookup t' p = Some (FileNode old) \<and> (\<forall>q. q \<noteq> p \<longrightarrow> fmlookup t' q = fmlookup t q) \<and>
    (fmlookup t p = Some (FileNode old) \<or> fmlookup t p = None \<and> old = '''') \<and> wf_fs t' \<and> p \<noteq> [] \<and>
    fmlookup t' (butlast p) = Some DirNode"
proof -
  have "p \<noteq> []" using assms by (auto simp: os_OpenFile_def wf_fs_def split: if_splits option.splits node.splits)
  moreover have "butlast p \<noteq> p" using calculation by (cases p rule: rev_cases) auto
  moreover have "fmlookup t p \<noteq> None \<Longrightarrow> fmlookup t (butlast p) = Some DirNode"
    using assms(1) calculation(1) by (auto simp: wf_fs_def)
  ultimately show ?thesis
    using assms by (auto simp: os_OpenFile_def intro!: wf_upd_file split: if_splits option.splits node.splits)
qed

lemma OpenFile_fail: "os_OpenFile p t = (t', r) \<Longrightarrow> \<not> is_Ok r \<Longrightarrow> t' = t"
  by (auto simp: os_OpenFile_def split: if_splits option.splits node.splits)

text \<open>Writing a file after it was opened.\<close>

lemma write_lookup:
  assumes "wf_fs t" and "os_OpenFile p t = (t', Ok u)"
  shows "fmlookup (write_start p c t') q =
      (if q = p then Some (FileNode (c @ drop (length c)
         (case fmlookup t p of Some (FileNode old) \<Rightarrow> old | _ \<Rightarrow> ''''))) else fmlookup t q)"
    and "wf_fs (write_start p c t')"
  using OpenFile_Ok [OF assms] by (auto simp: write_start_def intro!: wf_upd_file)

lemma wf_OpenFile [intro]: "wf_fs t \<Longrightarrow> wf_fs (fst (os_OpenFile p t))"
proof (cases "os_OpenFile p t")
  case (Pair t' r)
  assume wf: "wf_fs t"
  then show ?thesis using OpenFile_Ok [OF wf, of p t'] OpenFile_fail [OF Pair] Pair by (cases r) auto
qed

lemma wf_Create [intro]: "wf_fs t \<Longrightarrow> wf_fs (fst (os_Create p t))"
proof (cases "os_OpenFile p t")
  case (Pair t' r)
  assume wf: "wf_fs t"
  show ?thesis
  proof (cases r)
    case (Ok u)
    with OpenFile_Ok [OF wf, of p t' u] Pair show ?thesis by (auto simp: os_Create_def intro!: wf_upd_file)
  qed (use wf_OpenFile [OF wf, of p] Pair in \<open>auto simp: os_Create_def\<close>)
qed

lemma wf_RemoveAll [intro]: "wf_fs t \<Longrightarrow> p \<noteq> [] \<Longrightarrow> wf_fs (fst (os_RemoveAll p t))"
proof -
  assume wf: "wf_fs t" and "p \<noteq> []"
  then have "wf_fs (fmfilter (\<lambda>q. \<not> prefix p q) t)"
    by (intro wf_fsI) (use wf_fsD [OF wf] in \<open>auto simp: wf_fs_def prefix_def split: if_splits\<close>)
  then show ?thesis by (auto simp: os_RemoveAll_def wf)
qed

section \<open>The content of files\<close>

definition file_content :: "fs \<Rightarrow> string list \<Rightarrow> string option" where
  "file_content t p = (case fmlookup t p of Some (FileNode c) \<Rightarrow> Some c | _ \<Rightarrow> None)"

lemma content_of_lookup: "fmlookup t q = fmlookup t' q \<Longrightarrow> file_content t q = file_content t' q"
  by (simp add: file_content_def)

lemma MkdirAll_content [simp]: "file_content (fst (os_MkdirAll p t)) q = file_content t q"
proof -
  have "\<exists>q \<in> set (prefixes p). is_file (fmlookup t q)" if "fmlookup t q = Some (FileNode c)" "prefix q p" for c
    using that by (intro bexI [of _ q]) auto
  then show ?thesis
    by (auto simp: os_MkdirAll_def lookup_fold list_ex_iff file_content_def split: option.splits node.splits)
qed

lemma MkdirAll_dir: "fmlookup t q = Some DirNode \<Longrightarrow> fmlookup (fst (os_MkdirAll p t)) q = Some DirNode"
  by (simp add: os_MkdirAll_def lookup_fold)

lemma write_content:
  assumes "wf_fs t" and "os_OpenFile p t = (t', Ok u)"
  shows "file_content (write_start p c t') q =
    (if q = p then Some (c @ drop (length c) (case file_content t p of None \<Rightarrow> '''' | Some old \<Rightarrow> old))
     else file_content t q)"
  by (simp add: file_content_def write_lookup [OF assms] split: option.splits node.splits)

lemma write_dir:
  assumes "wf_fs t" and "os_OpenFile p t = (t', Ok u)" and "fmlookup t q = Some DirNode"
  shows "fmlookup (write_start p c t') q = Some DirNode"
proof -
  have "q \<noteq> p" using OpenFile_Ok [OF assms(1,2)] assms(3) by auto
  then show ?thesis by (simp add: write_lookup [OF assms(1,2)] assms(3))
qed


lemma create_content:
  assumes "wf_fs t" and "os_Create p t = (t', Ok u)"
  shows "file_content (write_start p c t') q = (if q = p then Some c else file_content t q)"
    and "wf_fs (write_start p c t')"
proof -
  obtain t1 v where o': "os_OpenFile p t = (t1, Ok v)" and t': "t' = fmupd p (FileNode '''') t1"
    using assms(2) by (cases "os_OpenFile p t"; cases "snd (os_OpenFile p t)") (auto simp: os_Create_def)
  note f = OpenFile_Ok [OF assms(1) o']
  show "file_content (write_start p c t') q = (if q = p then Some c else file_content t q)"
    using f by (auto simp: t' write_start_def file_content_def)
  show "wf_fs (write_start p c t')"
    using f by (auto simp: t' write_start_def intro!: wf_upd_file)
qed

end
