(* ===== verification/HttpClient.thy ===== *)
theory HttpClient
  imports GoPrelude Json
begin

text \<open>
  What the code uses of \<open>net/http\<close> as a client: headers with canonical names, requests and responses.

  The network is outside the model: a client is a function from the request and the world to a new world
  and a response or an error.  The URLs are parsed and printed by parameters.
\<close>

section \<open>Headers\<close>

text \<open>\<open>textproto.CanonicalMIMEHeaderKey\<close>: a name with a character that no token has is left as it is.\<close>

definition ascii_letter :: "nat \<Rightarrow> char \<Rightarrow> bool" where
  "ascii_letter first c \<longleftrightarrow> first \<le> of_char c \<and> of_char c < first + 26"

definition to_upper :: "char \<Rightarrow> char" where
  "to_upper c = (if ascii_letter 97 c then char_of (of_char c - (32::nat)) else c)"

definition to_lower :: "char \<Rightarrow> char" where
  "to_lower c = (if ascii_letter 65 c then char_of (of_char c + (32::nat)) else c)"

definition token_char :: "char \<Rightarrow> bool" where
  "token_char c \<longleftrightarrow> ascii_letter 65 c \<or> ascii_letter 97 c \<or>
     CHR ''0'' = c \<or> (48 \<le> (of_char c :: nat) \<and> of_char c < (58 :: nat)) \<or> c \<in> set ''!#$%&*+-.^_|~'' \<or>
     of_char c = (39 :: nat) \<or> of_char c = (96 :: nat)"

fun canonical_from :: "bool \<Rightarrow> string \<Rightarrow> string" where
  "canonical_from upper [] = []"
| "canonical_from upper (c # cs) =
     (if upper then to_upper c else to_lower c) # canonical_from (c = CHR ''-'') cs"

definition canonical :: "string \<Rightarrow> string" where
  "canonical k = (if list_all token_char k then canonical_from True k else k)"

type_synonym header = "(string, string list) fmap"

definition hdr_Set :: "string \<Rightarrow> string \<Rightarrow> header \<Rightarrow> header" where
  "hdr_Set k v h = fmupd (canonical k) [v] h"

definition hdr_Add :: "string \<Rightarrow> string \<Rightarrow> header \<Rightarrow> header" where
  "hdr_Add k v h =
     fmupd (canonical k) ((case fmlookup h (canonical k) of None \<Rightarrow> [] | Some vs \<Rightarrow> vs) @ [v]) h"

definition hdr_Get :: "string \<Rightarrow> header \<Rightarrow> string" where
  "hdr_Get k h = (case fmlookup h (canonical k) of Some (v # vs) \<Rightarrow> v | _ \<Rightarrow> [])"

lemma hdr_Get_Set: "hdr_Get k (hdr_Set l v h) = (if canonical k = canonical l then v else hdr_Get k h)"
  by (simp add: hdr_Get_def hdr_Set_def)

section \<open>Requests and responses\<close>

record url =
  u_Scheme :: string
  u_Host :: string
  u_Path :: string
  u_RawQuery :: string

record http_request =
  hq_Method :: string
  hq_URL :: url
  hq_Header :: header
  hq_Body :: string

text \<open>\<open>hs_ReadFails\<close>: reading the body to its end gives an error, after the bytes of \<open>hs_Body\<close>.\<close>

record http_response =
  hs_StatusCode :: nat
  hs_Header :: header
  hs_Body :: string
  hs_ReadFails :: bool

type_synonym ('w, 'e) http_client = "http_request \<Rightarrow> 'w \<Rightarrow> 'w \<times> (http_response, 'e) res"

text \<open>\<open>strings.Contains\<close>.\<close>

fun str_Contains :: "string \<Rightarrow> string \<Rightarrow> bool" where
  "str_Contains [] sub = (sub = [])"
| "str_Contains (c # cs) sub = (HasPrefix (c # cs) sub \<or> str_Contains cs sub)"

lemma str_Contains_iff: "str_Contains s sub \<longleftrightarrow> (\<exists>pre post. s = pre @ sub @ post)"
proof (induction s)
  case (Cons c cs)
  show ?case
    unfolding str_Contains.simps Cons.IH HasPrefix_iff
    by (metis append_Cons append_Nil list.exhaust list.inject)
qed simp

end
