(* ===== verification/WebPackages.thy ===== *)
theory WebPackages
  imports ProcessManager FileSystem HttpClient
begin

text \<open>
  The package manager for web applications: \<open>internal/web/package_manager.go\<close>.

  A package is a directory below the node's web directory, filled from a \<open>.tar.gz\<close> archive.  The network, the
  names of temporary directories and reading archives (\<open>compress/gzip\<close>, \<open>archive/tar\<close>) are parameters.  The
  state is that of the network and the file system.
\<close>

section \<open>Archives\<close>

datatype tar_type = TypeDir | TypeReg | TypeOther

text \<open>\<open>te_ContentOk\<close> is false when reading the content fails after the text \<open>te_Content\<close>.\<close>

record tar_entry =
  te_Name :: string
  te_Type :: tar_type
  te_Content :: string
  te_ContentOk :: bool

text \<open>
  \<open>wv_tar\<close> gives the entries of an archive and whether it then ends, or breaks; \<open>None\<close> is a text that is not
  compressed.
\<close>

record 'n web_env =
  wv_Get :: "string \<Rightarrow> 'n \<Rightarrow> 'n \<times> (http_response, string) res"
  wv_TempName :: "'n \<Rightarrow> 'n \<times> string option"
  wv_tar :: "string \<Rightarrow> (tar_entry list \<times> bool) option"
  wv_cwd :: "string list"

fun os_failure :: "os_error \<Rightarrow> proc_error" where
  "os_failure NotExist = PackageIOError ''no such file or directory''"
| "os_failure NotDirectory = PackageIOError ''not a directory''"
| "os_failure IsDirectory = PackageIOError ''is a directory''"

fun lift_os :: "fs \<times> ('a, os_error) res \<Rightarrow> fs \<times> ('a, proc_error) res" where
  "lift_os (t, r) = (t, map_err os_failure r)"

section \<open>The package manager\<close>

record bundle_config =
  DownloadURL :: string
  BundleDirectoryName :: string

record web_package_manager =
  webBundlePath :: string

definition web_NewPackageManager_path :: "string \<Rightarrow> web_package_manager" where
  "web_NewPackageManager_path path = \<lparr>webBundlePath = path\<rparr>"

definition getWebBundleConfigFromPackage :: "package \<Rightarrow> (bundle_config, proc_error) res" where
  "getWebBundleConfigFromPackage pkg =
     map_err (\<lambda>_. ConfigUndecodable)
       (bind_res (ok_or NotAnObject (as_object (Some (enc_map id (pkg_DriverConfig pkg))))) (\<lambda>m.
        bind_res (dec_field m ''download_url'') (\<lambda>url.
        bind_res (dec_field m ''bundle_directory_name'') (\<lambda>dir.
          Ok \<lparr>DownloadURL = url, BundleDirectoryName = dir\<rparr>))))"

definition getBundlePath :: "web_package_manager \<Rightarrow> bundle_config \<Rightarrow> string \<Rightarrow> string" where
  "getBundlePath m bundleConfig version =
     path_Join [webBundlePath m, BundleDirectoryName bundleConfig, version]"

definition web_IsInstalled ::
  "'n web_env \<Rightarrow> web_package_manager \<Rightarrow> package \<Rightarrow> string \<Rightarrow> 'n \<times> fs \<Rightarrow> (bool, proc_error) res"
where
  "web_IsInstalled V m pkg version w =
     bind_res (getWebBundleConfigFromPackage pkg) (\<lambda>cfg.
       Ok (\<not> os_IsNotExist (os_Stat (locate (wv_cwd V) (getBundlePath m cfg version)) (snd w))))"

definition entry_target :: "string list \<Rightarrow> string \<Rightarrow> tar_entry \<Rightarrow> string list" where
  "entry_target cwd destPath e = locate cwd (path_Join [destPath, te_Name e])"

fun extract_loop :: "string list \<Rightarrow> string \<Rightarrow> tar_entry list \<Rightarrow> bool \<Rightarrow> fs \<Rightarrow> fs \<times> (unit, proc_error) res" where
  "extract_loop cwd destPath [] eof t = (t, if eof then Ok () else Err (PackageIOError ''broken archive''))"
| "extract_loop cwd destPath (e # es) eof t =
     (let target = entry_target cwd destPath e in
      (case te_Type e of
         TypeDir \<Rightarrow>
           (if is_Ok (os_Stat target t) then extract_loop cwd destPath es eof t
            else
              (case os_MkdirAll target t of
                 (t', Ok _) \<Rightarrow> extract_loop cwd destPath es eof t'
               | (t', Err err) \<Rightarrow> (t', Err (os_failure err))
               | (t', Panic) \<Rightarrow> (t', Panic)))
       | TypeReg \<Rightarrow>
           (case os_OpenFile target t of
              (t', Ok _) \<Rightarrow>
                (let t'' = write_start target (te_Content e) t' in
                 if te_ContentOk e then extract_loop cwd destPath es eof t''
                 else (t'', Err (PackageIOError ''unexpected end'')))
            | (t', Err err) \<Rightarrow> (t', Err (os_failure err))
            | (t', Panic) \<Rightarrow> (t', Panic))
       | TypeOther \<Rightarrow> extract_loop cwd destPath es eof t))"

definition extractTarGz ::
  "'n web_env \<Rightarrow> string \<Rightarrow> string \<Rightarrow> fs \<Rightarrow> fs \<times> (unit, proc_error) res"
where
  "extractTarGz V tarPath destPath t =
     (case os_Stat (locate (wv_cwd V) tarPath) t of
        Ok (FileNode c) \<Rightarrow>
          (case wv_tar V c of
             None \<Rightarrow> (t, Err (PackageIOError ''not gzip''))
           | Some (entries, eof) \<Rightarrow> extract_loop (wv_cwd V) destPath entries eof t)
      | Ok DirNode \<Rightarrow> (t, Err (os_failure IsDirectory))
      | Err e \<Rightarrow> (t, Err (os_failure e))
      | Panic \<Rightarrow> (t, Panic))"

text \<open>The status of the answer is not looked at.\<close>

definition downloadWebBundle ::
  "'n web_env \<Rightarrow> string \<Rightarrow> string \<Rightarrow> 'n \<times> fs \<Rightarrow> ('n \<times> fs) \<times> (unit, proc_error) res"
where
  "downloadWebBundle V downloadURL tmpFile w =
     (case wv_Get V downloadURL (fst w) of
        (n, Err e) \<Rightarrow> ((n, snd w), Err (PackageIOError e))
      | (n, Panic) \<Rightarrow> ((n, snd w), Panic)
      | (n, Ok resp) \<Rightarrow>
          (case os_Create (locate (wv_cwd V) tmpFile) (snd w) of
             (t, Ok _) \<Rightarrow>
               ((n, write_start (locate (wv_cwd V) tmpFile) (hs_Body resp) t),
                if hs_ReadFails resp then Err (PackageIOError ''unexpected end'') else Ok ())
           | (t, Err e) \<Rightarrow> ((n, t), Err (os_failure e))
           | (t, Panic) \<Rightarrow> ((n, t), Panic)))"

text \<open>\<open>os.MkdirTemp\<close> makes a directory that was not there.\<close>

definition os_MkdirTemp :: "'n web_env \<Rightarrow> 'n \<times> fs \<Rightarrow> ('n \<times> fs) \<times> (string, proc_error) res" where
  "os_MkdirTemp V w =
     (case wv_TempName V (fst w) of
        (n, None) \<Rightarrow> ((n, snd w), Err (PackageIOError ''temp''))
      | (n, Some dir) \<Rightarrow>
          (let p = locate (wv_cwd V) dir in
           if dir \<noteq> '''' \<and> fmlookup (snd w) p = None \<and> p \<noteq> [] \<and> fmlookup (snd w) (butlast p) = Some DirNode
           then ((n, fmupd p DirNode (snd w)), Ok dir)
           else ((n, snd w), Err (os_failure NotExist))))"

definition in_fs ::
  "(fs \<Rightarrow> fs \<times> ('a, proc_error) res) \<Rightarrow> 'n \<times> fs \<Rightarrow> ('n \<times> fs) \<times> ('a, proc_error) res"
where
  "in_fs f w = ((fst w, fst (f (snd w))), snd (f (snd w)))"

definition mkdir_all :: "'n web_env \<Rightarrow> string \<Rightarrow> fs \<Rightarrow> fs \<times> (unit, proc_error) res" where
  "mkdir_all V path t = lift_os (os_MkdirAll (locate (wv_cwd V) path) t)"

definition fill_bundle ::
  "'n web_env \<Rightarrow> string \<Rightarrow> string \<Rightarrow> string \<Rightarrow> 'n \<times> fs \<Rightarrow> ('n \<times> fs) \<times> (unit, proc_error) res"
where
  "fill_bundle V downloadURL bundlePath tmpFile w =
     sbind (in_fs (mkdir_all V bundlePath) w) (\<lambda>_ w.
     sbind (downloadWebBundle V downloadURL tmpFile w) (\<lambda>_ w.
       in_fs (extractTarGz V tmpFile bundlePath) w))"

text \<open>The temporary directory is removed in every case.\<close>

definition downloadAndExtractWebBundle ::
  "'n web_env \<Rightarrow> string \<Rightarrow> string \<Rightarrow> 'n \<times> fs \<Rightarrow> ('n \<times> fs) \<times> (unit, proc_error) res"
where
  "downloadAndExtractWebBundle V downloadURL bundlePath w =
     sbind (os_MkdirTemp V w) (\<lambda>tempDir w.
       (case fill_bundle V downloadURL bundlePath (path_Join [tempDir, ''bundle.tar.gz'']) w of
          ((n, t), r) \<Rightarrow> ((n, fst (os_RemoveAll (locate (wv_cwd V) tempDir) t)), r)))"

definition web_InstallPackage ::
  "'n web_env \<Rightarrow> web_package_manager \<Rightarrow> package \<Rightarrow> string \<Rightarrow> ('n \<times> fs, unit) action"
where
  "web_InstallPackage V m packageSpec version w =
     (if pkg_Driver packageSpec \<noteq> DriverTypeWeb then (w, Err (InvalidPackageDriver (pkg_Driver packageSpec)))
      else
        sbind (in_fs (mkdir_all V (webBundlePath m)) w) (\<lambda>_ w.
        sbind (w, getWebBundleConfigFromPackage packageSpec) (\<lambda>cfg w.
          downloadAndExtractWebBundle V (DownloadURL cfg) (getBundlePath m cfg version) w)))"

definition web_UninstallPackage ::
  "'n web_env \<Rightarrow> web_package_manager \<Rightarrow> package \<Rightarrow> string \<Rightarrow> ('n \<times> fs, unit) action"
where
  "web_UninstallPackage V m pkg version w =
     sbind (w, getWebBundleConfigFromPackage pkg) (\<lambda>cfg w.
       let p = locate (wv_cwd V) (getBundlePath m cfg version) in
       if os_IsNotExist (os_Stat p (snd w)) then (w, Ok ())
       else (case lift_os (os_RemoveAll p (snd w)) of (t, r) \<Rightarrow> ((fst w, t), r)))"

definition web_RestoreFromState ::
  "'n web_env \<Rightarrow> web_package_manager \<Rightarrow> (string \<times> installation) list \<Rightarrow> ('n \<times> fs, unit) action"
where
  "web_RestoreFromState V m apps w =
     restore_packages_loop DriverTypeWeb (web_InstallPackage V m) (Ok ()) apps w"

definition web_NewPackageManager :: "'n web_env \<Rightarrow> string \<Rightarrow> ('n \<times> fs) package_manager" where
  "web_NewPackageManager V path =
     (let m = web_NewPackageManager_path path in
      \<lparr>pkgm_Driver = DriverTypeWeb,
       pkgm_IsInstalled = web_IsInstalled V m,
       pkgm_InstallPackage = web_InstallPackage V m,
       pkgm_UninstallPackage = web_UninstallPackage V m,
       pkgm_RestoreFromState = web_RestoreFromState V m\<rparr>)"

section \<open>What an installation does to the file system\<close>

text \<open>
  The files of an archive, one after the other: what becomes of the file \<open>q\<close> with the content \<open>old\<close>, \<open>None\<close>
  when there is none.
\<close>

fun bundle_file :: "string list \<Rightarrow> string \<Rightarrow> tar_entry list \<Rightarrow> string list \<Rightarrow> string option \<Rightarrow> string option" where
  "bundle_file cwd dest [] q old = old"
| "bundle_file cwd dest (e # es) q old =
     bundle_file cwd dest es q
       (if te_Type e = TypeReg \<and> entry_target cwd dest e = q
        then Some (te_Content e @ drop (length (te_Content e)) (case old of None \<Rightarrow> '''' | Some c \<Rightarrow> c)) else old)"

text \<open>The tree stays a tree with every directory it has; when the loop ends, its files are those of the archive.\<close>

lemma extract_loop_tree:
  "wf_fs t \<Longrightarrow> wf_fs (fst (extract_loop cwd dest es eof t)) \<and>
    (fmlookup t q = Some DirNode \<longrightarrow> fmlookup (fst (extract_loop cwd dest es eof t)) q = Some DirNode)"
proof (induction es arbitrary: t)
  case (Cons e es)
  let ?p = "entry_target cwd dest e"
  show ?case
  proof (cases "te_Type e")
    case TypeDir
    obtain t1 r where m: "os_MkdirAll ?p t = (t1, r)" by (cases "os_MkdirAll ?p t")
    have t1: "wf_fs t1" "fmlookup t q = Some DirNode \<longrightarrow> fmlookup t1 q = Some DirNode"
      using wf_MkdirAll [OF Cons.prems, of ?p] MkdirAll_dir [of t q ?p] m by auto
    show ?thesis
      using TypeDir Cons.IH [OF Cons.prems] Cons.IH [OF t1(1)] t1 by (cases r) (simp_all add: m Let_def)
  next
    case TypeReg
    obtain t1 r where o: "os_OpenFile ?p t = (t1, r)" by (cases "os_OpenFile ?p t")
    show ?thesis
    proof (cases r)
      case (Ok u)
      note o' = o [unfolded Ok]
      have "wf_fs (write_start ?p (te_Content e) t1)"
        "fmlookup t q = Some DirNode \<longrightarrow> fmlookup (write_start ?p (te_Content e) t1) q = Some DirNode"
        using write_lookup(2) [OF Cons.prems o'] write_dir [OF Cons.prems o'] by blast+
      then show ?thesis using TypeReg Cons.IH [of "write_start ?p (te_Content e) t1"] by (simp add: o' Let_def)
    qed (use TypeReg OpenFile_fail [OF o] Cons.prems in \<open>simp_all add: o Let_def\<close>)
  next
    case TypeOther
    then show ?thesis using Cons.IH [OF Cons.prems] by simp
  qed
qed simp

lemma extract_loop_content:
  "wf_fs t \<Longrightarrow> extract_loop cwd dest es eof t = (t', Ok ()) \<Longrightarrow>
    eof \<and> file_content t' q = bundle_file cwd dest es q (file_content t q)"
proof (induction es arbitrary: t)
  case Nil
  then show ?case by (simp split: if_splits)
next
  case (Cons e es)
  let ?p = "entry_target cwd dest e"
  show ?case
  proof (cases "te_Type e")
    case TypeDir
    obtain t1 r where m: "os_MkdirAll ?p t = (t1, r)" by (cases "os_MkdirAll ?p t")
    have "wf_fs t1" "file_content t1 q = file_content t q"
      using wf_MkdirAll [OF Cons.prems(1), of ?p] MkdirAll_content [of ?p t q] m by auto
    then show ?thesis
      using TypeDir Cons.prems Cons.IH [of t] Cons.IH [of t1] by (cases r) (simp_all add: m Let_def split: if_splits)
  next
    case TypeReg
    obtain t1 r where o: "os_OpenFile ?p t = (t1, r)" by (cases "os_OpenFile ?p t")
    obtain u where r: "r = Ok u" using TypeReg Cons.prems(2) o by (cases r) (simp_all add: Let_def)
    note o' = o [unfolded r]
    have "te_ContentOk e" "extract_loop cwd dest es eof (write_start ?p (te_Content e) t1) = (t', Ok ())"
      using TypeReg Cons.prems(2) by (simp_all add: o' Let_def split: if_splits)
    then show ?thesis
      using Cons.IH [OF write_lookup(2) [OF Cons.prems(1) o', of "te_Content e"]] TypeReg
      by (simp add: write_content [OF Cons.prems(1) o'])
  next
    case TypeOther
    then show ?thesis using Cons.IH [OF Cons.prems(1)] Cons.prems(2) by simp
  qed
qed

text \<open>Where the entries go: below the directory, unless a name has a component \<open>..\<close>.\<close>

definition plain_name :: "string \<Rightarrow> bool" where
  "plain_name n \<longleftrightarrow> dotdot \<notin> set (split_byte (CHR ''/'') n)"

lemma target_below:
  assumes "dest \<noteq> ''''" and "plain_name (te_Name e)"
  shows "prefix (locate cwd dest) (entry_target cwd dest e)"
  using assms by (simp add: entry_target_def locate_Join clean_stack_no_dotdot plain_name_def)

lemma bundle_file_other:
  "(\<And>e. e \<in> set es \<Longrightarrow> te_Type e = TypeReg \<Longrightarrow> entry_target cwd dest e \<noteq> q) \<Longrightarrow>
    bundle_file cwd dest es q old = old"
  by (induction es arbitrary: old) auto

lemma target_dotdot:
  assumes "dest \<noteq> ''''" and "CHR ''/'' \<notin> set x" and "x \<notin> {'''', ''.'', dotdot}"
  shows "locate cwd (path_Join [dest, ''../'' @ x]) = butlast (locate cwd dest) @ [x]"
proof -
  have s: "split_byte (CHR ''/'') (CHR ''.'' # CHR ''.'' # CHR ''/'' # x) = [dotdot, x]"
    using split_byte_sep [of "CHR ''/''" "''..''" x] assms(2) by (simp add: dotdot_def)
  have "dotdot \<notin> set (locate cwd dest)" by (simp add: locate_def clean_stack_rooted)
  then show ?thesis
    using assms by (cases "locate cwd dest" rule: rev_cases) (auto simp: locate_Join s dotdot_def)
qed

section \<open>Installing and removing\<close>

lemma MkdirTemp_Ok:
  assumes "os_MkdirTemp V (n, t) = (w, Ok tmp)"
  shows "\<exists>n1. wv_TempName V n = (n1, Some tmp) \<and> w = (n1, fmupd (locate (wv_cwd V) tmp) DirNode t) \<and> tmp \<noteq> '''' \<and>
    fmlookup t (locate (wv_cwd V) tmp) = None \<and> locate (wv_cwd V) tmp \<noteq> [] \<and>
    fmlookup t (butlast (locate (wv_cwd V) tmp)) = Some DirNode"
  using assms by (auto simp: os_MkdirTemp_def Let_def split: prod.splits option.splits if_splits)

lemma wf_upd_dir:
  assumes "wf_fs t" and "fmlookup t p = None" and "p \<noteq> []" and "fmlookup t (butlast p) = Some DirNode"
  shows "wf_fs (fmupd p DirNode t)"
  using assms wf_fsD [OF assms(1)] by (intro wf_fsI) (auto simp: wf_fs_def split: if_splits)

abbreviation below :: "string list \<Rightarrow> string \<Rightarrow> string list \<Rightarrow> bool" where
  "below cwd d q \<equiv> prefix (locate cwd d) q"

lemma temp_file:
  assumes "tmp \<noteq> ''''"
  shows "locate cwd (path_Join [tmp, ''bundle.tar.gz'']) = locate cwd tmp @ [''bundle.tar.gz'']"
proof -
  have "split_byte (CHR ''/'') ''bundle.tar.gz'' = [''bundle.tar.gz'']" by (rule split_byte_none) simp
  then show ?thesis using assms by (simp add: locate_Join dotdot_def)
qed

text \<open>The download fills a file of the temporary directory with the body of the answer.\<close>

lemma downloadWebBundle_Ok:
  assumes "wf_fs t" and "downloadWebBundle V url f (n, t) = ((n', t'), Ok ())"
  shows "\<exists>resp. wv_Get V url n = (n', Ok resp) \<and> \<not> hs_ReadFails resp \<and> wf_fs t' \<and>
    fmlookup t' (locate (wv_cwd V) f) = Some (FileNode (hs_Body resp)) \<and>
    (\<forall>q. q \<noteq> locate (wv_cwd V) f \<longrightarrow> fmlookup t' q = fmlookup t q)"
proof -
  let ?p = "locate (wv_cwd V) f"
  obtain resp t1 where get: "wv_Get V url n = (n', Ok resp)" and c: "os_Create ?p t = (t1, Ok ())"
    and t': "t' = write_start ?p (hs_Body resp) t1" and ok: "\<not> hs_ReadFails resp"
    using assms(2) by (auto simp: downloadWebBundle_def split: prod.splits res.splits if_splits)
  obtain t0 u where o: "os_OpenFile ?p t = (t0, Ok u)" and t1: "t1 = fmupd ?p (FileNode '''') t0"
    using c by (auto simp: os_Create_def split: prod.splits res.splits)
  note open_file = OpenFile_Ok [OF assms(1) o]
  have l: "fmlookup t' q = (if q = ?p then Some (FileNode (hs_Body resp)) else fmlookup t0 q)" for q
    by (simp add: t' t1 write_start_def)
  have "t' = fmupd ?p (FileNode (hs_Body resp)) t0" by (rule fmap_eqI) (simp add: l)
  then have "wf_fs t'" using open_file by (auto intro!: wf_upd_file)
  with get ok l open_file show ?thesis by auto
qed

lemma RemoveAll_lookup: "\<not> prefix p q \<Longrightarrow> fmlookup (fst (os_RemoveAll p t)) q = fmlookup t q"
  by (simp add: os_RemoveAll_def)

text \<open>The steps of an installation that succeeds, from the inside out.\<close>

lemma mkdir_all_eqs [simp]:
  "fst (mkdir_all V d t) = fst (os_MkdirAll (locate (wv_cwd V) d) t)"
  "snd (mkdir_all V d t) = map_err os_failure (snd (os_MkdirAll (locate (wv_cwd V) d) t))"
  by (simp_all add: mkdir_all_def prod_eq_iff [symmetric] split: prod.splits) (cases "os_MkdirAll (locate (wv_cwd V) d) t"; simp)+

lemma in_fs_Ok: "in_fs f (n, t) = ((n', t'), Ok x) \<longleftrightarrow> n' = n \<and> f t = (t', Ok x)"
  by (auto simp: in_fs_def prod_eq_iff)

lemma fill_bundle_Ok:
  assumes wf: "wf_fs t" and run: "fill_bundle V url b f (n, t) = ((n', t'), Ok ())"
    and f: "fmlookup t (butlast (locate (wv_cwd V) f)) = Some DirNode"
  obtains resp entries t2 where "wv_Get V url n = (n', Ok resp)" "wv_tar V (hs_Body resp) = Some (entries, True)"
    "wf_fs t2" "fmlookup t2 (locate (wv_cwd V) b) = Some DirNode"
    "\<forall>q. q \<noteq> locate (wv_cwd V) f \<longrightarrow> file_content t2 q = file_content t q"
    "extract_loop (wv_cwd V) b entries True t2 = (t', Ok ())"
proof -
  let ?b = "locate (wv_cwd V) b" and ?f = "locate (wv_cwd V) f"
  obtain n1 t1 n2 t2 where dir: "in_fs (mkdir_all V b) (n, t) = ((n1, t1), Ok ())"
    and down: "downloadWebBundle V url f (n1, t1) = ((n2, t2), Ok ())"
    and ex: "in_fs (extractTarGz V f b) (n2, t2) = ((n', t'), Ok ())"
  proof -
    obtain w1 x where dir: "in_fs (mkdir_all V b) (n, t) = (w1, Ok x)"
      and rest: "sbind (downloadWebBundle V url f w1) (\<lambda>_ w. in_fs (extractTarGz V f b) w) = ((n', t'), Ok ())"
      by (rule sbind_OkE [OF run [unfolded fill_bundle_def]])
    obtain w2 y where "downloadWebBundle V url f w1 = (w2, Ok y)" "in_fs (extractTarGz V f b) w2 = ((n', t'), Ok ())"
      by (rule sbind_OkE [OF rest])
    with dir that show ?thesis by (cases w1; cases w2) simp
  qed
  have t1: "os_MkdirAll ?b t = (t1, Ok ())" "n1 = n"
    using dir mkdir_all_eqs [of V b t] by (cases "os_MkdirAll ?b t"; auto simp: in_fs_Ok)+
  have wf1: "wf_fs t1" using wf_MkdirAll [OF wf, of ?b] t1 by simp
  obtain resp where resp: "wv_Get V url n1 = (n2, Ok resp)" "wf_fs t2"
      "fmlookup t2 ?f = Some (FileNode (hs_Body resp))" "\<forall>q. q \<noteq> ?f \<longrightarrow> fmlookup t2 q = fmlookup t1 q"
    using downloadWebBundle_Ok [OF wf1 down] by blast
  obtain entries eof where tar: "wv_tar V (hs_Body resp) = Some (entries, eof)"
    and loop: "extract_loop (wv_cwd V) b entries eof t2 = (t', Ok ())" and n': "n' = n2"
    using ex by (auto simp: in_fs_Ok extractTarGz_def Stat_wf [OF resp(2,3)] split: option.splits prod.splits)
  have eof: "eof" using extract_loop_content [OF resp(2) loop] by simp
  have b: "fmlookup t1 ?b = Some DirNode" using MkdirAll_lookup [OF t1(1), of ?b] by simp
  have "?b \<noteq> ?f"
  proof
    assume "?b = ?f"
    then have "\<not> is_Ok (snd (downloadWebBundle V url f (n1, t1)))"
      using b by (auto simp: downloadWebBundle_def os_Create_def os_OpenFile_def split: prod.splits res.splits)
    with down show False by simp
  qed
  then have dir2: "fmlookup t2 ?b = Some DirNode" using b resp(4) by simp
  have "\<forall>q. q \<noteq> ?f \<longrightarrow> file_content t2 q = file_content t q"
    using content_of_lookup [of t2 _ t1] resp(4) MkdirAll_content [of ?b t] t1 by simp
  moreover have "wv_Get V url n = (n', Ok resp)" using resp(1) n' t1(2) by simp
  moreover have "wv_tar V (hs_Body resp) = Some (entries, True)" "extract_loop (wv_cwd V) b entries True t2 = (t', Ok ())"
    using tar loop eof by simp_all
  ultimately show ?thesis by (intro that [of resp entries t2] resp(2) dir2)
qed

lemma install_steps:
  assumes wf: "wf_fs t" and run: "web_InstallPackage V m pkg version (n, t) = ((n', t'), Ok ())"
  obtains cfg n1 tmp resp t2 t3 entries where
    "pkg_Driver pkg = DriverTypeWeb" "getWebBundleConfigFromPackage pkg = Ok cfg"
    "wv_TempName V n = (n1, Some tmp)" "wv_Get V (DownloadURL cfg) n1 = (n', Ok resp)"
    "wv_tar V (hs_Body resp) = Some (entries, True)" "wf_fs t2"
    "\<And>q. \<not> below (wv_cwd V) tmp q \<Longrightarrow> file_content t2 q = file_content t q"
    "fmlookup t2 (locate (wv_cwd V) (getBundlePath m cfg version)) = Some DirNode"
    "extract_loop (wv_cwd V) (getBundlePath m cfg version) entries True t2 = (t3, Ok ())"
    "t' = fst (os_RemoveAll (locate (wv_cwd V) tmp) t3)" "locate (wv_cwd V) tmp \<noteq> []"
proof -
  have drv: "pkg_Driver pkg = DriverTypeWeb"
    using run by (cases "pkg_Driver pkg = DriverTypeWeb") (simp_all add: web_InstallPackage_def)
  obtain t0 cfg where web: "in_fs (mkdir_all V (webBundlePath m)) (n, t) = ((n, t0), Ok ())"
    and cfg: "getWebBundleConfigFromPackage pkg = Ok cfg"
    and down: "downloadAndExtractWebBundle V (DownloadURL cfg) (getBundlePath m cfg version) (n, t0) = ((n', t'), Ok ())"
  proof -
    obtain w x where w: "in_fs (mkdir_all V (webBundlePath m)) (n, t) = (w, Ok x)"
      and rest: "sbind (w, getWebBundleConfigFromPackage pkg) (\<lambda>cfg w.
        downloadAndExtractWebBundle V (DownloadURL cfg) (getBundlePath m cfg version) w) = ((n', t'), Ok ())"
      using run drv unfolding web_InstallPackage_def by (auto elim!: sbind_OkE)
    obtain cfg where "getWebBundleConfigFromPackage pkg = Ok cfg"
      "downloadAndExtractWebBundle V (DownloadURL cfg) (getBundlePath m cfg version) w = ((n', t'), Ok ())"
      using rest by (auto elim: sbind_OkE)
    moreover obtain t0 where "w = (n, t0)" using w by (cases w) (simp add: in_fs_Ok)
    ultimately show ?thesis using that w by simp
  qed
  have t0: "wf_fs t0" "\<And>q. file_content t0 q = file_content t q"
    using web wf_MkdirAll [OF wf] MkdirAll_content mkdir_all_eqs(1) [of V "webBundlePath m" t]
    by (auto simp: in_fs_Ok)
  obtain w tmp where w: "os_MkdirTemp V (n, t0) = (w, Ok tmp)"
    and rest: "(case fill_bundle V (DownloadURL cfg) (getBundlePath m cfg version) (path_Join [tmp, ''bundle.tar.gz'']) w of
        ((n, t), r) \<Rightarrow> ((n, fst (os_RemoveAll (locate (wv_cwd V) tmp) t)), r)) = ((n', t'), Ok ())"
    by (rule sbind_OkE [OF down [unfolded downloadAndExtractWebBundle_def]])
  obtain n1 where n1: "wv_TempName V n = (n1, Some tmp)" "w = (n1, fmupd (locate (wv_cwd V) tmp) DirNode t0)"
    and tmp: "tmp \<noteq> ''''" "fmlookup t0 (locate (wv_cwd V) tmp) = None" "locate (wv_cwd V) tmp \<noteq> []"
      "fmlookup t0 (butlast (locate (wv_cwd V) tmp)) = Some DirNode"
    using MkdirTemp_Ok [OF w] by blast
  let ?t1 = "fmupd (locate (wv_cwd V) tmp) DirNode t0" and ?f = "path_Join [tmp, ''bundle.tar.gz'']"
  have wf1: "wf_fs ?t1" by (rule wf_upd_dir [OF t0(1) tmp(2,3,4)])
  note f = temp_file [OF tmp(1), of "wv_cwd V"]
  obtain t3 where fill: "fill_bundle V (DownloadURL cfg) (getBundlePath m cfg version) ?f (n1, ?t1) = ((n', t3), Ok ())"
    and t': "t' = fst (os_RemoveAll (locate (wv_cwd V) tmp) t3)"
    using rest unfolding n1(2) by (auto split: prod.splits)
  have "fmlookup ?t1 (butlast (locate (wv_cwd V) ?f)) = Some DirNode" by (simp add: f)
  then obtain resp entries t2 where fb: "wv_Get V (DownloadURL cfg) n1 = (n', Ok resp)"
    "wv_tar V (hs_Body resp) = Some (entries, True)" "wf_fs t2"
    "fmlookup t2 (locate (wv_cwd V) (getBundlePath m cfg version)) = Some DirNode"
    "\<forall>q. q \<noteq> locate (wv_cwd V) ?f \<longrightarrow> file_content t2 q = file_content ?t1 q"
    "extract_loop (wv_cwd V) (getBundlePath m cfg version) entries True t2 = (t3, Ok ())"
    by (rule fill_bundle_Ok [OF wf1 fill])
  have "file_content t2 q = file_content t q" if "\<not> below (wv_cwd V) tmp q" for q
  proof -
    have "q \<noteq> locate (wv_cwd V) ?f" "q \<noteq> locate (wv_cwd V) tmp" using that by (auto simp: f)
    then show ?thesis using fb(5) t0(2) [of q] content_of_lookup [of ?t1 q t0] by simp
  qed
  then show ?thesis by (rule that [OF drv cfg n1(1) fb(1-3) _ fb(4,6) t' tmp(3)])
qed

abbreviation bundle_dir :: "'n web_env \<Rightarrow> web_package_manager \<Rightarrow> bundle_config \<Rightarrow> string \<Rightarrow> string list" where
  "bundle_dir V m cfg version \<equiv> locate (wv_cwd V) (getBundlePath m cfg version)"

lemma RemoveAll_keeps: "\<not> prefix p q \<Longrightarrow> file_content (fst (os_RemoveAll p t)) q = file_content t q"
  by (intro content_of_lookup RemoveAll_lookup)

text \<open>
  C37: an installation that succeeds leaves the files of the archive: every file outside the temporary directory
  has the content that the entries of its name write one after the other, over what was there before, and
  is otherwise what it was; the package then counts as installed.  When no name has a component \<open>..\<close>, only
  files below the directory of the package change.
\<close>

theorem install_writes_archive:
  assumes "wf_fs t" and "web_InstallPackage V m pkg version (n, t) = ((n', t'), Ok ())"
    and "getWebBundleConfigFromPackage pkg = Ok cfg" and "getBundlePath m cfg version \<noteq> ''''"
    and "wv_TempName V n = (n1, Some tmp)" and "wv_Get V (DownloadURL cfg) n1 = (n2, Ok resp)"
    and "wv_tar V (hs_Body resp) = Some (entries, eof)" and "\<not> below (wv_cwd V) tmp q"
  shows "wf_fs t' \<and>
    file_content t' q = bundle_file (wv_cwd V) (getBundlePath m cfg version) entries q (file_content t q) \<and>
    (\<not> below (wv_cwd V) tmp (bundle_dir V m cfg version) \<longrightarrow> web_IsInstalled V m pkg version (n', t') = Ok True) \<and>
    ((\<forall>e \<in> set entries. plain_name (te_Name e)) \<longrightarrow> \<not> prefix (bundle_dir V m cfg version) q \<longrightarrow>
       file_content t' q = file_content t q)"
proof -
  let ?b = "bundle_dir V m cfg version"
  obtain t2 t3 where t2: "wf_fs t2" "file_content t2 q = file_content t q" "fmlookup t2 ?b = Some DirNode"
    and loop: "extract_loop (wv_cwd V) (getBundlePath m cfg version) entries True t2 = (t3, Ok ())"
    and t': "t' = fst (os_RemoveAll (locate (wv_cwd V) tmp) t3)" "locate (wv_cwd V) tmp \<noteq> []"
    using install_steps [OF assms(1,2)] assms(3,5-8) by (metis fst_conv snd_conv option.inject res.inject(1))
  have t3: "wf_fs t3" "fmlookup t3 ?b = Some DirNode"
    using extract_loop_tree [OF t2(1), of "wv_cwd V" "getBundlePath m cfg version" entries True ?b] loop t2(3) by auto
  have wf': "wf_fs t'" unfolding t'(1) using t3(1) t'(2) by blast
  have content: "file_content t' q =
      bundle_file (wv_cwd V) (getBundlePath m cfg version) entries q (file_content t q)"
    using extract_loop_content [OF t2(1) loop, of q] RemoveAll_keeps [OF assms(8)] t2(2) t'(1) by simp
  moreover have "web_IsInstalled V m pkg version (n', t') = Ok True" if "\<not> below (wv_cwd V) tmp ?b"
    using Stat_wf [OF wf'] RemoveAll_lookup [OF that, of t3] t3(2) t'(1) assms(3)
    by (simp add: web_IsInstalled_def os_IsNotExist_def)
  moreover have "file_content t' q = file_content t q"
    if "\<forall>e \<in> set entries. plain_name (te_Name e)" "\<not> prefix ?b q"
    unfolding content by (rule bundle_file_other) (use that target_below [OF assms(4)] in metis)
  ultimately show ?thesis using wf' by blast
qed

text \<open>
  An archive is not confined to the directory of its package: a file whose name starts with \<open>../\<close> is written
  next to that directory, over what is there.
\<close>

theorem archive_escapes:
  assumes "wf_fs t" and "web_InstallPackage V m pkg version (n, t) = ((n', t'), Ok ())"
    and "getWebBundleConfigFromPackage pkg = Ok cfg" and "getBundlePath m cfg version \<noteq> ''''"
    and "wv_TempName V n = (n1, Some tmp)" and "wv_Get V (DownloadURL cfg) n1 = (n2, Ok resp)"
    and "wv_tar V (hs_Body resp) = Some ([e], eof)" and "te_Type e = TypeReg" and "te_Name e = ''../'' @ x"
    and "CHR ''/'' \<notin> set x" and "x \<notin> {'''', ''.'', dotdot}" and "bundle_dir V m cfg version = ds @ [d]" and "x \<noteq> d"
    and "\<not> below (wv_cwd V) tmp (ds @ [x])"
  shows "file_content t' (ds @ [x]) = Some (te_Content e @ drop (length (te_Content e))
      (case file_content t (ds @ [x]) of None \<Rightarrow> '''' | Some old \<Rightarrow> old)) \<and>
    \<not> prefix (bundle_dir V m cfg version) (ds @ [x])"
proof -
  obtain t2 t3 where t2: "wf_fs t2" "file_content t2 (ds @ [x]) = file_content t (ds @ [x])"
    and loop: "extract_loop (wv_cwd V) (getBundlePath m cfg version) [e] True t2 = (t3, Ok ())"
    and t': "t' = fst (os_RemoveAll (locate (wv_cwd V) tmp) t3)"
    using install_steps [OF assms(1,2)] assms(3,5-7,14) by (metis fst_conv snd_conv option.inject res.inject(1))
  have "entry_target (wv_cwd V) (getBundlePath m cfg version) e = ds @ [x]"
    using target_dotdot [OF assms(4,10,11), of "wv_cwd V"] assms(9,12) by (simp add: entry_target_def)
  then show ?thesis
    using extract_loop_content [OF t2(1) loop, of "ds @ [x]"] RemoveAll_keeps [OF assms(14)] t2(2) t' assms(8,12,13)
    by (simp add: prefix_def)
qed

text \<open>Making a directory that is there changes nothing.\<close>

lemma MkdirAll_there:
  assumes "wf_fs t" and "fmlookup t p = Some DirNode"
  shows "os_MkdirAll p t = (t, Ok ())"
proof -
  have dir: "fmlookup t q = Some DirNode" if "prefix q p" for q
    using that assms dirs_above [OF assms(1), of p q] by (cases "q = p") (auto simp: strict_prefix_def)
  then have "fold (\<lambda>q. fmupd q DirNode) (prefixes p) t = t"
    by (intro fmap_eqI) (simp add: lookup_fold)
  with dir show ?thesis by (auto simp: os_MkdirAll_def list_ex_iff)
qed

text \<open>Filling the directory of a package from a download that fails or is no archive.\<close>

lemma fill_bundle_fails:
  assumes "os_MkdirAll (bundle_dir V m cfg version) t1 = (t2, Ok ())" and "wf_fs t2"
    and "fmlookup t2 (bundle_dir V m cfg version) = Some DirNode"
    and "locate (wv_cwd V) g = p @ [x]" and "fmlookup t2 p = Some DirNode" and "fmlookup t2 (p @ [x]) = None"
    and "wv_Get V (DownloadURL cfg) n1 = (n2, r)"
    and "\<And>resp. r = Ok resp \<Longrightarrow> hs_ReadFails resp \<or> wv_tar V (hs_Body resp) = None" and "r \<noteq> Panic"
  shows "\<exists>t3 e. fill_bundle V (DownloadURL cfg) (getBundlePath m cfg version) g (n1, t1) = ((n2, t3), Err e) \<and>
    wf_fs t3 \<and> fmlookup t3 (bundle_dir V m cfg version) = Some DirNode"
proof (cases r)
  case (Err e)
  then show ?thesis using assms(2,3) by (simp add: fill_bundle_def in_fs_def assms(1) downloadWebBundle_def assms(7))
next
  case (Ok resp)
  have "\<not> is_file (fmlookup t2 q)" if "prefix q p" for q
    using that assms(5) dirs_above [OF assms(2), of p q] by (cases "q = p") (auto simp: strict_prefix_def)
  then have above: "\<not> file_above t2 (p @ [x])" by (auto simp: file_above_def list_ex_iff)
  let ?t3 = "fmupd (p @ [x]) (FileNode (hs_Body resp))
    (fmupd (p @ [x]) (FileNode '''') (fmupd (p @ [x]) (FileNode '''') t2))"
  have down: "downloadWebBundle V (DownloadURL cfg) g (n1, t2) =
      ((n2, ?t3), if hs_ReadFails resp then Err (PackageIOError ''unexpected end'') else Ok ())"
    by (simp add: downloadWebBundle_def assms(4,5,6,7) Ok os_Create_def os_OpenFile_def above write_start_def)
  have "?t3 = fmupd (p @ [x]) (FileNode (hs_Body resp)) t2" by (rule fmap_eqI) simp
  then have wf3: "wf_fs ?t3" using assms(2,5,6) by (simp add: wf_upd_file)
  moreover have "fmlookup ?t3 (bundle_dir V m cfg version) = Some DirNode" using assms(3,6) by auto
  moreover have "extractTarGz V g (getBundlePath m cfg version) ?t3 = (?t3, Err (PackageIOError ''not gzip''))"
    if "\<not> hs_ReadFails resp"
    using Stat_wf [OF wf3, of "p @ [x]"] assms(8) [OF Ok] that by (simp add: extractTarGz_def assms(4))
  ultimately show ?thesis by (simp add: fill_bundle_def in_fs_def assms(1) down)
qed (use assms(9) in simp)

text \<open>
  A failed download is not noticed later: when the archive cannot be fetched, breaks off, or is another text
  (the status of the answer is not looked at), the installation fails, but the directory of the package
  stays, and the package counts as installed.
\<close>

theorem failed_install_looks_installed:
  assumes "wf_fs t" and "pkg_Driver pkg = DriverTypeWeb" and "getWebBundleConfigFromPackage pkg = Ok cfg"
    and "fmlookup t (locate (wv_cwd V) (webBundlePath m)) = Some DirNode"
    and "\<And>q. prefix q (bundle_dir V m cfg version) \<Longrightarrow> \<not> is_file (fmlookup t q)"
    and "wv_TempName V n = (n1, Some tmp)" and "tmp \<noteq> ''''" and "locate (wv_cwd V) tmp \<noteq> []"
    and "fmlookup t (locate (wv_cwd V) tmp) = None" and "fmlookup t (butlast (locate (wv_cwd V) tmp)) = Some DirNode"
    and "\<not> below (wv_cwd V) tmp (bundle_dir V m cfg version)"
    and "wv_Get V (DownloadURL cfg) n1 = (n2, r)"
    and "\<And>resp. r = Ok resp \<Longrightarrow> hs_ReadFails resp \<or> wv_tar V (hs_Body resp) = None" and "r \<noteq> Panic"
  shows "\<exists>t' e. web_InstallPackage V m pkg version (n, t) = ((n2, t'), Err e) \<and>
    web_IsInstalled V m pkg version (n2, t') = Ok True"
proof -
  let ?b = "bundle_dir V m cfg version" and ?tmp = "locate (wv_cwd V) tmp"
  let ?f = "path_Join [tmp, ''bundle.tar.gz'']" and ?t1 = "fmupd ?tmp DirNode t"
  have f: "locate (wv_cwd V) ?f = ?tmp @ [''bundle.tar.gz'']" by (rule temp_file) (rule assms(7))
  have wf1: "wf_fs ?t1" by (rule wf_upd_dir [OF assms(1,9,8,10)])
  obtain t2 where t2: "os_MkdirAll ?b ?t1 = (t2, Ok ())"
    using assms(5) by (auto simp: os_MkdirAll_def list_ex_iff)
  then have b: "fmlookup t2 ?b = Some DirNode" and wf2: "wf_fs t2"
    and tmp2: "fmlookup t2 ?tmp = Some DirNode"
    using MkdirAll_lookup [OF t2] wf_MkdirAll [OF wf1, of ?b] by auto
  have none: "fmlookup t2 (?tmp @ [''bundle.tar.gz'']) = None"
  proof -
    have "fmlookup t (?tmp @ [''bundle.tar.gz'']) = None" using wf_fsD [OF assms(1)] assms(9) by fastforce
    moreover have "\<not> prefix (?tmp @ [''bundle.tar.gz'']) ?b" using assms(11) append_prefixD by blast
    ultimately show ?thesis using MkdirAll_lookup [OF t2] by simp
  qed
  obtain t3 e where fill: "fill_bundle V (DownloadURL cfg) (getBundlePath m cfg version) ?f (n1, ?t1) =
    ((n2, t3), Err e)" "wf_fs t3" "fmlookup t3 ?b = Some DirNode"
    using fill_bundle_fails [OF t2 wf2 b f tmp2 none assms(12-14)] by blast
  let ?t' = "fst (os_RemoveAll ?tmp t3)"
  have "web_InstallPackage V m pkg version (n, t) = ((n2, ?t'), Err e)"
    using fill(1) by (simp add: web_InstallPackage_def assms(2,3) in_fs_def MkdirAll_there [OF assms(1,4)]
        downloadAndExtractWebBundle_def os_MkdirTemp_def assms(6-10))
  moreover have "web_IsInstalled V m pkg version (n2, ?t') = Ok True"
    using Stat_wf [OF wf_RemoveAll [OF fill(2) assms(8)], of ?b] RemoveAll_lookup [OF assms(11), of t3] fill(3) assms(3)
    by (simp add: web_IsInstalled_def os_IsNotExist_def)
  ultimately show ?thesis by blast
qed

text \<open>Removing a package removes its directory and nothing else.\<close>

lemma uninstall_removes_exactly:
  assumes "wf_fs t" and "web_UninstallPackage V m pkg version (n, t) = ((n', t'), Ok ())"
    and "getWebBundleConfigFromPackage pkg = Ok cfg"
  shows "web_IsInstalled V m pkg version (n', t') = Ok False"
    and "\<not> prefix (bundle_dir V m cfg version) q \<Longrightarrow> fmlookup t' q = fmlookup t q"
    and "prefix (bundle_dir V m cfg version) q \<Longrightarrow> fmlookup t' q = None"
proof -
  let ?b = "bundle_dir V m cfg version"
  note run = assms(2) [unfolded web_UninstallPackage_def assms(3) sbind.simps Let_def]
  consider (absent) "os_Stat ?b t = Err NotExist" "t' = t" | (removed) "os_RemoveAll ?b t = (t', Ok ())"
    using run by (cases "os_RemoveAll ?b t"; cases "snd (os_RemoveAll ?b t)")
      (auto simp: os_IsNotExist_def split: if_splits)
  then have "os_Stat ?b t' = Err NotExist \<and> (\<not> prefix ?b q \<longrightarrow> fmlookup t' q = fmlookup t q) \<and>
    (prefix ?b q \<longrightarrow> fmlookup t' q = None)"
  proof cases
    case absent
    then have none: "fmlookup t ?b = None"
      by (cases "fmlookup t ?b") (auto simp: os_Stat_def split: if_splits)
    have "fmlookup t q = None" if "prefix ?b q"
      using none dirs_above [OF assms(1), of q ?b] that
      by (cases "q = ?b"; cases "fmlookup t q") (auto simp: strict_prefix_def)
    with absent show ?thesis by auto
  next
    case removed
    then have "\<not> file_above t ?b" and t': "t' = fmfilter (\<lambda>q. \<not> prefix ?b q) t"
      by (auto simp: os_RemoveAll_def split: if_splits)
    then have "\<not> file_above t' ?b" by (auto simp: file_above_def list_ex_iff split: if_splits)
    with t' show ?thesis by (simp add: os_Stat_def)
  qed
  then show "web_IsInstalled V m pkg version (n', t') = Ok False"
    and "\<not> prefix ?b q \<Longrightarrow> fmlookup t' q = fmlookup t q" and "prefix ?b q \<Longrightarrow> fmlookup t' q = None"
    using assms(3) by (simp_all add: web_IsInstalled_def os_IsNotExist_def)
qed

text \<open>An instance for the witnesses: a tree with a web and a temporary directory, and one archive.\<close>

definition demo_archive :: "string \<Rightarrow> tar_entry list" where
  "demo_archive name = [\<lparr>te_Name = name, te_Type = TypeReg, te_Content = ''hi'', te_ContentOk = True\<rparr>]"

text \<open>Asking for the archive gives an archive whose single file has the name that is asked for.\<close>

definition demo_web :: "unit web_env" where
  "demo_web =
     \<lparr>wv_Get = (\<lambda>u n. (n, Ok \<lparr>hs_StatusCode = 200, hs_Header = fmempty, hs_Body = u, hs_ReadFails = False\<rparr>)),
      wv_TempName = (\<lambda>n. (n, Some ''/t/x'')), wv_tar = (\<lambda>s. if s = '''' then None else Some (demo_archive s, True)),
      wv_cwd = []\<rparr>"

definition demo_tree :: fs where
  "demo_tree = fmap_of_list [([], DirNode), ([''t''], DirNode), ([''w''], DirNode)]"

definition demo_manager :: web_package_manager where "demo_manager = web_NewPackageManager_path ''/w''"

definition demo_package :: "string \<Rightarrow> package" where
  "demo_package url =
     \<lparr>pkg_Driver = DriverTypeWeb,
      pkg_DriverConfig = Some (fmap_of_list [(''download_url'', JStr url), (''bundle_directory_name'', JStr ''app'')]),
      pkg_RegistryURLBase = '''', pkg_RegistryPackageID = '''', pkg_RegistryPackageTag = ''''\<rparr>"

lemma demo_config: "getWebBundleConfigFromPackage (demo_package url) = Ok \<lparr>DownloadURL = url, BundleDirectoryName = ''app''\<rparr>"
  by (simp add: getWebBundleConfigFromPackage_def demo_package_def dec_field_def)

lemma demo_paths:
  "getBundlePath demo_manager \<lparr>DownloadURL = url, BundleDirectoryName = ''app''\<rparr> ''1'' = ''/w/app/1''"
  "locate [] ''/w/app/1'' = [''w'', ''app'', ''1'']" "locate [] ''/w'' = [''w'']" "locate [] ''/t/x'' = [''t'', ''x'']"
  by (simp_all add: getBundlePath_def demo_manager_def web_NewPackageManager_path_def path_Join_def path_Clean_def
      is_rooted_def HasPrefix_def split_byte_def locate_def dotdot_def)

lemma demo_tree_wf: "wf_fs demo_tree"
  by (rule wf_fsI) (auto simp: demo_tree_def split: if_splits)

lemma demo_targets:
  "entry_target [] ''/w/app/1'' \<lparr>te_Name = ''f'', te_Type = TypeReg, te_Content = c, te_ContentOk = True\<rparr> =
    [''w'', ''app'', ''1'', ''f'']"
  "entry_target [] ''/w/app/1'' \<lparr>te_Name = ''../f'', te_Type = TypeReg, te_Content = c, te_ContentOk = True\<rparr> =
    [''w'', ''app'', ''f'']"
  using demo_paths(2)
  by (simp_all add: entry_target_def locate_Join) (simp_all add: split_byte_def dotdot_def)

lemma demo_install:
  assumes "name \<in> {''f'', ''../f''}"
  shows "\<exists>t'. web_InstallPackage demo_web demo_manager (demo_package name) ''1'' ((), demo_tree) = (((), t'), Ok ())"
proof -
  have t: "locate [] (path_Join [''/t/x'', ''bundle.tar.gz'']) = [''t'', ''x'', ''bundle.tar.gz'']"
    by (simp add: temp_file demo_paths)
  have "webBundlePath demo_manager = ''/w''" "wv_cwd demo_web = []" "pkg_Driver (demo_package name) = DriverTypeWeb"
    by (simp_all add: demo_manager_def web_NewPackageManager_path_def demo_web_def demo_package_def)
  note eqs = this demo_config demo_paths demo_targets t
  have tree: "fmlookup demo_tree p = (if p \<in> {[], [''t''], [''w'']} then Some DirNode else None)" for p
    by (simp add: demo_tree_def)
  show ?thesis
    using assms
    by (auto simp: eqs web_InstallPackage_def in_fs_def os_MkdirAll_def tree downloadAndExtractWebBundle_def
        os_MkdirTemp_def fill_bundle_def downloadWebBundle_def os_Create_def os_OpenFile_def file_above_def
        extractTarGz_def os_Stat_def demo_archive_def write_start_def)
       (simp_all add: demo_web_def eqs tree file_above_def os_OpenFile_def os_Create_def extractTarGz_def os_Stat_def
        write_start_def demo_archive_def)
qed

lemma demo_env_eqs:
  "wv_TempName demo_web () = ((), Some ''/t/x'')" "wv_cwd demo_web = []"
  "wv_Get demo_web u () = ((), Ok \<lparr>hs_StatusCode = 200, hs_Header = fmempty, hs_Body = u, hs_ReadFails = False\<rparr>)"
  "u \<noteq> '''' \<Longrightarrow> wv_tar demo_web u = Some (demo_archive u, True)" "wv_tar demo_web '''' = None"
  "webBundlePath demo_manager = ''/w''" "pkg_Driver (demo_package u) = DriverTypeWeb"
  by (simp_all add: demo_web_def demo_manager_def web_NewPackageManager_path_def demo_package_def)

lemma install_writes_archive_witness:
  "\<exists>t'. web_InstallPackage demo_web demo_manager (demo_package ''f'') ''1'' ((), demo_tree) = (((), t'), Ok ()) \<and>
    wf_fs t' \<and> file_content t' [''w'', ''app'', ''1'', ''f''] = Some ''hi'' \<and>
    web_IsInstalled demo_web demo_manager (demo_package ''f'') ''1'' ((), t') = Ok True \<and>
    file_content t' [''w'', ''other''] = file_content demo_tree [''w'', ''other'']"
proof -
  obtain t' where run: "web_InstallPackage demo_web demo_manager (demo_package ''f'') ''1'' ((), demo_tree) = (((), t'), Ok ())"
    using demo_install [of "''f''"] by auto
  have tree: "file_content demo_tree [''w'', ''app'', ''1'', ''f''] = None" by (simp add: file_content_def demo_tree_def)
  have tar: "wv_tar demo_web (hs_Body \<lparr>hs_StatusCode = 200, hs_Header = fmempty, hs_Body = ''f'', hs_ReadFails = False\<rparr>) =
    Some (demo_archive ''f'', True)" by (simp add: demo_env_eqs)
  have path: "getBundlePath demo_manager \<lparr>DownloadURL = ''f'', BundleDirectoryName = ''app''\<rparr> ''1'' \<noteq> ''''"
    by (simp add: demo_paths)
  have get: "wv_Get demo_web (DownloadURL \<lparr>DownloadURL = ''f'', BundleDirectoryName = ''app''\<rparr>) () =
    ((), Ok \<lparr>hs_StatusCode = 200, hs_Header = fmempty, hs_Body = ''f'', hs_ReadFails = False\<rparr>)"
    by (simp add: demo_env_eqs)
  note writes = install_writes_archive [OF demo_tree_wf run demo_config path demo_env_eqs(1) get tar]
  have "plain_name ''f''" by (simp add: plain_name_def dotdot_def split_byte_def)
  then show ?thesis
    using run tree writes [of "[''w'', ''app'', ''1'', ''f'']"] writes [of "[''w'', ''other'']"]
    by (auto simp: demo_env_eqs demo_paths demo_archive_def demo_targets)
qed

lemma archive_escapes_witness:
  "\<exists>t'. web_InstallPackage demo_web demo_manager (demo_package ''../f'') ''1'' ((), demo_tree) = (((), t'), Ok ()) \<and>
    file_content t' [''w'', ''app'', ''f''] = Some ''hi'' \<and> \<not> prefix [''w'', ''app'', ''1''] [''w'', ''app'', ''f'']"
proof -
  obtain t' where run: "web_InstallPackage demo_web demo_manager (demo_package ''../f'') ''1'' ((), demo_tree) = (((), t'), Ok ())"
    using demo_install [of "''../f''"] by auto
  have tree: "file_content demo_tree [''w'', ''app'', ''f''] = None" by (simp add: file_content_def demo_tree_def)
  let ?e = "\<lparr>te_Name = ''../f'', te_Type = TypeReg, te_Content = ''hi'', te_ContentOk = True\<rparr>"
  have tar: "wv_tar demo_web (hs_Body \<lparr>hs_StatusCode = 200, hs_Header = fmempty, hs_Body = ''../f'', hs_ReadFails = False\<rparr>) =
    Some ([?e], True)" by (simp add: demo_env_eqs demo_archive_def)
  have path: "getBundlePath demo_manager \<lparr>DownloadURL = ''../f'', BundleDirectoryName = ''app''\<rparr> ''1'' \<noteq> ''''"
    by (simp add: demo_paths)
  have get: "wv_Get demo_web (DownloadURL \<lparr>DownloadURL = ''../f'', BundleDirectoryName = ''app''\<rparr>) () =
    ((), Ok \<lparr>hs_StatusCode = 200, hs_Header = fmempty, hs_Body = ''../f'', hs_ReadFails = False\<rparr>)"
    by (simp add: demo_env_eqs)
  show ?thesis
    using run tree archive_escapes [OF demo_tree_wf run demo_config path demo_env_eqs(1) get tar, of "''f''" "[''w'', ''app'']" "''1''"]
    by (simp add: demo_env_eqs demo_paths dotdot_def)
qed

lemma failed_install_looks_installed_witness:
  "\<exists>t' e. web_InstallPackage demo_web demo_manager (demo_package '''') ''1'' ((), demo_tree) = (((), t'), Err e) \<and>
    web_IsInstalled demo_web demo_manager (demo_package '''') ''1'' ((), t') = Ok True"
proof -
  have get: "wv_Get demo_web (DownloadURL \<lparr>DownloadURL = '''', BundleDirectoryName = ''app''\<rparr>) () =
    ((), Ok \<lparr>hs_StatusCode = 200, hs_Header = fmempty, hs_Body = '''', hs_ReadFails = False\<rparr>)"
    by (simp add: demo_env_eqs)
  have tree: "fmlookup demo_tree p = (if p \<in> {[], [''t''], [''w'']} then Some DirNode else None)" for p
    by (simp add: demo_tree_def)
  show ?thesis
    by (rule failed_install_looks_installed [OF demo_tree_wf demo_env_eqs(7) demo_config _ _ demo_env_eqs(1) _ _ _ _ _ get])
      (auto simp: demo_env_eqs demo_paths tree)
qed

end
