(* ===== verification/NodeState.thy ===== *)
theory NodeState
  imports AppTypes
begin

text \<open>
  \<open>internal/node/state/state.go\<close>: the struct \<open>NodeState\<close>, its JSON document, copying and queries.
  The four maps are under \<open>option\<close> because the code distinguishes nil maps: a nil map is encoded as
  \<open>null\<close>, cannot be written to, and a patch cannot add a member below it.  Queries that iterate a map
  take the order of iteration (the list \<open>ps\<close>) as an argument.
\<close>

record node_state =
  NodeID :: string
  node_Name :: string
  Certificate :: string
  SchemaVersion :: string
  TestField :: string
  Users :: "(string, user) fmap option"
  Processes :: "(process_id, process) fmap option"
  AppInstallations :: "(string, installation) fmap option"
  ReverseProxyRules :: "(string, rule) fmap option"

text \<open>Reading a Go map: a nil map reads as an empty one.\<close>

fun entries :: "('k, 'v) fmap option \<Rightarrow> ('k, 'v) fmap" where
  "entries None = fmempty"
| "entries (Some m) = m"

abbreviation lookup_in :: "('k, 'v) fmap option \<Rightarrow> 'k \<Rightarrow> 'v option" where
  "lookup_in m k \<equiv> fmlookup (entries m) k"

definition zero_state :: node_state where
  "zero_state =
     \<lparr>NodeID = '''', node_Name = '''', Certificate = '''', SchemaVersion = '''', TestField = '''',
      Users = None, Processes = None, AppInstallations = None, ReverseProxyRules = None\<rparr>"

section \<open>Encoding\<close>

definition state_members :: "node_state \<Rightarrow> (string \<times> json) list" where
  "state_members s =
     [(''node_id'', JStr (NodeID s)), (''name'', JStr (node_Name s)),
      (''certificate'', JStr (Certificate s)), (''schema_version'', JStr (SchemaVersion s)),
      (''users'', enc_map enc_user (Users s)),
      (''processes'', enc_map enc_process (Processes s)),
      (''app_installations'', enc_map enc_installation (AppInstallations s)),
      (''reverse_proxy_rules'', enc_map enc_rule (ReverseProxyRules s))]
     @ enc_omitempty ''test_field'' (TestField s)"

definition Bytes :: "node_state \<Rightarrow> json" where
  "Bytes s = JObj (fmap_of_list (state_members s))"

fun FromBytes :: "json \<Rightarrow> (node_state, decode_error) res" where
  "FromBytes (JObj m) =
     bind_res (dec_str m ''node_id'') (\<lambda>i.
     bind_res (dec_str m ''name'') (\<lambda>n.
     bind_res (dec_str m ''certificate'') (\<lambda>c.
     bind_res (dec_str m ''schema_version'') (\<lambda>v.
     bind_res (dec_str m ''test_field'') (\<lambda>t.
     bind_res (dec_map dec_user (fmlookup m ''users'')) (\<lambda>us.
     bind_res (dec_map dec_process (fmlookup m ''processes'')) (\<lambda>ps.
     bind_res (dec_map dec_installation (fmlookup m ''app_installations'')) (\<lambda>as.
     bind_res (dec_map dec_rule (fmlookup m ''reverse_proxy_rules'')) (\<lambda>rs.
       Ok \<lparr>NodeID = i, node_Name = n, Certificate = c, SchemaVersion = v, TestField = t,
           Users = us, Processes = ps, AppInstallations = as, ReverseProxyRules = rs\<rparr>)))))))))"
| "FromBytes JNull = Ok zero_state"
| "FromBytes _ = Err NotAnObject"

definition Copy :: "node_state \<Rightarrow> (node_state, decode_error) res" where
  "Copy s = FromBytes (Bytes s)"

section \<open>Queries\<close>

datatype query_error = AppNotFound string | ProcessNotFound process_id

definition GetAppByID :: "node_state \<Rightarrow> string \<Rightarrow> (installation, query_error) res" where
  "GetAppByID s appID = ok_or (AppNotFound appID) (lookup_in (AppInstallations s) appID)"

definition GetAppsForUser :: "(string \<times> installation) list \<Rightarrow> string \<Rightarrow> installation list" where
  "GetAppsForUser ps userID = filter (\<lambda>a. app_UserID a = userID) (map snd ps)"

definition GetProcessesForUser :: "(process_id \<times> process) list \<Rightarrow> string \<Rightarrow> process list" where
  "GetProcessesForUser ps userID = filter (\<lambda>p. proc_UserID p = userID) (map snd ps)"

definition GetReverseProxyRulesForProcess ::
  "node_state \<Rightarrow> (string \<times> rule) list \<Rightarrow> process_id \<Rightarrow> (rule list, query_error) res"
where
  "GetReverseProxyRulesForProcess s ps pid =
     bind_res (ok_or (ProcessNotFound pid) (lookup_in (Processes s) pid)) (\<lambda>p.
     bind_res (ok_or (AppNotFound (proc_AppID p)) (lookup_in (AppInstallations s) (proc_AppID p)))
       (\<lambda>a. Ok (filter (\<lambda>r. rule_AppID r = app_ID a) (map snd ps))))"

definition RootUserID :: string where "RootUserID = ''0''"
definition RootUsername :: string where "RootUsername = ''root''"

text \<open>Writing to the nil map of users panics.\<close>

definition SetRootUserCert :: "node_state \<Rightarrow> string \<Rightarrow> (node_state, 'e) res" where
  "SetRootUserCert s rootUserCert =
     (case Users s of
        None \<Rightarrow> Panic
      | Some us \<Rightarrow>
          Ok (s\<lparr>Users := Some (fmupd RootUserID
                 \<lparr>user_ID = RootUserID, user_Username = RootUsername, user_DID = ''''\<rparr> us)\<rparr>))"

section \<open>Lemmas\<close>

text \<open>The members of the document of a state, one equation per struct field.\<close>

lemma state_members_lookup [simp]:
  "map_of (state_members s) ''node_id'' = Some (JStr (NodeID s))"
  "map_of (state_members s) ''name'' = Some (JStr (node_Name s))"
  "map_of (state_members s) ''certificate'' = Some (JStr (Certificate s))"
  "map_of (state_members s) ''schema_version'' = Some (JStr (SchemaVersion s))"
  "map_of (state_members s) ''users'' = Some (enc_map enc_user (Users s))"
  "map_of (state_members s) ''processes'' = Some (enc_map enc_process (Processes s))"
  "map_of (state_members s) ''app_installations'' =
     Some (enc_map enc_installation (AppInstallations s))"
  "map_of (state_members s) ''reverse_proxy_rules'' =
     Some (enc_map enc_rule (ReverseProxyRules s))"
  "map_of (state_members s) ''test_field'' =
     (if TestField s = '''' then None else Some (JStr (TestField s)))"
  by (simp_all add: state_members_def enc_omitempty_def)


lemma FromBytes_Bytes [simp]: "FromBytes (Bytes s) = Ok s"
  by (simp add: Bytes_def dec_str_def fmap_of_list.rep_eq)

lemma Bytes_not_null [simp]: "Bytes s \<noteq> JNull"
  by (simp add: Bytes_def)

lemma Bytes_inject: "Bytes s = Bytes t \<Longrightarrow> s = t"
  by (metis FromBytes_Bytes res.inject(1))

text \<open>
  What a decoded document looks like: each map of the state is the decoding of one member.
\<close>

lemma FromBytes_OkE:
  assumes "FromBytes d = Ok s"
  obtains (null) "d = JNull" and "s = zero_state"
    | (obj) m where "d = JObj m"
      and "dec_str m ''node_id'' = Ok (NodeID s)" and "dec_str m ''name'' = Ok (node_Name s)"
      and "dec_str m ''certificate'' = Ok (Certificate s)"
      and "dec_str m ''schema_version'' = Ok (SchemaVersion s)"
      and "dec_str m ''test_field'' = Ok (TestField s)"
      and "dec_map dec_user (fmlookup m ''users'') = Ok (Users s)"
      and "dec_map dec_process (fmlookup m ''processes'') = Ok (Processes s)"
      and "dec_map dec_installation (fmlookup m ''app_installations'') = Ok (AppInstallations s)"
      and "dec_map dec_rule (fmlookup m ''reverse_proxy_rules'') = Ok (ReverseProxyRules s)"
  using assms by (cases d) (auto simp: bind_res_Ok_iff)

lemma FromBytes_objI:
  assumes "dec_str m ''node_id'' = Ok (NodeID s)" and "dec_str m ''name'' = Ok (node_Name s)"
      and "dec_str m ''certificate'' = Ok (Certificate s)"
      and "dec_str m ''schema_version'' = Ok (SchemaVersion s)"
      and "dec_str m ''test_field'' = Ok (TestField s)"
      and "dec_map dec_user (fmlookup m ''users'') = Ok (Users s)"
      and "dec_map dec_process (fmlookup m ''processes'') = Ok (Processes s)"
      and "dec_map dec_installation (fmlookup m ''app_installations'') = Ok (AppInstallations s)"
      and "dec_map dec_rule (fmlookup m ''reverse_proxy_rules'') = Ok (ReverseProxyRules s)"
  shows "FromBytes (JObj m) = Ok s"
  using assms by simp

lemma GetReverseProxyRules_Ok_iff:
  assumes "values_list (entries (ReverseProxyRules s)) ps"
    and "GetReverseProxyRulesForProcess s ps pid = Ok rs"
  shows "r \<in> set rs \<longleftrightarrow>
     (\<exists>p a k. lookup_in (Processes s) pid = Some p \<and>
        lookup_in (AppInstallations s) (proc_AppID p) = Some a \<and>
        lookup_in (ReverseProxyRules s) k = Some r \<and> rule_AppID r = app_ID a)"
proof -
  from assms(2) obtain p a where "lookup_in (Processes s) pid = Some p"
    and "lookup_in (AppInstallations s) (proc_AppID p) = Some a"
    and rs: "rs = filter (\<lambda>r. rule_AppID r = app_ID a) (map snd ps)"
    by (auto simp: GetReverseProxyRulesForProcess_def bind_res_Ok_iff)
  moreover have "r \<in> snd ` set ps \<longleftrightarrow> (\<exists>k. lookup_in (ReverseProxyRules s) k = Some r)"
    using values_listD [OF assms(1)] by force
  ultimately show ?thesis by auto
qed

end
