(* ===== verification/SchemaVersion.thy ===== *)
theory SchemaVersion
  imports NodeState "HOL-Library.Char_ord" "HOL-Library.List_Lexorder"
begin

text \<open>
  The versioned JSON schema of the node state: \<open>internal/node/state/schema.go\<close>, the schema part of
  \<open>migrations.go\<close> and \<open>NodeState.Validate\<close>.

  The record \<open>env\<close> collects what the state component takes from outside the repository:
  \<open>golang.org/x/mod/semver\<close>, the two JSON patch libraries, \<open>github.com/qri-io/jsonschema\<close> and the
  files embedded at build time.  \<open>jsonschema_Compile E s\<close> is \<open>None\<close> when \<open>s\<close> is not a JSON schema, else
  the validator, which returns \<open>None\<close> when validation itself fails and otherwise the list of key errors.
\<close>

record migration =
  mig_OldVersion :: string
  mig_NewVersion :: string
  mig_Up :: "patch_op list"
  mig_Down :: "patch_op list"

text \<open>An embedded file: its content is \<open>None\<close> when it cannot be read or is not a migration.\<close>

record dir_entry =
  entry_Name :: string
  entry_IsDir :: bool
  entry_Content :: "migration option"

record env =
  semver_Compare :: "string \<Rightarrow> string \<Rightarrow> int"
  jsonpatch_Apply :: patch_apply
  jsonpatch_Decode :: "string list \<Rightarrow> patch_op list \<Rightarrow> patch_op list option"
  jsondiff_Compare :: json_diff
  jsonschema_Compile :: "json \<Rightarrow> (json \<Rightarrow> string list option) option"
  migrations_dir :: "dir_entry list"
  range_apps :: "(string, installation) fmap \<Rightarrow> (string \<times> installation) list"
  range_rules :: "(string, rule) fmap \<Rightarrow> (string \<times> rule) list"

text \<open>
  \<open>range_apps\<close> and \<open>range_rules\<close> are the orders in which \<open>range\<close> visits a map, for the two loops of the
  transitions whose outcome may depend on it; Go promises no more than that each entry is visited once.
\<close>

definition range_laws :: "env \<Rightarrow> bool" where
  "range_laws E \<longleftrightarrow>
     (\<forall>m. values_list m (range_apps E m)) \<and> (\<forall>m. values_list m (range_rules E m))"

datatype schema_error =
    ReadMigrationFailed string
  | SchemaPatchFailed
  | TargetVersionNotFound string string
  | TargetNotInMigrations string
  | InvalidJSONSchema
  | ValidateBytesFailed
  | KeyError string
  | StateDecode decode_error
  | SchemaDiffFailed
  | SchemasNotEqual "patch_op list"

section \<open>Reading the schema migrations\<close>

fun read_entries :: "dir_entry list \<Rightarrow> (migration list, schema_error) res" where
  "read_entries [] = Ok []"
| "read_entries (f # fs) =
     (if entry_IsDir f then read_entries fs
      else if \<not> HasSuffix (entry_Name f) ''.json'' then read_entries fs
      else
        bind_res (ok_or (ReadMigrationFailed (entry_Name f)) (entry_Content f)) (\<lambda>m.
        bind_res (read_entries fs) (\<lambda>ms. Ok (m # ms))))"

definition readSchemaMigrationFiles :: "env \<Rightarrow> (migration list, schema_error) res" where
  "readSchemaMigrationFiles E = read_entries (migrations_dir E)"

text \<open>The loop of \<open>getSchemaVersion\<close>; \<open>cur\<close> is \<open>curSchema\<close>.\<close>

fun getSchemaVersion_from ::
  "env \<Rightarrow> json \<Rightarrow> migration list \<Rightarrow> string \<Rightarrow> (json, schema_error) res"
where
  "getSchemaVersion_from E cur [] target = Err (TargetNotInMigrations target)"
| "getSchemaVersion_from E cur (m # ms) target =
     (case jsonpatch_Apply E (mig_Up m) cur of
        None \<Rightarrow> Err SchemaPatchFailed
      | Some updated \<Rightarrow>
          if mig_NewVersion m = target then Ok updated
          else if semver_Compare E (mig_NewVersion m) target > 0
          then Err (TargetVersionNotFound target (mig_NewVersion m))
          else getSchemaVersion_from E updated ms target)"

definition getSchemaVersion ::
  "env \<Rightarrow> migration list \<Rightarrow> string \<Rightarrow> (json, schema_error) res"
where
  "getSchemaVersion E migrations target =
     getSchemaVersion_from E (JObj fmempty) migrations target"

fun is_object_or_null :: "json \<Rightarrow> bool" where
  "is_object_or_null (JObj m) = True"
| "is_object_or_null JNull = True"
| "is_object_or_null _ = False"

definition compareSchemas :: "env \<Rightarrow> json \<Rightarrow> json \<Rightarrow> (unit, schema_error) res" where
  "compareSchemas E expected actual =
     (if \<not> is_object_or_null expected then Err (StateDecode NotAnObject)
      else if \<not> is_object_or_null actual then Err (StateDecode NotAnObject)
      else
        bind_res (ok_or SchemaDiffFailed (jsondiff_Compare E expected actual)) (\<lambda>patch.
          if patch \<noteq> [] then Err (SchemasNotEqual patch) else Ok ()))"

section \<open>Validation\<close>

definition CurrentVersion :: string where "CurrentVersion = ''v0.0.8''"
definition LatestVersion :: string where "LatestVersion = ''v0.0.8''"

definition JSONSchemaForVersion ::
  "env \<Rightarrow> string \<Rightarrow> (json \<Rightarrow> string list option, schema_error) res"
where
  "JSONSchemaForVersion E version =
     bind_res (readSchemaMigrationFiles E) (\<lambda>migrations.
     bind_res (getSchemaVersion E migrations version) (\<lambda>schema.
       ok_or InvalidJSONSchema (jsonschema_Compile E schema)))"

definition check_keys :: "(json \<Rightarrow> string list option) \<Rightarrow> json \<Rightarrow> (unit, schema_error) res" where
  "check_keys validator doc =
     (case validator doc of
        None \<Rightarrow> Err ValidateBytesFailed
      | Some [] \<Rightarrow> Ok ()
      | Some (e # _) \<Rightarrow> Err (KeyError e))"

definition ValidateState :: "env \<Rightarrow> json \<Rightarrow> (unit, schema_error) res" where
  "ValidateState E doc =
     bind_res (map_err StateDecode (FromBytes doc)) (\<lambda>s.
     bind_res (JSONSchemaForVersion E (SchemaVersion s)) (\<lambda>jsonSchema.
       check_keys jsonSchema doc))"

definition Validate :: "env \<Rightarrow> node_state \<Rightarrow> (unit, schema_error) res" where
  "Validate E s =
     bind_res (JSONSchemaForVersion E (SchemaVersion s)) (\<lambda>jsonSchema.
       check_keys jsonSchema (Bytes s))"

section \<open>Lemmas\<close>

lemma read_entries_Ok:
  "read_entries fs = Ok ms \<longleftrightarrow>
     map Some ms = map entry_Content
       (filter (\<lambda>f. \<not> entry_IsDir f \<and> HasSuffix (entry_Name f) ''.json'') fs)"
proof (induction fs arbitrary: ms)
  case Nil
  then show ?case by auto
next
  case (Cons f fs)
  show ?case
    by (cases "entry_Content f"; cases ms) (auto simp: bind_res_Ok_iff Cons.IH)
qed

text \<open>
  \<open>apply_ups\<close>: the schema after a list of migrations, the meaning of "the schema at a version".
\<close>

fun apply_ups :: "env \<Rightarrow> json \<Rightarrow> migration list \<Rightarrow> json option" where
  "apply_ups E d [] = Some d"
| "apply_ups E d (m # ms) =
     Option.bind (jsonpatch_Apply E (mig_Up m) d) (\<lambda>d'. apply_ups E d' ms)"

lemma getSchemaVersion_from_Ok:
  assumes "getSchemaVersion_from E cur ms target = Ok d"
  shows "\<exists>pre m post. ms = pre @ m # post \<and> mig_NewVersion m = target \<and>
     (\<forall>x \<in> set pre. mig_NewVersion x \<noteq> target \<and> \<not> semver_Compare E (mig_NewVersion x) target > 0) \<and>
     apply_ups E cur (pre @ [m]) = Some d"
  using assms
proof (induction ms arbitrary: cur)
  case Nil
  then show ?case by simp
next
  case (Cons m ms)
  from Cons.prems obtain u where u: "jsonpatch_Apply E (mig_Up m) cur = Some u"
    by (auto split: option.splits)
  show ?case
  proof (cases "mig_NewVersion m = target")
    case True
    with Cons.prems u show ?thesis by (intro exI [of _ "[]"] exI [of _ m] exI [of _ ms]) auto
  next
    case False
    with Cons.prems u have le: "\<not> semver_Compare E (mig_NewVersion m) target > 0"
      and rest: "getSchemaVersion_from E u ms target = Ok d"
      by (auto split: if_splits)
    from Cons.IH [OF rest] obtain pre m' post where
      "ms = pre @ m' # post" "mig_NewVersion m' = target"
      "\<forall>x \<in> set pre. mig_NewVersion x \<noteq> target \<and> \<not> semver_Compare E (mig_NewVersion x) target > 0"
      "apply_ups E u (pre @ [m']) = Some d"
      by blast
    with u False le show ?thesis
      by (intro exI [of _ "m # pre"] exI [of _ m'] exI [of _ post]) auto
  qed
qed

lemma getSchemaVersion_from_unknown:
  assumes "\<forall>m \<in> set ms. mig_NewVersion m \<noteq> target"
  shows "\<exists>e. getSchemaVersion_from E cur ms target = Err e"
  using assms by (induction ms arbitrary: cur) (auto split: option.splits)

lemma check_keys_Ok_iff [simp]: "check_keys v doc = Ok u \<longleftrightarrow> v doc = Some []"
  by (auto simp: check_keys_def split: option.splits list.splits)

text \<open>A state and its document are judged alike.\<close>

lemma Validate_eq_ValidateState: "Validate E s = ValidateState E (Bytes s)"
  by (simp add: Validate_def ValidateState_def)

text \<open>No schema, no valid state: the version of a valid state is one of the embedded migrations.\<close>

lemma ValidateState_version:
  assumes "ValidateState E doc = Ok u"
  obtains s ms m where "FromBytes doc = Ok s" and "readSchemaMigrationFiles E = Ok ms"
    and "m \<in> set ms" and "mig_NewVersion m = SchemaVersion s"
proof -
  from assms obtain s ms d where "FromBytes doc = Ok s" and "readSchemaMigrationFiles E = Ok ms"
    and d: "getSchemaVersion E ms (SchemaVersion s) = Ok d"
    by (auto simp: ValidateState_def JSONSchemaForVersion_def bind_res_Ok_iff)
  moreover obtain pre m post where "ms = pre @ m # post" "mig_NewVersion m = SchemaVersion s"
    using getSchemaVersion_from_Ok [of E "JObj fmempty" ms "SchemaVersion s" d] d
    by (auto simp: getSchemaVersion_def)
  ultimately show thesis using that by force
qed

section \<open>A reference environment\<close>

text \<open>
  The released versions, and an environment in which the assumptions about the outside code hold: the
  theorems are applied in it to concrete values.  Its schema accepts every document.
\<close>

definition versions :: "string list" where
  "versions = [''v0.0.0'', ''v0.0.1'', ''v0.0.2'', ''v0.0.3'', ''v0.0.4'',
               ''v0.0.5'', ''v0.0.6'', ''v0.0.7'', ''v0.0.8'', ''v0.0.9'']"

abbreviation ver :: "nat \<Rightarrow> string" where
  "ver i \<equiv> versions ! i"

lemma length_versions [simp]: "length versions = 10"
  by (simp add: versions_def)

definition version_index :: "string \<Rightarrow> nat" where
  "version_index v = length (takeWhile (\<lambda>x. x \<noteq> v) versions)"

definition schema_file :: "string \<Rightarrow> dir_entry" where
  "schema_file v = \<lparr>entry_Name = v @ ''.json'', entry_IsDir = False,
     entry_Content = Some \<lparr>mig_OldVersion = '''', mig_NewVersion = v, mig_Up = [], mig_Down = []\<rparr>\<rparr>"

definition ref_env :: env where
  "ref_env =
     \<lparr>semver_Compare = (\<lambda>a b. let i = version_index a; j = version_index b in
        if i < j then - 1 else if i = j then 0 else 1),
      jsonpatch_Apply = rfc_apply,
      jsonpatch_Decode = (\<lambda>ids ops. Some ops),
      jsondiff_Compare = whole_diff,
      jsonschema_Compile = (\<lambda>_. Some (\<lambda>_. Some [])),
      migrations_dir = map schema_file (take 8 (tl versions)),
      range_apps = sorted_list_of_fmap,
      range_rules = sorted_list_of_fmap\<rparr>"

lemma values_list_sorted: "values_list m (sorted_list_of_fmap m)"
  by (simp add: values_list_def) (simp add: sorted_list_of_fmap_def comp_def sorted_list_of_fset.rep_eq)

lemma ref_env_range_laws: "range_laws ref_env"
  by (simp add: range_laws_def ref_env_def values_list_sorted)

lemma ref_env_patch_laws [simp]: "patch_laws (jsonpatch_Apply ref_env)"
  by (simp add: ref_env_def rfc_apply_laws)

lemma ref_env_diff_laws [simp]: "diff_laws (jsonpatch_Apply ref_env) (jsondiff_Compare ref_env)"
  by (simp add: ref_env_def whole_diff_laws)

lemma version_index_ver:
  assumes "i < 10"
  shows "version_index (ver i) = i"
proof -
  from assms have "i = 0 \<or> i = 1 \<or> i = 2 \<or> i = 3 \<or> i = 4 \<or> i = 5 \<or> i = 6 \<or> i = 7 \<or> i = 8 \<or> i = 9"
    by arith
  then show ?thesis by (auto simp: version_index_def versions_def)
qed

lemma ref_env_valid:
  assumes "FromBytes doc = Ok s" and "SchemaVersion s = ''v0.0.8''"
  shows "ValidateState ref_env doc = Ok ()"
  using assms
  by (simp add: ValidateState_def JSONSchemaForVersion_def readSchemaMigrationFiles_def ref_env_def
      schema_file_def versions_def HasSuffix_def getSchemaVersion_def version_index_def)

end
