(* ===== verification/DataMigrations.thy ===== *)
theory DataMigrations
  imports SchemaVersion
begin

text \<open>
  Data migrations of the node state (\<open>internal/node/state/migrations.go\<close>, from \<open>MigrationsList\<close> on).
  \<open>NodeDataMigrations\<close> is the list of the source with one pair of functions per version step.  A
  \<open>*NodeState\<close> that may be nil is an option; copying a nil pointer goes through the JSON document
  \<open>null\<close> and gives the zero state.
\<close>

datatype mig_error =
    SameVersion
  | NoMigrationsFound
  | RangeNotFound string
  | NeverHappens string string
  | MigDecode decode_error
  | DiffFailed
  | ApplyFailed

type_synonym state_ptr = "node_state option"

definition copy_ptr :: "state_ptr \<Rightarrow> (node_state, mig_error) res" where
  "copy_ptr p = (case p of None \<Rightarrow> Ok zero_state | Some s \<Rightarrow> map_err MigDecode (Copy s))"

section \<open>The migrations\<close>

record data_migration =
  upVersion :: string
  downVersion :: string
  mig_up :: "state_ptr \<Rightarrow> (state_ptr, mig_error) res"
  mig_down :: "state_ptr \<Rightarrow> (state_ptr, mig_error) res"

definition copy_then ::
  "(node_state \<Rightarrow> (node_state, mig_error) res) \<Rightarrow> state_ptr \<Rightarrow> (state_ptr, mig_error) res"
where
  "copy_then f p = bind_res (copy_ptr p) (\<lambda>s. bind_res (f s) (\<lambda>s'. Ok (Some s')))"

text \<open>The loop that overwrites the driver configuration of every installation.\<close>

definition set_DriverConfigs ::
  "(string, json) fmap option \<Rightarrow> node_state \<Rightarrow> (node_state, mig_error) res"
where
  "set_DriverConfigs c s =
     (if fmpred (\<lambda>_ a. app_Package a \<noteq> None) (entries (AppInstallations s))
      then Ok (s\<lparr>AppInstallations := map_option (fmmap (\<lambda>a. a\<lparr>app_Package :=
             map_option (\<lambda>p. p\<lparr>pkg_DriverConfig := c\<rparr>) (app_Package a)\<rparr>)) (AppInstallations s)\<rparr>)
      else Panic)"

definition clear_DIDs :: "node_state \<Rightarrow> node_state" where
  "clear_DIDs s = s\<lparr>Users := map_option (fmmap (\<lambda>u. u\<lparr>user_DID := ''''\<rparr>)) (Users s)\<rparr>"

definition migration_1 :: data_migration where
  "migration_1 =
     \<lparr>upVersion = ''v0.0.1'', downVersion = ''v0.0.0'',
      mig_up = (\<lambda>_. Ok (Some (zero_state\<lparr>SchemaVersion := ''v0.0.1'', Users := Some fmempty,
                 Processes := Some fmempty, AppInstallations := Some fmempty\<rparr>))),
      mig_down = (\<lambda>_. Ok None)\<rparr>"

definition migration_2 :: data_migration where
  "migration_2 =
     \<lparr>upVersion = ''v0.0.2'', downVersion = ''v0.0.1'',
      mig_up = copy_then (\<lambda>s. Ok (s\<lparr>TestField := ''test''\<rparr>)),
      mig_down = copy_then (\<lambda>s. Ok (s\<lparr>TestField := ''''\<rparr>))\<rparr>"

definition migration_3 :: data_migration where
  "migration_3 =
     \<lparr>upVersion = ''v0.0.3'', downVersion = ''v0.0.2'',
      mig_up = copy_then (\<lambda>s. Ok (s\<lparr>TestField := ''''\<rparr>)),
      mig_down = copy_then (\<lambda>s. Ok (s\<lparr>TestField := ''test''\<rparr>))\<rparr>"

definition migration_4 :: data_migration where
  "migration_4 =
     \<lparr>upVersion = ''v0.0.4'', downVersion = ''v0.0.3'',
      mig_up = copy_then (\<lambda>s. bind_res (set_DriverConfigs (Some fmempty) s)
                 (\<lambda>s'. Ok (s'\<lparr>ReverseProxyRules := Some fmempty\<rparr>))),
      mig_down = copy_then (\<lambda>s. bind_res (set_DriverConfigs None s)
                 (\<lambda>s'. Ok (s'\<lparr>ReverseProxyRules := None\<rparr>)))\<rparr>"

definition migration_5 :: data_migration where
  "migration_5 =
     \<lparr>upVersion = ''v0.0.5'', downVersion = ''v0.0.4'',
      mig_up = (\<lambda>p. Ok p),
      mig_down = copy_then (\<lambda>s. Ok (clear_DIDs s))\<rparr>"

definition migration_6 :: data_migration where
  "migration_6 =
     \<lparr>upVersion = ''v0.0.6'', downVersion = ''v0.0.5'',
      mig_up = copy_then Ok, mig_down = copy_then Ok\<rparr>"

definition migration_7 :: data_migration where
  "migration_7 =
     \<lparr>upVersion = ''v0.0.7'', downVersion = ''v0.0.6'',
      mig_up = copy_then Ok, mig_down = copy_then Ok\<rparr>"

definition migration_8 :: data_migration where
  "migration_8 =
     \<lparr>upVersion = ''v0.0.8'', downVersion = ''v0.0.7'',
      mig_up = copy_then Ok, mig_down = copy_then Ok\<rparr>"

definition migration_9 :: data_migration where
  "migration_9 =
     \<lparr>upVersion = ''v0.0.9'', downVersion = ''v0.0.8'',
      mig_up = copy_then Ok, mig_down = copy_then Ok\<rparr>"

definition NodeDataMigrations :: "data_migration list" where
  "NodeDataMigrations =
     [migration_1, migration_2, migration_3, migration_4, migration_5,
      migration_6, migration_7, migration_8, migration_9]"

lemmas migration_defs =
  migration_1_def migration_2_def migration_3_def migration_4_def migration_5_def
  migration_6_def migration_7_def migration_8_def migration_9_def

section \<open>Selecting the migrations to run\<close>

text \<open>
  The loop of \<open>GetNeededMigrations\<close>: \<open>acc\<close> is \<open>migrations\<close>, \<open>inM\<close> is \<open>inMigration\<close>, and \<open>skip\<close> stands
  for the \<open>continue\<close> of the second branch.  The method ignores its receiver and iterates the global
  list, which is the third argument here.
\<close>

fun needed_loop ::
  "string \<Rightarrow> string \<Rightarrow> data_migration list \<Rightarrow> data_migration list \<Rightarrow> bool
   \<Rightarrow> data_migration list \<times> bool"
where
  "needed_loop cur target [] acc inM = (acc, inM)"
| "needed_loop cur target (m # ms) acc inM =
     (let (acc', inM', skip) =
        (if downVersion m = cur \<and> \<not> inM then (acc @ [m], True, False)
         else if (upVersion m = cur \<or> upVersion m = target) \<and> \<not> inM then (acc, True, True)
         else if inM then (acc @ [m], inM, False)
         else (acc, inM, False))
      in if skip then needed_loop cur target ms acc' inM'
         else if (upVersion m = target \<or> upVersion m = cur) \<and> inM' then (acc', False)
         else needed_loop cur target ms acc' inM')"

definition GetNeededMigrations ::
  "env \<Rightarrow> string \<Rightarrow> string \<Rightarrow> (data_migration list, mig_error) res"
where
  "GetNeededMigrations E currentVersion targetVersion =
     (if semver_Compare E currentVersion targetVersion = 0 then Err SameVersion
      else
        let (migrations, inM) = needed_loop currentVersion targetVersion NodeDataMigrations [] False in
        if migrations = [] then Err NoMigrationsFound
        else if inM then Err (RangeNotFound (upVersion (last migrations)))
        else if semver_Compare E currentVersion targetVersion > 0 then Ok (rev migrations)
        else Ok migrations)"

fun run_migrations ::
  "env \<Rightarrow> string \<Rightarrow> string \<Rightarrow> data_migration list \<Rightarrow> state_ptr \<Rightarrow> (state_ptr, mig_error) res"
where
  "run_migrations E cur target [] p = Ok p"
| "run_migrations E cur target (m # ms) p =
     bind_res
       (if semver_Compare E cur target < 0 then mig_up m p
        else if semver_Compare E cur target > 0 then mig_down m p
        else Err (NeverHappens cur target))
       (\<lambda>p'. if upVersion m = target then Ok p' else run_migrations E cur target ms p')"

text \<open>The state that the selected migrations produce; assigning through a nil pointer panics.\<close>

definition migrated_state ::
  "env \<Rightarrow> string \<Rightarrow> string \<Rightarrow> node_state \<Rightarrow> (node_state, mig_error) res"
where
  "migrated_state E currentVersion targetVersion startState =
     bind_res (GetNeededMigrations E currentVersion targetVersion) (\<lambda>migrations.
     bind_res (map_err MigDecode (Copy startState)) (\<lambda>c.
     bind_res (run_migrations E currentVersion targetVersion migrations (Some c)) (\<lambda>curState.
       (case curState of
          None \<Rightarrow> Panic
        | Some s \<Rightarrow> Ok (s\<lparr>SchemaVersion := targetVersion\<rparr>)))))"

definition GetMigrationPatch ::
  "env \<Rightarrow> string \<Rightarrow> string \<Rightarrow> node_state \<Rightarrow> (patch_op list, mig_error) res"
where
  "GetMigrationPatch E currentVersion targetVersion startState =
     bind_res (migrated_state E currentVersion targetVersion startState) (\<lambda>curState.
       ok_or DiffFailed (jsondiff_Compare E (Bytes startState) (Bytes curState)))"

definition applyPatchToState ::
  "env \<Rightarrow> patch_op list \<Rightarrow> node_state \<Rightarrow> (state_ptr, mig_error) res"
where
  "applyPatchToState E diffPatch s =
     bind_res (ok_or ApplyFailed (jsonpatch_Apply E diffPatch (Bytes s))) (\<lambda>updated.
       if updated = JNull then Ok None
       else bind_res (map_err MigDecode (FromBytes updated)) (\<lambda>s'. Ok (Some s')))"

definition GetEmptyStateForVersion :: "env \<Rightarrow> string \<Rightarrow> (state_ptr, mig_error) res" where
  "GetEmptyStateForVersion E version =
     bind_res (GetMigrationPatch E ''v0.0.0'' version zero_state) (\<lambda>diffPatch.
       applyPatchToState E diffPatch zero_state)"

definition EmptyState :: "env \<Rightarrow> (state_ptr, mig_error) res" where
  "EmptyState E = GetEmptyStateForVersion E CurrentVersion"

text \<open>The UUID of the node is an argument.\<close>

definition NewStateForLatestVersion :: "env \<Rightarrow> string \<Rightarrow> (node_state, mig_error) res" where
  "NewStateForLatestVersion E uuid =
     bind_res (GetEmptyStateForVersion E LatestVersion) (\<lambda>initState.
       (case initState of None \<Rightarrow> Panic | Some s \<Rightarrow> Ok (s\<lparr>NodeID := uuid\<rparr>)))"

section \<open>Which migrations run\<close>

text \<open>What the code relies on of \<open>semver.Compare\<close>: the order of the released versions.\<close>

definition semver_laws :: "env \<Rightarrow> bool" where
  "semver_laws E \<longleftrightarrow>
     (\<forall>i j. i < 10 \<longrightarrow> j < 10 \<longrightarrow>
        semver_Compare E (ver i) (ver j) = (if i < j then - 1 else if i = j then 0 else 1))"

lemma semver_lawsD:
  "semver_laws E \<Longrightarrow> i < 10 \<Longrightarrow> j < 10 \<Longrightarrow>
     semver_Compare E (ver i) (ver j) = (if i < j then - 1 else if i = j then 0 else 1)"
  unfolding semver_laws_def by blast

lemma distinct_versions: "distinct versions"
  by (simp add: versions_def)

lemma ver_eq_iff [simp]: "i < 10 \<Longrightarrow> j < 10 \<Longrightarrow> ver i = ver j \<longleftrightarrow> i = j"
  using nth_eq_iff_index_eq [OF distinct_versions] by simp

lemma length_NodeDataMigrations [simp]: "length NodeDataMigrations = 9"
  by (simp add: NodeDataMigrations_def)

text \<open>The list is a chain: migration \<open>k\<close> leads from version \<open>k\<close> to version \<open>k + 1\<close>.\<close>

lemma less_9_cases:
  "(k::nat) < 9 \<Longrightarrow> k = 0 \<or> k = 1 \<or> k = 2 \<or> k = 3 \<or> k = 4 \<or> k = 5 \<or> k = 6 \<or> k = 7 \<or> k = 8"
  by arith

lemma chain_up: "k < 9 \<Longrightarrow> upVersion (NodeDataMigrations ! k) = ver (Suc k)"
  by (drule less_9_cases) (auto simp: NodeDataMigrations_def migration_defs versions_def)

lemma chain_down: "k < 9 \<Longrightarrow> downVersion (NodeDataMigrations ! k) = ver k"
  by (drule less_9_cases) (auto simp: NodeDataMigrations_def migration_defs versions_def)

text \<open>Before the range nothing is selected; inside it everything is, up to the closing version.\<close>

lemma needed_loop_skip:
  assumes "\<forall>m \<in> set xs. downVersion m \<noteq> cur \<and> upVersion m \<noteq> cur \<and> upVersion m \<noteq> target"
  shows "needed_loop cur target (xs @ ys) acc False = needed_loop cur target ys acc False"
  using assms by (induction xs) auto

lemma needed_loop_open:
  assumes "\<forall>m \<in> set xs. upVersion m \<noteq> cur \<and> upVersion m \<noteq> target"
  shows "needed_loop cur target (xs @ ys) acc True = needed_loop cur target ys (acc @ xs) True"
  using assms by (induction xs arbitrary: acc) auto

lemma needed_loop_close:
  assumes "upVersion m = cur \<or> upVersion m = target"
  shows "needed_loop cur target (m # ys) acc True = (acc @ [m], False)"
  using assms by auto

lemma drop_split:
  assumes "a \<le> b" and "b < length xs"
  shows "drop a xs = take (b - a) (drop a xs) @ xs ! b # drop (Suc b) xs"
proof -
  have "drop a xs = take (b - a) (drop a xs) @ drop (b - a) (drop a xs)"
    by (rule append_take_drop_id [symmetric])
  also have "drop (b - a) (drop a xs) = drop b xs" using assms by simp
  also have "drop b xs = xs ! b # drop (Suc b) xs" using assms by (simp add: Cons_nth_drop_Suc)
  finally show ?thesis .
qed

lemma set_take_drop_nth:
  assumes "m \<in> set (take n (drop a xs))"
  shows "\<exists>k. a \<le> k \<and> k < a + n \<and> k < length xs \<and> m = xs ! k"
proof -
  from assms obtain i where i: "i < length (take n (drop a xs))" and "m = take n (drop a xs) ! i"
    by (metis in_set_conv_nth)
  moreover from i have "a \<le> length xs" by auto
  ultimately have "m = xs ! (a + i)" using i by simp
  with i show ?thesis by (intro exI [of _ "a + i"]) auto
qed

text \<open>
  The closed range: starting inside the range at position \<open>a\<close>, the loop selects the migrations up to
  the one whose upper version is \<open>b\<close>.
\<close>

lemma needed_loop_range:
  assumes "a \<le> b" "b < 9" "i < 10" "j < 10"
    and cls: "Suc b = i \<or> Suc b = j"
    and opn: "\<forall>k. a \<le> k \<and> k < b \<longrightarrow> Suc k \<noteq> i \<and> Suc k \<noteq> j"
  shows "needed_loop (ver i) (ver j) (drop a NodeDataMigrations) acc True =
     (acc @ take (Suc b - a) (drop a NodeDataMigrations), False)"
proof -
  let ?M = NodeDataMigrations
  have split: "drop a ?M = take (b - a) (drop a ?M) @ ?M ! b # drop (Suc b) ?M"
    using assms by (intro drop_split) auto
  have out: "\<forall>m \<in> set (take (b - a) (drop a ?M)). upVersion m \<noteq> ver i \<and> upVersion m \<noteq> ver j"
  proof
    fix m assume "m \<in> set (take (b - a) (drop a ?M))"
    then obtain k where "a \<le> k" "k < b" "m = ?M ! k" using set_take_drop_nth [of m "b - a" a ?M] by auto
    with assms show "upVersion m \<noteq> ver i \<and> upVersion m \<noteq> ver j" by (simp add: chain_up)
  qed
  have "needed_loop (ver i) (ver j) (drop a ?M) acc True =
      needed_loop (ver i) (ver j) (?M ! b # drop (Suc b) ?M) (acc @ take (b - a) (drop a ?M)) True"
    by (subst split) (rule needed_loop_open [OF out])
  also have "\<dots> = ((acc @ take (b - a) (drop a ?M)) @ [?M ! b], False)"
    using assms by (intro needed_loop_close) (auto simp: chain_up)
  also have "(acc @ take (b - a) (drop a ?M)) @ [?M ! b] = acc @ take (Suc b - a) (drop a ?M)"
    using assms by (simp add: Suc_diff_le take_Suc_conv_app_nth nth_drop)
  finally show ?thesis by simp
qed

lemma needed_loop_start:
  assumes "s < 9" "i < 10" "j < 10"
    and before: "\<forall>k < s. k \<noteq> i \<and> Suc k \<noteq> i \<and> Suc k \<noteq> j"
  shows "needed_loop (ver i) (ver j) NodeDataMigrations [] False =
     needed_loop (ver i) (ver j) (NodeDataMigrations ! s # drop (Suc s) NodeDataMigrations) [] False"
proof -
  let ?M = NodeDataMigrations
  have split: "?M = take s ?M @ ?M ! s # drop (Suc s) ?M"
    using assms by (simp add: id_take_nth_drop [symmetric])
  have out: "\<forall>m \<in> set (take s ?M).
      downVersion m \<noteq> ver i \<and> upVersion m \<noteq> ver i \<and> upVersion m \<noteq> ver j"
  proof
    fix m assume "m \<in> set (take s ?M)"
    then obtain k where "k < s" "m = ?M ! k" using set_take_drop_nth [of m s 0 ?M] by auto
    with assms show "downVersion m \<noteq> ver i \<and> upVersion m \<noteq> ver i \<and> upVersion m \<noteq> ver j"
      by (simp add: chain_up chain_down)
  qed
  show ?thesis by (subst split) (rule needed_loop_skip [OF out])
qed

lemma needed_loop_upward:
  assumes "i < j" "j < 10"
  shows "needed_loop (ver i) (ver j) NodeDataMigrations [] False =
     (take (j - i) (drop i NodeDataMigrations), False)"
proof (cases i)
  case 0
  let ?M = NodeDataMigrations
  have M: "?M = ?M ! 0 # drop 1 ?M" by (simp add: NodeDataMigrations_def)
  show ?thesis
  proof (cases "j = 1")
    case True
    with 0 show ?thesis by (subst M) (simp add: chain_up [of 0, simplified] chain_down [of 0, simplified],
        simp add: NodeDataMigrations_def)
  next
    case False
    with assms have j: "1 \<le> j - 1" "j - 1 < 9" by auto
    have "needed_loop (ver i) (ver j) ?M [] False =
        needed_loop (ver i) (ver j) (drop 1 ?M) [?M ! 0] True"
      using 0 False assms by (subst M) (simp add: chain_up [of 0, simplified] chain_down [of 0, simplified])
    also have "\<dots> = ([?M ! 0] @ take (Suc (j - 1) - 1) (drop 1 ?M), False)"
      using 0 assms j by (intro needed_loop_range) auto
    also have "[?M ! 0] @ take (Suc (j - 1) - 1) (drop 1 ?M) = take j ?M"
      using assms False by (subst (3) M, cases j) auto
    finally show ?thesis using 0 by simp
  qed
next
  case (Suc i')
  let ?M = NodeDataMigrations
  have s: "i' < 9" using Suc assms by simp
  have "needed_loop (ver i) (ver j) ?M [] False =
      needed_loop (ver i) (ver j) (?M ! i' # drop i ?M) [] False"
    using needed_loop_start [of i' i j] s assms Suc by auto
  also have "\<dots> = needed_loop (ver i) (ver j) (drop i ?M) [] True"
    using s assms Suc by (simp add: chain_up chain_down)
  also have "\<dots> = ([] @ take (Suc (j - 1) - i) (drop i ?M), False)"
    using assms by (intro needed_loop_range) auto
  finally show ?thesis using assms by simp
qed

lemma needed_loop_downward:
  assumes "0 < j" "j < i" "i < 10"
  shows "needed_loop (ver i) (ver j) NodeDataMigrations [] False =
     (take (i - j) (drop j NodeDataMigrations), False)"
proof -
  let ?M = NodeDataMigrations
  obtain j' where j': "j = Suc j'" using assms by (cases j) auto
  have s: "j' < 9" using j' assms by simp
  have "needed_loop (ver i) (ver j) ?M [] False =
      needed_loop (ver i) (ver j) (?M ! j' # drop j ?M) [] False"
    using needed_loop_start [of j' i j] s assms j' by auto
  also have "\<dots> = needed_loop (ver i) (ver j) (drop j ?M) [] True"
    using s assms j' by (simp add: chain_up chain_down)
  also have "\<dots> = ([] @ take (Suc (i - 1) - j) (drop j ?M), False)"
    using assms by (intro needed_loop_range) auto
  finally show ?thesis using assms by simp
qed

lemma needed_loop_to_zero:
  assumes "0 < i" "i < 10"
  shows "needed_loop (ver i) (ver 0) NodeDataMigrations [] False = (drop i NodeDataMigrations, True)"
proof -
  let ?M = NodeDataMigrations
  obtain i' where i': "i = Suc i'" using assms by (cases i) auto
  have out: "\<forall>m \<in> set (drop i ?M). upVersion m \<noteq> ver i \<and> upVersion m \<noteq> ver 0"
  proof
    fix m assume "m \<in> set (drop i ?M)"
    then obtain k where "i \<le> k" "k < 9" "m = ?M ! k"
      using set_take_drop_nth [of m 9 i ?M] by auto
    with assms show "upVersion m \<noteq> ver i \<and> upVersion m \<noteq> ver 0" by (simp add: chain_up)
  qed
  have "needed_loop (ver i) (ver 0) ?M [] False =
      needed_loop (ver i) (ver 0) (?M ! i' # drop i ?M) [] False"
    using needed_loop_start [of i' i 0] assms i' by auto
  also have "\<dots> = needed_loop (ver i) (ver 0) (drop i ?M) [] True"
    using assms i' by (simp add: chain_up chain_down)
  also have "\<dots> = (drop i ?M, True)"
    using needed_loop_open [OF out, of "[]" "[]"] by simp
  finally show ?thesis .
qed

lemma last_NodeDataMigrations: "upVersion (last NodeDataMigrations) = ver 9"
  by (simp add: NodeDataMigrations_def migration_defs versions_def)

lemma needed_migrations_eq:
  assumes "semver_laws E" and "i < 10" and "j < 10"
  shows "GetNeededMigrations E (ver i) (ver j) =
     (if i = j then Err SameVersion
      else if i < j then Ok (take (j - i) (drop i NodeDataMigrations))
      else if 0 < j then Ok (rev (take (i - j) (drop j NodeDataMigrations)))
      else if i = 9 then Err NoMigrationsFound
      else Err (RangeNotFound (ver 9)))"
proof -
  have cmp: "semver_Compare E (ver i) (ver j) = (if i < j then - 1 else if i = j then 0 else 1)"
    using assms by (rule semver_lawsD)
  consider "i = j" | "i < j" | "j < i" "0 < j" | "j < i" "j = 0" by linarith
  then show ?thesis
  proof cases
    case 1
    then show ?thesis using cmp by (simp add: GetNeededMigrations_def)
  next
    case 2
    then show ?thesis using cmp assms
      by (simp add: GetNeededMigrations_def needed_loop_upward)
  next
    case 3
    then show ?thesis using cmp assms
      by (simp add: GetNeededMigrations_def needed_loop_downward)
  next
    case 4
    then show ?thesis using cmp assms needed_loop_to_zero [of i]
      by (auto simp: GetNeededMigrations_def last_NodeDataMigrations)
  qed
qed

text \<open>
  C9: for every pair of released versions, \<open>GetNeededMigrations\<close> returns exactly the steps between the
  two, oldest first when going up and newest first when going down; equal versions and the way down to
  v0.0.0 (which no migration offers) are errors.
\<close>

theorem needed_migrations_correct:
  assumes "semver_laws E" and "i < 10" and "j < 10"
  shows "GetNeededMigrations E (ver i) (ver j) =
     (if i = j then Err SameVersion
      else if i < j then Ok (take (j - i) (drop i NodeDataMigrations))
      else if 0 < j then Ok (rev (take (i - j) (drop j NodeDataMigrations)))
      else if i = 9 then Err NoMigrationsFound
      else Err (RangeNotFound (ver 9)))"
  using assms by (rule needed_migrations_eq)

section \<open>What the migrations do to a state\<close>

text \<open>
  \<open>core\<close> is the part of a state that no migration between v0.0.1 and v0.0.9 may touch: identity, users
  with their names, processes, and installations up to the driver configuration.
\<close>

definition strip_app :: "installation \<Rightarrow> installation" where
  "strip_app a = a\<lparr>app_Package := map_option (\<lambda>p. p\<lparr>pkg_DriverConfig := None\<rparr>) (app_Package a)\<rparr>"

definition core :: "node_state \<Rightarrow> node_state" where
  "core s = s\<lparr>SchemaVersion := '''', TestField := '''', ReverseProxyRules := None,
     Users := map_option (fmmap (\<lambda>u. u\<lparr>user_DID := ''''\<rparr>)) (Users s),
     AppInstallations := map_option (fmmap strip_app) (AppInstallations s)\<rparr>"

definition packages_present :: "node_state \<Rightarrow> bool" where
  "packages_present s \<longleftrightarrow> fmpred (\<lambda>_ a. app_Package a \<noteq> None) (entries (AppInstallations s))"

definition keeps_core :: "(state_ptr \<Rightarrow> (state_ptr, mig_error) res) \<Rightarrow> bool" where
  "keeps_core f \<longleftrightarrow> (\<forall>s. packages_present s \<longrightarrow>
     (\<exists>s'. f (Some s) = Ok (Some s') \<and> packages_present s' \<and> core s' = core s))"

lemma keeps_core_copy_then:
  assumes "\<And>s. packages_present s \<Longrightarrow>
     \<exists>s'. f s = Ok s' \<and> packages_present s' \<and> core s' = core s"
  shows "keeps_core (copy_then f)"
  using assms by (fastforce simp: keeps_core_def copy_then_def copy_ptr_def Copy_def)

lemma core_set_DriverConfigs:
  assumes "packages_present s"
  shows "\<exists>s'. set_DriverConfigs c s = Ok s' \<and> packages_present s' \<and> core s' = core s \<and>
     packages_present (s'\<lparr>ReverseProxyRules := r\<rparr>) \<and> core (s'\<lparr>ReverseProxyRules := r\<rparr>) = core s"
  using assms
  by (cases "AppInstallations s")
    (auto simp: set_DriverConfigs_def packages_present_def core_def strip_app_def [abs_def]
      fmap.map_comp o_def option.map_comp)

lemma core_clear_DIDs:
  "packages_present s \<Longrightarrow> packages_present (clear_DIDs s) \<and> core (clear_DIDs s) = core s"
  by (simp add: packages_present_def core_def clear_DIDs_def option.map_comp o_def fmap.map_comp)

lemma keeps_core_migrations:
  assumes "m \<in> set (tl NodeDataMigrations)"
  shows "keeps_core (mig_up m) \<and> keeps_core (mig_down m)"
proof -
  have copies: "keeps_core (copy_then Ok)"
    by (rule keeps_core_copy_then) simp
  have tests: "keeps_core (copy_then (\<lambda>s. Ok (s\<lparr>TestField := t\<rparr>)))" for t
    by (rule keeps_core_copy_then) (simp add: packages_present_def core_def)
  have configs: "keeps_core (copy_then (\<lambda>s. bind_res (set_DriverConfigs c s)
                 (\<lambda>s'. Ok (s'\<lparr>ReverseProxyRules := r\<rparr>))))" for c r
    by (rule keeps_core_copy_then) (use core_set_DriverConfigs [of _ c r] in fastforce)
  have dids: "keeps_core (copy_then (\<lambda>s. Ok (clear_DIDs s)))"
    by (rule keeps_core_copy_then) (simp add: core_clear_DIDs)
  have same: "keeps_core (\<lambda>p. Ok p)"
    by (simp add: keeps_core_def)
  show ?thesis
    using assms copies tests configs dids same
    by (auto simp: NodeDataMigrations_def migration_defs)
qed

lemma run_migrations_keeps_core:
  assumes "\<forall>m \<in> set ms. keeps_core (mig_up m) \<and> keeps_core (mig_down m)"
    and "semver_Compare E c t \<noteq> 0" and "packages_present s"
  shows "\<exists>s'. run_migrations E c t ms (Some s) = Ok (Some s') \<and> packages_present s' \<and>
     core s' = core s"
  using assms(1,3)
proof (induction ms arbitrary: s)
  case Nil
  then show ?case by simp
next
  case (Cons m ms)
  let ?f = "if semver_Compare E c t < 0 then mig_up m else mig_down m"
  have "keeps_core ?f" using Cons.prems by simp
  then obtain s1 where s1: "?f (Some s) = Ok (Some s1)" "packages_present s1" "core s1 = core s"
    using Cons.prems(2) unfolding keeps_core_def by blast
  then have "(if semver_Compare E c t < 0 then mig_up m (Some s)
      else if semver_Compare E c t > 0 then mig_down m (Some s) else Err (NeverHappens c t)) =
      Ok (Some s1)"
    using assms(2) by (auto split: if_splits)
  then show ?case
    using Cons.IH [of s1] Cons.prems s1 by auto
qed

lemma core_SchemaVersion [simp]: "core (s\<lparr>SchemaVersion := v\<rparr>) = core s"
  by (simp add: core_def)

lemma needed_subset_tl:
  assumes "semver_laws E" "0 < i" "i < 10" "0 < j" "j < 10" "i \<noteq> j"
  shows "\<exists>ms. GetNeededMigrations E (ver i) (ver j) = Ok ms \<and> set ms \<subseteq> set (tl NodeDataMigrations)"
proof -
  have "set (take n (drop k NodeDataMigrations)) \<subseteq> set (tl NodeDataMigrations)" if "0 < k" for n k
  proof -
    from that obtain k' where "k = Suc k'" by (cases k) auto
    then have "drop k NodeDataMigrations = drop k' (tl NodeDataMigrations)"
      by (simp add: drop_Suc)
    then show ?thesis
      using set_take_subset [of n "drop k' (tl NodeDataMigrations)"]
        set_drop_subset [of k' "tl NodeDataMigrations"] by auto
  qed
  then have "set (take (j - i) (drop i NodeDataMigrations)) \<subseteq> set (tl NodeDataMigrations)"
    and "set (rev (take (i - j) (drop j NodeDataMigrations))) \<subseteq> set (tl NodeDataMigrations)"
    using assms by auto
  then show ?thesis
    using needed_migrations_eq [OF assms(1,3,5)] assms(4,6) by (cases "i < j") auto
qed

lemma migration_keeps_core_aux:
  assumes "semver_laws E" and "0 < i" and "i < 10" and "0 < j" and "j < 10" and "i \<noteq> j"
    and "packages_present s"
  shows "\<exists>s'. migrated_state E (ver i) (ver j) s = Ok s' \<and> SchemaVersion s' = ver j \<and>
     core s' = core s"
proof -
  obtain ms where ms: "GetNeededMigrations E (ver i) (ver j) = Ok ms"
    and sub: "set ms \<subseteq> set (tl NodeDataMigrations)"
    using needed_subset_tl [OF assms(1-6)] by blast
  have "semver_Compare E (ver i) (ver j) \<noteq> 0"
    using assms by (simp add: semver_lawsD)
  then obtain s' where "run_migrations E (ver i) (ver j) ms (Some s) = Ok (Some s')"
    and "core s' = core s"
    using run_migrations_keeps_core [of ms E "ver i" "ver j" s] sub keeps_core_migrations assms(7)
    by blast
  with ms show ?thesis by (simp add: migrated_state_def Copy_def)
qed


section \<open>Patches\<close>

lemma migration_patch_applies_aux:
  assumes "diff_laws (jsonpatch_Apply E) (jsondiff_Compare E)"
    and "migrated_state E c t s = Ok s'"
  shows "\<exists>p. GetMigrationPatch E c t s = Ok p \<and> jsonpatch_Apply E p (Bytes s) = Some (Bytes s') \<and>
     applyPatchToState E p s = Ok (Some s')"
proof -
  obtain p where "jsondiff_Compare E (Bytes s) (Bytes s') = Some p"
    and ap: "jsonpatch_Apply E p (Bytes s) = Some (Bytes s')"
    using assms(1) by (rule diff_lawsE)
  then have "GetMigrationPatch E c t s = Ok p"
    using assms(2) by (simp add: GetMigrationPatch_def)
  moreover have "applyPatchToState E p s = Ok (Some s')"
    using ap by (simp add: applyPatchToState_def)
  ultimately show ?thesis using ap by blast
qed

text \<open>
  The patch of a migration, applied to the document of the state it was computed for, gives exactly
  the migrated state; so a migration that succeeds never yields a patch that fails to apply.
\<close>

theorem migration_patch_applies:
  assumes "diff_laws (jsonpatch_Apply E) (jsondiff_Compare E)"
    and "migrated_state E c t s = Ok s'"
  shows "\<exists>p. GetMigrationPatch E c t s = Ok p \<and> jsonpatch_Apply E p (Bytes s) = Some (Bytes s') \<and>
     applyPatchToState E p s = Ok (Some s')"
  using assms by (rule migration_patch_applies_aux)

text \<open>The first state of a node: every map exists and is empty, the version is the latest one.\<close>

definition latest_empty :: node_state where
  "latest_empty = zero_state\<lparr>SchemaVersion := ''v0.0.8'', Users := Some fmempty,
     Processes := Some fmempty, AppInstallations := Some fmempty, ReverseProxyRules := Some fmempty\<rparr>"

lemma ver_literals: "''v0.0.0'' = ver 0" "''v0.0.8'' = ver 8"
  by (simp_all add: versions_def)

lemma take_8_migrations:
  "take 8 NodeDataMigrations =
     [migration_1, migration_2, migration_3, migration_4, migration_5, migration_6, migration_7,
      migration_8]"
  by (simp add: NodeDataMigrations_def)

lemma run_to_latest:
  assumes "semver_Compare E c ''v0.0.8'' < 0"
  shows "run_migrations E c ''v0.0.8'' (take 8 NodeDataMigrations) (Some s) =
     Ok (Some (zero_state\<lparr>SchemaVersion := ''v0.0.1'', Users := Some fmempty,
       Processes := Some fmempty, AppInstallations := Some fmempty,
       ReverseProxyRules := Some fmempty\<rparr>))"
  using assms unfolding take_8_migrations
  by (simp add: migration_defs copy_then_def copy_ptr_def Copy_def set_DriverConfigs_def zero_state_def)

lemma migrated_to_latest:
  assumes "semver_laws E"
  shows "migrated_state E ''v0.0.0'' ''v0.0.8'' s = Ok latest_empty"
proof -
  have "GetNeededMigrations E (ver 0) (ver 8) = Ok (take 8 NodeDataMigrations)"
    using needed_migrations_eq [OF assms, of 0 8] by simp
  moreover have "semver_Compare E (ver 0) (ver 8) < 0"
    using semver_lawsD [OF assms, of 0 8] by simp
  ultimately show ?thesis
    using run_to_latest [of E "''v0.0.0''" s] unfolding ver_literals [symmetric]
    by (simp add: migrated_state_def Copy_def latest_empty_def zero_state_def)
qed

text \<open>
  Creating a fresh node (\<open>NewStateForLatestVersion\<close>, \<open>nodeSchema.EmptyState\<close>) succeeds and gives
  the empty state of the latest version, with all four maps allocated.
\<close>

theorem fresh_state_is_latest_empty:
  assumes "semver_laws E" and "diff_laws (jsonpatch_Apply E) (jsondiff_Compare E)"
  shows "EmptyState E = Ok (Some latest_empty) \<and>
     NewStateForLatestVersion E uuid = Ok (latest_empty\<lparr>NodeID := uuid\<rparr>)"
proof -
  have "GetEmptyStateForVersion E ''v0.0.8'' = Ok (Some latest_empty)"
    using migration_patch_applies_aux [OF assms(2) migrated_to_latest [OF assms(1), of zero_state]]
    by (auto simp: GetEmptyStateForVersion_def)
  then show ?thesis
    by (simp add: EmptyState_def NewStateForLatestVersion_def CurrentVersion_def LatestVersion_def)
qed

section \<open>The theorems applied\<close>

lemma ref_env_semver_laws [simp]: "semver_laws ref_env"
  by (simp add: semver_laws_def ref_env_def version_index_ver)

lemma needed_migrations_correct_witness:
  "GetNeededMigrations ref_env ''v0.0.2'' ''v0.0.5'' = Ok [migration_3, migration_4, migration_5]
   \<and> GetNeededMigrations ref_env ''v0.0.5'' ''v0.0.3'' = Ok [migration_5, migration_4]"
proof -
  have v: "''v0.0.2'' = ver 2" "''v0.0.3'' = ver 3" "''v0.0.5'' = ver 5" by (simp_all add: versions_def)
  show ?thesis
    unfolding v using needed_migrations_correct [of ref_env 2 5] needed_migrations_correct [of ref_env 5 3]
    by (simp add: NodeDataMigrations_def)
qed

definition sample_state :: node_state where
  "sample_state = latest_empty\<lparr>Users := Some (fmap_of_list
     [(''0'', \<lparr>user_ID = ''0'', user_Username = ''root'', user_DID = ''did:plc:x''\<rparr>)])\<rparr>"


lemma migration_patch_applies_witness:
  "\<exists>p. GetMigrationPatch ref_env ''v0.0.0'' ''v0.0.8'' zero_state = Ok p \<and>
     jsonpatch_Apply ref_env p (Bytes zero_state) = Some (Bytes latest_empty) \<and>
     applyPatchToState ref_env p zero_state = Ok (Some latest_empty)"
  by (rule migration_patch_applies) (simp_all add: migrated_to_latest)

lemma fresh_state_is_latest_empty_witness:
  "EmptyState ref_env = Ok (Some latest_empty) \<and>
   NewStateForLatestVersion ref_env ''n1'' = Ok (latest_empty\<lparr>NodeID := ''n1''\<rparr>)"
  by (rule fresh_state_is_latest_empty) simp_all

end
