(* ===== verification/Transitions.thy ===== *)
theory Transitions
  imports DataMigrations
begin

text \<open>
  The transitions of the node state (\<open>internal/node/state/transitions.go\<close>): one constructor per struct
  that implements the interface \<open>Transition\<close>, and the methods \<open>Type\<close>, \<open>Validate\<close> and \<open>Patch\<close> as functions
  by cases on it.

  A patch is the text that \<open>fmt.Sprintf\<close> builds.  The identifiers are pasted into the text without
  escaping, so the model keeps them beside the operations that the text denotes when they are harmless:
  \<open>patch_text\<close> has the pasted strings and the operations, and reading it back is the parameter
  \<open>jsonpatch_Decode\<close>, about which only the harmless case is assumed (\<open>decode_laws\<close>).

  The pointers that every constructor function allocates (user, rule, installation) are never nil; the
  process of \<open>processStartTransition\<close> and the initial state are checked by the code and are options, and
  so are the elements of the slice of proxy rules, which come from a decoded request.
\<close>

datatype transition =
    Initialize state_ptr
  | Migration string
  | AddUser user
  | StartInstallation installation "rule option list option"
  | FinishInstallation string
  | Uninstall string
  | ProcessStart "process option"
  | ProcessStop process_id
  | AddReverseProxyRule rule

datatype trans_error =
    StateUnmarshal decode_error
  | InitStateNil
  | MigrationError mig_error
  | MigratedInvalid schema_error
  | UserIDExists string
  | UsernameExists string
  | UserNotFound string
  | AppVersionFound string string string
  | AppOtherVersion string string string
  | DriverConfigRequired
  | AppIDNotFound string
  | AppNotInstalling string string
  | ProcessNotCreated
  | AppLookup query_error
  | AppNotInstalled string
  | UserNotExisting string
  | ProcessIDExists process_id
  | AppHasProcess string
  | NoProcFound process_id
  | ProcessIDNotFound process_id
  | RuleIDExists string
  | RuleMatcherExists string

type_synonym patch_text = "string list \<times> patch_op list"

fun transition_Type :: "transition \<Rightarrow> string" where
  "transition_Type (Initialize _) = ''initialize''"
| "transition_Type (Migration _) = ''migration_up''"
| "transition_Type (AddUser _) = ''add_user''"
| "transition_Type (StartInstallation _ _) = ''start_installation''"
| "transition_Type (FinishInstallation _) = ''finish_installation''"
| "transition_Type (Uninstall _) = ''start_uninstallation''"
| "transition_Type (ProcessStart _) = ''process_start''"
| "transition_Type (ProcessStop _) = ''process_stop''"
| "transition_Type (AddReverseProxyRule _) = ''add_reverse_proxy_rule''"

text \<open>A slice that may be nil, read as a list.\<close>

fun slice :: "'a list option \<Rightarrow> 'a list" where
  "slice None = []"
| "slice (Some xs) = xs"

section \<open>Creating transitions\<close>

text \<open>The identifiers that \<open>uuid\<close> returns and the formatted time are arguments.\<close>

definition CreateInitializationTransition :: "state_ptr \<Rightarrow> transition" where
  "CreateInitializationTransition s = Initialize s"

definition CreateMigrationTransition :: "string \<Rightarrow> transition" where
  "CreateMigrationTransition targetVersion = Migration targetVersion"

definition CreateAddUserTransition :: "string \<Rightarrow> string \<Rightarrow> string \<Rightarrow> transition" where
  "CreateAddUserTransition uuid username did =
     AddUser \<lparr>user_ID = uuid, user_Username = username, user_DID = did\<rparr>"

definition CreateStartInstallationTransition ::
  "string \<Rightarrow> string \<Rightarrow> package option \<Rightarrow> string \<Rightarrow> string \<Rightarrow> rule option list option
   \<Rightarrow> transition \<times> string"
where
  "CreateStartInstallationTransition uuid userID pkg version name proxyRules =
     (StartInstallation
        \<lparr>app_ID = uuid, app_UserID = userID, app_Name = name, app_Version = version,
         app_State = LifecycleStateInstalling, app_Package = pkg\<rparr> proxyRules, uuid)"

definition CreateFinishInstallationTransition :: "string \<Rightarrow> transition" where
  "CreateFinishInstallationTransition appID = FinishInstallation appID"

definition CreateUninstallAppTransition :: "string \<Rightarrow> transition" where
  "CreateUninstallAppTransition appID = Uninstall appID"

text \<open>\<open>app.Driver\<close> is read through the embedded package pointer.\<close>

definition CreateProcessStartTransition ::
  "string \<Rightarrow> string \<Rightarrow> string \<Rightarrow> node_state \<Rightarrow> (transition \<times> process_id, query_error) res"
where
  "CreateProcessStartTransition uuid now appID oldState =
     bind_res (GetAppByID oldState appID) (\<lambda>a.
       (case app_Package a of
          None \<Rightarrow> Panic
        | Some p \<Rightarrow>
            let pid = NewID (pkg_Driver p) uuid in
            Ok (ProcessStart (Some \<lparr>proc_ID = pid, proc_AppID = app_ID a,
                  proc_UserID = app_UserID a, proc_Created = now\<rparr>), pid)))"

definition CreateProcessStopTransition :: "process_id \<Rightarrow> transition" where
  "CreateProcessStopTransition pid = ProcessStop pid"

definition CreateAddReverseProxyRuleTransition ::
  "string \<Rightarrow> string \<Rightarrow> string \<Rightarrow> string \<Rightarrow> string \<Rightarrow> transition"
where
  "CreateAddReverseProxyRuleTransition uuid t matcher target appID =
     AddReverseProxyRule \<lparr>rule_ID = uuid, rule_Type = t, rule_Matcher = matcher,
       rule_Target = target, rule_AppID = appID\<rparr>"

section \<open>Validation\<close>

text \<open>\<open>json.Unmarshal(oldState, &oldNode)\<close>.\<close>

definition unmarshal_state :: "json \<Rightarrow> (node_state, trans_error) res" where
  "unmarshal_state doc = map_err StateUnmarshal (FromBytes doc)"

definition Validate_Migration :: "env \<Rightarrow> string \<Rightarrow> json \<Rightarrow> (unit, trans_error) res" where
  "Validate_Migration E targetVersion doc =
     bind_res (unmarshal_state doc) (\<lambda>oldNode.
     bind_res (map_err MigrationError
       (GetMigrationPatch E (SchemaVersion oldNode) targetVersion oldNode)) (\<lambda>patch.
     bind_res (map_err MigrationError (applyPatchToState E patch oldNode)) (\<lambda>newState.
       (case newState of
          None \<Rightarrow> Panic
        | Some s \<Rightarrow> map_err MigratedInvalid (Validate E s)))))"

definition Validate_AddUser :: "user \<Rightarrow> json \<Rightarrow> (unit, trans_error) res" where
  "Validate_AddUser u doc =
     bind_res (unmarshal_state doc) (\<lambda>oldNode.
       if lookup_in (Users oldNode) (user_ID u) \<noteq> None then Err (UserIDExists (user_ID u))
       else if \<not> fmpred (\<lambda>_ x. user_Username x \<noteq> user_Username u) (entries (Users oldNode))
       then Err (UsernameExists (user_Username u))
       else Ok ())"

text \<open>
  The search for an installation of the same package: \<open>q\<close> is the package of the new installation, the
  list is an order in which the installations may be visited.
\<close>

fun same_package_loop ::
  "package option \<Rightarrow> string \<Rightarrow> installation list \<Rightarrow> (unit, trans_error) res"
where
  "same_package_loop q userID [] = Ok ()"
| "same_package_loop q userID (a # as) =
     (case (app_Package a, q) of
        (Some p, Some q') \<Rightarrow>
          if pkg_RegistryURLBase p = pkg_RegistryURLBase q' \<and>
             pkg_RegistryPackageID p = pkg_RegistryPackageID q'
          then Err (AppOtherVersion (app_Name a) userID (app_Version a))
          else same_package_loop q userID as
      | _ \<Rightarrow> Panic)"

definition Validate_StartInstallation ::
  "env \<Rightarrow> installation \<Rightarrow> json \<Rightarrow> (unit, trans_error) res"
where
  "Validate_StartInstallation E new doc =
     bind_res (unmarshal_state doc) (\<lambda>oldNode.
       let userID = app_UserID new in
       if lookup_in (Users oldNode) userID = None then Err (UserNotFound userID)
       else
         (case lookup_in (AppInstallations oldNode) (app_ID new) of
            Some a \<Rightarrow>
              if app_Version a = app_Version new
              then Err (AppVersionFound (app_Name new) (app_Version new) userID)
              else Err (AppOtherVersion (app_Name new) userID (app_Version a))
          | None \<Rightarrow>
              bind_res (same_package_loop (app_Package new) userID
                (map snd (range_apps E (entries (AppInstallations oldNode))))) (\<lambda>_.
                (case app_Package new of
                   None \<Rightarrow> Panic
                 | Some p \<Rightarrow>
                     if pkg_DriverConfig p = None then Err DriverConfigRequired else Ok ()))))"

definition Validate_FinishInstallation :: "string \<Rightarrow> json \<Rightarrow> (unit, trans_error) res" where
  "Validate_FinishInstallation appID doc =
     bind_res (unmarshal_state doc) (\<lambda>oldNode.
       (case lookup_in (AppInstallations oldNode) appID of
          None \<Rightarrow> Err (AppIDNotFound appID)
        | Some a \<Rightarrow>
            if app_State a \<noteq> ''installing'' then Err (AppNotInstalling (app_Name a) (app_State a))
            else Ok ()))"

definition Validate_Uninstall :: "string \<Rightarrow> json \<Rightarrow> (unit, trans_error) res" where
  "Validate_Uninstall appID doc =
     bind_res (unmarshal_state doc) (\<lambda>oldNode.
       if lookup_in (AppInstallations oldNode) appID = None then Err (AppIDNotFound appID)
       else Ok ())"

definition Validate_ProcessStart :: "process option \<Rightarrow> json \<Rightarrow> (unit, trans_error) res" where
  "Validate_ProcessStart proc doc =
     bind_res (unmarshal_state doc) (\<lambda>oldNode.
       (case proc of
          None \<Rightarrow> Err ProcessNotCreated
        | Some p \<Rightarrow>
            bind_res (map_err AppLookup (GetAppByID oldNode (proc_AppID p))) (\<lambda>appInstall.
              if app_State appInstall \<noteq> LifecycleStateInstalled
              then Err (AppNotInstalled (proc_AppID p))
              else if lookup_in (Users oldNode) (proc_UserID p) = None
              then Err (UserNotExisting (proc_UserID p))
              else if lookup_in (Processes oldNode) (proc_ID p) \<noteq> None
              then Err (ProcessIDExists (proc_ID p))
              else if \<not> fmpred (\<lambda>_ x. proc_AppID x \<noteq> proc_AppID p) (entries (Processes oldNode))
              then Err (AppHasProcess (proc_AppID p))
              else Ok ())))"

definition Validate_ProcessStop :: "process_id \<Rightarrow> json \<Rightarrow> (unit, trans_error) res" where
  "Validate_ProcessStop pid doc =
     bind_res (unmarshal_state doc) (\<lambda>oldNode.
       if lookup_in (Processes oldNode) pid = None then Err (ProcessIDNotFound pid) else Ok ())"

fun rule_clash_loop :: "rule \<Rightarrow> rule list \<Rightarrow> (unit, trans_error) res" where
  "rule_clash_loop new [] = Ok ()"
| "rule_clash_loop new (r # rs) =
     (if rule_ID r = rule_ID new then Err (RuleIDExists (rule_ID new))
      else if rule_Matcher r = rule_Matcher new then Err (RuleMatcherExists (rule_Matcher new))
      else rule_clash_loop new rs)"

definition Validate_AddReverseProxyRule :: "env \<Rightarrow> rule \<Rightarrow> json \<Rightarrow> (unit, trans_error) res" where
  "Validate_AddReverseProxyRule E new doc =
     bind_res (unmarshal_state doc) (\<lambda>oldNode.
       rule_clash_loop new (map snd (range_rules E (entries (ReverseProxyRules oldNode)))))"

fun transition_Validate :: "env \<Rightarrow> transition \<Rightarrow> json \<Rightarrow> (unit, trans_error) res" where
  "transition_Validate E (Initialize s) doc = (if s = None then Err InitStateNil else Ok ())"
| "transition_Validate E (Migration v) doc = Validate_Migration E v doc"
| "transition_Validate E (AddUser u) doc = Validate_AddUser u doc"
| "transition_Validate E (StartInstallation a rs) doc = Validate_StartInstallation E a doc"
| "transition_Validate E (FinishInstallation i) doc = Validate_FinishInstallation i doc"
| "transition_Validate E (Uninstall i) doc = Validate_Uninstall i doc"
| "transition_Validate E (ProcessStart p) doc = Validate_ProcessStart p doc"
| "transition_Validate E (ProcessStop i) doc = Validate_ProcessStop i doc"
| "transition_Validate E (AddReverseProxyRule r) doc = Validate_AddReverseProxyRule E r doc"

section \<open>Patches\<close>

definition fill_maps :: "node_state \<Rightarrow> node_state" where
  "fill_maps s = s\<lparr>Users := Some (entries (Users s)), Processes := Some (entries (Processes s)),
     AppInstallations := Some (entries (AppInstallations s)),
     ReverseProxyRules := Some (entries (ReverseProxyRules s))\<rparr>"

definition Patch_Initialize :: "state_ptr \<Rightarrow> (patch_text, trans_error) res" where
  "Patch_Initialize initState =
     (case initState of
        None \<Rightarrow> Panic
      | Some s \<Rightarrow> Ok ([], [PAdd '''' (Bytes (fill_maps s))]))"

definition Patch_Migration :: "env \<Rightarrow> string \<Rightarrow> json \<Rightarrow> (patch_text, trans_error) res" where
  "Patch_Migration E targetVersion doc =
     bind_res (unmarshal_state doc) (\<lambda>oldNode.
     bind_res (map_err MigrationError
       (GetMigrationPatch E (SchemaVersion oldNode) targetVersion oldNode)) (\<lambda>patch.
       Ok ([], patch)))"

definition Patch_AddUser :: "user \<Rightarrow> (patch_text, trans_error) res" where
  "Patch_AddUser u = Ok ([user_ID u], [PAdd (''/users/'' @ user_ID u) (enc_user u)])"

fun rule_ops :: "rule option list \<Rightarrow> (patch_text, trans_error) res" where
  "rule_ops [] = Ok ([], [])"
| "rule_ops (None # rs) = Panic"
| "rule_ops (Some r # rs) =
     bind_res (rule_ops rs) (\<lambda>(ids, ops).
       Ok (rule_ID r # ids, PAdd (''/reverse_proxy_rules/'' @ rule_ID r) (enc_rule r) # ops))"

definition Patch_StartInstallation ::
  "installation \<Rightarrow> rule option list option \<Rightarrow> json \<Rightarrow> (patch_text, trans_error) res"
where
  "Patch_StartInstallation new newRules doc =
     bind_res (unmarshal_state doc) (\<lambda>oldNode.
       if lookup_in (Users oldNode) (app_UserID new) = None
       then Err (UserNotFound (app_UserID new))
       else
         bind_res (rule_ops (slice newRules)) (\<lambda>(ids, ops).
           Ok (app_ID new # ids,
               PAdd (''/app_installations/'' @ app_ID new) (enc_installation new) # ops)))"

definition Patch_FinishInstallation :: "string \<Rightarrow> json \<Rightarrow> (patch_text, trans_error) res" where
  "Patch_FinishInstallation appID doc =
     bind_res (unmarshal_state doc) (\<lambda>oldNode.
       Ok ([appID],
           [PReplace (''/app_installations/'' @ appID @ ''/state'') (JStr LifecycleStateInstalled)]))"

definition Patch_Uninstall :: "string \<Rightarrow> (patch_text, trans_error) res" where
  "Patch_Uninstall appID = Ok ([appID], [PRemove (''/app_installations/'' @ appID)])"

text \<open>\<open>t.Process.ID\<close> of a nil process panics.\<close>

definition Patch_ProcessStart :: "process option \<Rightarrow> json \<Rightarrow> (patch_text, trans_error) res" where
  "Patch_ProcessStart proc doc =
     bind_res (unmarshal_state doc) (\<lambda>oldNode.
       (case proc of
          None \<Rightarrow> Panic
        | Some p \<Rightarrow> Ok ([proc_ID p], [PAdd (''/processes/'' @ proc_ID p) (enc_process p)])))"

definition Patch_ProcessStop :: "process_id \<Rightarrow> json \<Rightarrow> (patch_text, trans_error) res" where
  "Patch_ProcessStop pid doc =
     bind_res (unmarshal_state doc) (\<lambda>oldNode.
       if lookup_in (Processes oldNode) pid = None then Err (NoProcFound pid)
       else Ok ([pid], [PRemove (''/processes/'' @ pid)]))"

definition Patch_AddReverseProxyRule :: "rule \<Rightarrow> (patch_text, trans_error) res" where
  "Patch_AddReverseProxyRule r =
     Ok ([rule_ID r], [PAdd (''/reverse_proxy_rules/'' @ rule_ID r) (enc_rule r)])"

fun transition_Patch :: "env \<Rightarrow> transition \<Rightarrow> json \<Rightarrow> (patch_text, trans_error) res" where
  "transition_Patch E (Initialize s) doc = Patch_Initialize s"
| "transition_Patch E (Migration v) doc = Patch_Migration E v doc"
| "transition_Patch E (AddUser u) doc = Patch_AddUser u"
| "transition_Patch E (StartInstallation a rs) doc = Patch_StartInstallation a rs doc"
| "transition_Patch E (FinishInstallation i) doc = Patch_FinishInstallation i doc"
| "transition_Patch E (Uninstall i) doc = Patch_Uninstall i"
| "transition_Patch E (ProcessStart p) doc = Patch_ProcessStart p doc"
| "transition_Patch E (ProcessStop i) doc = Patch_ProcessStop i doc"
| "transition_Patch E (AddReverseProxyRule r) doc = Patch_AddReverseProxyRule r"

section \<open>What is assumed of reading a patch back\<close>

text \<open>
  A string of printable ASCII characters without quote and backslash can be pasted between quotes.
\<close>

definition json_plain :: "string \<Rightarrow> bool" where
  "json_plain s \<longleftrightarrow>
     list_all (\<lambda>c. (32::nat) \<le> of_char c \<and> (of_char c :: nat) < 127 \<and>
       c \<noteq> CHR 0x22 \<and> c \<noteq> CHR 0x5C) s"

definition decode_laws :: "env \<Rightarrow> bool" where
  "decode_laws E \<longleftrightarrow>
     (\<forall>ids ops. list_all json_plain ids \<longrightarrow> jsonpatch_Decode E ids ops = Some ops)"

text \<open>The identifiers for which the patch of a transition says what the transition means.\<close>

definition good_id :: "string \<Rightarrow> bool" where
  "good_id i \<longleftrightarrow> json_plain i \<and> plain_key i"

fun good_ids :: "transition \<Rightarrow> bool" where
  "good_ids (Initialize s) = True"
| "good_ids (Migration v) = True"
| "good_ids (AddUser u) = good_id (user_ID u)"
| "good_ids (StartInstallation a rs) =
     (good_id (app_ID a) \<and> list_all (pred_option (\<lambda>r. good_id (rule_ID r))) (slice rs))"
| "good_ids (FinishInstallation i) = good_id i"
| "good_ids (Uninstall i) = good_id i"
| "good_ids (ProcessStart p) = pred_option (\<lambda>p. good_id (proc_ID p)) p"
| "good_ids (ProcessStop i) = good_id i"
| "good_ids (AddReverseProxyRule r) = good_id (rule_ID r)"

section \<open>The meaning of a transition\<close>

text \<open>
  The specification: what each transition does to the node state, on the maps themselves and without
  documents, patches and paths.
\<close>

definition allocated :: "node_state \<Rightarrow> bool" where
  "allocated s \<longleftrightarrow> Users s \<noteq> None \<and> Processes s \<noteq> None \<and> AppInstallations s \<noteq> None \<and>
     ReverseProxyRules s \<noteq> None"

definition put_user :: "user \<Rightarrow> node_state \<Rightarrow> node_state" where
  "put_user u s = s\<lparr>Users := map_option (fmupd (user_ID u) u) (Users s)\<rparr>"

definition put_app :: "string \<Rightarrow> installation \<Rightarrow> node_state \<Rightarrow> node_state" where
  "put_app i a s = s\<lparr>AppInstallations := map_option (fmupd i a) (AppInstallations s)\<rparr>"

definition put_process :: "process \<Rightarrow> node_state \<Rightarrow> node_state" where
  "put_process p s = s\<lparr>Processes := map_option (fmupd (proc_ID p) p) (Processes s)\<rparr>"

definition put_rule :: "rule \<Rightarrow> node_state \<Rightarrow> node_state" where
  "put_rule r s = s\<lparr>ReverseProxyRules := map_option (fmupd (rule_ID r) r) (ReverseProxyRules s)\<rparr>"

definition drop_app :: "string \<Rightarrow> node_state \<Rightarrow> node_state" where
  "drop_app i s = s\<lparr>AppInstallations := map_option (fmdrop i) (AppInstallations s)\<rparr>"

definition drop_process :: "process_id \<Rightarrow> node_state \<Rightarrow> node_state" where
  "drop_process i s = s\<lparr>Processes := map_option (fmdrop i) (Processes s)\<rparr>"

definition mark_installed :: "string \<Rightarrow> node_state \<Rightarrow> node_state" where
  "mark_installed i s =
     (case lookup_in (AppInstallations s) i of
        None \<Rightarrow> s
      | Some a \<Rightarrow> put_app i (a\<lparr>app_State := LifecycleStateInstalled\<rparr>) s)"

fun effect :: "transition \<Rightarrow> node_state \<Rightarrow> node_state" where
  "effect (Initialize i) s = (case i of None \<Rightarrow> s | Some s' \<Rightarrow> fill_maps s')"
| "effect (Migration v) s = s"
| "effect (AddUser u) s = put_user u s"
| "effect (StartInstallation a rs) s =
     fold put_rule (map the (slice rs)) (put_app (app_ID a) a s)"
| "effect (FinishInstallation i) s = mark_installed i s"
| "effect (Uninstall i) s = drop_app i s"
| "effect (ProcessStart p) s = (case p of None \<Rightarrow> s | Some p' \<Rightarrow> put_process p' s)"
| "effect (ProcessStop i) s = drop_process i s"
| "effect (AddReverseProxyRule r) s = put_rule r s"

lemmas effects =
  put_user_def put_app_def put_process_def put_rule_def drop_app_def drop_process_def
  mark_installed_def

section \<open>A patch does what its transition means\<close>

lemma ptr_two:
  "plain_key a \<Longrightarrow> plain_key b \<Longrightarrow> ptr_tokens (CHR ''/'' # a @ CHR ''/'' # b) = [a, b]"
  by (simp add: ptr_tokens_append ptr_tokens_Cons)

lemma ptr_three:
  "plain_key a \<Longrightarrow> plain_key b \<Longrightarrow> plain_key c \<Longrightarrow>
     ptr_tokens (CHR ''/'' # a @ CHR ''/'' # b @ CHR ''/'' # c) = [a, b, c]"
  by (simp add: ptr_tokens_append ptr_tokens_Cons)

lemma ptr_members:
  assumes "plain_key i"
  shows "ptr_tokens (''/users/'' @ i) = [''users'', i]"
    and "ptr_tokens (''/processes/'' @ i) = [''processes'', i]"
    and "ptr_tokens (''/app_installations/'' @ i) = [''app_installations'', i]"
    and "ptr_tokens (''/reverse_proxy_rules/'' @ i) = [''reverse_proxy_rules'', i]"
    and "ptr_tokens (''/app_installations/'' @ i @ ''/state'') = [''app_installations'', i, ''state'']"
  using assms ptr_two [of "''users''" i] ptr_two [of "''processes''" i]
    ptr_two [of "''app_installations''" i] ptr_two [of "''reverse_proxy_rules''" i]
    ptr_three [of "''app_installations''" i "''state''"]
  by (simp_all add: plain_key_def)

text \<open>Replacing one of the four maps in a document replaces it in the decoded state.\<close>

lemma FromBytes_replace:
  assumes "FromBytes (JObj m) = Ok s"
  shows "dec_entries dec_user n = Ok us \<Longrightarrow>
      FromBytes (JObj (fmupd ''users'' (JObj n) m)) = Ok (s\<lparr>Users := Some us\<rparr>)"
    and "dec_entries dec_process n = Ok ps \<Longrightarrow>
      FromBytes (JObj (fmupd ''processes'' (JObj n) m)) = Ok (s\<lparr>Processes := Some ps\<rparr>)"
    and "dec_entries dec_installation n = Ok as \<Longrightarrow>
      FromBytes (JObj (fmupd ''app_installations'' (JObj n) m)) = Ok (s\<lparr>AppInstallations := Some as\<rparr>)"
    and "dec_entries dec_rule n = Ok rs \<Longrightarrow>
      FromBytes (JObj (fmupd ''reverse_proxy_rules'' (JObj n) m)) =
        Ok (s\<lparr>ReverseProxyRules := Some rs\<rparr>)"
  by (rule FromBytes_OkE [OF assms]; auto simp: dec_str_def)+

text \<open>The documents of the four maps of a state whose maps are allocated.\<close>

lemma state_docE:
  assumes "FromBytes doc = Ok s" and "allocated s"
  obtains m us ps as rs where "doc = JObj m"
    and "fmlookup m ''users'' = Some (JObj us)" and "dec_entries dec_user us = Ok (entries (Users s))"
    and "fmlookup m ''processes'' = Some (JObj ps)"
    and "dec_entries dec_process ps = Ok (entries (Processes s))"
    and "fmlookup m ''app_installations'' = Some (JObj as)"
    and "dec_entries dec_installation as = Ok (entries (AppInstallations s))"
    and "fmlookup m ''reverse_proxy_rules'' = Some (JObj rs)"
    and "dec_entries dec_rule rs = Ok (entries (ReverseProxyRules s))"
proof (rule FromBytes_OkE [OF assms(1)])
  assume "s = zero_state"
  with assms(2) show thesis by (simp add: allocated_def zero_state_def)
next
  fix m
  assume doc: "doc = JObj m"
    and maps: "dec_map dec_user (fmlookup m ''users'') = Ok (Users s)"
      "dec_map dec_process (fmlookup m ''processes'') = Ok (Processes s)"
      "dec_map dec_installation (fmlookup m ''app_installations'') = Ok (AppInstallations s)"
      "dec_map dec_rule (fmlookup m ''reverse_proxy_rules'') = Ok (ReverseProxyRules s)"
  from assms(2) obtain us ps as rs where ex: "Users s = Some us" "Processes s = Some ps"
    "AppInstallations s = Some as" "ReverseProxyRules s = Some rs"
    by (auto simp: allocated_def)
  show thesis
    using maps unfolding ex
    by (elim dec_map_SomeE) (rule that [OF doc], simp_all add: ex)
qed

lemma put_entries:
  assumes "allocated s"
  shows "put_user u s = s\<lparr>Users := Some (fmupd (user_ID u) u (entries (Users s)))\<rparr>"
    and "put_process p s = s\<lparr>Processes := Some (fmupd (proc_ID p) p (entries (Processes s)))\<rparr>"
    and "put_app i a s = s\<lparr>AppInstallations := Some (fmupd i a (entries (AppInstallations s)))\<rparr>"
    and "put_rule r s =
      s\<lparr>ReverseProxyRules := Some (fmupd (rule_ID r) r (entries (ReverseProxyRules s)))\<rparr>"
    and "drop_app i s = s\<lparr>AppInstallations := Some (fmdrop i (entries (AppInstallations s)))\<rparr>"
    and "drop_process i' s = s\<lparr>Processes := Some (fmdrop i' (entries (Processes s)))\<rparr>"
  using assms by (auto simp: allocated_def effects)

lemma allocated_put [simp]:
  "allocated (put_user u s) = allocated s" "allocated (put_process p s) = allocated s"
  "allocated (put_app i a s) = allocated s" "allocated (put_rule r s) = allocated s"
  "allocated (drop_app i s) = allocated s" "allocated (drop_process j s) = allocated s"
  by (auto simp: allocated_def effects)

lemma allocated_fill_maps [simp]: "allocated (fill_maps s)"
  by (simp add: allocated_def fill_maps_def)

text \<open>One patch operation of each kind, on any document that decodes to the state.\<close>

definition op_means :: "patch_op \<Rightarrow> (node_state \<Rightarrow> node_state) \<Rightarrow> json \<Rightarrow> node_state \<Rightarrow> bool" where
  "op_means op f doc s \<longleftrightarrow> (\<exists>doc'. obj_op op doc = Some (Some doc') \<and> FromBytes doc' = Ok (f s))"

lemma edit_member:
  assumes "fmlookup m k = Some (JObj n)" and "f l n = Some n'"
  shows "obj_edit [k, l] f (JObj m) = Some (Some (JObj (fmupd k (JObj n') m)))"
  using assms by (simp add: obj_edit2)

lemma op_put_user:
  assumes "FromBytes doc = Ok s" and "allocated s" and "plain_key (user_ID u)"
  shows "op_means (PAdd (''/users/'' @ user_ID u) (enc_user u)) (put_user u) doc s"
proof -
  obtain m us where d: "doc = JObj m" "fmlookup m ''users'' = Some (JObj us)"
    and us: "dec_entries dec_user us = Ok (entries (Users s))"
    using state_docE [OF assms(1,2)] by metis
  have "dec_entries dec_user (fmupd (user_ID u) (enc_user u) us) =
      Ok (fmupd (user_ID u) u (entries (Users s)))"
    using us by (rule dec_entries_fmupd) simp
  then have "FromBytes (JObj (fmupd ''users'' (JObj (fmupd (user_ID u) (enc_user u) us)) m)) =
      Ok (put_user u s)"
    using FromBytes_replace(1) [of m s] assms(1,2) d by (simp add: put_entries)
  then show ?thesis
    using d assms(3) by (simp add: op_means_def ptr_members(1)[simplified] edit_member)
qed

lemma op_put_process:
  assumes "FromBytes doc = Ok s" and "allocated s" and "plain_key (proc_ID p)"
  shows "op_means (PAdd (''/processes/'' @ proc_ID p) (enc_process p)) (put_process p) doc s"
proof -
  obtain m ps where d: "doc = JObj m" "fmlookup m ''processes'' = Some (JObj ps)"
    and ps: "dec_entries dec_process ps = Ok (entries (Processes s))"
    using state_docE [OF assms(1,2)] by metis
  have "dec_entries dec_process (fmupd (proc_ID p) (enc_process p) ps) =
      Ok (fmupd (proc_ID p) p (entries (Processes s)))"
    using ps by (rule dec_entries_fmupd) simp
  then have "FromBytes (JObj (fmupd ''processes'' (JObj (fmupd (proc_ID p) (enc_process p) ps)) m)) =
      Ok (put_process p s)"
    using FromBytes_replace(2) [of m s] assms(1,2) d by (simp add: put_entries)
  then show ?thesis
    using d assms(3) by (simp add: op_means_def ptr_members(2)[simplified] edit_member)
qed

lemma op_put_app:
  assumes "FromBytes doc = Ok s" and "allocated s" and "plain_key i"
  shows "op_means (PAdd (''/app_installations/'' @ i) (enc_installation a)) (put_app i a) doc s"
proof -
  obtain m as where d: "doc = JObj m" "fmlookup m ''app_installations'' = Some (JObj as)"
    and as: "dec_entries dec_installation as = Ok (entries (AppInstallations s))"
    using state_docE [OF assms(1,2)] by metis
  have "dec_entries dec_installation (fmupd i (enc_installation a) as) =
      Ok (fmupd i a (entries (AppInstallations s)))"
    using as by (rule dec_entries_fmupd) simp
  then have "FromBytes (JObj (fmupd ''app_installations'' (JObj (fmupd i (enc_installation a) as)) m)) =
      Ok (put_app i a s)"
    using FromBytes_replace(3) [of m s] assms(1,2) d by (simp add: put_entries)
  then show ?thesis
    using d assms(3) by (simp add: op_means_def ptr_members(3)[simplified] edit_member)
qed

lemma op_put_rule:
  assumes "FromBytes doc = Ok s" and "allocated s" and "plain_key (rule_ID r)"
  shows "op_means (PAdd (''/reverse_proxy_rules/'' @ rule_ID r) (enc_rule r)) (put_rule r) doc s"
proof -
  obtain m rs where d: "doc = JObj m" "fmlookup m ''reverse_proxy_rules'' = Some (JObj rs)"
    and rs: "dec_entries dec_rule rs = Ok (entries (ReverseProxyRules s))"
    using state_docE [OF assms(1,2)] by metis
  have "dec_entries dec_rule (fmupd (rule_ID r) (enc_rule r) rs) =
      Ok (fmupd (rule_ID r) r (entries (ReverseProxyRules s)))"
    using rs by (rule dec_entries_fmupd) simp
  then have "FromBytes (JObj (fmupd ''reverse_proxy_rules'' (JObj (fmupd (rule_ID r) (enc_rule r) rs)) m)) =
      Ok (put_rule r s)"
    using FromBytes_replace(4) [of m s] assms(1,2) d by (simp add: put_entries)
  then show ?thesis
    using d assms(3) by (simp add: op_means_def ptr_members(4)[simplified] edit_member)
qed

lemma op_drop_app:
  assumes "FromBytes doc = Ok s" and "allocated s" and "plain_key i"
    and "lookup_in (AppInstallations s) i \<noteq> None"
  shows "op_means (PRemove (''/app_installations/'' @ i)) (drop_app i) doc s"
proof -
  obtain m as where d: "doc = JObj m" "fmlookup m ''app_installations'' = Some (JObj as)"
    and as: "dec_entries dec_installation as = Ok (entries (AppInstallations s))"
    using state_docE [OF assms(1,2)] by metis
  have "fmlookup as i \<noteq> None" using as assms(4) by (simp add: dec_entries_None_iff)
  moreover have "FromBytes (JObj (fmupd ''app_installations'' (JObj (fmdrop i as)) m)) =
      Ok (drop_app i s)"
    using FromBytes_replace(3) [of m s] assms(1,2) d dec_entries_fmdrop [OF as, of i]
    by (simp add: put_entries)
  ultimately show ?thesis
    using d assms(3) by (simp add: op_means_def ptr_members(3)[simplified] edit_member)
qed

lemma op_drop_process:
  assumes "FromBytes doc = Ok s" and "allocated s" and "plain_key i"
    and "lookup_in (Processes s) i \<noteq> None"
  shows "op_means (PRemove (''/processes/'' @ i)) (drop_process i) doc s"
proof -
  obtain m ps where d: "doc = JObj m" "fmlookup m ''processes'' = Some (JObj ps)"
    and ps: "dec_entries dec_process ps = Ok (entries (Processes s))"
    using state_docE [OF assms(1,2)] by metis
  have "fmlookup ps i \<noteq> None" using ps assms(4) by (simp add: dec_entries_None_iff)
  moreover have "FromBytes (JObj (fmupd ''processes'' (JObj (fmdrop i ps)) m)) = Ok (drop_process i s)"
    using FromBytes_replace(2) [of m s] assms(1,2) d dec_entries_fmdrop [OF ps, of i]
    by (simp add: put_entries)
  ultimately show ?thesis
    using d assms(3) by (simp add: op_means_def ptr_members(2)[simplified] edit_member)
qed

text \<open>The state of an installation is one string below it; an absent one reads as empty.\<close>

lemma dec_installation_state:
  assumes "dec_installation (JObj e) = Ok a"
  shows "dec_installation (JObj (fmupd ''state'' (JStr x) e)) = Ok (a\<lparr>app_State := x\<rparr>)"
  using assms by (auto simp: bind_res_Ok_iff dec_str_def dec_package_def package_keys_def split: if_splits)

lemma op_mark_installed:
  assumes "FromBytes doc = Ok s" and "allocated s" and "plain_key i"
    and "lookup_in (AppInstallations s) i = Some a" and "app_State a \<noteq> ''''"
  shows "op_means (PReplace (''/app_installations/'' @ i @ ''/state'') (JStr LifecycleStateInstalled))
     (mark_installed i) doc s"
proof -
  let ?a = "a\<lparr>app_State := LifecycleStateInstalled\<rparr>" and ?v = "JStr LifecycleStateInstalled"
  obtain m as where d: "doc = JObj m" "fmlookup m ''app_installations'' = Some (JObj as)"
    and as: "dec_entries dec_installation as = Ok (entries (AppInstallations s))"
    using state_docE [OF assms(1,2)] by metis
  obtain j where j: "fmlookup as i = Some j" "dec_installation j = Ok a"
    using dec_entries_lookup [OF as, of i] assms(4) by (cases "fmlookup as i") auto
  then obtain e where e: "j = JObj e" by (cases j) auto
  have st: "fmlookup e ''state'' \<noteq> None"
    using j(2) assms(5) unfolding e
    by (cases "fmlookup e ''state''") (auto simp: bind_res_Ok_iff dec_str_def)
  have "dec_entries dec_installation (fmupd i (JObj (fmupd ''state'' ?v e)) as) =
      Ok (fmupd i ?a (entries (AppInstallations s)))"
    using as dec_installation_state [of e a] j(2) unfolding e by (intro dec_entries_fmupd) auto
  then have "FromBytes (JObj (fmupd ''app_installations''
      (JObj (fmupd i (JObj (fmupd ''state'' ?v e)) as)) m)) = Ok (mark_installed i s)"
    using FromBytes_replace(3) [of m s] assms(1,2,4) d
    by (simp add: put_entries mark_installed_def)
  then show ?thesis
    using d assms(3) e j(1) st obj_edit3 [of m "''app_installations''" as i e]
    by (simp add: op_means_def ptr_members(5)[simplified])
qed

lemma effect_fun [simp]:
  "effect (AddUser u) = put_user u" "effect (FinishInstallation i) = mark_installed i"
  "effect (Uninstall i) = drop_app i" "effect (ProcessStart (Some p)) = put_process p"
  "effect (ProcessStop j) = drop_process j" "effect (AddReverseProxyRule r) = put_rule r"
  by (simp_all add: fun_eq_iff)

definition patch_means :: "env \<Rightarrow> transition \<Rightarrow> json \<Rightarrow> node_state \<Rightarrow> bool" where
  "patch_means E t doc s \<longleftrightarrow>
     (\<exists>ids ops doc'. transition_Patch E t doc = Ok (ids, ops) \<and> list_all json_plain ids \<and>
        jsonpatch_Apply E ops doc = Some doc' \<and> FromBytes doc' = Ok (effect t s))"

lemma patch_means_single:
  assumes "patch_laws (jsonpatch_Apply E)" and "transition_Patch E t doc = Ok ([i], [op])"
    and "json_plain i" and "op_means op (effect t) doc s"
  shows "patch_means E t doc s"
proof -
  from assms(4) obtain doc' where "obj_op op doc = Some (Some doc')" "FromBytes doc' = Ok (effect t s)"
    by (auto simp: op_means_def)
  then show ?thesis
    using assms(2,3) patch_laws_op [OF assms(1)] by (auto simp: patch_means_def)
qed

text \<open>The operations that add the proxy rules of an installation, one after the other.\<close>

lemma apply_rule_ops:
  assumes "patch_laws (jsonpatch_Apply E)" and "FromBytes doc = Ok s" and "allocated s"
    and "list_all (pred_option (\<lambda>r. good_id (rule_ID r))) rs" and "None \<notin> set rs"
  shows "\<exists>ids ops doc'. rule_ops rs = Ok (ids, ops) \<and> list_all json_plain ids \<and>
     jsonpatch_Apply E ops doc = Some doc' \<and> FromBytes doc' = Ok (fold put_rule (map the rs) s)"
  using assms(2-5)
proof (induction rs arbitrary: doc s)
  case Nil
  then show ?case using patch_laws_Nil [OF assms(1)] by auto
next
  case (Cons x rs)
  then obtain r where r: "x = Some r" "good_id (rule_ID r)" by (cases x) auto
  obtain doc1 where d1: "obj_op (PAdd (''/reverse_proxy_rules/'' @ rule_ID r) (enc_rule r)) doc =
      Some (Some doc1)" "FromBytes doc1 = Ok (put_rule r s)"
    using op_put_rule [OF Cons.prems(1,2), of r] r by (auto simp: op_means_def good_id_def)
  obtain ids ops doc' where "rule_ops rs = Ok (ids, ops)" "list_all json_plain ids"
    "jsonpatch_Apply E ops doc1 = Some doc'" "FromBytes doc' = Ok (fold put_rule (map the rs) (put_rule r s))"
    using Cons.IH [OF d1(2)] Cons.prems by auto
  then show ?case
    using r patch_laws_step [OF assms(1) d1(1)]
    by (auto simp: good_id_def)
qed

lemma unmarshal_state_Ok [simp]: "FromBytes doc = Ok s \<Longrightarrow> unmarshal_state doc = Ok s"
  by (simp add: unmarshal_state_def)

text \<open>The transitions whose patch does not come from comparing two documents.\<close>

fun is_Migration :: "transition \<Rightarrow> bool" where
  "is_Migration (Migration v) = True"
| "is_Migration _ = False"

fun no_nil_rules :: "transition \<Rightarrow> bool" where
  "no_nil_rules (StartInstallation a rs) = (None \<notin> set (slice rs))"
| "no_nil_rules _ = True"

lemma patch_means_StartInstallation:
  assumes laws: "patch_laws (jsonpatch_Apply E)" and doc: "FromBytes doc = Ok s"
    and all: "allocated s"
    and "Validate_StartInstallation E a doc = Ok u" and "None \<notin> set (slice rs)"
    and "good_ids (StartInstallation a rs)"
  shows "patch_means E (StartInstallation a rs) doc s"
proof -
  have user: "lookup_in (Users s) (app_UserID a) \<noteq> None"
    using assms(4) doc by (auto simp: Validate_StartInstallation_def Let_def split: if_splits)
  obtain doc1 where d1: "obj_op (PAdd (''/app_installations/'' @ app_ID a) (enc_installation a)) doc =
      Some (Some doc1)" "FromBytes doc1 = Ok (put_app (app_ID a) a s)"
    using op_put_app [OF doc all, of "app_ID a" a] assms(6) by (auto simp: op_means_def good_id_def)
  obtain ids ops doc' where "rule_ops (slice rs) = Ok (ids, ops)" "list_all json_plain ids"
    "jsonpatch_Apply E ops doc1 = Some doc'"
    "FromBytes doc' = Ok (fold put_rule (map the (slice rs)) (put_app (app_ID a) a s))"
    using apply_rule_ops [OF laws d1(2), of "slice rs"] all assms(5,6) by auto
  then show ?thesis
    using doc user assms(6) patch_laws_step [OF laws d1(1)]
    by (auto simp: patch_means_def Patch_StartInstallation_def good_id_def)
qed

lemma transition_patch_means:
  assumes laws: "patch_laws (jsonpatch_Apply E)" and doc: "FromBytes doc = Ok s"
    and all: "allocated s" and valid: "transition_Validate E t doc = Ok u"
    and "\<not> is_Migration t" and "no_nil_rules t" and good: "good_ids t"
  shows "patch_means E t doc s"
proof (cases t)
  case (Initialize i)
  then obtain s0 where i: "i = Some s0" using valid by (cases i) auto
  then show ?thesis
    using Initialize patch_laws_op [OF laws, of "PAdd '''' (Bytes (fill_maps s0))" doc]
    by (simp add: patch_means_def Patch_Initialize_def)
next
  case (Migration v)
  then show ?thesis using assms(5) by simp
next
  case (AddUser x)
  show ?thesis
    by (rule patch_means_single [OF laws, of t doc "user_ID x"])
      (use AddUser good op_put_user [OF doc all, of x] in \<open>auto simp: Patch_AddUser_def good_id_def\<close>)
next
  case (StartInstallation a rs)
  then show ?thesis
    using patch_means_StartInstallation [OF laws doc all] valid assms(6) good by simp
next
  case (FinishInstallation i)
  then obtain a where "lookup_in (AppInstallations s) i = Some a" "app_State a = ''installing''"
    using valid doc by (auto simp: Validate_FinishInstallation_def split: option.splits if_splits)
  then have "op_means (PReplace (''/app_installations/'' @ i @ ''/state'') (JStr LifecycleStateInstalled))
      (mark_installed i) doc s"
    using op_mark_installed [OF doc all, of i a] good FinishInstallation by (simp add: good_id_def)
  then show ?thesis
    by (intro patch_means_single [OF laws, of t doc i])
      (use FinishInstallation good doc in \<open>auto simp: Patch_FinishInstallation_def good_id_def\<close>)
next
  case (Uninstall i)
  then have "lookup_in (AppInstallations s) i \<noteq> None"
    using valid doc by (auto simp: Validate_Uninstall_def split: if_splits)
  then show ?thesis
    by (intro patch_means_single [OF laws, of t doc i])
      (use Uninstall good op_drop_app [OF doc all, of i] in \<open>auto simp: Patch_Uninstall_def good_id_def\<close>)
next
  case (ProcessStart q)
  then obtain p where p: "q = Some p"
    using valid doc by (cases q) (auto simp: Validate_ProcessStart_def)
  show ?thesis
    by (rule patch_means_single [OF laws, of t doc "proc_ID p"])
      (use ProcessStart p good doc op_put_process [OF doc all, of p] in
        \<open>auto simp: Patch_ProcessStart_def good_id_def\<close>)
next
  case (ProcessStop i)
  then have "lookup_in (Processes s) i \<noteq> None"
    using valid doc by (auto simp: Validate_ProcessStop_def split: if_splits)
  then show ?thesis
    by (intro patch_means_single [OF laws, of t doc i])
      (use ProcessStop good doc op_drop_process [OF doc all, of i] in
        \<open>auto simp: Patch_ProcessStop_def good_id_def\<close>)
next
  case (AddReverseProxyRule r)
  show ?thesis
    by (rule patch_means_single [OF laws, of t doc "rule_ID r"])
      (use AddReverseProxyRule good op_put_rule [OF doc all, of r] in
        \<open>auto simp: Patch_AddReverseProxyRule_def good_id_def\<close>)
qed

end
