(* ===== verification/StateDB.thy ===== *)
theory StateDB
  imports Transitions
begin

text \<open>
  Proposing transitions and keeping the state in a file: \<open>internal/node/state/json.go\<close>,
  \<open>types.go\<close> (wrappers and the interface \<open>Client\<close>) and \<open>db.go\<close>.

  The bytes of a state are its JSON document, as in the rest of the development; a file holds a document
  or bytes that are none (\<open>None\<close>).  What the operating system answers (the error of \<open>os.Stat\<close> and
  \<open>os.ReadFile\<close>, the outcome of \<open>os.WriteFile\<close>) is an argument: a failed write may leave anything behind.
\<close>

datatype db_error =
    ValidationFailed trans_error
  | PatchFailed trans_error
  | InvalidPatch
  | PatchApplyFailed
  | UpdatedStateInvalid schema_error
  | StatFailed
  | ReadFailed
  | NotJSON
  | StoredStateInvalid schema_error
  | EmptyStateFailed mig_error

section \<open>Stateless application of transitions\<close>

definition applyImpl :: "env \<Rightarrow> json \<Rightarrow> patch_text \<Rightarrow> (json, db_error) res" where
  "applyImpl E doc patchJSON =
     bind_res (ok_or InvalidPatch (jsonpatch_Decode E (fst patchJSON) (snd patchJSON))) (\<lambda>patch.
     bind_res (ok_or PatchApplyFailed (jsonpatch_Apply E patch doc)) (\<lambda>updated.
     bind_res (map_err UpdatedStateInvalid (ValidateState E updated)) (\<lambda>_.
       Ok updated)))"

definition applyPatch :: "env \<Rightarrow> json \<Rightarrow> patch_text \<Rightarrow> (json, db_error) res" where
  "applyPatch E doc patchJSON = bind_res (applyImpl E doc patchJSON) (\<lambda>updated. Ok updated)"

record transition_wrapper =
  wrap_Type :: string
  wrap_Patch :: patch_text
  wrap_Transition :: json

text \<open>
  \<open>json.Marshal\<close> of the transition structs: the unexported field \<open>appInstallation\<close> is left out.
\<close>

fun enc_ptr :: "('a \<Rightarrow> json) \<Rightarrow> 'a option \<Rightarrow> json" where
  "enc_ptr enc None = JNull"
| "enc_ptr enc (Some x) = enc x"

fun enc_slice :: "('a \<Rightarrow> json) \<Rightarrow> 'a list option \<Rightarrow> json" where
  "enc_slice enc None = JNull"
| "enc_slice enc (Some xs) = JArr (map enc xs)"

definition enc_member :: "string \<Rightarrow> json \<Rightarrow> json" where
  "enc_member k v = JObj (fmap_of_list [(k, v)])"

fun enc_transition :: "transition \<Rightarrow> json" where
  "enc_transition (Initialize s) = enc_member ''init_state'' (enc_ptr Bytes s)"
| "enc_transition (Migration v) = enc_member ''TargetVersion'' (JStr v)"
| "enc_transition (AddUser u) = enc_member ''User'' (enc_user u)"
| "enc_transition (StartInstallation a rs) =
     enc_member ''new_proxy_rules'' (enc_slice (enc_ptr enc_rule) rs)"
| "enc_transition (FinishInstallation i) = enc_member ''app_id'' (JStr i)"
| "enc_transition (Uninstall i) = enc_member ''app_id'' (JStr i)"
| "enc_transition (ProcessStart p) = enc_member ''Process'' (enc_ptr enc_process p)"
| "enc_transition (ProcessStop i) = enc_member ''process_id'' (JStr i)"
| "enc_transition (AddReverseProxyRule r) = enc_member ''rule'' (enc_rule r)"

text \<open>\<open>Patch\<close> has filled the nil maps of an initial state when its transition is wrapped.\<close>

fun after_Patch :: "transition \<Rightarrow> transition" where
  "after_Patch (Initialize s) = Initialize (map_option fill_maps s)"
| "after_Patch t = t"

definition WrapTransition :: "transition \<Rightarrow> patch_text \<Rightarrow> transition_wrapper" where
  "WrapTransition t patch =
     \<lparr>wrap_Type = transition_Type t, wrap_Patch = patch,
      wrap_Transition = enc_transition (after_Patch t)\<rparr>"

fun propose_loop ::
  "env \<Rightarrow> json \<Rightarrow> transition_wrapper list \<Rightarrow> transition list
   \<Rightarrow> (json \<times> transition_wrapper list, db_error) res"
where
  "propose_loop E tmp wrappers [] = Ok (tmp, wrappers)"
| "propose_loop E tmp wrappers (t # ts) =
     bind_res (map_err ValidationFailed (transition_Validate E t tmp)) (\<lambda>_.
     bind_res (map_err PatchFailed (transition_Patch E t tmp)) (\<lambda>patch.
     bind_res (applyPatch E tmp patch) (\<lambda>tmp'.
       propose_loop E tmp' (wrappers @ [WrapTransition t patch]) ts)))"

definition ProposeTransitions ::
  "env \<Rightarrow> json \<Rightarrow> transition list \<Rightarrow> (json \<times> transition_wrapper list, db_error) res"
where
  "ProposeTransitions E old transitions = propose_loop E old [] transitions"

section \<open>The file database\<close>

type_synonym file_data = "json option"
type_synonym disk = "(string, file_data) fmap"

datatype write_outcome = Written | WriteFailed "file_data option"

definition writeState :: "write_outcome \<Rightarrow> string \<Rightarrow> json \<Rightarrow> disk \<Rightarrow> disk \<times> bool" where
  "writeState out path bytes d =
     (case out of
        Written \<Rightarrow> (fmupd path (Some bytes) d, True)
      | WriteFailed None \<Rightarrow> (fmdrop path d, False)
      | WriteFailed (Some f) \<Rightarrow> (fmupd path f d, False))"

record file_db =
  db_path :: string
  db_state :: json

text \<open>
  \<open>NewHabitatDB\<close>: \<open>statErr\<close> and \<open>readErr\<close> say that the call fails for another reason than a missing
  file.  \<open>Ok None\<close> is the pair \<open>(nil, nil)\<close>, which the function returns when the write fails.
\<close>

definition NewHabitatDB ::
  "env \<Rightarrow> bool \<Rightarrow> bool \<Rightarrow> write_outcome \<Rightarrow> string \<Rightarrow> transition list \<Rightarrow> disk
   \<Rightarrow> disk \<times> (file_db option, db_error) res"
where
  "NewHabitatDB E statErr readErr out path initialTransitions d =
     (if statErr then (d, Err StatFailed)
      else
        (case fmlookup d path of
           Some f \<Rightarrow>
             (d,
              if readErr then Err ReadFailed
              else
                bind_res (ok_or NotJSON f) (\<lambda>state.
                bind_res (map_err StoredStateInvalid (ValidateState E state)) (\<lambda>_.
                  Ok (Some \<lparr>db_path = path, db_state = state\<rparr>))))
         | None \<Rightarrow>
             (case
                bind_res (map_err EmptyStateFailed (EmptyState E)) (\<lambda>empty.
                  (case empty of
                     None \<Rightarrow> Panic
                   | Some s \<Rightarrow>
                       bind_res (ProposeTransitions E (Bytes s) initialTransitions) (\<lambda>(state, _).
                       bind_res (map_err StoredStateInvalid (ValidateState E state)) (\<lambda>_.
                         Ok state))))
              of
                Ok state \<Rightarrow>
                  (let (d', written) = writeState out path state d in
                   (d', if written then Ok (Some \<lparr>db_path = path, db_state = state\<rparr>) else Ok None))
              | Err e \<Rightarrow> (d, Err e)
              | Panic \<Rightarrow> (d, Panic))))"

text \<open>The method: the new state is returned even when it was not written.\<close>

definition fileDB_ProposeTransitions ::
  "env \<Rightarrow> write_outcome \<Rightarrow> transition list \<Rightarrow> file_db \<times> disk
   \<Rightarrow> (file_db \<times> disk) \<times> (json, db_error) res"
where
  "fileDB_ProposeTransitions E out transitions dbd =
     (let (db, d) = dbd in
      (case ProposeTransitions E (db_state db) transitions of
         Err e \<Rightarrow> ((db, d), Err e)
       | Panic \<Rightarrow> ((db, d), Panic)
       | Ok (newState, wrapped) \<Rightarrow>
           (let (d', written) = writeState out (db_path db) newState d in
            ((if written then db\<lparr>db_state := newState\<rparr> else db, d'), Ok newState))))"

definition fileDB_Bytes :: "file_db \<times> disk \<Rightarrow> json" where
  "fileDB_Bytes dbd = db_state (fst dbd)"

definition fileDB_State :: "file_db \<times> disk \<Rightarrow> (node_state, decode_error) res" where
  "fileDB_State dbd = FromBytes (db_state (fst dbd))"

section \<open>Proposals refine the specification\<close>

lemma applyPatch_Ok_iff:
  "applyPatch E doc p = Ok d \<longleftrightarrow>
     (\<exists>ops. jsonpatch_Decode E (fst p) (snd p) = Some ops \<and> jsonpatch_Apply E ops doc = Some d \<and>
        ValidateState E d = Ok ())"
  by (auto simp: applyPatch_def applyImpl_def bind_res_Ok_iff)

text \<open>The transitions whose meaning does not depend on how they are written down.\<close>

definition regular :: "transition \<Rightarrow> bool" where
  "regular t \<longleftrightarrow> \<not> is_Migration t \<and> no_nil_rules t \<and> good_ids t"

definition env_ok :: "env \<Rightarrow> bool" where
  "env_ok E \<longleftrightarrow> patch_laws (jsonpatch_Apply E) \<and> decode_laws E"

lemma decode_lawsD:
  "env_ok E \<Longrightarrow> list_all json_plain ids \<Longrightarrow> jsonpatch_Decode E ids ops = Some ops"
  by (simp add: env_ok_def decode_laws_def)

lemma allocated_fold_put_rule [simp]: "allocated (fold put_rule rs s) = allocated s"
  by (induction rs arbitrary: s) auto

lemma allocated_effect:
  "allocated s \<Longrightarrow> transition_Validate E t doc = Ok u \<Longrightarrow> allocated (effect t s)"
  by (cases t) (auto simp: mark_installed_def split: option.splits if_splits)

text \<open>One accepted transition.\<close>

lemma propose_step:
  assumes "env_ok E" and "FromBytes doc = Ok s" and "allocated s" and "regular t"
    and "transition_Validate E t doc = Ok u"
  obtains p doc' where "transition_Patch E t doc = Ok p" and "FromBytes doc' = Ok (effect t s)"
    and "allocated (effect t s)"
    and "applyPatch E doc p = bind_res (map_err UpdatedStateInvalid (ValidateState E doc')) (\<lambda>_. Ok doc')"
proof -
  have laws: "patch_laws (jsonpatch_Apply E)" using assms(1) by (simp add: env_ok_def)
  have "patch_means E t doc s"
    using transition_patch_means [OF laws assms(2,3,5)] assms(4) by (simp add: regular_def)
  then obtain ids ops doc' where patch: "transition_Patch E t doc = Ok (ids, ops)"
    and plain: "list_all json_plain ids"
    and ap: "jsonpatch_Apply E ops doc = Some doc'" and st: "FromBytes doc' = Ok (effect t s)"
    by (auto simp: patch_means_def)
  have "applyPatch E doc (ids, ops) =
      bind_res (map_err UpdatedStateInvalid (ValidateState E doc')) (\<lambda>_. Ok doc')"
    using decode_lawsD [OF assms(1) plain, of ops] ap
    by (cases "ValidateState E doc'") (simp_all add: applyPatch_def applyImpl_def)
  from that [OF patch st allocated_effect [OF assms(3,5)] this] show thesis .
qed

lemma propose_loop_Ok:
  assumes "env_ok E" and "FromBytes doc = Ok s" and "allocated s" and "list_all regular ts"
    and "propose_loop E doc ws ts = Ok (doc', ws')"
  shows "FromBytes doc' = Ok (fold effect ts s) \<and> allocated (fold effect ts s) \<and>
     map wrap_Type ws' = map wrap_Type ws @ map transition_Type ts \<and>
     (ts \<noteq> [] \<longrightarrow> ValidateState E doc' = Ok ()) \<and> (ts = [] \<longrightarrow> doc' = doc)"
  using assms(2-5)
proof (induction ts arbitrary: doc s ws)
  case Nil
  then show ?case by simp
next
  case (Cons t ts)
  from Cons.prems obtain u p d1 where valid: "transition_Validate E t doc = Ok u"
    and p: "transition_Patch E t doc = Ok p" and d1: "applyPatch E doc p = Ok d1"
    and rest: "propose_loop E d1 (ws @ [WrapTransition t p]) ts = Ok (doc', ws')"
    by (auto simp: bind_res_Ok_iff)
  have "regular t" using Cons.prems(3) by simp
  from propose_step [OF assms(1) Cons.prems(1,2) this valid] p
  obtain d2 where d2: "FromBytes d2 = Ok (effect t s)" "allocated (effect t s)"
    and ap: "applyPatch E doc p = bind_res (map_err UpdatedStateInvalid (ValidateState E d2)) (\<lambda>_. Ok d2)"
    by (metis res.inject(1))
  have "d1 = d2" "ValidateState E d2 = Ok ()"
    using d1 unfolding ap by (cases "ValidateState E d2"; simp)+
  with d2 Cons.IH [OF _ _ _ rest, of "effect t s"] Cons.prems(3) show ?case
    by (cases "ts = []") (auto simp: WrapTransition_def)
qed

lemma propose_refines:
  assumes "env_ok E" and "FromBytes doc = Ok s" and "allocated s" and "list_all regular ts"
    and "ProposeTransitions E doc ts = Ok (doc', ws)"
  shows "FromBytes doc' = Ok (fold effect ts s) \<and> map wrap_Type ws = map transition_Type ts \<and>
     (ts \<noteq> [] \<longrightarrow> ValidateState E doc' = Ok ())"
  using propose_loop_Ok [OF assms(1-4), of "[]"] assms(5) by (auto simp: ProposeTransitions_def)


text \<open>
  A transition that passes its own validation can only be refused by the schema: its patch is
  always built, decodes, and applies to the stored document.
\<close>

theorem valid_transition_only_refused_by_schema:
  assumes "env_ok E" and "FromBytes doc = Ok s" and "allocated s" and "regular t"
    and "transition_Validate E t doc = Ok ()"
  shows "\<exists>doc'. FromBytes doc' = Ok (effect t s) \<and>
     (case ValidateState E doc' of
        Ok _ \<Rightarrow> \<exists>w. ProposeTransitions E doc [t] = Ok (doc', [w])
      | Err e \<Rightarrow> ProposeTransitions E doc [t] = Err (UpdatedStateInvalid e)
      | Panic \<Rightarrow> ProposeTransitions E doc [t] = Panic)"
proof -
  obtain p doc' where "transition_Patch E t doc = Ok p" and d: "FromBytes doc' = Ok (effect t s)"
    and "applyPatch E doc p = bind_res (map_err UpdatedStateInvalid (ValidateState E doc')) (\<lambda>_. Ok doc')"
    using propose_step [OF assms] by metis
  with assms(5) show ?thesis
    by (intro exI [of _ doc'])
      (cases "ValidateState E doc'", simp_all add: ProposeTransitions_def)
qed

section \<open>Invariants of the node state\<close>

text \<open>
  What the validations protect: maps are keyed by the identifiers of their entries, user names are
  unique, installations belong to existing users and no two are of the same package, processes belong
  to existing users and no application has two.
\<close>

definition keyed :: "('v \<Rightarrow> 'k) \<Rightarrow> ('k, 'v) fmap \<Rightarrow> bool" where
  "keyed f m \<longleftrightarrow> fmpred (\<lambda>k v. f v = k) m"

definition injective_on :: "('v \<Rightarrow> 'a) \<Rightarrow> ('k, 'v) fmap \<Rightarrow> bool" where
  "injective_on f m \<longleftrightarrow>
     (\<forall>k l v w. fmlookup m k = Some v \<longrightarrow> fmlookup m l = Some w \<longrightarrow> f v = f w \<longrightarrow> k = l)"

definition package_id :: "installation \<Rightarrow> string \<times> string" where
  "package_id a =
     (case app_Package a of
        None \<Rightarrow> ('''', '''')
      | Some p \<Rightarrow> (pkg_RegistryURLBase p, pkg_RegistryPackageID p))"

definition owned_by :: "(string, user) fmap \<Rightarrow> ('v \<Rightarrow> string) \<Rightarrow> ('k, 'v) fmap \<Rightarrow> bool" where
  "owned_by us f m \<longleftrightarrow> fmpred (\<lambda>_ v. fmlookup us (f v) \<noteq> None) m"

definition users_ok :: "node_state \<Rightarrow> bool" where
  "users_ok s \<longleftrightarrow> keyed user_ID (entries (Users s)) \<and> injective_on user_Username (entries (Users s))"

definition apps_ok :: "node_state \<Rightarrow> bool" where
  "apps_ok s \<longleftrightarrow> keyed app_ID (entries (AppInstallations s)) \<and>
     injective_on package_id (entries (AppInstallations s)) \<and>
     fmpred (\<lambda>_ a. app_Package a \<noteq> None) (entries (AppInstallations s)) \<and>
     owned_by (entries (Users s)) app_UserID (entries (AppInstallations s))"

definition processes_ok :: "node_state \<Rightarrow> bool" where
  "processes_ok s \<longleftrightarrow> keyed proc_ID (entries (Processes s)) \<and>
     injective_on proc_AppID (entries (Processes s)) \<and>
     owned_by (entries (Users s)) proc_UserID (entries (Processes s))"

definition rules_ok :: "node_state \<Rightarrow> bool" where
  "rules_ok s \<longleftrightarrow> keyed rule_ID (entries (ReverseProxyRules s))"

definition wf_state :: "node_state \<Rightarrow> bool" where
  "wf_state s \<longleftrightarrow> users_ok s \<and> apps_ok s \<and> processes_ok s \<and> rules_ok s"

lemma keyed_fmupd [intro]: "keyed f m \<Longrightarrow> keyed f (fmupd (f v) v m)"
  by (auto simp: keyed_def fmpred_iff)

lemma keyed_fmdrop [intro]: "keyed f m \<Longrightarrow> keyed f (fmdrop k m)"
  by (auto simp: keyed_def fmpred_iff)

lemma injective_on_fmdrop [intro]: "injective_on f m \<Longrightarrow> injective_on f (fmdrop k m)"
  unfolding injective_on_def by (auto split: if_splits)

lemma injective_on_fmupd:
  assumes "injective_on f m" and "fmpred (\<lambda>_ x. f x \<noteq> f v) m"
  shows "injective_on f (fmupd k v m)"
  unfolding injective_on_def
proof (intro allI impI)
  fix i j x y
  assume "fmlookup (fmupd k v m) i = Some x" "fmlookup (fmupd k v m) j = Some y" "f x = f y"
  with assms show "i = j"
    by (auto simp: injective_on_def fmpred_iff split: if_splits)
qed

lemma injective_on_update_same:
  assumes "injective_on f m" and "fmlookup m k = Some v" and "f w = f v"
  shows "injective_on f (fmupd k w m)"
  unfolding injective_on_def
proof (intro allI impI)
  fix i j x y
  assume *: "fmlookup (fmupd k w m) i = Some x" "fmlookup (fmupd k w m) j = Some y" "f x = f y"
  have "\<exists>z. fmlookup m i = Some z \<and> f z = f x" if "fmlookup (fmupd k w m) i = Some x" for i x
    using that assms(2,3) by (cases "i = k") auto
  with * assms(1) show "i = j" unfolding injective_on_def by metis
qed

lemma owned_by_fmupd [intro]:
  "owned_by us f m \<Longrightarrow> fmlookup us (f v) \<noteq> None \<Longrightarrow> owned_by us f (fmupd k v m)"
  by (auto simp: owned_by_def fmpred_iff)

lemma owned_by_fmdrop [intro]: "owned_by us f m \<Longrightarrow> owned_by us f (fmdrop k m)"
  by (auto simp: owned_by_def fmpred_iff)

lemma owned_by_more_users [intro]: "owned_by us f m \<Longrightarrow> owned_by (fmupd i u us) f m"
  by (auto simp: owned_by_def fmpred_iff)

lemma wf_fill_maps [simp]: "wf_state (fill_maps s) = wf_state s"
  by (simp add: wf_state_def users_ok_def apps_ok_def processes_ok_def rules_ok_def fill_maps_def)

lemmas wf_parts = wf_state_def users_ok_def apps_ok_def processes_ok_def rules_ok_def

lemma wf_put_user:
  assumes "allocated s" and "wf_state s"
    and "fmpred (\<lambda>_ x. user_Username x \<noteq> user_Username u) (entries (Users s))"
  shows "wf_state (put_user u s)"
  using assms by (auto simp: wf_parts put_entries intro: injective_on_fmupd)

lemma wf_put_app:
  assumes "allocated s" and "wf_state s" and "app_Package a \<noteq> None"
    and "lookup_in (Users s) (app_UserID a) \<noteq> None"
    and "fmpred (\<lambda>_ x. package_id x \<noteq> package_id a) (entries (AppInstallations s))"
  shows "wf_state (put_app (app_ID a) a s)"
  using assms by (auto simp: wf_parts put_entries intro: injective_on_fmupd)

lemma wf_put_process:
  assumes "allocated s" and "wf_state s" and "lookup_in (Users s) (proc_UserID p) \<noteq> None"
    and "fmpred (\<lambda>_ x. proc_AppID x \<noteq> proc_AppID p) (entries (Processes s))"
  shows "wf_state (put_process p s)"
  using assms by (auto simp: wf_parts put_entries intro: injective_on_fmupd)

lemma wf_put_rule:
  assumes "allocated s" and "wf_state s"
  shows "wf_state (put_rule r s)"
  using assms by (auto simp: wf_parts put_entries)

lemma wf_fold_put_rule:
  assumes "allocated s" and "wf_state s"
  shows "wf_state (fold put_rule rs s)"
  using assms by (induction rs arbitrary: s) (auto simp: wf_put_rule)

lemma wf_drop_app:
  assumes "allocated s" and "wf_state s"
  shows "wf_state (drop_app i s)"
  using assms by (auto simp: wf_parts put_entries)

lemma wf_drop_process:
  assumes "allocated s" and "wf_state s"
  shows "wf_state (drop_process i s)"
  using assms by (auto simp: wf_parts put_entries)

lemma wf_mark_installed:
  assumes "allocated s" and "wf_state s"
  shows "wf_state (mark_installed i s)"
proof (cases "lookup_in (AppInstallations s) i")
  case None
  then show ?thesis using assms by (simp add: mark_installed_def)
next
  case (Some a)
  let ?a = "a\<lparr>app_State := LifecycleStateInstalled\<rparr>" and ?m = "entries (AppInstallations s)"
  have a: "app_ID a = i" "app_Package a \<noteq> None" "lookup_in (Users s) (app_UserID a) \<noteq> None"
    using assms(2) Some by (auto simp: wf_parts keyed_def owned_by_def fmpred_iff)
  have "keyed app_ID (fmupd (app_ID ?a) ?a ?m)"
    using assms(2) by (intro keyed_fmupd) (simp add: wf_parts)
  moreover have "injective_on package_id (fmupd i ?a ?m)"
    using assms(2) Some by (intro injective_on_update_same [of _ _ _ a]) (auto simp: wf_parts package_id_def)
  ultimately show ?thesis
    using assms a Some by (auto simp: wf_parts mark_installed_def put_entries)
qed

text \<open>What a successful search for clashes says, whatever the order of the search.\<close>

lemma same_package_loop_Ok:
  assumes "same_package_loop (Some q) userID as = Ok u" and "a \<in> set as"
  shows "app_Package a \<noteq> None \<and>
     package_id a \<noteq> (pkg_RegistryURLBase q, pkg_RegistryPackageID q)"
  using assms by (induction as) (auto simp: package_id_def split: option.splits if_splits)

lemma range_lawsD:
  assumes "range_laws E"
  shows "a \<in> set (map snd (range_apps E m)) \<longleftrightarrow> (\<exists>k. fmlookup m k = Some a)"
    and "r \<in> set (map snd (range_rules E n)) \<longleftrightarrow> (\<exists>k. fmlookup n k = Some r)"
proof -
  have v: "values_list m (range_apps E m)" "values_list n (range_rules E n)"
    using assms by (auto simp: range_laws_def)
  show "a \<in> set (map snd (range_apps E m)) \<longleftrightarrow> (\<exists>k. fmlookup m k = Some a)"
    unfolding values_listD [OF v(1), symmetric] by force
  show "r \<in> set (map snd (range_rules E n)) \<longleftrightarrow> (\<exists>k. fmlookup n k = Some r)"
    unfolding values_listD [OF v(2), symmetric] by force
qed

lemma Validate_StartInstallation_Ok:
  assumes "range_laws E" and "FromBytes doc = Ok s" and "Validate_StartInstallation E a doc = Ok u"
  shows "app_Package a \<noteq> None \<and> lookup_in (Users s) (app_UserID a) \<noteq> None \<and>
     lookup_in (AppInstallations s) (app_ID a) = None \<and>
     fmpred (\<lambda>_ x. package_id x \<noteq> package_id a) (entries (AppInstallations s))"
proof -
  let ?as = "map snd (range_apps E (entries (AppInstallations s)))"
  from assms(2,3) obtain q where q: "app_Package a = Some q"
    and loop: "\<exists>v. same_package_loop (Some q) (app_UserID a) ?as = Ok v"
    and rest: "lookup_in (Users s) (app_UserID a) \<noteq> None" "lookup_in (AppInstallations s) (app_ID a) = None"
    by (auto simp: Validate_StartInstallation_def Let_def bind_res_Ok_iff split: if_splits option.splits)
  have "package_id x \<noteq> package_id a" if "lookup_in (AppInstallations s) k = Some x" for k x
  proof -
    have "x \<in> set ?as" using range_lawsD(1) [OF assms(1)] that by blast
    then show ?thesis
      using loop same_package_loop_Ok [of q "app_UserID a" ?as _ x] q by (auto simp: package_id_def)
  qed

  with q rest show ?thesis by (auto simp: fmpred_iff)
qed

text \<open>One accepted transition keeps the invariants; an initial state must bring them along.\<close>

fun initial_ok :: "transition \<Rightarrow> bool" where
  "initial_ok (Initialize s) = pred_option wf_state s"
| "initial_ok _ = True"

lemma wf_effect:
  assumes "range_laws E" and "FromBytes doc = Ok s" and "allocated s" and "wf_state s"
    and "transition_Validate E t doc = Ok u" and "initial_ok t" and "\<not> is_Migration t"
  shows "wf_state (effect t s)"
proof (cases t)
  case (Initialize i)
  then show ?thesis using assms(5,6) by (cases i) auto
next
  case (Migration v)
  then show ?thesis using assms(7) by simp
next
  case (AddUser x)
  then show ?thesis
    using assms(2-5) by (auto simp: Validate_AddUser_def intro: wf_put_user split: if_splits)
next
  case (StartInstallation a rs)
  then show ?thesis
    using assms(3-5) Validate_StartInstallation_Ok [OF assms(1,2), of a u]
    by (auto intro!: wf_fold_put_rule wf_put_app)
next
  case (FinishInstallation i)
  then show ?thesis using assms(3,4) by (simp add: wf_mark_installed)
next
  case (Uninstall i)
  then show ?thesis using assms(3,4) by (simp add: wf_drop_app)
next
  case (ProcessStart q)
  then obtain p where "q = Some p"
    using assms(2,5) by (cases q) (auto simp: Validate_ProcessStart_def)
  then show ?thesis
    using assms(2-5) ProcessStart
    by (auto simp: Validate_ProcessStart_def bind_res_Ok_iff intro!: wf_put_process split: if_splits)
next
  case (ProcessStop i)
  then show ?thesis using assms(3,4) by (simp add: wf_drop_process)
next
  case (AddReverseProxyRule r)
  then show ?thesis using assms(3,4) by (simp add: wf_put_rule)
qed

lemma propose_loop_wf:
  assumes "env_ok E" and "range_laws E" and "FromBytes doc = Ok s" and "allocated s" and "wf_state s"
    and "list_all regular ts" and "list_all initial_ok ts"
    and "propose_loop E doc ws ts = Ok (doc', ws')"
  shows "wf_state (fold effect ts s)"
  using assms(3-8)
proof (induction ts arbitrary: doc s ws)
  case Nil
  then show ?case by simp
next
  case (Cons t ts)
  from Cons.prems obtain u p d1 where valid: "transition_Validate E t doc = Ok u"
    and first: "propose_loop E doc ws [t] = Ok (d1, ws @ [WrapTransition t p])"
    and rest: "propose_loop E d1 (ws @ [WrapTransition t p]) ts = Ok (doc', ws')"
    by (auto simp: bind_res_Ok_iff)
  have "FromBytes d1 = Ok (effect t s)" "allocated (effect t s)"
    using propose_loop_Ok [OF assms(1) Cons.prems(1,2) _ first] Cons.prems(4) by auto
  moreover have "wf_state (effect t s)"
    using wf_effect [OF assms(2) Cons.prems(1-3) valid] Cons.prems(4,5) by (simp add: regular_def)
  ultimately show ?case using Cons.IH [OF _ _ _ _ _ rest, of "effect t s"] Cons.prems(4,5) by simp
qed


section \<open>The interface Client\<close>

text \<open>
  \<open>state.Client\<close> as the controller relies on it: a proposal returns what the stateless function
  returns, an accepted one becomes the stored state, a refused one changes nothing, and \<open>State\<close> decodes
  \<open>Bytes\<close>.
\<close>

locale state_client =
  fixes E :: env
    and propose :: "transition list \<Rightarrow> 'c \<Rightarrow> 'c \<times> (json, db_error) res"
    and bytes :: "'c \<Rightarrow> json"
    and state :: "'c \<Rightarrow> (node_state, decode_error) res"
  assumes propose_result:
      "snd (propose ts c) = bind_res (ProposeTransitions E (bytes c) ts) (\<lambda>(d, _). Ok d)"
    and propose_bytes:
      "bytes (fst (propose ts c)) = (case snd (propose ts c) of Ok d \<Rightarrow> d | _ \<Rightarrow> bytes c)"
    and state_bytes: "state c = FromBytes (bytes c)"
begin

lemma refused_unchanged: "\<not> is_Ok (snd (propose ts c)) \<Longrightarrow> bytes (fst (propose ts c)) = bytes c"
  by (cases "snd (propose ts c)") (auto simp: propose_bytes)

lemma accepted_state:
  assumes "env_ok E" and "state c = Ok s" and "allocated s" and "list_all regular ts"
    and "snd (propose ts c) = Ok d"
  shows "state (fst (propose ts c)) = Ok (fold effect ts s)"
proof -
  from assms(5) obtain ws where "ProposeTransitions E (bytes c) ts = Ok (d, ws)"
    by (auto simp: propose_result bind_res_Ok_iff)
  then show ?thesis
    using propose_refines [OF assms(1) _ assms(3,4), of "bytes c" d ws] assms(2,5)
    by (simp add: state_bytes propose_bytes)
qed

text \<open>A whole history of proposals.\<close>

lemma history:
  assumes "env_ok E" and "range_laws E" and "state c = Ok s" and "allocated s" and "wf_state s"
    and "\<forall>ts \<in> set tss. list_all regular ts \<and> list_all initial_ok ts"
  shows "\<exists>acc s'. subseq acc tss \<and> state (fold (\<lambda>ts c. fst (propose ts c)) tss c) = Ok s' \<and>
     s' = fold effect (concat acc) s \<and> allocated s' \<and> wf_state s'"
  using assms(3-6)
proof (induction tss arbitrary: c s)
  case Nil
  then show ?case by auto
next
  case (Cons ts tss)
  let ?c = "fst (propose ts c)"
  show ?case
  proof (cases "is_Ok (snd (propose ts c))")
    case False
    then have "state ?c = Ok s" using Cons.prems(1) refused_unchanged by (simp add: state_bytes)
    from Cons.IH [OF this Cons.prems(2,3)] Cons.prems(4)
    obtain acc s' where "subseq acc tss"
      "state (fold (\<lambda>ts c. fst (propose ts c)) tss ?c) = Ok s'"
      "s' = fold effect (concat acc) s" "allocated s'" "wf_state s'"
      by auto
    then show ?thesis by (intro exI [of _ acc] exI [of _ s']) (simp add: list_emb_Cons)
  next
    case True
    then obtain d where d: "snd (propose ts c) = Ok d" by (auto simp: is_Ok_iff)
    then obtain ws where p: "ProposeTransitions E (bytes c) ts = Ok (d, ws)"
      by (auto simp: propose_result bind_res_Ok_iff)
    have ts: "list_all regular ts" "list_all initial_ok ts" using Cons.prems(4) by auto
    have doc: "FromBytes (bytes c) = Ok s" using Cons.prems(1) by (simp add: state_bytes)
    note loop = propose_loop_Ok [OF assms(1) doc Cons.prems(2) ts(1)]
      propose_loop_wf [OF assms(1,2) doc Cons.prems(2,3) ts]
    have "allocated (fold effect ts s)" "wf_state (fold effect ts s)"
      using loop [OF p [unfolded ProposeTransitions_def]] by auto
    from Cons.IH [OF accepted_state [OF assms(1) Cons.prems(1,2) ts(1) d] this] Cons.prems(4)
    obtain acc s' where "subseq acc tss"
      "state (fold (\<lambda>ts c. fst (propose ts c)) tss ?c) = Ok s'"
      "s' = fold effect (concat acc) (fold effect ts s)" "allocated s'" "wf_state s'"
      by auto
    then show ?thesis by (intro exI [of _ "ts # acc"]) auto
  qed
qed

end

lemmas fileDB_defs = fileDB_ProposeTransitions_def fileDB_Bytes_def fileDB_State_def writeState_def

text \<open>The file database is such a client as long as its writes succeed.\<close>

interpretation file_client: state_client E "fileDB_ProposeTransitions E Written" fileDB_Bytes fileDB_State
  for E
  by unfold_locales
    (auto simp: fileDB_defs split: prod.splits res.splits)

definition synced :: "file_db \<times> disk \<Rightarrow> bool" where
  "synced dbd \<longleftrightarrow> fmlookup (snd dbd) (db_path (fst dbd)) = Some (Some (db_state (fst dbd)))"

lemma synced_propose: "synced dbd \<Longrightarrow> synced (fst (fileDB_ProposeTransitions E Written ts dbd))"
  by (auto simp: synced_def fileDB_defs split: prod.splits res.splits)

lemma synced_history:
  "synced dbd \<Longrightarrow> synced (fold (\<lambda>ts c. fst (fileDB_ProposeTransitions E Written ts c)) tss dbd)"
  by (induction tss arbitrary: dbd) (simp_all add: synced_propose)

text \<open>
  After any history of proposals whose writes succeed, the database holds the replay of exactly the
  accepted proposals, in order; the invariants hold, and the file has the same content as the memory.
\<close>

theorem fileDB_history:
  assumes "env_ok E" and "range_laws E" and "fileDB_State dbd = Ok s" and "allocated s" and "wf_state s"
    and "synced dbd" and "\<forall>ts \<in> set tss. list_all regular ts \<and> list_all initial_ok ts"
  shows "\<exists>acc s'. subseq acc tss \<and>
     fileDB_State (fold (\<lambda>ts c. fst (fileDB_ProposeTransitions E Written ts c)) tss dbd) = Ok s' \<and>
     s' = fold effect (concat acc) s \<and> wf_state s' \<and>
     synced (fold (\<lambda>ts c. fst (fileDB_ProposeTransitions E Written ts c)) tss dbd)"
  using file_client.history [OF assms(1-5,7)] synced_history [OF assms(6)] by blast

text \<open>
  A failed write is not reported. The proposal returns the new state without an error, but the
  database keeps the old one.
\<close>

theorem failed_write_reports_success:
  assumes "ProposeTransitions E (db_state db) ts = Ok (newState, ws)"
  shows "\<exists>d'. fileDB_ProposeTransitions E (WriteFailed f) ts (db, d) = ((db, d'), Ok newState)"
  using assms by (cases f) (auto simp: fileDB_defs)

lemma fresh_state_aux:
  assumes "semver_laws E" and "diff_laws (jsonpatch_Apply E) (jsondiff_Compare E)"
  shows "EmptyState E = Ok (Some latest_empty)"
proof -
  have "GetEmptyStateForVersion E ''v0.0.8'' = Ok (Some latest_empty)"
    using migration_patch_applies_aux [OF assms(2) migrated_to_latest [OF assms(1), of zero_state]]
    by (auto simp: GetEmptyStateForVersion_def)
  then show ?thesis by (simp add: EmptyState_def CurrentVersion_def)
qed

lemma allocated_latest_empty [simp]: "allocated latest_empty"
  by (simp add: allocated_def latest_empty_def)

text \<open>
  A new database holds the meaning of the initial transitions on the empty state of the latest
  version, has it on disk, satisfies the schema; and opening the file again gives the same database.
\<close>

theorem new_database_reopens:
  assumes "semver_laws E" and "diff_laws (jsonpatch_Apply E) (jsondiff_Compare E)" and "env_ok E"
    and "list_all regular ts" and "fmlookup d path = None"
    and "NewHabitatDB E False False Written path ts d = (d', Ok (Some db))"
  shows "fileDB_State (db, d') = Ok (fold effect ts latest_empty) \<and> synced (db, d') \<and>
     ValidateState E (db_state db) = Ok () \<and>
     NewHabitatDB E False False out path ts' d' = (d', Ok (Some db))"
proof -
  from assms(5,6) fresh_state_aux [OF assms(1,2)]
  obtain st ws where p: "ProposeTransitions E (Bytes latest_empty) ts = Ok (st, ws)"
    and v: "ValidateState E st = Ok ()"
    and db: "db = \<lparr>db_path = path, db_state = st\<rparr>" "d' = fmupd path (Some st) d"
    by (auto simp: NewHabitatDB_def writeState_def bind_res_Ok_iff split: res.splits prod.splits)
  have "FromBytes st = Ok (fold effect ts latest_empty)"
    using propose_refines [OF assms(3) FromBytes_Bytes allocated_latest_empty assms(4) p] by simp
  with v db show ?thesis by (simp add: NewHabitatDB_def fileDB_State_def synced_def)
qed

section \<open>The theorems applied\<close>

lemma ref_env_ok [simp]: "env_ok ref_env"
  by (simp add: env_ok_def decode_laws_def) (simp add: ref_env_def)

text \<open>In the reference environment every valid transition is accepted.\<close>

lemma ref_env_accepts:
  assumes "FromBytes doc = Ok s" and "allocated s" and "regular t"
    and "transition_Validate ref_env t doc = Ok ()" and "SchemaVersion (effect t s) = ''v0.0.8''"
  shows "\<exists>doc' w. ProposeTransitions ref_env doc [t] = Ok (doc', [w])"
proof -
  obtain p doc' where "transition_Patch ref_env t doc = Ok p" and d: "FromBytes doc' = Ok (effect t s)"
    and "applyPatch ref_env doc p =
      bind_res (map_err UpdatedStateInvalid (ValidateState ref_env doc')) (\<lambda>_. Ok doc')"
    using propose_step [OF ref_env_ok assms(1-4)] by metis
  with assms(4) ref_env_valid [OF d assms(5)] show ?thesis by (simp add: ProposeTransitions_def)
qed

definition sample_user :: user where
  "sample_user = \<lparr>user_ID = ''u1'', user_Username = ''alice'', user_DID = ''''\<rparr>"

definition sample_db :: "file_db \<times> disk" where
  "sample_db = (\<lparr>db_path = ''db'', db_state = Bytes latest_empty\<rparr>,
     fmap_of_list [(''db'', Some (Bytes latest_empty))])"

lemma regular_AddUser: "regular (AddUser sample_user)"
  by (simp add: regular_def good_id_def json_plain_def plain_key_def sample_user_def)

lemma sample_AddUser_valid:
  "transition_Validate ref_env (AddUser sample_user) (Bytes latest_empty) = Ok ()"
  by (simp add: Validate_AddUser_def latest_empty_def sample_user_def)

lemma sample_AddUser_version: "SchemaVersion (effect (AddUser sample_user) latest_empty) = ''v0.0.8''"
  by (simp add: put_user_def latest_empty_def)

lemma sample_accepted:
  obtains doc w where "ProposeTransitions ref_env (Bytes latest_empty) [AddUser sample_user] = Ok (doc, [w])"
  using ref_env_accepts [OF FromBytes_Bytes allocated_latest_empty regular_AddUser sample_AddUser_valid
    sample_AddUser_version] by blast

lemma wf_latest_empty: "wf_state latest_empty"
  by (simp add: wf_parts latest_empty_def keyed_def injective_on_def owned_by_def)


lemma valid_transition_only_refused_by_schema_witness:
  "\<exists>doc'. FromBytes doc' = Ok (effect (AddUser sample_user) latest_empty) \<and>
     (\<exists>w. ProposeTransitions ref_env (Bytes latest_empty) [AddUser sample_user] = Ok (doc', [w]))"
proof -
  obtain doc' where d: "FromBytes doc' = Ok (effect (AddUser sample_user) latest_empty)"
    and "case ValidateState ref_env doc' of
        Ok _ \<Rightarrow> \<exists>w. ProposeTransitions ref_env (Bytes latest_empty) [AddUser sample_user] = Ok (doc', [w])
      | Err e \<Rightarrow> ProposeTransitions ref_env (Bytes latest_empty) [AddUser sample_user] = Err (UpdatedStateInvalid e)
      | Panic \<Rightarrow> ProposeTransitions ref_env (Bytes latest_empty) [AddUser sample_user] = Panic"
    using valid_transition_only_refused_by_schema [OF ref_env_ok FromBytes_Bytes allocated_latest_empty
      regular_AddUser sample_AddUser_valid] by blast
  moreover have "ValidateState ref_env doc' = Ok ()"
    by (rule ref_env_valid [OF d sample_AddUser_version])
  ultimately show ?thesis by (intro exI [of _ doc']) simp
qed


lemma fileDB_history_witness:
  "\<exists>acc s'. subseq acc [[AddUser sample_user], [Uninstall ''none'']] \<and>
     fileDB_State (fold (\<lambda>ts c. fst (fileDB_ProposeTransitions ref_env Written ts c))
       [[AddUser sample_user], [Uninstall ''none'']] sample_db) = Ok s' \<and>
     s' = fold effect (concat acc) latest_empty \<and> wf_state s' \<and>
     synced (fold (\<lambda>ts c. fst (fileDB_ProposeTransitions ref_env Written ts c))
       [[AddUser sample_user], [Uninstall ''none'']] sample_db)"
proof (rule fileDB_history [OF ref_env_ok ref_env_range_laws _ allocated_latest_empty wf_latest_empty])
  show "fileDB_State sample_db = Ok latest_empty" by (simp add: fileDB_State_def sample_db_def)
  show "synced sample_db" by (simp add: synced_def sample_db_def)
  show "\<forall>ts \<in> set [[AddUser sample_user], [Uninstall ''none'']].
      list_all regular ts \<and> list_all initial_ok ts"
    using regular_AddUser by (simp add: regular_def good_id_def json_plain_def plain_key_def)
qed

lemma failed_write_reports_success_witness:
  "\<exists>new d'. fileDB_ProposeTransitions ref_env (WriteFailed None) [AddUser sample_user] sample_db =
     ((fst sample_db, d'), Ok new) \<and> FromBytes new \<noteq> fileDB_State (fst sample_db, d')"
proof -
  obtain doc w where p: "ProposeTransitions ref_env (db_state (fst sample_db)) [AddUser sample_user] = Ok (doc, [w])"
    using sample_accepted by (auto simp: sample_db_def)
  have "FromBytes doc = Ok (put_user sample_user latest_empty)"
    using propose_refines [OF ref_env_ok _ allocated_latest_empty _ p] regular_AddUser
    by (simp add: sample_db_def)
  moreover have "lookup_in (Users (put_user sample_user latest_empty)) ''u1'' \<noteq>
      lookup_in (Users latest_empty) ''u1''"
    by (simp add: put_user_def latest_empty_def sample_user_def)
  then have "put_user sample_user latest_empty \<noteq> latest_empty" by metis
  ultimately show ?thesis
    using failed_write_reports_success [OF p, of None "snd sample_db"]
    by (auto simp: fileDB_State_def sample_db_def)
qed

lemma new_database_reopens_witness:
  "\<exists>d' db. NewHabitatDB ref_env False False Written ''db'' [AddUser sample_user] fmempty = (d', Ok (Some db)) \<and>
     fileDB_State (db, d') = Ok (put_user sample_user latest_empty) \<and>
     NewHabitatDB ref_env False False Written ''db'' [] d' = (d', Ok (Some db))"
proof -
  obtain doc w where p: "ProposeTransitions ref_env (Bytes latest_empty) [AddUser sample_user] = Ok (doc, [w])"
    by (rule sample_accepted)
  have "FromBytes doc = Ok (put_user sample_user latest_empty)"
    using propose_refines [OF ref_env_ok FromBytes_Bytes allocated_latest_empty _ p] regular_AddUser by simp
  then have "ValidateState ref_env doc = Ok ()"
    using sample_AddUser_version by (simp add: ref_env_valid)
  then obtain d' db where n: "NewHabitatDB ref_env False False Written ''db'' [AddUser sample_user] fmempty =
      (d', Ok (Some db))"
    using p fresh_state_aux [of ref_env] by (simp add: NewHabitatDB_def writeState_def)
  with new_database_reopens [OF ref_env_semver_laws ref_env_diff_laws ref_env_ok _ _ n, of Written "[]"]
  show ?thesis using regular_AddUser by auto
qed

end
