(* ===== verification/ReverseProxy.thy ===== *)
theory ReverseProxy
  imports AppTypes Http
begin

text \<open>
  The reverse proxy: \<open>internal/node/reverse_proxy\<close> (\<open>rules.go\<close>, \<open>server.go\<close>, \<open>handler.go\<close>).

  A request is its URL path.  The rule loop of \<open>ServeHTTP\<close> takes the order in which the map of rules is
  visited as an argument.  \<open>url.Parse\<close> of a target is an argument too (host and path, or an error), and
  so is the answer of \<open>os.Stat\<close>; what the standard handlers do with a request once the code has chosen
  the target is the result \<open>Forward\<close>, \<open>ServeDir\<close> or \<open>ServeEmbedded\<close>.
\<close>

section \<open>Rule sets\<close>

record rule_set =
  rs_rules :: "(string, rule) fmap"
  rs_baseFilePath :: string

datatype rule_error = RulePresent string | RuleTypeUnsupported string | RuleMissing string

definition AddRule :: "rule_set \<Rightarrow> rule \<Rightarrow> rule_set \<times> (unit, rule_error) res" where
  "AddRule rs r =
     (if fmlookup (rs_rules rs) (rule_ID r) \<noteq> None then (rs, Err (RulePresent (rule_ID r)))
      else if rule_Type r \<noteq> ProxyRuleRedirect \<and> rule_Type r \<noteq> ProxyRuleFileServer \<and>
              rule_Type r \<noteq> ProxyRuleEmbeddedFrontend
      then (rs, Err (RuleTypeUnsupported (rule_Type r)))
      else (rs\<lparr>rs_rules := fmupd (rule_ID r) r (rs_rules rs)\<rparr>, Ok ()))"

definition RemoveRule :: "rule_set \<Rightarrow> string \<Rightarrow> rule_set \<times> (unit, rule_error) res" where
  "RemoveRule rs name =
     (if fmlookup (rs_rules rs) name = None then (rs, Err (RuleMissing name))
      else (rs\<lparr>rs_rules := fmdrop name (rs_rules rs)\<rparr>, Ok ()))"

definition NewProxyServer :: "string \<Rightarrow> rule_set" where
  "NewProxyServer defaultServePath =
     \<lparr>rs_rules = fmempty, rs_baseFilePath = defaultServePath\<rparr>"

section \<open>Matching\<close>

definition matchRule :: "string \<Rightarrow> rule \<Rightarrow> bool" where
  "matchRule requestPath r =
     (if HasPrefix requestPath (rule_Matcher r)
      then
        (let prefixRemoved = TrimPrefix requestPath (rule_Matcher r) in
         if prefixRemoved = '''' then True else HasPrefix prefixRemoved ''/'')
      else False)"

definition rankMatch :: "rule \<Rightarrow> int" where
  "rankMatch r = int (count_byte (CHR ''/'') (rule_Matcher r))"

fun best_match_loop :: "string \<Rightarrow> rule option \<times> int \<Rightarrow> rule list \<Rightarrow> rule option \<times> int" where
  "best_match_loop p best [] = best"
| "best_match_loop p (bestMatch, highestRank) (r # rs) =
     best_match_loop p
       (if matchRule p r \<and> rankMatch r > highestRank then (Some r, rankMatch r)
        else (bestMatch, highestRank)) rs"

definition bestMatch :: "string \<Rightarrow> rule list \<Rightarrow> rule option" where
  "bestMatch p rs = fst (best_match_loop p (None, - 1) rs)"

section \<open>Handlers\<close>

record file_server =
  fs_Prefix :: string
  fs_Path :: string
  fs_EmbeddedFS :: bool
  fs_BasePath :: string

datatype handler =
    RedirectHandler string string rule
  | FileServerHandler file_server

datatype handler_error = UnknownRuleType string | TargetUnparsable

type_synonym url_parse = "string \<Rightarrow> (string \<times> string) option"

definition getRedirectHandler :: "url_parse \<Rightarrow> rule \<Rightarrow> (handler, handler_error) res" where
  "getRedirectHandler parse r =
     (case parse (rule_Target r) of
        None \<Rightarrow> Err TargetUnparsable
      | Some (host, urlPath) \<Rightarrow> Ok (RedirectHandler host urlPath r))"

definition WithBasePath :: "string \<Rightarrow> file_server \<Rightarrow> file_server" where
  "WithBasePath basePath o' = o'\<lparr>fs_BasePath := basePath\<rparr>"

definition WithFS :: "file_server \<Rightarrow> file_server" where
  "WithFS o' = o'\<lparr>fs_EmbeddedFS := True\<rparr>"

definition getFileServerHandler ::
  "rule \<Rightarrow> (file_server \<Rightarrow> file_server) list \<Rightarrow> (handler, handler_error) res"
where
  "getFileServerHandler r options =
     Ok (FileServerHandler (fold (\<lambda>f o'. f o') options
       \<lparr>fs_Prefix = rule_Matcher r, fs_Path = rule_Target r, fs_EmbeddedFS = False, fs_BasePath = ''''\<rparr>))"

definition getHandlerFromRule ::
  "url_parse \<Rightarrow> rule \<Rightarrow> string \<Rightarrow> (handler, handler_error) res"
where
  "getHandlerFromRule parse r webBundlePath =
     (if rule_Type r = ProxyRuleRedirect then getRedirectHandler parse r
      else if rule_Type r = ProxyRuleFileServer
      then getFileServerHandler r [WithBasePath webBundlePath]
      else Err (UnknownRuleType (rule_Type r)))"

datatype proxy_body = HandlerErrorText handler_error | PathNotFoundText string

datatype proxied =
    Respond "proxy_body response"
  | Forward string string
  | ServeDir string string
  | ServeEmbedded string

text \<open>The director of the redirect: the request goes to \<open>host\<close>, with the joined path.\<close>

definition redirect_director :: "string \<Rightarrow> rule \<Rightarrow> string \<Rightarrow> string" where
  "redirect_director forwardPath r requestPath =
     path_Join [forwardPath, TrimPrefix requestPath (rule_Matcher r)]"

definition file_server_ServeHTTP :: "(string \<Rightarrow> bool) \<Rightarrow> file_server \<Rightarrow> string \<Rightarrow> proxied" where
  "file_server_ServeHTTP missing h requestPath =
     (let newPath = TrimPrefix requestPath (fs_Prefix h) in
      if fs_EmbeddedFS h then ServeEmbedded newPath
      else
        (let path = (if fs_BasePath h \<noteq> '''' \<and> \<not> is_rooted (fs_Path h)
                     then path_Join [fs_BasePath h, fs_Path h] else fs_Path h) in
         if missing path
         then Respond (http_Error (PathNotFoundText path) StatusInternalServerError empty_response)
         else ServeDir path newPath))"

fun handler_ServeHTTP :: "(string \<Rightarrow> bool) \<Rightarrow> handler \<Rightarrow> string \<Rightarrow> proxied" where
  "handler_ServeHTTP missing (RedirectHandler host urlPath r) p =
     Forward host (redirect_director urlPath r p)"
| "handler_ServeHTTP missing (FileServerHandler h) p = file_server_ServeHTTP missing h p"

text \<open>
  The order of the calls in the error branch is the code's: the message is written before the status.
\<close>

definition ServeHTTP ::
  "url_parse \<Rightarrow> (string \<Rightarrow> bool) \<Rightarrow> string \<Rightarrow> rule list \<Rightarrow> string \<Rightarrow> proxied"
where
  "ServeHTTP parse missing defaultServePath rs p =
     (case bestMatch p rs of
        None \<Rightarrow> Respond (WriteHeader StatusNotFound empty_response)
      | Some r \<Rightarrow>
          (case getHandlerFromRule parse r defaultServePath of
             Ok h \<Rightarrow> handler_ServeHTTP missing h p
           | Err e \<Rightarrow>
               Respond (WriteHeader StatusInternalServerError (Write (HandlerErrorText e) empty_response))
           | Panic \<Rightarrow> Respond empty_response))"

section \<open>What a match is\<close>

lemma matchRule_iff:
  "matchRule p r \<longleftrightarrow> p = rule_Matcher r \<or> (\<exists>rest. p = rule_Matcher r @ CHR ''/'' # rest)"
proof -
  have ext: "matchRule (rule_Matcher r @ t) r \<longleftrightarrow> t = [] \<or> (\<exists>rest. t = CHR ''/'' # rest)" for t
    using TrimPrefix_append [of "rule_Matcher r" t] HasPrefix_append [of "rule_Matcher r" t]
    by (cases t) (auto simp: matchRule_def HasPrefix_def [of _ "''/''"])
  show ?thesis
  proof
    assume m: "matchRule p r"
    then obtain t where t: "p = rule_Matcher r @ t"
      by (auto simp: matchRule_def HasPrefix_iff split: if_splits)
    from m ext [of t] show "p = rule_Matcher r \<or> (\<exists>rest. p = rule_Matcher r @ CHR ''/'' # rest)"
      unfolding t by auto
  next
    assume "p = rule_Matcher r \<or> (\<exists>rest. p = rule_Matcher r @ CHR ''/'' # rest)"
    then show "matchRule p r" using ext [of "[]"] ext by auto
  qed
qed

lemma matchRule_prefix: "matchRule p r \<Longrightarrow> \<exists>u. p = rule_Matcher r @ u"
  unfolding matchRule_iff by auto

lemma best_match_loop_spec:
  assumes "best_match_loop p (b, h) rs = (b', h')"
  shows "h \<le> h' \<and> (\<forall>r \<in> set rs. matchRule p r \<longrightarrow> rankMatch r \<le> h') \<and>
     ((b', h') = (b, h) \<or> (\<exists>r \<in> set rs. b' = Some r \<and> matchRule p r \<and> h' = rankMatch r))"
  using assms
proof (induction rs arbitrary: b h)
  case Nil
  then show ?case by simp
next
  case (Cons r rs)
  then show ?case
    by (cases "matchRule p r \<and> rankMatch r > h") (fastforce split: if_splits)+
qed

lemma bestMatch_Some:
  assumes "bestMatch p rs = Some r"
  shows "r \<in> set rs \<and> matchRule p r \<and> (\<forall>x \<in> set rs. matchRule p x \<longrightarrow> rankMatch x \<le> rankMatch r)"
proof -
  obtain h' where "best_match_loop p (None, - 1) rs = (Some r, h')"
    using assms by (cases "best_match_loop p (None, - 1) rs") (simp add: bestMatch_def)
  from best_match_loop_spec [OF this] show ?thesis by auto
qed

lemma bestMatch_None_iff: "bestMatch p rs = None \<longleftrightarrow> (\<forall>r \<in> set rs. \<not> matchRule p r)"
proof
  assume "bestMatch p rs = None"
  then obtain h' where "best_match_loop p (None, - 1) rs = (None, h')"
    by (cases "best_match_loop p (None, - 1) rs") (simp add: bestMatch_def)
  from best_match_loop_spec [OF this] show "\<forall>r \<in> set rs. \<not> matchRule p r"
    by (auto simp: rankMatch_def)
next
  assume "\<forall>r \<in> set rs. \<not> matchRule p r"
  then show "bestMatch p rs = None"
    using bestMatch_Some [of p rs] by (cases "bestMatch p rs") auto
qed

text \<open>Two matchers of one path are comparable, and the longer one has more slashes.\<close>

lemma matchers_comparable:
  assumes "matchRule p r" and "matchRule p x" and "length (rule_Matcher x) < length (rule_Matcher r)"
  shows "\<exists>rest. rule_Matcher r = rule_Matcher x @ CHR ''/'' # rest" and "rankMatch x < rankMatch r"
proof -
  from assms(1) obtain u where u: "p = rule_Matcher r @ u" by (auto simp: matchRule_iff)
  from assms(2) obtain v where v: "p = rule_Matcher x @ v" and slash: "v = [] \<or> (\<exists>t. v = CHR ''/'' # t)"
    by (auto simp: matchRule_iff)
  from u v assms(3) obtain w where w: "rule_Matcher r = rule_Matcher x @ w" "w \<noteq> []"
    by (metis append_eq_append_conv_if append_eq_conv_conj less_imp_le less_irrefl append_Nil2)
  with u v slash have "hd w = CHR ''/''" by (cases w) auto
  with w show *: "\<exists>rest. rule_Matcher r = rule_Matcher x @ CHR ''/'' # rest" by (cases w) auto
  then show "rankMatch x < rankMatch r" by (auto simp: rankMatch_def count_byte_def)
qed

lemma rank_less_iff_length:
  assumes "matchRule p r" and "matchRule p x"
  shows "rankMatch x \<le> rankMatch r \<longleftrightarrow> length (rule_Matcher x) \<le> length (rule_Matcher r)"
    and "length (rule_Matcher x) = length (rule_Matcher r) \<Longrightarrow> rule_Matcher x = rule_Matcher r"
proof -
  show same: "rule_Matcher x = rule_Matcher r" if "length (rule_Matcher x) = length (rule_Matcher r)"
  proof -
    from assms obtain u v where "p = rule_Matcher r @ u" "p = rule_Matcher x @ v"
      using matchRule_prefix by blast
    with that show ?thesis by (metis append_eq_append_conv)
  qed
  show "rankMatch x \<le> rankMatch r \<longleftrightarrow> length (rule_Matcher x) \<le> length (rule_Matcher r)"
    using matchers_comparable(2) [OF assms] matchers_comparable(2) [OF assms(2,1)] same
    by (cases "length (rule_Matcher x)" "length (rule_Matcher r)" rule: linorder_cases)
      (auto simp: rankMatch_def)
qed


text \<open>
  C20: the rule that serves a request matches its path, and its matcher is the longest one that does;
  a request gets 404 exactly when no rule matches.
\<close>

theorem longest_matcher_wins:
  "(bestMatch p rs = None \<longleftrightarrow> (\<forall>r \<in> set rs. \<not> matchRule p r)) \<and>
   (\<forall>r. bestMatch p rs = Some r \<longrightarrow> r \<in> set rs \<and> matchRule p r \<and>
      (\<forall>x \<in> set rs. matchRule p x \<longrightarrow> length (rule_Matcher x) \<le> length (rule_Matcher r)))"
  using bestMatch_None_iff bestMatch_Some rank_less_iff_length(1) by blast

lemma longest_matcher_wins_witness:
  "bestMatch ''/api/v1'' [\<lparr>rule_ID = ''1'', rule_Type = ''file'', rule_Matcher = '''', rule_Target = '''', rule_AppID = ''''\<rparr>,
      \<lparr>rule_ID = ''2'', rule_Type = ''redirect'', rule_Matcher = ''/api'', rule_Target = '''', rule_AppID = ''''\<rparr>] =
     Some \<lparr>rule_ID = ''2'', rule_Type = ''redirect'', rule_Matcher = ''/api'', rule_Target = '''', rule_AppID = ''''\<rparr>"
  (is "bestMatch ?p [?r, ?x] = _")
proof -
  have m: "matchRule ?p ?x" "matchRule ?p ?r" by (simp_all add: matchRule_def HasPrefix_def TrimPrefix_def)
  then obtain b where b: "bestMatch ?p [?r, ?x] = Some b"
    using longest_matcher_wins [of ?p "[?r, ?x]"] by (cases "bestMatch ?p [?r, ?x]") auto
  then have "b \<in> set [?r, ?x]" "length (rule_Matcher ?x) \<le> length (rule_Matcher b)"
    using longest_matcher_wins [of ?p "[?r, ?x]"] m by auto
  with b show ?thesis by auto
qed

lemma bestMatch_order:
  assumes "values_list m ps" and "values_list m qs" and "bestMatch p (map snd ps) = Some r"
  shows "\<exists>x. bestMatch p (map snd qs) = Some x \<and> rule_Matcher x = rule_Matcher r"
proof -
  have same: "set (map snd qs) = set (map snd ps)"
    using values_listD [OF assms(1)] values_listD [OF assms(2)] by force
  note r = bestMatch_Some [OF assms(3)]
  then obtain x where x: "bestMatch p (map snd qs) = Some x"
    using bestMatch_None_iff [of p "map snd qs"] unfolding same by blast
  note x' = bestMatch_Some [OF this]
  have m: "matchRule p r" "matchRule p x" using r x' by blast+
  have "rankMatch x \<le> rankMatch r" "rankMatch r \<le> rankMatch x"
    using r x' unfolding same by blast+
  then have "length (rule_Matcher x) = length (rule_Matcher r)"
    using rank_less_iff_length(1) [OF m] rank_less_iff_length(1) [OF m(2,1)] by simp
  then have "rule_Matcher x = rule_Matcher r" by (rule rank_less_iff_length(2) [OF m])
  with x show ?thesis by blast
qed

text \<open>
  The answer does not depend on the order in which the map of rules is visited: with distinct
  matchers every order gives the same rule.
\<close>

theorem match_independent_of_order:
  assumes "values_list m ps" and "values_list m qs"
    and "\<forall>k l r x. fmlookup m k = Some r \<longrightarrow> fmlookup m l = Some x \<longrightarrow>
       rule_Matcher r = rule_Matcher x \<longrightarrow> k = l"
  shows "ServeHTTP parse missing base (map snd ps) p = ServeHTTP parse missing base (map snd qs) p"
proof -
  have "bestMatch p (map snd ps) = bestMatch p (map snd qs)"
  proof (cases "bestMatch p (map snd ps)")
    case None
    then show ?thesis
      using bestMatch_order [OF assms(2,1), of p] by (cases "bestMatch p (map snd qs)") auto
  next
    case (Some r)
    then obtain x where x: "bestMatch p (map snd qs) = Some x" "rule_Matcher x = rule_Matcher r"
      using bestMatch_order [OF assms(1,2)] by blast
    obtain k l where "fmlookup m k = Some r" "fmlookup m l = Some x"
      using bestMatch_Some [OF Some] bestMatch_Some [OF x(1)] values_listD [OF assms(1)]
        values_listD [OF assms(2)] by auto
    with assms(3) x have "r = x" by (metis option.inject)
    with Some x show ?thesis by simp
  qed
  then show ?thesis by (simp add: ServeHTTP_def)
qed

definition sample_rule :: "string \<Rightarrow> string \<Rightarrow> string \<Rightarrow> rule" where
  "sample_rule i t m = \<lparr>rule_ID = i, rule_Type = t, rule_Matcher = m, rule_Target = ''t'', rule_AppID = ''a''\<rparr>"

lemma match_independent_of_order_witness:
  "ServeHTTP (\<lambda>_. None) (\<lambda>_. False) ''/web''
     [sample_rule ''1'' ''file'' ''/a'', sample_rule ''2'' ''redirect'' ''/a/b''] ''/a/b/c'' =
   ServeHTTP (\<lambda>_. None) (\<lambda>_. False) ''/web''
     [sample_rule ''2'' ''redirect'' ''/a/b'', sample_rule ''1'' ''file'' ''/a''] ''/a/b/c''"
proof -
  let ?a = "(''1'', sample_rule ''1'' ''file'' ''/a'')" and ?b = "(''2'', sample_rule ''2'' ''redirect'' ''/a/b'')"
  have "values_list (fmap_of_list [?a, ?b]) [?a, ?b]" "values_list (fmap_of_list [?a, ?b]) [?b, ?a]"
    by (auto simp: values_list_def fun_eq_iff)
  from match_independent_of_order [OF this, of "\<lambda>_. None" "\<lambda>_. False" "''/web''" "''/a/b/c''"]
  show ?thesis by (auto simp: sample_rule_def split: if_splits)
qed

section \<open>Rule sets as a store\<close>

definition rules_supported :: "rule_set \<Rightarrow> bool" where
  "rules_supported rs \<longleftrightarrow> fmpred (\<lambda>k r. rule_ID r = k \<and>
     rule_Type r \<in> {ProxyRuleRedirect, ProxyRuleFileServer, ProxyRuleEmbeddedFrontend}) (rs_rules rs)"

lemma AddRule_Ok_iff:
  "snd (AddRule rs r) = Ok () \<longleftrightarrow> fmlookup (rs_rules rs) (rule_ID r) = None \<and>
     rule_Type r \<in> {ProxyRuleRedirect, ProxyRuleFileServer, ProxyRuleEmbeddedFrontend}"
  by (auto simp: AddRule_def)

lemma AddRule_rules:
  "rs_rules (fst (AddRule rs r)) =
     (if snd (AddRule rs r) = Ok () then fmupd (rule_ID r) r (rs_rules rs) else rs_rules rs)"
  by (auto simp: AddRule_def)

lemma AddRule_supported: "rules_supported rs \<Longrightarrow> rules_supported (fst (AddRule rs r))"
  by (auto simp: rules_supported_def AddRule_def fmpred_iff)

text \<open>
  Adding a rule never overwrites one and keeps the set well-formed; the added rule is found; and
  removing it again restores the set.
\<close>

theorem AddRule_RemoveRule:
  assumes "rules_supported rs"
  shows "rules_supported (fst (AddRule rs r)) \<and> rules_supported (fst (RemoveRule rs name)) \<and>
     (\<forall>k x. fmlookup (rs_rules rs) k = Some x \<longrightarrow> fmlookup (rs_rules (fst (AddRule rs r))) k = Some x) \<and>
     (snd (AddRule rs r) = Ok () \<longrightarrow>
        fmlookup (rs_rules (fst (AddRule rs r))) (rule_ID r) = Some r \<and>
        RemoveRule (fst (AddRule rs r)) (rule_ID r) = (rs, Ok ()))"
proof -
  have "fmdrop (rule_ID r) (fmupd (rule_ID r) r (rs_rules rs)) = rs_rules rs"
    if "fmlookup (rs_rules rs) (rule_ID r) = None"
    using that by (intro fmap_eqI) auto
  moreover have "rules_supported (fst (RemoveRule rs name))"
    using assms by (auto simp: rules_supported_def RemoveRule_def fmpred_iff)
  ultimately show ?thesis
    using AddRule_supported [OF assms, of r] by (auto simp: AddRule_def RemoveRule_def)
qed

lemma AddRule_RemoveRule_witness:
  "RemoveRule (fst (AddRule (NewProxyServer ''/web'') (sample_rule ''1'' ''file'' ''/a''))) ''1'' =
     (NewProxyServer ''/web'', Ok ())"
proof -
  have "rules_supported (NewProxyServer ''/web'')" by (simp add: rules_supported_def NewProxyServer_def)
  from AddRule_RemoveRule [OF this, of "sample_rule ''1'' ''file'' ''/a''" "''1''"]
  show ?thesis by (auto simp: AddRule_def NewProxyServer_def sample_rule_def rule_types)
qed

section \<open>What a rule serves\<close>

text \<open>
  A rule of a type that \<open>getHandlerFromRule\<close> does not know, such as the embedded frontend that
  \<open>AddRule\<close> admits, is answered with status 200 and an error text, since the text is written before the
  status.
\<close>

theorem unknown_rule_type_answers_200:
  assumes "bestMatch p rs = Some r" and "rule_Type r = ProxyRuleEmbeddedFrontend"
  shows "\<exists>w. ServeHTTP parse missing base rs p = Respond w \<and> status w = StatusOK \<and>
     rsp_Body w = [HandlerErrorText (UnknownRuleType ProxyRuleEmbeddedFrontend)]"
  using assms by (simp add: ServeHTTP_def getHandlerFromRule_def rule_types WriteHeader_def Write_def
      status_def empty_response_def)

lemma unknown_rule_type_answers_200_witness:
  "\<exists>w. ServeHTTP (\<lambda>_. None) (\<lambda>_. False) '''' [sample_rule ''f'' ''embedded_frontend'' ''''] ''/x'' = Respond w \<and>
     status w = StatusOK \<and> rsp_Body w = [HandlerErrorText (UnknownRuleType ProxyRuleEmbeddedFrontend)]"
  by (rule unknown_rule_type_answers_200 [of _ _ "sample_rule ''f'' ''embedded_frontend'' ''''"])
    (simp_all add: sample_rule_def bestMatch_def matchRule_def HasPrefix_def TrimPrefix_def rankMatch_def
      count_byte_def rule_types)

lemma path_Clean_components:
  assumes "is_rooted q"
  shows "path_Clean q = CHR ''/'' # join_slash (clean_stack True [] (split_byte (CHR ''/'') q))"
  using assms by (simp add: path_Clean_def)

lemma redirect_stays_below_aux:
  assumes "is_rooted f" and "dotdot \<notin> set (split_byte (CHR ''/'') rest)" and "rest \<noteq> ''''"
  shows "\<exists>cs. path_Join [f, rest] = CHR ''/'' # join_slash
     (clean_stack True [] (split_byte (CHR ''/'') f) @ cs)"
proof -
  let ?c = "CHR ''/''"
  have f: "f \<noteq> ''''" using assms(1) by (auto simp: is_rooted_def HasPrefix_def)
  then have "path_Join [f, rest] = path_Clean (f @ ?c # rest)"
    using assms(3) by (simp add: path_Join_def)
  also have "is_rooted (f @ ?c # rest)" using assms(1) f by (cases f) (auto simp: is_rooted_def HasPrefix_def)
  then have "path_Clean (f @ ?c # rest) =
      ?c # join_slash (clean_stack True [] (split_byte ?c f @ split_byte ?c rest))"
    by (simp add: path_Clean_components split_byte_append)
  also have "clean_stack True [] (split_byte ?c f @ split_byte ?c rest) =
      clean_stack True [] (split_byte ?c f) @ filter (\<lambda>c. c \<noteq> '''' \<and> c \<noteq> ''.'') (split_byte ?c rest)"
    using assms(2) by (simp add: clean_stack_append clean_stack_no_dotdot)
  finally show ?thesis by blast
qed

text \<open>
  A redirected request stays below the path of the target as long as the rest of its path has no
  dot-dot component.
\<close>

theorem redirect_stays_below:
  assumes "is_rooted forwardPath" and "p = rule_Matcher r @ CHR ''/'' # rest"
    and "dotdot \<notin> set (split_byte (CHR ''/'') rest)"
  shows "\<exists>cs. redirect_director forwardPath r p =
     CHR ''/'' # join_slash (clean_stack True [] (split_byte (CHR ''/'') forwardPath) @ cs)"
proof -
  have "dotdot \<notin> set (split_byte (CHR ''/'') (CHR ''/'' # rest))"
    using assms(3) split_byte_sep [of "CHR ''/''" "[]" rest] by (simp add: dotdot_def)
  from redirect_stays_below_aux [OF assms(1) this] show ?thesis
    by (simp add: redirect_director_def assms(2))
qed

lemma redirect_stays_below_witness:
  "redirect_director ''/xrpc'' (sample_rule ''1'' ''redirect'' ''/api'') ''/api/v1'' = ''/xrpc/v1'' \<and>
   (\<exists>cs. redirect_director ''/xrpc'' (sample_rule ''1'' ''redirect'' ''/api'') ''/api/v1'' =
     CHR ''/'' # join_slash (clean_stack True [] (split_byte (CHR ''/'') ''/xrpc'') @ cs))"
proof
  show "redirect_director ''/xrpc'' (sample_rule ''1'' ''redirect'' ''/api'') ''/api/v1'' = ''/xrpc/v1''"
    by (simp add: redirect_director_def sample_rule_def TrimPrefix_def HasPrefix_def path_Join_def
        path_Clean_def is_rooted_def split_byte_def dotdot_def)
  show "\<exists>cs. redirect_director ''/xrpc'' (sample_rule ''1'' ''redirect'' ''/api'') ''/api/v1'' =
     CHR ''/'' # join_slash (clean_stack True [] (split_byte (CHR ''/'') ''/xrpc'') @ cs)"
    by (rule redirect_stays_below [of _ _ _ "''v1''"])
      (simp_all add: is_rooted_def HasPrefix_def sample_rule_def split_byte_def dotdot_def)
qed

text \<open>Without that condition the request leaves it.\<close>

lemma redirect_leaves_target:
  "redirect_director ''/xrpc'' (sample_rule ''1'' ''redirect'' ''/api'') ''/api/../admin'' = ''/admin''"
  by (simp add: redirect_director_def sample_rule_def TrimPrefix_def HasPrefix_def path_Join_def
      path_Clean_def is_rooted_def split_byte_def dotdot_def)

end
