(* ===== verification/Controller.thy ===== *)
theory Controller
  imports StateDB ProcessManager ReverseProxy
begin

text \<open>
  The node controller: \<open>internal/node/controller/controller.go\<close>.

  The controller holds a database client, a process manager, the package managers and the proxy rules.
  \<open>db_client\<close> is the interface \<open>state.Client\<close> as a record of operations; \<open>ctrl\<close> is what an operation may
  change: the database, the world of the processes and packages, and the rule set of the proxy.  The
  identifiers and the time that an operation creates, and the orders in which it visits maps, are
  arguments.  Operations return the state reached and the error, which may both matter.
\<close>

record 'c db_client =
  cl_Propose :: "transition list \<Rightarrow> 'c \<Rightarrow> 'c \<times> (json, db_error) res"
  cl_Bytes :: "'c \<Rightarrow> json"
  cl_State :: "'c \<Rightarrow> (node_state, decode_error) res"

record ('c, 'w) controller =
  ctl_db :: "'c db_client"
  ctl_processManager :: "'w process_manager"
  ctl_pkgManagers :: "(DriverType, 'w package_manager) fmap"

record ('c, 'w) ctrl =
  ct_db :: 'c
  ct_world :: 'w
  ct_rules :: rule_set

datatype ctrl_error =
    NodeStateError decode_error
  | AppMissing string
  | CreatingTransition query_error
  | ProposingTransition db_error
  | StartingProcess db_error
  | ProcessError proc_error
  | NoPackageDriver DriverType
  | PackageError proc_error
  | NoAppForProcess process_id string

definition ctl_propose ::
  "('c, 'w) controller \<Rightarrow> transition list \<Rightarrow> ('c, 'w) ctrl
   \<Rightarrow> ('c, 'w) ctrl \<times> (json, db_error) res"
where
  "ctl_propose K ts c =
     (let (d, r) = cl_Propose (ctl_db K) ts (ct_db c) in (c\<lparr>ct_db := d\<rparr>, r))"

definition getNodeState ::
  "('c, 'w) controller \<Rightarrow> ('c, 'w) ctrl \<Rightarrow> (node_state, decode_error) res"
where
  "getNodeState K c = cl_State (ctl_db K) (ct_db c)"

section \<open>Processes\<close>

text \<open>
  Registering the rules of an application: the loop returns at the first rule that is refused, with
  \<open>errors.Wrap(err, ...)\<close> of a nil \<open>err\<close>, which is nil.
\<close>

fun register_rules :: "string \<Rightarrow> rule_set \<Rightarrow> rule list \<Rightarrow> rule_set" where
  "register_rules appID rs [] = rs"
| "register_rules appID rs (r # rest) =
     (if rule_AppID r = appID
      then
        (case AddRule rs r of
           (rs', Ok _) \<Rightarrow> register_rules appID rs' rest
         | (rs', _) \<Rightarrow> rs')
      else register_rules appID rs rest)"

text \<open>
  \<open>startProcess\<close>: when the process does not start, the error returned wraps the error of the rollback,
  which is nil when the rollback was accepted.
\<close>

definition startProcess ::
  "('c, 'w) controller \<Rightarrow> string \<Rightarrow> string \<Rightarrow> ((string, rule) fmap \<Rightarrow> rule list) \<Rightarrow> string
   \<Rightarrow> ('c, 'w) ctrl \<Rightarrow> ('c, 'w) ctrl \<times> (unit, ctrl_error) res"
where
  "startProcess K uuid now order installationID c =
     (case getNodeState K c of
        Err e \<Rightarrow> (c, Err (NodeStateError e))
      | Panic \<Rightarrow> (c, Panic)
      | Ok state \<Rightarrow>
          (case lookup_in (AppInstallations state) installationID of
             None \<Rightarrow> (c, Err (AppMissing installationID))
           | Some app \<Rightarrow>
               (case CreateProcessStartTransition uuid now installationID state of
                  Err e \<Rightarrow> (c, Err (CreatingTransition e))
                | Panic \<Rightarrow> (c, Panic)
                | Ok (t, pid) \<Rightarrow>
                    (case ctl_propose K [t] c of
                       (c1, Err e) \<Rightarrow> (c1, Err (ProposingTransition e))
                     | (c1, Panic) \<Rightarrow> (c1, Panic)
                     | (c1, Ok _) \<Rightarrow>
                         (case pm_StartProcess (ctl_processManager K) pid app (ct_world c1) of
                            (w, Panic) \<Rightarrow> (c1\<lparr>ct_world := w\<rparr>, Panic)
                          | (w, Err _) \<Rightarrow>
                              (case ctl_propose K [CreateProcessStopTransition pid] (c1\<lparr>ct_world := w\<rparr>) of
                                 (c2, Ok _) \<Rightarrow> (c2, Ok ())
                               | (c2, Err e) \<Rightarrow> (c2, Err (StartingProcess e))
                               | (c2, Panic) \<Rightarrow> (c2, Panic))
                          | (w, Ok _) \<Rightarrow>
                              (let c2 = c1\<lparr>ct_world := w\<rparr> in
                               (case getNodeState K c2 of
                                  Err e \<Rightarrow> (c2, Err (NodeStateError e))
                                | Panic \<Rightarrow> (c2, Panic)
                                | Ok newState \<Rightarrow>
                                    (c2\<lparr>ct_rules := register_rules (app_ID app) (ct_rules c2)
                                        (order (entries (ReverseProxyRules newState)))\<rparr>, Ok ()))))))))"

fun stop_blocked :: "(unit, proc_error) res \<Rightarrow> bool" where
  "stop_blocked (Err e) = (\<not> is_ErrNoProcFound e)"
| "stop_blocked _ = False"

definition stopProcess ::
  "('c, 'w) controller \<Rightarrow> process_id \<Rightarrow> ('c, 'w) ctrl \<Rightarrow> ('c, 'w) ctrl \<times> (unit, ctrl_error) res"
where
  "stopProcess K processID c =
     (case pm_StopProcess (ctl_processManager K) processID (ct_world c) of
        (w, Panic) \<Rightarrow> (c\<lparr>ct_world := w\<rparr>, Panic)
      | (w, procErr) \<Rightarrow>
          if stop_blocked procErr then (c\<lparr>ct_world := w\<rparr>, map_err ProcessError procErr)
          else
            (case ctl_propose K [CreateProcessStopTransition processID] (c\<lparr>ct_world := w\<rparr>) of
               (c1, r) \<Rightarrow> (c1, bind_res (map_err ProposingTransition r) (\<lambda>_. Ok ()))))"

section \<open>Applications, users, migrations\<close>

definition installApp ::
  "('c, 'w) controller \<Rightarrow> string \<Rightarrow> string \<Rightarrow> string \<Rightarrow> ((string, rule) fmap \<Rightarrow> rule list)
   \<Rightarrow> string \<Rightarrow> package option \<Rightarrow> string \<Rightarrow> string \<Rightarrow> rule option list option \<Rightarrow> bool
   \<Rightarrow> ('c, 'w) ctrl \<Rightarrow> ('c, 'w) ctrl \<times> (unit, ctrl_error) res"
where
  "installApp K appUuid uuid now order userID pkg version name proxyRules start c =
     (case pkg of
        None \<Rightarrow> (c, Panic)
      | Some p \<Rightarrow>
          (case fmlookup (ctl_pkgManagers K) (pkg_Driver p) of
             None \<Rightarrow> (c, Err (NoPackageDriver (pkg_Driver p)))
           | Some installer \<Rightarrow>
               (let (t, i) = CreateStartInstallationTransition appUuid userID pkg version name proxyRules in
                (case ctl_propose K [t] c of
                   (c1, Err e) \<Rightarrow> (c1, Err (ProposingTransition e))
                 | (c1, Panic) \<Rightarrow> (c1, Panic)
                 | (c1, Ok _) \<Rightarrow>
                     (case pkgm_InstallPackage installer p version (ct_world c1) of
                        (w, Err e) \<Rightarrow> (c1\<lparr>ct_world := w\<rparr>, Err (PackageError e))
                      | (w, Panic) \<Rightarrow> (c1\<lparr>ct_world := w\<rparr>, Panic)
                      | (w, Ok _) \<Rightarrow>
                          (case ctl_propose K [CreateFinishInstallationTransition i] (c1\<lparr>ct_world := w\<rparr>) of
                             (c2, Err e) \<Rightarrow> (c2, Err (ProposingTransition e))
                           | (c2, Panic) \<Rightarrow> (c2, Panic)
                           | (c2, Ok _) \<Rightarrow>
                               if start then startProcess K uuid now order i c2 else (c2, Ok ())))))))"

definition propose_one ::
  "('c, 'w) controller \<Rightarrow> transition \<Rightarrow> ('c, 'w) ctrl \<Rightarrow> ('c, 'w) ctrl \<times> (unit, ctrl_error) res"
where
  "propose_one K t c =
     (let (c1, r) = ctl_propose K [t] c in (c1, bind_res (map_err ProposingTransition r) (\<lambda>_. Ok ())))"

definition uninstallApp ::
  "('c, 'w) controller \<Rightarrow> string \<Rightarrow> ('c, 'w) ctrl \<Rightarrow> ('c, 'w) ctrl \<times> (unit, ctrl_error) res"
where
  "uninstallApp K appID c = propose_one K (CreateUninstallAppTransition appID) c"

definition addUser ::
  "('c, 'w) controller \<Rightarrow> string \<Rightarrow> string \<Rightarrow> string \<Rightarrow> ('c, 'w) ctrl
   \<Rightarrow> ('c, 'w) ctrl \<times> (unit, ctrl_error) res"
where
  "addUser K uuid username did c = propose_one K (CreateAddUserTransition uuid username did) c"

definition migrateDB ::
  "env \<Rightarrow> ('c, 'w) controller \<Rightarrow> string \<Rightarrow> ('c, 'w) ctrl \<Rightarrow> ('c, 'w) ctrl \<times> (unit, ctrl_error) res"
where
  "migrateDB E K targetVersion c =
     (case getNodeState K c of
        Err e \<Rightarrow> (c, Err (NodeStateError e))
      | Panic \<Rightarrow> (c, Panic)
      | Ok nodeState \<Rightarrow>
          if semver_Compare E (SchemaVersion nodeState) targetVersion = 0 then (c, Ok ())
          else propose_one K (CreateMigrationTransition targetVersion) c)"

section \<open>Restoring\<close>

fun restore_managers ::
  "(string \<times> installation) list \<Rightarrow> 'w package_manager list \<Rightarrow> 'w \<Rightarrow> 'w \<times> (unit, proc_error) res"
where
  "restore_managers apps [] w = (w, Ok ())"
| "restore_managers apps (m # ms) w =
     (case pkgm_RestoreFromState m apps w of
        (w', Ok _) \<Rightarrow> restore_managers apps ms w'
      | (w', r) \<Rightarrow> (w', r))"

text \<open>A rule that cannot be added is logged and skipped.\<close>

definition restore_rules :: "rule list \<Rightarrow> rule_set \<Rightarrow> rule_set" where
  "restore_rules rules rs = fold (\<lambda>r rs. fst (AddRule rs r)) rules rs"

fun restore_info ::
  "node_state \<Rightarrow> process list \<Rightarrow> (process_id, installation) fmap
   \<Rightarrow> ((process_id, installation) fmap, ctrl_error) res"
where
  "restore_info state [] info = Ok info"
| "restore_info state (p # ps) info =
     (case lookup_in (AppInstallations state) (proc_AppID p) of
        None \<Rightarrow> Err (NoAppForProcess (proc_ID p) (proc_AppID p))
      | Some app \<Rightarrow> restore_info state ps (fmupd (proc_ID p) app info))"

text \<open>The orders in which \<open>restore\<close> visits its five maps.\<close>

record 'w restore_orders =
  ord_managers :: "(DriverType, 'w package_manager) fmap \<Rightarrow> 'w package_manager list"
  ord_apps :: "(string, installation) fmap \<Rightarrow> (string \<times> installation) list"
  ord_rules :: "(string, rule) fmap \<Rightarrow> rule list"
  ord_processes :: "(process_id, process) fmap \<Rightarrow> process list"
  ord_info :: "(process_id, installation) fmap \<Rightarrow> (process_id \<times> installation) list"

definition restore ::
  "('c, 'w) controller \<Rightarrow> 'w restore_orders \<Rightarrow> node_state \<Rightarrow> ('c, 'w) ctrl
   \<Rightarrow> ('c, 'w) ctrl \<times> (unit, ctrl_error) res"
where
  "restore K R state c =
     (case restore_managers (ord_apps R (entries (AppInstallations state)))
             (ord_managers R (ctl_pkgManagers K)) (ct_world c) of
        (w, Err e) \<Rightarrow> (c\<lparr>ct_world := w\<rparr>, Err (PackageError e))
      | (w, Panic) \<Rightarrow> (c\<lparr>ct_world := w\<rparr>, Panic)
      | (w, Ok _) \<Rightarrow>
          (let c1 = c\<lparr>ct_world := w,
                 ct_rules := restore_rules (ord_rules R (entries (ReverseProxyRules state))) (ct_rules c)\<rparr> in
           (case restore_info state (ord_processes R (entries (Processes state))) fmempty of
              Err e \<Rightarrow> (c1, Err e)
            | Panic \<Rightarrow> (c1, Panic)
            | Ok info \<Rightarrow>
                (let (w', r) = pm_RestoreFromState (ctl_processManager K) (ord_info R info) (ct_world c1) in
                 (c1\<lparr>ct_world := w'\<rparr>, map_err ProcessError r)))))"

section \<open>The controller over any client\<close>

lemma drop_put_process:
  assumes "allocated s" and "lookup_in (Processes s) (proc_ID p) = None"
  shows "drop_process (proc_ID p) (put_process p s) = s"
proof -
  have "fmdrop (proc_ID p) (fmupd (proc_ID p) p (entries (Processes s))) = entries (Processes s)"
    using assms(2) by (intro fmap_eqI) auto
  with assms(1) show ?thesis by (cases "Processes s") (auto simp: allocated_def effects)
qed

lemma Validate_ProcessStart_fresh:
  assumes "FromBytes doc = Ok s" and "transition_Validate E (ProcessStart (Some p)) doc = Ok u"
  shows "lookup_in (Processes s) (proc_ID p) = None"
  using assms by (auto simp: Validate_ProcessStart_def bind_res_Ok_iff split: if_splits)

text \<open>The record of a process as \<open>startProcess\<close> creates it.\<close>

definition new_process :: "string \<Rightarrow> string \<Rightarrow> installation \<Rightarrow> package \<Rightarrow> process" where
  "new_process uuid now a p =
     \<lparr>proc_ID = NewID (pkg_Driver p) uuid, proc_AppID = app_ID a, proc_UserID = app_UserID a,
      proc_Created = now\<rparr>"

lemma CreateProcessStart_Ok:
  assumes "CreateProcessStartTransition uuid now i s = Ok (t, pid)"
    and "lookup_in (AppInstallations s) i = Some a"
  obtains p where "app_Package a = Some p" and "t = ProcessStart (Some (new_process uuid now a p))"
    and "pid = proc_ID (new_process uuid now a p)"
proof (cases "app_Package a")
  case None
  with assms show thesis by (simp add: CreateProcessStartTransition_def GetAppByID_def)
next
  case (Some p)
  then have "t = ProcessStart (Some (new_process uuid now a p))" "pid = proc_ID (new_process uuid now a p)"
    using assms by (auto simp: CreateProcessStartTransition_def GetAppByID_def new_process_def Let_def)
  with Some show thesis by (rule that)
qed

context state_client
begin

lemma ctl_accepted:
  assumes "ctl_db K = \<lparr>cl_Propose = propose, cl_Bytes = bytes, cl_State = state\<rparr>"
    and "env_ok E" and "state (ct_db c) = Ok s" and "allocated s" and "regular t"
    and "ctl_propose K [t] c = (c1, Ok d)"
  shows "state (ct_db c1) = Ok (effect t s)" and "allocated (effect t s)"
    and "ct_world c1 = ct_world c" and "ct_rules c1 = ct_rules c"
    and "transition_Validate E t (bytes (ct_db c)) = Ok ()"
proof -
  from assms(1,6) have c1: "c1 = c\<lparr>ct_db := fst (propose [t] (ct_db c))\<rparr>"
    and d: "snd (propose [t] (ct_db c)) = Ok d"
    by (auto simp: ctl_propose_def split: prod.splits)
  show "state (ct_db c1) = Ok (effect t s)"
    using accepted_state [OF assms(2-4) _ d] assms(5) c1 by simp
  show valid: "transition_Validate E t (bytes (ct_db c)) = Ok ()"
    using d by (auto simp: propose_result ProposeTransitions_def bind_res_Ok_iff)
  show "allocated (effect t s)" using allocated_effect [OF assms(4) valid] .
  show "ct_world c1 = ct_world c" "ct_rules c1 = ct_rules c" using c1 by simp_all
qed

lemma ctl_refused:
  assumes "ctl_db K = \<lparr>cl_Propose = propose, cl_Bytes = bytes, cl_State = state\<rparr>"
    and "ctl_propose K ts c = (c1, r)" and "\<not> is_Ok r"
  shows "state (ct_db c1) = state (ct_db c)" and "ct_world c1 = ct_world c" and "ct_rules c1 = ct_rules c"
proof -
  from assms(1,2) have "c1 = c\<lparr>ct_db := fst (propose ts (ct_db c))\<rparr>" "snd (propose ts (ct_db c)) = r"
    by (auto simp: ctl_propose_def split: prod.splits)
  with assms(3) show "state (ct_db c1) = state (ct_db c)" "ct_world c1 = ct_world c" "ct_rules c1 = ct_rules c"
    by (simp_all add: state_bytes refused_unchanged)
qed

text \<open>
  \<open>startProcess\<close> without an error: either the process runs and is recorded, or it failed to start and the
  record was rolled back.
\<close>

lemma startProcess_Ok:
  assumes K: "ctl_db K = \<lparr>cl_Propose = propose, cl_Bytes = bytes, cl_State = state\<rparr>"
    and E: "env_ok E" and s: "state (ct_db c) = Ok s" and al: "allocated s"
    and good: "\<And>a p. lookup_in (AppInstallations s) i = Some a \<Longrightarrow> app_Package a = Some p \<Longrightarrow>
       good_id (NewID (pkg_Driver p) uuid)"
    and run: "startProcess K uuid now order i c = (c', Ok ())"
  shows "\<exists>a p. lookup_in (AppInstallations s) i = Some a \<and> app_Package a = Some p \<and>
     (case pm_StartProcess (ctl_processManager K) (NewID (pkg_Driver p) uuid) a (ct_world c) of
        (w, Ok _) \<Rightarrow> ct_world c' = w \<and> state (ct_db c') = Ok (put_process (new_process uuid now a p) s) \<and>
          ct_rules c' = register_rules (app_ID a) (ct_rules c) (order (entries (ReverseProxyRules s)))
      | (w, Err _) \<Rightarrow> ct_world c' = w \<and> state (ct_db c') = Ok s \<and> ct_rules c' = ct_rules c
      | (w, Panic) \<Rightarrow> False)"
proof -
  have st: "getNodeState K c = Ok s" using K s by (simp add: getNodeState_def)
  obtain a t pid c1 d where a: "lookup_in (AppInstallations s) i = Some a"
    and cr: "CreateProcessStartTransition uuid now i s = Ok (t, pid)"
    and p1: "ctl_propose K [t] c = (c1, Ok d)"
    using run st by (auto simp: startProcess_def split: option.splits res.splits prod.splits)
  obtain p where p: "app_Package a = Some p" and t: "t = ProcessStart (Some (new_process uuid now a p))"
    and pid: "pid = proc_ID (new_process uuid now a p)"
    using CreateProcessStart_Ok [OF cr a] .
  let ?q = "new_process uuid now a p"
  have good_pid: "good_id (proc_ID ?q)" using good [OF a p] by (simp add: new_process_def)
  then have "regular t" by (simp add: regular_def t)
  note acc = ctl_accepted [OF K E s al this p1]
  have s1: "state (ct_db c1) = Ok (put_process ?q s)" and al1: "allocated (put_process ?q s)"
    using acc(1,2) al by (simp_all add: t)
  obtain w r where start: "pm_StartProcess (ctl_processManager K) pid a (ct_world c1) = (w, r)"
    by (cases "pm_StartProcess (ctl_processManager K) pid a (ct_world c1)")
  have fresh: "lookup_in (Processes s) (proc_ID ?q) = None"
    using Validate_ProcessStart_fresh [of "bytes (ct_db c)" s E ?q] acc(5) s by (simp add: t state_bytes)
  show ?thesis
  proof (cases r)
    case (Ok u)
    have "getNodeState K (c1\<lparr>ct_world := w\<rparr>) = Ok (put_process ?q s)"
      using K s1 by (simp add: getNodeState_def)
    then have "c' = c1\<lparr>ct_world := w, ct_rules := register_rules (app_ID a) (ct_rules c1)
        (order (entries (ReverseProxyRules (put_process ?q s))))\<rparr>"
      using run st a cr p1 start Ok by (simp add: startProcess_def Let_def)
    moreover have "ReverseProxyRules (put_process ?q s) = ReverseProxyRules s" by (simp add: put_process_def)
    ultimately show ?thesis
      using a p s1 acc(3,4) start Ok pid by (simp add: new_process_def)
  next
    case (Err e)
    then obtain d2 where p2: "ctl_propose K [ProcessStop pid] (c1\<lparr>ct_world := w\<rparr>) = (c', Ok d2)"
      using run st a cr p1 start
      by (auto simp: startProcess_def CreateProcessStopTransition_def split: res.splits prod.splits)
    have reg: "regular (ProcessStop pid)" using good_pid by (simp add: regular_def pid)
    have "state (ct_db (c1\<lparr>ct_world := w\<rparr>)) = Ok (put_process ?q s)" using s1 by simp
    note acc2 = ctl_accepted [OF K E this al1 reg p2]
    have "state (ct_db c') = Ok s"
      using acc2(1) drop_put_process [OF al fresh] by (simp add: pid)
    then show ?thesis
      using a p acc(3,4) acc2(3,4) start Err pid by (simp add: new_process_def)
  next
    case Panic
    then show ?thesis using run st a cr p1 start by (simp add: startProcess_def)
  qed
qed

text \<open>Nothing changes when the process is refused before it starts.\<close>

lemma startProcess_refused:
  assumes K: "ctl_db K = \<lparr>cl_Propose = propose, cl_Bytes = bytes, cl_State = state\<rparr>"
    and run: "startProcess K uuid now order i c = (c', Err e)"
    and "\<forall>f. e \<noteq> NodeStateError f" and "\<forall>f. e \<noteq> StartingProcess f"
  shows "state (ct_db c') = state (ct_db c) \<and> ct_world c' = ct_world c \<and> ct_rules c' = ct_rules c"
proof -
  have st: "getNodeState K c = state (ct_db c)" using K by (simp add: getNodeState_def)
  consider "c' = c" | t d where "ctl_propose K [t] c = (c', Err d)" | f where "e = NodeStateError f"
    | f where "e = StartingProcess f"
    using run st
    by (auto simp: startProcess_def Let_def split: option.splits res.splits prod.splits if_splits)
  then show ?thesis
  proof cases
    case 2
    then show ?thesis using ctl_refused [OF K 2] by simp
  qed (use assms(3,4) in auto)
qed

lemma stopProcess_cases:
  assumes K: "ctl_db K = \<lparr>cl_Propose = propose, cl_Bytes = bytes, cl_State = state\<rparr>"
    and E: "env_ok E" and s: "state (ct_db c) = Ok s" and al: "allocated s" and good: "good_id pid"
    and run: "stopProcess K pid c = (c', r)" and np: "r \<noteq> Panic"
  shows "ct_world c' = fst (pm_StopProcess (ctl_processManager K) pid (ct_world c)) \<and>
     ct_rules c' = ct_rules c \<and>
     (if is_Ok r then state (ct_db c') = Ok (drop_process pid s) \<and> lookup_in (Processes s) pid \<noteq> None
      else state (ct_db c') = Ok s)"
proof -
  obtain w e where stop: "pm_StopProcess (ctl_processManager K) pid (ct_world c) = (w, e)"
    by (cases "pm_StopProcess (ctl_processManager K) pid (ct_world c)")
  show ?thesis
  proof (cases "e = Panic \<or> stop_blocked e")
    case True
    then show ?thesis
      using run stop np s by (cases e) (auto simp: stopProcess_def)
  next
    case False
    then obtain c1 q where p: "ctl_propose K [ProcessStop pid] (c\<lparr>ct_world := w\<rparr>) = (c1, q)"
      and c': "c' = c1" "r = bind_res (map_err ProposingTransition q) (\<lambda>_. Ok ())"
      using run stop by (cases e) (auto simp: stopProcess_def CreateProcessStopTransition_def split: prod.splits)
    have s': "state (ct_db (c\<lparr>ct_world := w\<rparr>)) = Ok s" using s by simp
    show ?thesis
    proof (cases q)
      case (Ok d)
      have "regular (ProcessStop pid)" using good by (simp add: regular_def)
      note acc = ctl_accepted [OF K E s' al this p [unfolded Ok]]
      have "lookup_in (Processes s) pid \<noteq> None"
        using acc(5) s by (auto simp: Validate_ProcessStop_def state_bytes split: if_splits)
      with acc c' Ok stop show ?thesis by simp
    qed (use ctl_refused [OF K p] c' s stop in auto)
  qed
qed

text \<open>Installing without starting.\<close>

lemma installApp_cases:
  assumes K: "ctl_db K = \<lparr>cl_Propose = propose, cl_Bytes = bytes, cl_State = state\<rparr>"
    and E: "env_ok E" and s: "state (ct_db c) = Ok s" and al: "allocated s"
    and a: "a = \<lparr>app_ID = i, app_UserID = userID, app_Name = name, app_Version = version,
       app_State = LifecycleStateInstalling, app_Package = Some p\<rparr>"
    and reg: "regular (StartInstallation a rules)"
    and m: "fmlookup (ctl_pkgManagers K) (pkg_Driver p) = Some installer"
    and t1: "ctl_propose K [StartInstallation a rules] c = (c1, Ok d)"
    and run: "installApp K i uuid now order userID (Some p) version name rules False c = (c', r)"
  shows "case pkgm_InstallPackage installer p version (ct_world c) of
      (w, Err e) \<Rightarrow> r = Err (PackageError e) \<and> ct_world c' = w \<and>
        state (ct_db c') = Ok (effect (StartInstallation a rules) s)
    | (w, Panic) \<Rightarrow> r = Panic
    | (w, Ok _) \<Rightarrow> r = Ok () \<longrightarrow> ct_world c' = w \<and>
        state (ct_db c') = Ok (mark_installed i (effect (StartInstallation a rules) s))"
proof -
  note acc = ctl_accepted [OF K E s al reg t1]
  have i: "good_id i" using reg by (simp add: regular_def a)
  obtain w q where inst: "pkgm_InstallPackage installer p version (ct_world c) = (w, q)"
    by (cases "pkgm_InstallPackage installer p version (ct_world c)")
  have body: "installApp K i uuid now order userID (Some p) version name rules False c =
      (case q of
         Err e \<Rightarrow> (c1\<lparr>ct_world := w\<rparr>, Err (PackageError e))
       | Panic \<Rightarrow> (c1\<lparr>ct_world := w\<rparr>, Panic)
       | Ok _ \<Rightarrow>
           (case ctl_propose K [FinishInstallation i] (c1\<lparr>ct_world := w\<rparr>) of
              (c2, Err e) \<Rightarrow> (c2, Err (ProposingTransition e))
            | (c2, Panic) \<Rightarrow> (c2, Panic)
            | (c2, Ok _) \<Rightarrow> (c2, Ok ())))"
    using m t1 inst acc(3)
    by (simp add: installApp_def CreateStartInstallationTransition_def CreateFinishInstallationTransition_def a)
  show ?thesis
  proof (cases q)
    case (Ok u)
    show ?thesis
    proof (cases "r = Ok ()")
      case True
      then obtain d2 where p2: "ctl_propose K [FinishInstallation i] (c1\<lparr>ct_world := w\<rparr>) = (c', Ok d2)"
        using run body Ok by (auto split: prod.splits res.splits)
      have s1: "state (ct_db (c1\<lparr>ct_world := w\<rparr>)) = Ok (effect (StartInstallation a rules) s)"
        using acc(1) by simp
      have "regular (FinishInstallation i)" using i by (simp add: regular_def)
      from ctl_accepted [OF K E s1 acc(2) this p2] inst Ok show ?thesis by simp
    qed (use inst Ok in simp)
  qed (use run body inst acc(1) in auto)
qed

end

section \<open>The controller over the file database\<close>

definition fileDB_client :: "env \<Rightarrow> (file_db \<times> disk) db_client" where
  "fileDB_client E = \<lparr>cl_Propose = fileDB_ProposeTransitions E Written, cl_Bytes = fileDB_Bytes,
     cl_State = fileDB_State\<rparr>"


text \<open>
  \<open>stopProcess\<close> removes the process from the state exactly when it returns without an error, also when
  the driver no longer knows the process; any other error of the driver leaves the state as it was.
\<close>

theorem stop_process_agrees:
  assumes "ctl_db K = fileDB_client E" and "env_ok E" and "fileDB_State (ct_db c) = Ok s" and "allocated s"
    and "good_id pid" and "stopProcess K pid c = (c', r)" and "r \<noteq> Panic"
  shows "ct_world c' = fst (pm_StopProcess (ctl_processManager K) pid (ct_world c)) \<and>
     ct_rules c' = ct_rules c \<and>
     (if is_Ok r
      then fileDB_State (ct_db c') = Ok (drop_process pid s) \<and> lookup_in (Processes s) pid \<noteq> None
      else fileDB_State (ct_db c') = Ok s)"
  by (rule file_client.stopProcess_cases [OF assms(1) [unfolded fileDB_client_def] assms(2-7)])

text \<open>
  Installing records the application before its package is fetched. When everything succeeds it ends
  as installed; when fetching the package fails the error is returned but the record stays, in state
  installing.
\<close>

theorem install_app_states:
  assumes "ctl_db K = fileDB_client E" and "env_ok E" and "fileDB_State (ct_db c) = Ok s" and "allocated s"
    and "a = \<lparr>app_ID = i, app_UserID = userID, app_Name = name, app_Version = version,
       app_State = LifecycleStateInstalling, app_Package = Some p\<rparr>"
    and "regular (StartInstallation a rules)"
    and "fmlookup (ctl_pkgManagers K) (pkg_Driver p) = Some installer"
    and "ctl_propose K [StartInstallation a rules] c = (c1, Ok d)"
    and "installApp K i uuid now order userID (Some p) version name rules False c = (c', r)"
  shows "case pkgm_InstallPackage installer p version (ct_world c) of
      (w, Err e) \<Rightarrow> r = Err (PackageError e) \<and> ct_world c' = w \<and>
        fileDB_State (ct_db c') = Ok (effect (StartInstallation a rules) s)
    | (w, Panic) \<Rightarrow> r = Panic
    | (w, Ok _) \<Rightarrow> r = Ok () \<longrightarrow> ct_world c' = w \<and>
        fileDB_State (ct_db c') = Ok (mark_installed i (effect (StartInstallation a rules) s))"
  by (rule file_client.installApp_cases [OF assms(1) [unfolded fileDB_client_def] assms(2-9)])

lemma restore_info_missing:
  assumes "p \<in> set ps" and "lookup_in (AppInstallations s) (proc_AppID p) = None"
  shows "\<exists>j k. restore_info s ps info = Err (NoAppForProcess j k)"
  using assms by (induction ps arbitrary: info) (auto split: option.splits)

lemma restore_missing_app:
  assumes "p \<in> set (ord_processes R (entries (Processes s)))"
    and "lookup_in (AppInstallations s) (proc_AppID p) = None"
  shows "\<not> is_Ok (snd (restore K R s c))"
  using restore_info_missing [OF assms, of fmempty]
  by (auto simp: restore_def Let_def split: prod.splits res.splits)

text \<open>
  An application can be uninstalled while its process is recorded; the state reached is accepted by
  the database, but the controller can never be restored from it.
\<close>

theorem uninstall_orphans_process:
  assumes "ctl_db K = fileDB_client E" and "env_ok E" and "fileDB_State (ct_db c) = Ok s" and "allocated s"
    and "good_id i" and "lookup_in (Processes s) pid = Some p" and "proc_AppID p = i"
    and "uninstallApp K i c = (c', Ok ())"
    and "\<And>m k v. fmlookup m k = Some v \<Longrightarrow> v \<in> set (ord_processes R m)"
  shows "\<exists>s'. fileDB_State (ct_db c') = Ok s' \<and> \<not> is_Ok (snd (restore K R s' c''))"
proof -
  obtain d where p: "ctl_propose K [Uninstall i] c = (c', Ok d)"
    using assms(8) by (auto simp: uninstallApp_def propose_one_def CreateUninstallAppTransition_def
        bind_res_Ok_iff split: prod.splits)
  have "regular (Uninstall i)" using assms(5) by (simp add: regular_def)
  from file_client.ctl_accepted(1) [OF assms(1) [unfolded fileDB_client_def] assms(2-4) this p]
  have s': "fileDB_State (ct_db c') = Ok (drop_app i s)" by simp
  have "lookup_in (Processes (drop_app i s)) pid = Some p"
    and "lookup_in (AppInstallations (drop_app i s)) (proc_AppID p) = None"
    using assms(4,6,7) by (auto simp: drop_app_def allocated_def)
  then show ?thesis using restore_missing_app [of p R "drop_app i s" K c''] assms(9) s' by blast
qed

section \<open>The theorems applied\<close>

definition sample_node :: "node_state" where
  "sample_node = latest_empty\<lparr>Users := Some (fmap_of_list [(''u1'', sample_user)]),
     AppInstallations := Some (fmap_of_list [(''a1'', sample_app DriverTypeNoop)])\<rparr>"

definition sample_process :: process where
  "sample_process = new_process ''1'' ''now'' (sample_app DriverTypeNoop) (sample_package DriverTypeNoop)"

definition sample_controller :: "(file_db \<times> disk, unit) controller" where
  "sample_controller =
     \<lparr>ctl_db = fileDB_client ref_env,
      ctl_processManager = NewProcessManager [NewNoopDriver DriverTypeNoop],
      ctl_pkgManagers = fmap_of_list [(DriverTypeNoop,
        \<lparr>pkgm_Driver = DriverTypeNoop, pkgm_IsInstalled = (\<lambda>_ _ _. Ok False),
         pkgm_InstallPackage = (\<lambda>_ _ w. (w, Err (DockerError ''no image''))),
         pkgm_UninstallPackage = (\<lambda>_ _ w. (w, Ok ())), pkgm_RestoreFromState = (\<lambda>_ w. (w, Ok ()))\<rparr>)]\<rparr>"

definition sample_ctrl :: "node_state \<Rightarrow> (file_db \<times> disk, unit) ctrl" where
  "sample_ctrl s = \<lparr>ct_db = (\<lparr>db_path = ''db'', db_state = Bytes s\<rparr>, fmempty), ct_world = (),
     ct_rules = NewProxyServer ''/web''\<rparr>"

lemma sample_ctrl_simps [simp]:
  "fileDB_State (ct_db (sample_ctrl s)) = Ok s" "ct_world (sample_ctrl s) = ()"
  "ctl_db sample_controller = fileDB_client ref_env"
  "ctl_processManager sample_controller = NewProcessManager [NewNoopDriver DriverTypeNoop]"
  by (simp_all add: sample_ctrl_def fileDB_State_def sample_controller_def)

lemma sample_node_allocated [simp]:
  "allocated sample_node" "allocated (put_process p sample_node)"
  by (simp_all add: allocated_def sample_node_def latest_empty_def put_process_def)

lemma sample_accepts:
  assumes "allocated s" and "regular t" and "transition_Validate ref_env t (Bytes s) = Ok ()"
    and "SchemaVersion (effect t s) = ''v0.0.8''"
  obtains c1 d where "ctl_propose sample_controller [t] (sample_ctrl s) = (c1, Ok d)"
proof -
  obtain doc w where "ProposeTransitions ref_env (Bytes s) [t] = Ok (doc, [w])"
    using ref_env_accepts [OF FromBytes_Bytes assms] by blast
  then have "\<exists>c1 d. ctl_propose sample_controller [t] (sample_ctrl s) = (c1, Ok d)"
    by (simp add: ctl_propose_def sample_ctrl_def fileDB_client_def fileDB_ProposeTransitions_def writeState_def)
  then show thesis using that by blast
qed

lemma sample_pid: "NewID DriverTypeNoop ''1'' = ''noop:1''" "good_id ''noop:1''"
  by (simp_all add: NewID_def driver_types good_id_def json_plain_def plain_key_def)

lemma sample_start_valid:
  "transition_Validate ref_env (ProcessStart (Some sample_process)) (Bytes sample_node) = Ok ()"
  by (simp add: Validate_ProcessStart_def GetAppByID_def sample_process_def new_process_def sample_node_def
      latest_empty_def sample_app_def sample_package_def LifecycleStateInstalled_def)


lemma stop_process_agrees_witness:
  "\<exists>c' r. stopProcess sample_controller ''noop:9'' (sample_ctrl sample_node) = (c', r) \<and>
     \<not> is_Ok r \<and> fileDB_State (ct_db c') = Ok sample_node"
proof -
  let ?K = sample_controller
  obtain c' r where run: "stopProcess ?K ''noop:9'' (sample_ctrl sample_node) = (c', r)"
    by (cases "stopProcess ?K ''noop:9'' (sample_ctrl sample_node)")
  have "r = Err (ProposingTransition (ValidationFailed (ProcessIDNotFound ''noop:9'')))"
    using run
    by (simp add: stopProcess_def pm_StopProcess_def pm_driver_of_def driverFromID_def split_byte_def
        NewProcessManager_def NewNoopDriver_def DriverTypeFromString_def driverTypes_def driver_types
        ctl_propose_def fileDB_client_def fileDB_ProposeTransitions_def sample_ctrl_def
        CreateProcessStopTransition_def ProposeTransitions_def Validate_ProcessStop_def sample_node_def
        latest_empty_def split: prod.splits)
  moreover have "good_id ''noop:9''" by (simp add: good_id_def json_plain_def plain_key_def)
  ultimately show ?thesis
    using stop_process_agrees [OF sample_ctrl_simps(3) ref_env_ok sample_ctrl_simps(1) sample_node_allocated(1)
      _ run] run by auto
qed

definition sample_new_package :: package where
  "sample_new_package = (sample_package DriverTypeNoop)\<lparr>pkg_RegistryPackageID := ''other''\<rparr>"

definition sample_new_app :: installation where
  "sample_new_app = \<lparr>app_ID = ''a2'', app_UserID = ''u1'', app_Name = ''other'', app_Version = ''1'',
     app_State = LifecycleStateInstalling, app_Package = Some sample_new_package\<rparr>"

lemma sample_install_valid:
  "transition_Validate ref_env (StartInstallation sample_new_app None) (Bytes sample_node) = Ok ()"
proof -
  let ?m = "entries (AppInstallations sample_node)"
  have "app_Package a = Some (sample_package DriverTypeNoop)"
    if "a \<in> set (map snd (range_apps ref_env ?m))" for a
    using that unfolding range_lawsD(1) [OF ref_env_range_laws]
    by (auto simp: sample_node_def sample_app_def split: if_splits)
  moreover have "same_package_loop (Some sample_new_package) u as = Ok ()"
    if "\<And>a. a \<in> set as \<Longrightarrow> app_Package a = Some (sample_package DriverTypeNoop)" for u as
    using that by (induction as) (simp_all add: sample_new_package_def sample_package_def)
  ultimately have "same_package_loop (Some sample_new_package) ''u1'' (map snd (range_apps ref_env ?m)) = Ok ()"
    by blast
  then show ?thesis
    by (simp add: Validate_StartInstallation_def sample_new_app_def sample_new_package_def sample_package_def
        sample_node_def latest_empty_def)
qed

lemma install_app_states_witness:
  "\<exists>c'. installApp sample_controller ''a2'' ''2'' ''now'' (\<lambda>_. []) ''u1'' (Some sample_new_package) ''1'' ''other''
       None False (sample_ctrl sample_node) = (c', Err (PackageError (DockerError ''no image''))) \<and>
     fileDB_State (ct_db c') = Ok (put_app ''a2'' sample_new_app sample_node)"
proof -
  let ?K = sample_controller and ?t = "StartInstallation sample_new_app None"
  let ?run = "installApp ?K ''a2'' ''2'' ''now'' (\<lambda>_. []) ''u1'' (Some sample_new_package) ''1'' ''other'' None False
    (sample_ctrl sample_node)"
  have reg: "regular ?t"
    by (simp add: regular_def sample_new_app_def good_id_def json_plain_def plain_key_def)
  have ver: "SchemaVersion (effect ?t sample_node) = ''v0.0.8''"
    by (simp add: put_app_def sample_node_def latest_empty_def)
  obtain c1 d where c1: "ctl_propose ?K [?t] (sample_ctrl sample_node) = (c1, Ok d)"
    using sample_accepts [OF _ reg sample_install_valid ver] by auto
  obtain installer where m: "fmlookup (ctl_pkgManagers ?K) (pkg_Driver sample_new_package) = Some installer"
    and fail: "pkgm_InstallPackage installer sample_new_package ''1'' () = ((), Err (DockerError ''no image''))"
    by (simp add: sample_controller_def sample_new_package_def sample_package_def)
  obtain c' r where run: "?run = (c', r)" by (cases ?run)
  from install_app_states [OF sample_ctrl_simps(3) ref_env_ok sample_ctrl_simps(1) sample_node_allocated(1)
      sample_new_app_def reg m c1 run] fail run
  show ?thesis by (simp add: sample_new_app_def)
qed

lemma uninstall_orphans_process_witness:
  "\<exists>c' s'. uninstallApp sample_controller ''a1'' (sample_ctrl (put_process sample_process sample_node)) = (c', Ok ()) \<and>
     fileDB_State (ct_db c') = Ok s' \<and>
     \<not> is_Ok (snd (restore sample_controller
       \<lparr>ord_managers = (\<lambda>_. []), ord_apps = (\<lambda>_. []), ord_rules = (\<lambda>_. []),
        ord_processes = (\<lambda>m. map snd (sorted_list_of_fmap m)), ord_info = (\<lambda>_. [])\<rparr> s' c'))"
proof -
  let ?K = sample_controller and ?s = "put_process sample_process sample_node"
  have reg: "regular (Uninstall ''a1'')"
    by (simp add: regular_def good_id_def json_plain_def plain_key_def)
  have valid: "transition_Validate ref_env (Uninstall ''a1'') (Bytes ?s) = Ok ()"
    by (simp add: Validate_Uninstall_def put_process_def sample_node_def latest_empty_def)
  have ver: "SchemaVersion (effect (Uninstall ''a1'') ?s) = ''v0.0.8''"
    by (simp add: drop_app_def put_process_def sample_node_def latest_empty_def)
  obtain c' d where "ctl_propose ?K [Uninstall ''a1''] (sample_ctrl ?s) = (c', Ok d)"
    using sample_accepts [OF _ reg valid ver] by auto
  then have un: "uninstallApp ?K ''a1'' (sample_ctrl ?s) = (c', Ok ())"
    by (simp add: uninstallApp_def propose_one_def CreateUninstallAppTransition_def)
  have i: "good_id ''a1''" by (simp add: good_id_def json_plain_def plain_key_def)
  have p: "lookup_in (Processes ?s) (proc_ID sample_process) = Some sample_process"
    "proc_AppID sample_process = ''a1''"
    by (simp_all add: put_process_def sample_node_def latest_empty_def sample_process_def new_process_def sample_app_def)
  have ord: "v \<in> set (map snd (sorted_list_of_fmap m))" if "fmlookup m k = Some v"
    for m :: "(process_id, process) fmap" and k v
    using values_listD [OF values_list_sorted] that by force
  show ?thesis
    using un uninstall_orphans_process [OF sample_ctrl_simps(3) ref_env_ok sample_ctrl_simps(1)
      sample_node_allocated(2) i p un, of "\<lparr>ord_managers = (\<lambda>_. []), ord_apps = (\<lambda>_. []), ord_rules = (\<lambda>_. []),
        ord_processes = (\<lambda>m. map snd (sorted_list_of_fmap m)), ord_info = (\<lambda>_. [])\<rparr>" c'] ord
    by auto
qed

end
