(* ===== verification/CtrlServer.thy ===== *)
theory CtrlServer
  imports Controller
begin

text \<open>
  The HTTP handlers of the controller: \<open>internal/node/controller/server.go\<close>.

  The body of a request is its JSON document, \<open>None\<close> when it is not JSON or cannot be read.  A handler
  returns the controller and the response written.  A panic of a handler is the response \<open>None\<close> (the
  server of \<open>net/http\<close> drops the connection and goes on).
\<close>

type_synonym body = "json option"

datatype ctrl_text =
    BadRequestText decode_error
  | NotJSONText
  | CtrlErrorText ctrl_error
  | ProcErrorText proc_error
  | StateErrorText decode_error
  | JSONText json
  | SuccessText

definition decode_body ::
  "((string, json) fmap \<Rightarrow> ('a, decode_error) res) \<Rightarrow> body \<Rightarrow> ('a, ctrl_text) res"
where
  "decode_body dec b =
     (case b of
        None \<Rightarrow> Err NotJSONText
      | Some JNull \<Rightarrow> map_err BadRequestText (dec fmempty)
      | Some (JObj m) \<Rightarrow> map_err BadRequestText (dec m)
      | Some _ \<Rightarrow> Err (BadRequestText NotAnObject))"

type_synonym ('c, 'w) handled = "('c, 'w) ctrl \<times> ctrl_text response option"

text \<open>Decode the request, run an operation of the controller, write the outcome.\<close>

definition run_request ::
  "('a, ctrl_text) res \<Rightarrow> ('a \<Rightarrow> ('c, 'w) ctrl \<Rightarrow> ('c, 'w) ctrl \<times> (unit, ctrl_error) res)
   \<Rightarrow> (ctrl_text response \<Rightarrow> ctrl_text response) \<Rightarrow> ('c, 'w) ctrl \<Rightarrow> ('c, 'w) handled"
where
  "run_request req f finish c =
     (case req of
        Err e \<Rightarrow> (c, Some (http_Error e StatusBadRequest empty_response))
      | Panic \<Rightarrow> (c, None)
      | Ok a \<Rightarrow>
          (case f a c of
             (c', Err e) \<Rightarrow> (c', Some (http_Error (CtrlErrorText e) StatusInternalServerError empty_response))
           | (c', Panic) \<Rightarrow> (c', None)
           | (c', Ok _) \<Rightarrow> (c', Some (finish empty_response))))"

section \<open>The handlers\<close>

definition NewCtrlServer ::
  "('c, 'w) controller \<Rightarrow> 'w restore_orders \<Rightarrow> node_state \<Rightarrow> ('c, 'w) ctrl
   \<Rightarrow> ('c, 'w) ctrl \<times> (unit, ctrl_error) res"
where
  "NewCtrlServer K R state c = restore K R state c"

definition h_StartProcess ::
  "('c, 'w) controller \<Rightarrow> string \<Rightarrow> string \<Rightarrow> ((string, rule) fmap \<Rightarrow> rule list) \<Rightarrow> body
   \<Rightarrow> ('c, 'w) ctrl \<Rightarrow> ('c, 'w) handled"
where
  "h_StartProcess K uuid now order b c =
     run_request (decode_body (\<lambda>m. dec_str m ''app_id'') b) (startProcess K uuid now order)
       (WriteHeader StatusCreated) c"

definition h_StopProcess ::
  "('c, 'w) controller \<Rightarrow> body \<Rightarrow> ('c, 'w) ctrl \<Rightarrow> ('c, 'w) handled"
where
  "h_StopProcess K b c =
     run_request (decode_body (\<lambda>m. dec_str m ''process_id'') b) (stopProcess K) (\<lambda>w. w) c"

text \<open>A nil slice of identifiers is encoded as \<open>null\<close>.\<close>

definition h_ListProcesses ::
  "(DriverType \<times> 'w driver) list \<Rightarrow> ('c, 'w) ctrl \<Rightarrow> ctrl_text response option"
where
  "h_ListProcesses ps c =
     (case pm_ListRunningProcesses ps (ct_world c) of
        Err e \<Rightarrow> Some (http_Error (ProcErrorText e) StatusInternalServerError empty_response)
      | Panic \<Rightarrow> None
      | Ok procs \<Rightarrow>
          Some (Write (JSONText (if procs = [] then JNull else JArr (map JStr procs))) empty_response))"

record install_request =
  req_AppInstallation :: "installation option"
  req_ReverseProxyRules :: "rule option list option"
  req_StartAfterInstall :: bool

fun dec_pointer :: "(json \<Rightarrow> ('a, decode_error) res) \<Rightarrow> json option \<Rightarrow> ('a option, decode_error) res" where
  "dec_pointer dec None = Ok None"
| "dec_pointer dec (Some JNull) = Ok None"
| "dec_pointer dec (Some j) = bind_res (dec j) (\<lambda>x. Ok (Some x))"

fun dec_all :: "(json \<Rightarrow> ('a, decode_error) res) \<Rightarrow> json list \<Rightarrow> ('a option list, decode_error) res" where
  "dec_all dec [] = Ok []"
| "dec_all dec (j # js) =
     bind_res (dec_pointer dec (Some j)) (\<lambda>x. bind_res (dec_all dec js) (\<lambda>xs. Ok (x # xs)))"

fun dec_slice ::
  "(json \<Rightarrow> ('a, decode_error) res) \<Rightarrow> json option \<Rightarrow> ('a option list option, decode_error) res"
where
  "dec_slice dec None = Ok None"
| "dec_slice dec (Some JNull) = Ok None"
| "dec_slice dec (Some (JArr js)) = bind_res (dec_all dec js) (\<lambda>xs. Ok (Some xs))"
| "dec_slice dec (Some _) = Err TypeMismatch"

fun dec_bool :: "json option \<Rightarrow> (bool, decode_error) res" where
  "dec_bool None = Ok False"
| "dec_bool (Some JNull) = Ok False"
| "dec_bool (Some (JBool b)) = Ok b"
| "dec_bool (Some _) = Err TypeMismatch"

definition dec_install_request :: "(string, json) fmap \<Rightarrow> (install_request, decode_error) res" where
  "dec_install_request m =
     bind_res (dec_pointer dec_installation (fmlookup m ''app_installation'')) (\<lambda>a.
     bind_res (dec_slice dec_rule (fmlookup m ''reverse_proxy_rules'')) (\<lambda>rs.
     bind_res (dec_bool (fmlookup m ''StartAfterInstall'')) (\<lambda>st.
       Ok \<lparr>req_AppInstallation = a, req_ReverseProxyRules = rs, req_StartAfterInstall = st\<rparr>)))"

text \<open>\<open>appInstallation.Package\<close> of a request without an installation panics.\<close>

definition h_InstallApp ::
  "('c, 'w) controller \<Rightarrow> string \<Rightarrow> string \<Rightarrow> string \<Rightarrow> ((string, rule) fmap \<Rightarrow> rule list) \<Rightarrow> string
   \<Rightarrow> body \<Rightarrow> ('c, 'w) ctrl \<Rightarrow> ('c, 'w) handled"
where
  "h_InstallApp K appUuid uuid now order userID b c =
     run_request (decode_body dec_install_request b)
       (\<lambda>req c.
          (case req_AppInstallation req of
             None \<Rightarrow> (c, Panic)
           | Some a \<Rightarrow>
               installApp K appUuid uuid now order userID (app_Package a) (app_Version a) (app_Name a)
                 (req_ReverseProxyRules req) (req_StartAfterInstall req) c))
       (WriteHeader StatusCreated) c"

definition h_UninstallApp ::
  "('c, 'w) controller \<Rightarrow> body \<Rightarrow> ('c, 'w) ctrl \<Rightarrow> ('c, 'w) handled"
where
  "h_UninstallApp K b c =
     run_request (decode_body (\<lambda>m. dec_str m ''app_id'') b) (uninstallApp K) (WriteHeader StatusOK) c"

definition h_GetNodeState ::
  "('c, 'w) controller \<Rightarrow> ('c, 'w) ctrl \<Rightarrow> ctrl_text response option"
where
  "h_GetNodeState K c =
     (case getNodeState K c of
        Err e \<Rightarrow> Some (http_Error (StateErrorText e) StatusInternalServerError empty_response)
      | Panic \<Rightarrow> None
      | Ok state \<Rightarrow> Some (Write (JSONText (Bytes state)) empty_response))"

definition h_AddUser ::
  "('c, 'w) controller \<Rightarrow> string \<Rightarrow> body \<Rightarrow> ('c, 'w) ctrl \<Rightarrow> ('c, 'w) handled"
where
  "h_AddUser K uuid b c =
     run_request
       (decode_body (\<lambda>m. bind_res (dec_str m ''did'') (\<lambda>d. bind_res (dec_str m ''handle'') (\<lambda>h. Ok (h, d)))) b)
       (\<lambda>(handle, did). addUser K uuid handle did) (Write SuccessText) c"

definition h_MigrateDB ::
  "env \<Rightarrow> ('c, 'w) controller \<Rightarrow> body \<Rightarrow> ('c, 'w) ctrl \<Rightarrow> ('c, 'w) handled"
where
  "h_MigrateDB E K b c =
     run_request (decode_body (\<lambda>m. dec_str m ''target_version'') b) (migrateDB E K) (\<lambda>w. w) c"

definition h_GetNode :: "('c, 'w) controller \<Rightarrow> ('c, 'w) ctrl \<Rightarrow> ctrl_text response option" where
  "h_GetNode K c =
     (let stateBytes = cl_Bytes (ctl_db K) (ct_db c) in
      if is_object_or_null stateBytes
      then Some (Write (JSONText (JObj (fmap_of_list [(''database_id'', JStr ''''), (''state'', stateBytes)])))
             (Header_Set ''Content-Type'' ''application/json'' empty_response))
      else Some (http_Error (BadRequestText NotAnObject) StatusBadRequest empty_response))"

section \<open>Statuses\<close>

lemma run_request_status:
  assumes "run_request req f finish c = (c', Some w)" and "status (finish empty_response) = ok"
    and "ok \<noteq> StatusBadRequest" and "ok \<noteq> StatusInternalServerError"
  shows "(status w = ok \<longleftrightarrow> (\<exists>a. req = Ok a \<and> f a c = (c', Ok ()))) \<and>
     (status w = StatusBadRequest \<longleftrightarrow> \<not> is_Ok req) \<and>
     status w \<in> {ok, StatusBadRequest, StatusInternalServerError} \<and>
     (status w = StatusBadRequest \<longrightarrow> c' = c)"
proof (cases req)
  case (Ok a)
  then show ?thesis
    using assms by (cases "f a c"; cases "snd (f a c)") (auto simp: run_request_def)
qed (use assms in \<open>auto simp: run_request_def\<close>)

text \<open>
  The handlers that change the node answer 400 exactly when the request does not decode, and then
  change nothing; they answer with their success status exactly when the operation returned no error,
  and with 500 otherwise.
\<close>

theorem start_process_handler_status:
  assumes "h_StartProcess K uuid now order b c = (c', Some w)"
  shows "(status w = StatusCreated \<longleftrightarrow>
       (\<exists>i. decode_body (\<lambda>m. dec_str m ''app_id'') b = Ok i \<and>
          startProcess K uuid now order i c = (c', Ok ()))) \<and>
     (status w = StatusBadRequest \<longleftrightarrow> \<not> is_Ok (decode_body (\<lambda>m. dec_str m ''app_id'') b)) \<and>
     status w \<in> {StatusCreated, StatusBadRequest, StatusInternalServerError} \<and>
     (status w = StatusBadRequest \<longrightarrow> c' = c)"
  by (rule run_request_status [OF assms [unfolded h_StartProcess_def]]) simp_all

lemma start_process_handler_status_witness:
  "\<exists>c' w. h_StartProcess sample_controller ''1'' ''now'' (\<lambda>_. []) (Some (JArr [])) (sample_ctrl sample_node) = (c', Some w) \<and>
     status w = StatusBadRequest \<and> c' = sample_ctrl sample_node"
proof -
  let ?h = "h_StartProcess sample_controller ''1'' ''now'' (\<lambda>_. []) (Some (JArr [])) (sample_ctrl sample_node)"
  obtain c' w where h: "?h = (c', Some w)"
    by (simp add: h_StartProcess_def run_request_def decode_body_def)
  have "\<not> is_Ok (decode_body (\<lambda>m. dec_str m ''app_id'') (Some (JArr [])))"
    by (simp add: decode_body_def)
  with start_process_handler_status [OF h] h show ?thesis by auto
qed

text \<open>
  The state that the node serves is a document from which the same state can be read back.
\<close>

theorem served_state_roundtrip:
  assumes "h_GetNodeState K c = Some w" and "getNodeState K c = Ok s"
  shows "\<exists>doc. rsp_Body w = [JSONText doc] \<and> FromBytes doc = Ok s \<and> status w = StatusOK"
  using assms by (auto simp: h_GetNodeState_def)

lemma served_state_roundtrip_witness:
  "\<exists>w doc. h_GetNodeState sample_controller (sample_ctrl sample_node) = Some w \<and>
     rsp_Body w = [JSONText doc] \<and> FromBytes doc = Ok sample_node"
proof -
  have s: "getNodeState sample_controller (sample_ctrl sample_node) = Ok sample_node"
    by (simp add: getNodeState_def fileDB_client_def)
  then obtain w where "h_GetNodeState sample_controller (sample_ctrl sample_node) = Some w"
    by (simp add: h_GetNodeState_def)
  with served_state_roundtrip [OF this s] show ?thesis by auto
qed

end
