(* ===== verification/NodeConfig.thy ===== *)
theory NodeConfig
  imports CtrlServer FileSystem Base64
begin

text \<open>
  The configuration of a node: \<open>internal/node/config/config.go\<close> and \<open>internal/node/constants\<close>.

  The library that collects the settings (\<open>spf13/viper\<close>) is a parameter: what it is asked for before the
  file is read, and the values it then gives.  So are the reading and parsing of certificates.
\<close>

section \<open>Constants\<close>

definition EnvironmentDev :: string where "EnvironmentDev = ''dev''"
definition EnvironmentProd :: string where "EnvironmentProd = ''prod''"
definition DefaultPortHabitatAPI :: string where "DefaultPortHabitatAPI = ''3000''"
definition DefaultPortReverseProxy :: string where "DefaultPortReverseProxy = ''3001''"
definition PortReverseProxyTSFunnel :: string where "PortReverseProxyTSFunnel = ''443''"
definition TSNetHostnameDefault :: string where "TSNetHostnameDefault = ''habitat''"

section \<open>Settings\<close>

datatype setting = StringSetting string | BoolSetting bool

datatype viper_call = BindEnv string string | SetDefault string setting

datatype config_error =
    HomedirUnknown
  | BindFailed
  | ConfigUnreadable
  | ConfigMalformed
  | CertUnreadable string
  | NoPEMBlock
  | NotACertificate
  | CertUnparsable
  | RulesMalformed
  | AppsMalformed

text \<open>
  What the settings give: the apps of \<open>default_apps\<close> come in the order in which the map is visited, and a
  pointer in the file may be nil.  \<open>None\<close> is a setting that cannot be decoded.
\<close>

record viper =
  vp_GetString :: "string \<Rightarrow> string"
  vp_GetBool :: "string \<Rightarrow> bool"
  vp_Unmarshals :: bool
  vp_ReverseProxyRules :: "rule option list option"
  vp_DefaultApps :: "(string \<times> install_request option) list option"

text \<open>
  The library before the file is read: whether a call is accepted, the values of strings, and the result of
  reading the file of the given type and name from one of the given directories.
\<close>

record viper_lib =
  vl_accepts :: "viper_call \<Rightarrow> bool"
  vl_GetString :: "viper_call list \<Rightarrow> string \<Rightarrow> string"
  vl_ReadInConfig :: "viper_call list \<Rightarrow> string list \<Rightarrow> string \<Rightarrow> string \<Rightarrow> viper option"

definition env_calls :: "viper_call list" where
  "env_calls =
     [BindEnv ''environment'' ''ENVIRONMENT'', SetDefault ''environment'' (StringSetting EnvironmentProd),
      BindEnv ''debug'' ''DEBUG'', SetDefault ''debug'' (BoolSetting False),
      BindEnv ''habitat_path'' ''HABITAT_PATH'', SetDefault ''habitat_path'' (StringSetting ''.habitat''),
      BindEnv ''habitat_app_path'' ''HABITAT_APP_PATH'',
      BindEnv ''use_tls'' ''USE_TLS'', SetDefault ''use_tls'' (BoolSetting False),
      BindEnv ''tailscale_authkey'' ''TS_AUTHKEY'', BindEnv ''tailnet'' ''TS_TAILNET'',
      BindEnv ''tailscale_funnel_enabled'' ''TS_FUNNEL_ENABLED'', BindEnv ''domain'' ''DOMAIN'',
      BindEnv ''frontend_dev'' ''FRONTEND_DEV'', SetDefault ''frontend_dev'' (BoolSetting False)]"

definition loadEnv :: "viper_lib \<Rightarrow> (viper_call list, config_error) res" where
  "loadEnv L = (if list_all (vl_accepts L) env_calls then Ok env_calls else Err BindFailed)"

definition loadViperConfig :: "viper_lib \<Rightarrow> string option \<Rightarrow> (viper, config_error) res" where
  "loadViperConfig L home =
     bind_res (loadEnv L) (\<lambda>v.
     bind_res (ok_or HomedirUnknown home) (\<lambda>homedir.
       ok_or ConfigUnreadable
         (vl_ReadInConfig L v [path_Join [homedir, ''.habitat''], vl_GetString L v ''habitat_path''] ''yml'' ''habitat'')))"

section \<open>The configuration\<close>

text \<open>A certificate is its raw bytes.\<close>

record node_config =
  nc_RootUserCert :: "string option"
  nc_NodeCert :: "string option"
  nc_viper :: viper

record cert_lib =
  ce_ReadFile :: "string \<Rightarrow> string option"
  ce_pem_Decode :: "string \<Rightarrow> (string \<times> string) option"
  ce_ParseCertificate :: "string \<Rightarrow> string option"

definition decodePemCert :: "cert_lib \<Rightarrow> string \<Rightarrow> (string, config_error) res" where
  "decodePemCert C certPath =
     bind_res (ok_or (CertUnreadable certPath) (ce_ReadFile C certPath)) (\<lambda>pemBytes.
     bind_res (ok_or NoPEMBlock (ce_pem_Decode C pemBytes)) (\<lambda>(btype, bytes).
       if btype \<noteq> ''CERTIFICATE'' then Err NotACertificate
       else ok_or CertUnparsable (ce_ParseCertificate C bytes)))"

definition NewNodeConfigFromViper :: "viper \<Rightarrow> (node_config, config_error) res" where
  "NewNodeConfigFromViper v =
     (if vp_Unmarshals v then Ok \<lparr>nc_RootUserCert = None, nc_NodeCert = None, nc_viper = v\<rparr> else Err ConfigMalformed)"

definition NewTestNodeConfig :: "viper \<Rightarrow> (node_config, config_error) res" where
  "NewTestNodeConfig v =
     bind_res (NewNodeConfigFromViper v) (\<lambda>c. Ok (c\<lparr>nc_RootUserCert := Some ''root_cert''\<rparr>))"

abbreviation cfg_string :: "node_config \<Rightarrow> string \<Rightarrow> string" where "cfg_string n \<equiv> vp_GetString (nc_viper n)"
abbreviation cfg_bool :: "node_config \<Rightarrow> string \<Rightarrow> bool" where "cfg_bool n \<equiv> vp_GetBool (nc_viper n)"

definition Environment :: "node_config \<Rightarrow> string" where "Environment n = cfg_string n ''environment''"

datatype log_level = DebugLevel | InfoLevel

definition LogLevel :: "node_config \<Rightarrow> log_level" where
  "LogLevel n = (if cfg_bool n ''debug'' then DebugLevel else InfoLevel)"

definition HabitatPath :: "node_config \<Rightarrow> string" where "HabitatPath n = cfg_string n ''habitat_path''"

definition HabitatAppPath :: "node_config \<Rightarrow> string" where
  "HabitatAppPath n =
     (let path = cfg_string n ''habitat_app_path'' in
      if path = '''' then path_Join [HabitatPath n, ''apps''] else path)"

definition HDBPath :: "node_config \<Rightarrow> string" where "HDBPath n = path_Join [HabitatPath n, ''hdb'', ''state'']"

definition WebBundlePath :: "node_config \<Rightarrow> string" where "WebBundlePath n = path_Join [HabitatPath n, ''web'']"

definition NodeCertPath :: "node_config \<Rightarrow> string" where
  "NodeCertPath n =
     (if HabitatPath n = '''' then '''' else path_Join [HabitatPath n, ''certificates'', ''dev_node_cert.pem''])"

definition NodeKeyPath :: "node_config \<Rightarrow> string" where
  "NodeKeyPath n =
     (if HabitatPath n = '''' then '''' else path_Join [HabitatPath n, ''certificates'', ''dev_node_key.pem''])"

definition RootUserCertPath :: "node_config \<Rightarrow> string" where
  "RootUserCertPath n = path_Join [HabitatPath n, ''certificates'', ''dev_root_user_cert.pem'']"

definition NewNodeConfig ::
  "viper_lib \<Rightarrow> cert_lib \<Rightarrow> string option \<Rightarrow> (node_config, config_error) res"
where
  "NewNodeConfig L C home =
     bind_res (loadViperConfig L home) (\<lambda>v.
     bind_res (NewNodeConfigFromViper v) (\<lambda>config.
     bind_res
       (if RootUserCertPath config \<noteq> ''''
        then bind_res (decodePemCert C (RootUserCertPath config)) (\<lambda>c. Ok (config\<lparr>nc_RootUserCert := Some c\<rparr>))
        else Ok config) (\<lambda>config.
       if NodeCertPath config \<noteq> ''''
       then bind_res (decodePemCert C (NodeCertPath config)) (\<lambda>c. Ok (config\<lparr>nc_NodeCert := Some c\<rparr>))
       else Ok config)))"

text \<open>Reading the bytes of a certificate that was not loaded panics.\<close>

definition RootUserCertB64 :: "node_config \<Rightarrow> (string, 'e) res" where
  "RootUserCertB64 n = (case nc_RootUserCert n of None \<Rightarrow> Panic | Some raw \<Rightarrow> Ok (base64_encode raw))"

definition UseTLS :: "node_config \<Rightarrow> bool" where "UseTLS n = cfg_bool n ''use_tls''"

text \<open>A configuration for TLS: the text that the authorities of clients are read from; clients need a certificate.\<close>

record tls_config =
  tls_ClientCAs :: string
  tls_RequireAndVerifyClientCert :: bool

definition TLSConfig :: "cert_lib \<Rightarrow> node_config \<Rightarrow> (tls_config option, config_error) res" where
  "TLSConfig C n =
     (if \<not> UseTLS n then Ok None
      else
        bind_res (ok_or (CertUnreadable (RootUserCertPath n)) (ce_ReadFile C (RootUserCertPath n))) (\<lambda>rootCertBytes.
          Ok (Some \<lparr>tls_ClientCAs = rootCertBytes, tls_RequireAndVerifyClientCert = True\<rparr>)))"

definition TailscaleAuthkey :: "node_config \<Rightarrow> string" where "TailscaleAuthkey n = cfg_string n ''tailscale_authkey''"

definition TailScaleFunnelEnabled :: "node_config \<Rightarrow> bool" where
  "TailScaleFunnelEnabled n = (if TailscaleAuthkey n \<noteq> '''' then cfg_bool n ''tailscale_funnel_enabled'' else False)"

definition Domain :: "node_config \<Rightarrow> string" where
  "Domain n =
     (if TailScaleFunnelEnabled n
      then (let domain = cfg_string n ''domain'' in if domain = '''' then ''localhost'' else domain)
      else ''localhost'')"

definition ExternalURL :: "node_config \<Rightarrow> string" where
  "ExternalURL n =
     (let domain = Domain n in if domain = ''localhost'' then ''http://localhost'' else ''https://'' @ domain)"

text \<open>Splitting a domain gives at least one part.\<close>

definition Hostname :: "node_config \<Rightarrow> string" where
  "Hostname n =
     (if TailscaleAuthkey n \<noteq> ''''
      then (if Environment n = EnvironmentDev then hd (split_byte CHR ''.'' (Domain n)) else TSNetHostnameDefault)
      else ''localhost'')"

definition ReverseProxyPort :: "node_config \<Rightarrow> string" where
  "ReverseProxyPort n = (if TailScaleFunnelEnabled n then PortReverseProxyTSFunnel else DefaultPortReverseProxy)"

definition TailnetName :: "node_config \<Rightarrow> string" where "TailnetName n = cfg_string n ''tailnet''"

definition TailScaleStatePath :: "node_config \<Rightarrow> string" where
  "TailScaleStatePath n = path_Join [HabitatPath n, ''tailscale_state'']"

definition PermissionPolicyFilesDir :: "node_config \<Rightarrow> string" where
  "PermissionPolicyFilesDir n = path_Join [HabitatPath n, ''permissions'']"

definition PriviRepoFile :: "node_config \<Rightarrow> string" where
  "PriviRepoFile n = path_Join [HabitatPath n, ''privi-repo.db'']"

definition FrontendDev :: "node_config \<Rightarrow> bool" where "FrontendDev n = cfg_bool n ''frontend_dev''"

definition cfg_ReverseProxyRules :: "node_config \<Rightarrow> (rule option list, config_error) res" where
  "cfg_ReverseProxyRules n = ok_or RulesMalformed (vp_ReverseProxyRules (nc_viper n))"

text \<open>A nil request panics; a nil installation is passed on.\<close>

fun default_apps_loop ::
  "(string \<times> install_request option) list \<Rightarrow> installation option list \<Rightarrow> rule option list
   \<Rightarrow> (installation option list \<times> rule option list, config_error) res"
where
  "default_apps_loop [] apps rules = Ok (apps, rules)"
| "default_apps_loop ((_, None) # rest) apps rules = Panic"
| "default_apps_loop ((_, Some q) # rest) apps rules =
     default_apps_loop rest (apps @ [req_AppInstallation q]) (rules @ slice (req_ReverseProxyRules q))"

definition DefaultApps :: "node_config \<Rightarrow> (installation option list \<times> rule option list, config_error) res" where
  "DefaultApps n =
     bind_res (ok_or AppsMalformed (vp_DefaultApps (nc_viper n))) (\<lambda>appRequests. default_apps_loop appRequests [] [])"

section \<open>What the accessors promise\<close>

lemma default_apps_loop_Ok:
  "default_apps_loop qs apps rules = Ok (apps', rules') \<longleftrightarrow>
    (\<forall>q \<in> set qs. snd q \<noteq> None) \<and> apps' = apps @ map (\<lambda>q. req_AppInstallation (the (snd q))) qs \<and>
    rules' = rules @ concat (map (\<lambda>q. slice (req_ReverseProxyRules (the (snd q)))) qs)"
  by (induction qs apps rules rule: default_apps_loop.induct) auto

lemma Domain_cases:
  "Domain n = ''localhost'' \<or>
    (TailscaleAuthkey n \<noteq> '''' \<and> cfg_bool n ''tailscale_funnel_enabled'' \<and> Domain n = cfg_string n ''domain'' \<and>
     Domain n \<noteq> '''')"
  by (auto simp: Domain_def TailScaleFunnelEnabled_def Let_def split: if_splits)

text \<open>A node is reached by https exactly when its funnel has a domain that is not local.\<close>

lemma ExternalURL_eq:
  "ExternalURL n =
    (if TailScaleFunnelEnabled n \<and> cfg_string n ''domain'' \<notin> {'''', ''localhost''}
     then ''https://'' @ cfg_string n ''domain'' else ''http://localhost'')"
  by (simp add: ExternalURL_def Domain_def Let_def)

text \<open>Every path of the node, except that of the apps, is below its directory.\<close>

lemma join_below:
  assumes "h \<noteq> ''''" and "es \<noteq> []"
    and "\<And>e. e \<in> set es \<Longrightarrow> e \<notin> {'''', ''.'', dotdot} \<and> CHR ''/'' \<notin> set e"
  shows "locate cwd (path_Join (h # es)) = locate cwd h @ es"
proof -
  have "filter (\<lambda>e. e \<noteq> '''') es = es" using assms(3) by (simp add: filter_id_conv)
  then have "path_Join (h # es) = path_Join [h, join_slash es]"
    using assms join_slash_append [of "[h]" es] assms(3) by (cases es rule: join_slash.cases) (auto simp: path_Join_def)
  moreover have "clean_stack True (rev (locate cwd h)) es = locate cwd h @ es"
  proof -
    have "dotdot \<notin> set es" "filter (\<lambda>c. c \<noteq> '''' \<and> c \<noteq> ''.'') es = es"
      using assms(3) by (auto simp: filter_id_conv)
    then show ?thesis by (simp add: clean_stack_no_dotdot)
  qed
  ultimately show ?thesis using assms by (simp add: locate_Join split_join_slash)
qed

lemma node_paths_below_habitat:
  assumes "HabitatPath n \<noteq> ''''"
  shows "locate cwd (HDBPath n) = locate cwd (HabitatPath n) @ [''hdb'', ''state'']"
    "locate cwd (WebBundlePath n) = locate cwd (HabitatPath n) @ [''web'']"
    "locate cwd (NodeCertPath n) = locate cwd (HabitatPath n) @ [''certificates'', ''dev_node_cert.pem'']"
    "locate cwd (NodeKeyPath n) = locate cwd (HabitatPath n) @ [''certificates'', ''dev_node_key.pem'']"
    "locate cwd (RootUserCertPath n) = locate cwd (HabitatPath n) @ [''certificates'', ''dev_root_user_cert.pem'']"
    "locate cwd (TailScaleStatePath n) = locate cwd (HabitatPath n) @ [''tailscale_state'']"
    "locate cwd (PermissionPolicyFilesDir n) = locate cwd (HabitatPath n) @ [''permissions'']"
    "locate cwd (PriviRepoFile n) = locate cwd (HabitatPath n) @ [''privi-repo.db'']"
  using assms
  by (simp_all add: HDBPath_def WebBundlePath_def NodeCertPath_def NodeKeyPath_def RootUserCertPath_def
      TailScaleStatePath_def PermissionPolicyFilesDir_def PriviRepoFile_def)
    (subst join_below; auto simp: dotdot_def)+

end
