(* ===== verification/Documents.thy ===== *)
theory Documents
  imports StateDB
begin

text \<open>
  The document that the node keeps is the marshalled state itself: if it is at the start, it is after every list of
  transitions, migrations included.  The transitions edit the document with patches, and a migration patches it with
  the difference of two marshalled states.
\<close>

section \<open>Editing a marshalled state\<close>

abbreviation state_map :: "node_state \<Rightarrow> (string, json) fmap" where
  "state_map s \<equiv> fmap_of_list (state_members s)"

lemma state_map_members:
  "Users s = Some us \<Longrightarrow> fmlookup (state_map s) ''users'' = Some (JObj (fmmap enc_user us))"
  "Processes s = Some ps \<Longrightarrow> fmlookup (state_map s) ''processes'' = Some (JObj (fmmap enc_process ps))"
  "AppInstallations s = Some as \<Longrightarrow>
     fmlookup (state_map s) ''app_installations'' = Some (JObj (fmmap enc_installation as))"
  "ReverseProxyRules s = Some rs \<Longrightarrow> fmlookup (state_map s) ''reverse_proxy_rules'' = Some (JObj (fmmap enc_rule rs))"
  by (simp_all add: state_members_def fmlookup_of_list)

lemma state_map_edits:
  "fmupd ''users'' (JObj (fmmap enc_user us)) (state_map s) = state_map (s\<lparr>Users := Some us\<rparr>)"
  "fmupd ''processes'' (JObj (fmmap enc_process ps)) (state_map s) = state_map (s\<lparr>Processes := Some ps\<rparr>)"
  "fmupd ''app_installations'' (JObj (fmmap enc_installation as)) (state_map s) =
     state_map (s\<lparr>AppInstallations := Some as\<rparr>)"
  "fmupd ''reverse_proxy_rules'' (JObj (fmmap enc_rule rs)) (state_map s) =
     state_map (s\<lparr>ReverseProxyRules := Some rs\<rparr>)"
  by (rule fmap_eqI; auto simp: state_members_def fmlookup_of_list enc_omitempty_def)+

lemmas fmmap_edits = fmmap_fmupd [symmetric]

lemma enc_installation_state:
  "\<exists>e. enc_installation a = JObj e \<and> fmlookup e ''state'' \<noteq> None \<and>
     JObj (fmupd ''state'' (JStr x) e) = enc_installation (a\<lparr>app_State := x\<rparr>)"
proof -
  have "fmupd ''state'' (JStr x) (fmap_of_list
        ([(''id'', JStr (app_ID a)), (''user_id'', JStr (app_UserID a)), (''name'', JStr (app_Name a)),
          (''version'', JStr (app_Version a)), (''state'', JStr (app_State a))] @ rest)) =
      fmap_of_list
        ([(''id'', JStr (app_ID a)), (''user_id'', JStr (app_UserID a)), (''name'', JStr (app_Name a)),
          (''version'', JStr (app_Version a)), (''state'', JStr x)] @ rest)" for rest
    by (rule fmap_eqI) (auto simp: fmlookup_of_list)
  then show ?thesis by (auto simp: enc_installation_def fmlookup_of_list)
qed

text \<open>One patch operation of each kind, on the marshalled state.\<close>

definition op_writes :: "patch_op \<Rightarrow> (node_state \<Rightarrow> node_state) \<Rightarrow> node_state \<Rightarrow> bool" where
  "op_writes op f s \<longleftrightarrow> obj_op op (Bytes s) = Some (Some (Bytes (f s)))"

lemma op_writes_put:
  assumes "allocated s"
  shows "plain_key (user_ID u) \<Longrightarrow> op_writes (PAdd (''/users/'' @ user_ID u) (enc_user u)) (put_user u) s"
    and "plain_key (proc_ID p) \<Longrightarrow> op_writes (PAdd (''/processes/'' @ proc_ID p) (enc_process p)) (put_process p) s"
    and "plain_key i \<Longrightarrow> op_writes (PAdd (''/app_installations/'' @ i) (enc_installation a)) (put_app i a) s"
    and "plain_key (rule_ID r) \<Longrightarrow>
      op_writes (PAdd (''/reverse_proxy_rules/'' @ rule_ID r) (enc_rule r)) (put_rule r) s"
  using assms
  by (auto simp: op_writes_def Bytes_def allocated_def ptr_members(1-4)[simplified] edit_member state_map_members
      state_map_edits fmmap_edits effects)

lemma op_writes_drop:
  assumes "allocated s"
  shows "plain_key i \<Longrightarrow> lookup_in (AppInstallations s) i \<noteq> None \<Longrightarrow>
      op_writes (PRemove (''/app_installations/'' @ i)) (drop_app i) s"
    and "plain_key i \<Longrightarrow> lookup_in (Processes s) i \<noteq> None \<Longrightarrow>
      op_writes (PRemove (''/processes/'' @ i)) (drop_process i) s"
  using assms
  by (auto simp: op_writes_def Bytes_def allocated_def ptr_members(2,3)[simplified] edit_member state_map_members
      state_map_edits fmmap_edits effects)

lemma op_writes_mark:
  assumes "allocated s" and "plain_key i" and "lookup_in (AppInstallations s) i = Some a"
  shows "op_writes (PReplace (''/app_installations/'' @ i @ ''/state'') (JStr LifecycleStateInstalled)) (mark_installed i) s"
proof -
  obtain as where as: "AppInstallations s = Some as" using assms(1) by (auto simp: allocated_def)
  obtain e where e: "enc_installation a = JObj e" "fmlookup e ''state'' \<noteq> None"
    "JObj (fmupd ''state'' (JStr LifecycleStateInstalled) e) = enc_installation (a\<lparr>app_State := LifecycleStateInstalled\<rparr>)"
    using enc_installation_state by blast
  have "fmlookup (fmmap enc_installation as) i = Some (JObj e)" using assms(3) as e(1) by simp
  from obj_edit3 [OF state_map_members(3) [OF as] this] e(2,3) assms(2,3) as show ?thesis
    by (simp add: op_writes_def Bytes_def ptr_members(5)[simplified] mark_installed_def effects state_map_edits fmmap_edits)
qed

section \<open>What a migration makes of the state\<close>

text \<open>
  From v0.0.4 on the versions have all four maps.  Between them a migration changes the version and, downwards to
  v0.0.4, forgets the DIDs of the users.
\<close>

definition mild :: "(state_ptr \<Rightarrow> (state_ptr, mig_error) res) \<Rightarrow> bool" where
  "mild f \<longleftrightarrow> (\<forall>s. f (Some s) = Ok (Some s) \<or> f (Some s) = Ok (Some (clear_DIDs s)))"

lemma clear_DIDs_twice [simp]: "clear_DIDs (clear_DIDs s) = clear_DIDs s"
  by (simp add: clear_DIDs_def option.map_comp o_def fmap.map_comp)

lemma mild_migrations:
  assumes "m \<in> set (drop 4 NodeDataMigrations)"
  shows "mild (mig_up m)" and "mild (mig_down m)"
  using assms
  by (auto simp: NodeDataMigrations_def migration_defs mild_def copy_then_def copy_ptr_def Copy_def)

lemma run_mild:
  assumes "\<forall>m \<in> set ms. mild (mig_up m) \<and> mild (mig_down m)" and "run_migrations E c t ms (Some s) = Ok p"
  shows "p = Some s \<or> p = Some (clear_DIDs s)"
  using assms
proof (induction ms arbitrary: s)
  case (Cons m ms)
  then obtain p1 where p1: "(if semver_Compare E c t < 0 then mig_up m (Some s)
      else if semver_Compare E c t > 0 then mig_down m (Some s) else Err (NeverHappens c t)) = Ok p1"
    and rest: "(if upVersion m = t then Ok p1 else run_migrations E c t ms p1) = Ok p"
    by (auto simp: bind_res_Ok_iff)
  have "mild (mig_up m)" "mild (mig_down m)" using Cons.prems(1) by simp_all
  with p1 have one: "p1 = Some s \<or> p1 = Some (clear_DIDs s)"
    unfolding mild_def by (auto split: if_splits dest: spec [of _ s])
  then obtain s1 where s1: "p1 = Some s1" "s1 = s \<or> s1 = clear_DIDs s" by blast
  show ?case
  proof (cases "upVersion m = t")
    case True
    then show ?thesis using rest one by simp
  next
    case False
    then show ?thesis using Cons.IH [of s1] Cons.prems(1) rest s1 by auto
  qed
qed simp

lemma set_take_drop: "k \<le> j \<Longrightarrow> set (take n (drop j xs)) \<subseteq> set (drop k xs)"
  by (meson set_drop_subset_set_drop set_take_subset subset_trans)

lemma needed_late:
  assumes "semver_laws E" and "4 \<le> i" and "i < 10" and "4 \<le> j" and "j < 10"
    and "GetNeededMigrations E (ver i) (ver j) = Ok ms"
  shows "set ms \<subseteq> set (drop 4 NodeDataMigrations)"
proof -
  have "set (take (j - i) (drop i NodeDataMigrations)) \<subseteq> set (drop 4 NodeDataMigrations)"
    "set (rev (take (i - j) (drop j NodeDataMigrations))) \<subseteq> set (drop 4 NodeDataMigrations)"
    using set_take_drop [of 4] assms(2,4) by simp_all
  then show ?thesis
    using needed_migrations_eq [OF assms(1,3,5)] assms(6) by (auto split: if_splits)
qed

lemma migrated_late:
  assumes "semver_laws E" and "4 \<le> i" and "i < 10" and "4 \<le> j" and "j < 10"
    and "migrated_state E (ver i) (ver j) s = Ok s'"
  shows "s' = s\<lparr>SchemaVersion := ver j\<rparr> \<or> s' = (clear_DIDs s)\<lparr>SchemaVersion := ver j\<rparr>"
proof -
  obtain ms where ms: "GetNeededMigrations E (ver i) (ver j) = Ok ms"
    using assms(6) by (cases "GetNeededMigrations E (ver i) (ver j)") (simp_all add: migrated_state_def)
  obtain p where p: "run_migrations E (ver i) (ver j) ms (Some s) = Ok p"
    using assms(6) ms by (cases "run_migrations E (ver i) (ver j) ms (Some s)") (simp_all add: migrated_state_def Copy_def)
  have s': "\<exists>x. p = Some x \<and> s' = x\<lparr>SchemaVersion := ver j\<rparr>"
    using assms(6) ms p by (cases p) (simp_all add: migrated_state_def Copy_def)
  have "\<forall>m \<in> set ms. mild (mig_up m) \<and> mild (mig_down m)"
    using needed_late [OF assms(1-5) ms] mild_migrations by blast
  from run_mild [OF this p] s' show ?thesis by auto
qed

section \<open>Every transition writes the marshalled state\<close>

text \<open>The meaning of a transition, with that of a migration in the environment.\<close>

fun means :: "env \<Rightarrow> transition \<Rightarrow> node_state \<Rightarrow> node_state" where
  "means E (Migration v) s =
     (case migrated_state E (SchemaVersion s) v s of Ok s' \<Rightarrow> s' | _ \<Rightarrow> s)"
| "means E t s = effect t s"

text \<open>A state with all its maps, of a version from v0.0.4 on; and the transitions that stay among these.\<close>

definition late_version :: "string \<Rightarrow> bool" where
  "late_version v \<longleftrightarrow> (\<exists>i. 4 \<le> i \<and> i < 10 \<and> v = ver i)"

definition current :: "node_state \<Rightarrow> bool" where
  "current s \<longleftrightarrow> allocated s \<and> late_version (SchemaVersion s)"

fun stays_current :: "transition \<Rightarrow> bool" where
  "stays_current (Migration v) = late_version v"
| "stays_current (Initialize s) = pred_option (\<lambda>s. late_version (SchemaVersion s)) s"
| "stays_current t = (no_nil_rules t \<and> good_ids t)"

definition patch_writes :: "env \<Rightarrow> transition \<Rightarrow> node_state \<Rightarrow> bool" where
  "patch_writes E t s \<longleftrightarrow>
     (\<exists>ids ops. transition_Patch E t (Bytes s) = Ok (ids, ops) \<and> list_all json_plain ids \<and>
        jsonpatch_Apply E ops (Bytes s) = Some (Bytes (means E t s)))"

lemma patch_writes_single:
  assumes "patch_laws (jsonpatch_Apply E)" and "transition_Patch E t (Bytes s) = Ok ([i], [op])"
    and "json_plain i" and "op_writes op (means E t) s"
  shows "patch_writes E t s"
  using assms patch_laws_op [OF assms(1)] by (auto simp: patch_writes_def op_writes_def)

lemma apply_rule_ops_writes:
  assumes "patch_laws (jsonpatch_Apply E)" and "allocated s"
    and "list_all (pred_option (\<lambda>r. good_id (rule_ID r))) rs" and "None \<notin> set rs"
  shows "\<exists>ids ops. rule_ops rs = Ok (ids, ops) \<and> list_all json_plain ids \<and>
     jsonpatch_Apply E ops (Bytes s) = Some (Bytes (fold put_rule (map the rs) s))"
  using assms(2-4)
proof (induction rs arbitrary: s)
  case Nil
  then show ?case using patch_laws_Nil [OF assms(1)] by auto
next
  case (Cons x rs)
  then obtain r where r: "x = Some r" "good_id (rule_ID r)" by (cases x) auto
  have d1: "obj_op (PAdd (''/reverse_proxy_rules/'' @ rule_ID r) (enc_rule r)) (Bytes s) = Some (Some (Bytes (put_rule r s)))"
    using op_writes_put(4) [OF Cons.prems(1), of r] r by (simp add: op_writes_def good_id_def)
  obtain ids ops where "rule_ops rs = Ok (ids, ops)" "list_all json_plain ids"
    "jsonpatch_Apply E ops (Bytes (put_rule r s)) = Some (Bytes (fold put_rule (map the rs) (put_rule r s)))"
    using Cons.IH [of "put_rule r s"] Cons.prems by auto
  then show ?case using r patch_laws_step [OF assms(1) d1] by (auto simp: good_id_def)
qed

lemma patch_writes_StartInstallation:
  assumes laws: "patch_laws (jsonpatch_Apply E)" and all: "allocated s"
    and "Validate_StartInstallation E a (Bytes s) = Ok u" and "None \<notin> set (slice rs)"
    and "good_ids (StartInstallation a rs)"
  shows "patch_writes E (StartInstallation a rs) s"
proof -
  have user: "lookup_in (Users s) (app_UserID a) \<noteq> None"
    using assms(3) by (auto simp: Validate_StartInstallation_def Let_def split: if_splits)
  have d1: "obj_op (PAdd (''/app_installations/'' @ app_ID a) (enc_installation a)) (Bytes s) =
      Some (Some (Bytes (put_app (app_ID a) a s)))"
    using op_writes_put(3) [OF all, of "app_ID a" a] assms(5) by (simp add: op_writes_def good_id_def)
  obtain ids ops where "rule_ops (slice rs) = Ok (ids, ops)" "list_all json_plain ids"
    "jsonpatch_Apply E ops (Bytes (put_app (app_ID a) a s)) =
      Some (Bytes (fold put_rule (map the (slice rs)) (put_app (app_ID a) a s)))"
    using apply_rule_ops_writes [OF laws, of "put_app (app_ID a) a s" "slice rs"] all assms(4,5) by auto
  then show ?thesis
    using user assms(5) patch_laws_step [OF laws d1]
    by (auto simp: patch_writes_def Patch_StartInstallation_def good_id_def)
qed

lemma Validate_Migration_Ok:
  assumes "diff_laws (jsonpatch_Apply E) (jsondiff_Compare E)" and "Validate_Migration E v (Bytes s) = Ok u"
  obtains s' p where "migrated_state E (SchemaVersion s) v s = Ok s'"
    and "GetMigrationPatch E (SchemaVersion s) v s = Ok p" and "jsonpatch_Apply E p (Bytes s) = Some (Bytes s')"
proof -
  obtain p where p: "GetMigrationPatch E (SchemaVersion s) v s = Ok p"
    using assms(2) by (auto simp: Validate_Migration_def bind_res_Ok_iff)
  then obtain s' where s': "migrated_state E (SchemaVersion s) v s = Ok s'"
    by (auto simp: GetMigrationPatch_def bind_res_Ok_iff)
  with migration_patch_applies_aux [OF assms(1) s'] p show thesis by (auto intro: that)
qed

lemma transition_patch_writes:
  assumes laws: "patch_laws (jsonpatch_Apply E)" "diff_laws (jsonpatch_Apply E) (jsondiff_Compare E)"
    and all: "allocated s" and valid: "transition_Validate E t (Bytes s) = Ok u" and good: "stays_current t"
  shows "patch_writes E t s"
proof (cases t)
  case (Initialize i)
  then obtain s0 where i: "i = Some s0" using valid by (cases i) auto
  then show ?thesis
    using Initialize patch_laws_op [OF laws(1), of "PAdd '''' (Bytes (fill_maps s0))" "Bytes s"]
    by (simp add: patch_writes_def Patch_Initialize_def)
next
  case (Migration v)
  with valid have "Validate_Migration E v (Bytes s) = Ok u" by simp
  then obtain s' p where "migrated_state E (SchemaVersion s) v s = Ok s'"
    "GetMigrationPatch E (SchemaVersion s) v s = Ok p" "jsonpatch_Apply E p (Bytes s) = Some (Bytes s')"
    by (rule Validate_Migration_Ok [OF laws(2)])
  then show ?thesis using Migration by (simp add: patch_writes_def Patch_Migration_def)
next
  case (AddUser x)
  show ?thesis
    by (rule patch_writes_single [OF laws(1), of t s "user_ID x"])
      (use AddUser good op_writes_put(1) [OF all, of x] in \<open>auto simp: Patch_AddUser_def good_id_def op_writes_def\<close>)
next
  case (StartInstallation a rs)
  then show ?thesis
    using patch_writes_StartInstallation [OF laws(1) all] valid good by simp
next
  case (FinishInstallation i)
  then obtain a where "lookup_in (AppInstallations s) i = Some a"
    using valid by (auto simp: Validate_FinishInstallation_def split: option.splits if_splits)
  from op_writes_mark [OF all _ this] show ?thesis
    by (intro patch_writes_single [OF laws(1), of t s i])
      (use FinishInstallation good in \<open>auto simp: Patch_FinishInstallation_def good_id_def op_writes_def\<close>)
next
  case (Uninstall i)
  then have "lookup_in (AppInstallations s) i \<noteq> None"
    using valid by (auto simp: Validate_Uninstall_def split: if_splits)
  then show ?thesis
    by (intro patch_writes_single [OF laws(1), of t s i])
      (use Uninstall good op_writes_drop(1) [OF all, of i] in \<open>auto simp: Patch_Uninstall_def good_id_def op_writes_def\<close>)
next
  case (ProcessStart q)
  then obtain p where p: "q = Some p" using valid by (cases q) (auto simp: Validate_ProcessStart_def)
  show ?thesis
    by (rule patch_writes_single [OF laws(1), of t s "proc_ID p"])
      (use ProcessStart p good op_writes_put(2) [OF all, of p] in
        \<open>auto simp: Patch_ProcessStart_def good_id_def op_writes_def\<close>)
next
  case (ProcessStop i)
  then have "lookup_in (Processes s) i \<noteq> None"
    using valid by (auto simp: Validate_ProcessStop_def split: if_splits)
  then show ?thesis
    by (intro patch_writes_single [OF laws(1), of t s i])
      (use ProcessStop good op_writes_drop(2) [OF all, of i] in
        \<open>auto simp: Patch_ProcessStop_def good_id_def op_writes_def\<close>)
next
  case (AddReverseProxyRule r)
  show ?thesis
    by (rule patch_writes_single [OF laws(1), of t s "rule_ID r"])
      (use AddReverseProxyRule good op_writes_put(4) [OF all, of r] in
        \<open>auto simp: Patch_AddReverseProxyRule_def good_id_def op_writes_def\<close>)
qed

lemma effect_version:
  "(\<And>i. t \<noteq> Initialize i) \<Longrightarrow> SchemaVersion (effect t s) = SchemaVersion s"
proof (cases t)
  case (StartInstallation a rs)
  have "SchemaVersion (fold put_rule xs s') = SchemaVersion s'" for xs s'
    by (induction xs arbitrary: s') (simp_all add: put_rule_def)
  then show ?thesis using StartInstallation by (simp add: put_app_def)
qed (auto simp: effects split: option.splits)

lemma allocated_clear_DIDs [simp]: "allocated (clear_DIDs s) = allocated s"
  by (simp add: allocated_def clear_DIDs_def)

lemma allocated_version [simp]: "allocated (s\<lparr>SchemaVersion := v\<rparr>) = allocated s"
  by (simp add: allocated_def)

lemma latest_is_late: "late_version ''v0.0.8''"
  unfolding late_version_def by (rule exI [of _ 8]) (simp add: versions_def)

text \<open>A valid migration between late versions.\<close>

lemma means_Migration:
  assumes "semver_laws E" and "diff_laws (jsonpatch_Apply E) (jsondiff_Compare E)" and "late_version (SchemaVersion s)"
    and "late_version v" and "Validate_Migration E v (Bytes s) = Ok u"
  shows "means E (Migration v) s = s\<lparr>SchemaVersion := v\<rparr> \<or> means E (Migration v) s = (clear_DIDs s)\<lparr>SchemaVersion := v\<rparr>"
proof -
  obtain i j where ij: "4 \<le> i" "i < 10" "SchemaVersion s = ver i" "4 \<le> j" "j < 10" "v = ver j"
    using assms(3,4) by (auto simp: late_version_def)
  obtain s' p where "migrated_state E (SchemaVersion s) v s = Ok s'"
    by (rule Validate_Migration_Ok [OF assms(2,5)])
  with migrated_late [OF assms(1) ij(1,2,4,5), of s s'] ij show ?thesis by simp
qed

lemma current_means:
  assumes "semver_laws E" and "diff_laws (jsonpatch_Apply E) (jsondiff_Compare E)" and "current s"
    and "transition_Validate E t (Bytes s) = Ok u" and "stays_current t"
  shows "current (means E t s)"
proof (cases t)
  case (Initialize i)
  then show ?thesis using assms(4,5) by (cases i) (auto simp: current_def, simp add: fill_maps_def)
next
  case (Migration v)
  then have "late_version v" "Validate_Migration E v (Bytes s) = Ok u" using assms(4,5) by simp_all
  with means_Migration [OF assms(1,2), of s v u] assms(3) show ?thesis
    unfolding Migration current_def by auto
qed (use assms(3) allocated_effect [OF _ assms(4), of s] effect_version [of t s] in \<open>auto simp: current_def\<close>)

lemma clear_DIDs_fields [simp]:
  "entries (Users (clear_DIDs s)) = fmmap (\<lambda>u. u\<lparr>user_DID := ''''\<rparr>) (entries (Users s))"
  "Processes (clear_DIDs s) = Processes s" "AppInstallations (clear_DIDs s) = AppInstallations s"
  "ReverseProxyRules (clear_DIDs s) = ReverseProxyRules s"
  by (cases "Users s"; simp add: clear_DIDs_def)+

lemma forgetting_DIDs [simp]:
  fixes m :: "(string, user) fmap"
  shows "keyed user_ID (fmmap (\<lambda>u. u\<lparr>user_DID := ''''\<rparr>) m) = keyed user_ID m"
    and "injective_on user_Username (fmmap (\<lambda>u. u\<lparr>user_DID := ''''\<rparr>) m) = injective_on user_Username m"
    and "owned_by (fmmap (\<lambda>u. u\<lparr>user_DID := ''''\<rparr>) m) f n = owned_by m f n"
proof -
  show "keyed user_ID (fmmap (\<lambda>u. u\<lparr>user_DID := ''''\<rparr>) m) = keyed user_ID m"
    by (simp add: keyed_def)
  show "injective_on user_Username (fmmap (\<lambda>u. u\<lparr>user_DID := ''''\<rparr>) m) = injective_on user_Username m"
  proof
    assume a: "injective_on user_Username (fmmap (\<lambda>u. u\<lparr>user_DID := ''''\<rparr>) m)"
    have "k = l" if "fmlookup m k = Some v" "fmlookup m l = Some w" "user_Username v = user_Username w" for k l v w
      using a [unfolded injective_on_def, rule_format, of k "v\<lparr>user_DID := ''''\<rparr>" l "w\<lparr>user_DID := ''''\<rparr>"] that by simp
    then show "injective_on user_Username m" unfolding injective_on_def by blast
  next
    assume a: "injective_on user_Username m"
    have "k = l" if v: "fmlookup (fmmap (\<lambda>u. u\<lparr>user_DID := ''''\<rparr>) m) k = Some v"
      and w: "fmlookup (fmmap (\<lambda>u. u\<lparr>user_DID := ''''\<rparr>) m) l = Some w" and "user_Username v = user_Username w" for k l v w
    proof -
      obtain x where x: "fmlookup m k = Some x" "user_Username v = user_Username x" using v by auto
      obtain y where y: "fmlookup m l = Some y" "user_Username w = user_Username y" using w by auto
      show ?thesis
        using a [unfolded injective_on_def, rule_format, OF x(1) y(1)] x(2) y(2) that(3) by simp
    qed
    then show "injective_on user_Username (fmmap (\<lambda>u. u\<lparr>user_DID := ''''\<rparr>) m)" unfolding injective_on_def by blast
  qed
  show "owned_by (fmmap (\<lambda>u. u\<lparr>user_DID := ''''\<rparr>) m) f n = owned_by m f n"
    by (simp add: owned_by_def)
qed

lemma wf_clear_DIDs [simp]: "wf_state (clear_DIDs s) = wf_state s"
  by (simp add: wf_parts)

lemma wf_version [simp]: "wf_state (s\<lparr>SchemaVersion := v\<rparr>) = wf_state s"
  by (simp add: wf_parts)

lemma wf_means:
  assumes "semver_laws E" and "diff_laws (jsonpatch_Apply E) (jsondiff_Compare E)" and "range_laws E"
    and "current s" and "wf_state s" and "transition_Validate E t (Bytes s) = Ok u" and "stays_current t" and "initial_ok t"
  shows "wf_state (means E t s)"
proof (cases "is_Migration t")
  case True
  then obtain v where t: "t = Migration v" by (cases t) auto
  then have "late_version v" "Validate_Migration E v (Bytes s) = Ok u" using assms(6,7) by simp_all
  with means_Migration [OF assms(1,2), of s v u] assms(4,5) show ?thesis unfolding t current_def by auto
next
  case False
  then have "means E t s = effect t s" by (cases t) auto
  then show ?thesis
    using wf_effect [OF assms(3) _ _ assms(5,6,8) False] assms(4) by (simp add: current_def)
qed

text \<open>A list of transitions.\<close>

lemma propose_loop_writes:
  assumes laws: "env_ok E" "semver_laws E" "diff_laws (jsonpatch_Apply E) (jsondiff_Compare E)"
    and "current s" and "list_all stays_current ts" and "propose_loop E (Bytes s) ws ts = Ok (doc', ws')"
  shows "doc' = Bytes (fold (means E) ts s) \<and> current (fold (means E) ts s) \<and>
     (range_laws E \<longrightarrow> wf_state s \<longrightarrow> list_all initial_ok ts \<longrightarrow> wf_state (fold (means E) ts s)) \<and>
     (ts \<noteq> [] \<longrightarrow> ValidateState E doc' = Ok ())"
  using assms(4-6)
proof (induction ts arbitrary: s ws)
  case (Cons t ts)
  from Cons.prems obtain u p d1 where valid: "transition_Validate E t (Bytes s) = Ok u"
    and p: "transition_Patch E t (Bytes s) = Ok p" and d1: "applyPatch E (Bytes s) p = Ok d1"
    and rest: "propose_loop E d1 (ws @ [WrapTransition t p]) ts = Ok (doc', ws')"
    by (auto simp: bind_res_Ok_iff)
  have good: "stays_current t" and all: "allocated s" using Cons.prems by (simp_all add: current_def)
  have "patch_laws (jsonpatch_Apply E)" using laws(1) by (simp add: env_ok_def)
  from transition_patch_writes [OF this laws(3) all valid good] p
  obtain ids ops where "p = (ids, ops)" "list_all json_plain ids"
    "jsonpatch_Apply E ops (Bytes s) = Some (Bytes (means E t s))"
    by (auto simp: patch_writes_def)
  then have d1': "d1 = Bytes (means E t s)" "ValidateState E d1 = Ok ()"
    using d1 decode_lawsD [OF laws(1), of ids ops] by (simp_all add: applyPatch_Ok_iff)
  note cur = current_means [OF laws(2,3) Cons.prems(1) valid good]
  from Cons.IH [OF cur _ rest [unfolded d1'(1)]] Cons.prems(2) d1' rest
    wf_means [OF laws(2,3) _ Cons.prems(1) _ valid good]
  show ?case by (cases "ts = []") auto
qed simp



section \<open>The theorem applied\<close>

definition old_empty :: node_state where
  "old_empty = latest_empty\<lparr>SchemaVersion := ''v0.0.7''\<rparr>"

lemma old_empty_current: "current old_empty" "wf_state old_empty"
proof -
  have "late_version ''v0.0.7''" unfolding late_version_def by (rule exI [of _ 7]) (simp add: versions_def)
  then show "current old_empty" by (simp add: old_empty_def current_def)
  show "wf_state old_empty" by (simp add: old_empty_def wf_latest_empty)
qed

lemma old_empty_migrated: "migrated_state ref_env ''v0.0.7'' ''v0.0.8'' old_empty = Ok latest_empty"
proof -
  have v: "''v0.0.7'' = ver 7" "''v0.0.8'' = ver 8" by (simp_all add: versions_def)
  have "packages_present old_empty" by (simp add: packages_present_def old_empty_def latest_empty_def)
  then obtain s' where s': "migrated_state ref_env (ver 7) (ver 8) old_empty = Ok s'"
    using migration_keeps_core_aux [of ref_env 7 8 old_empty] by auto
  have "clear_DIDs old_empty = old_empty" by (simp add: clear_DIDs_def old_empty_def latest_empty_def)
  moreover have "old_empty\<lparr>SchemaVersion := ver 8\<rparr> = latest_empty"
    by (simp add: old_empty_def latest_empty_def versions_def)
  ultimately show ?thesis using migrated_late [OF _ _ _ _ _ s'] s' v by auto
qed

lemma old_empty_migrates:
  obtains p where "transition_Validate ref_env (Migration ''v0.0.8'') (Bytes old_empty) = Ok ()"
    and "transition_Patch ref_env (Migration ''v0.0.8'') (Bytes old_empty) = Ok ([], p)"
    and "applyPatch ref_env (Bytes old_empty) ([], p) = Ok (Bytes latest_empty)"
proof -
  obtain p where p: "GetMigrationPatch ref_env ''v0.0.7'' ''v0.0.8'' old_empty = Ok p"
    "jsonpatch_Apply ref_env p (Bytes old_empty) = Some (Bytes latest_empty)"
    "applyPatchToState ref_env p old_empty = Ok (Some latest_empty)"
    using migration_patch_applies_aux [OF ref_env_diff_laws old_empty_migrated] by blast
  have v: "ValidateState ref_env (Bytes latest_empty) = Ok ()" "Validate ref_env latest_empty = Ok ()"
    using ref_env_valid [OF FromBytes_Bytes, of latest_empty] by (simp_all add: latest_empty_def ValidateState_def Validate_def)
  have "transition_Validate ref_env (Migration ''v0.0.8'') (Bytes old_empty) = Ok ()"
    using p v by (simp add: Validate_Migration_def unmarshal_state_def old_empty_def)
  moreover have "transition_Patch ref_env (Migration ''v0.0.8'') (Bytes old_empty) = Ok ([], p)"
    using p by (simp add: Patch_Migration_def unmarshal_state_def old_empty_def)
  moreover have "applyPatch ref_env (Bytes old_empty) ([], p) = Ok (Bytes latest_empty)"
    using p v decode_lawsD [OF ref_env_ok, of "[]" p] by (simp add: applyPatch_Ok_iff)
  ultimately show thesis by (rule that)
qed

lemma old_empty_accepted:
  obtains doc ws where
    "ProposeTransitions ref_env (Bytes old_empty) [Migration ''v0.0.8'', AddUser sample_user] = Ok (doc, ws)"
proof -
  obtain p where p: "transition_Validate ref_env (Migration ''v0.0.8'') (Bytes old_empty) = Ok ()"
    "transition_Patch ref_env (Migration ''v0.0.8'') (Bytes old_empty) = Ok ([], p)"
    "applyPatch ref_env (Bytes old_empty) ([], p) = Ok (Bytes latest_empty)"
    by (rule old_empty_migrates)
  obtain doc w where "ProposeTransitions ref_env (Bytes latest_empty) [AddUser sample_user] = Ok (doc, [w])"
    by (rule sample_accepted)
  with p that show thesis
    by (auto simp: ProposeTransitions_def bind_res_Ok_iff simp del: transition_Validate.simps transition_Patch.simps)
qed


end
