(* ===== verification/NodeMain.thy ===== *)
theory NodeMain
  imports NodeConfig Documents
begin

text \<open>
  The start of a node: \<open>cmd/node/main.go\<close>, from the configuration to the first state of the database, and the
  rules that the reverse proxy has by default.

  \<open>log.Fatal\<close> ends the program: it is an error of the start.  Identifiers of processes and the times of their
  creation are drawn from \<open>draw\<close>, one pair for each app.
\<close>

section \<open>Default rules\<close>

definition api_url :: string where "api_url = ''http://localhost:'' @ DefaultPortHabitatAPI"

definition redirect_rule :: "string \<Rightarrow> string \<Rightarrow> string \<Rightarrow> rule" where
  "redirect_rule i m t =
     \<lparr>rule_ID = i, rule_Type = ProxyRuleRedirect, rule_Matcher = m, rule_Target = t, rule_AppID = ''''\<rparr>"

definition frontend_rule :: "node_config \<Rightarrow> rule" where
  "frontend_rule n =
     (if FrontendDev n then redirect_rule ''default-rule-frontend'' '''' ''http://habitat_frontend:5173/''
      else \<lparr>rule_ID = ''default-rule-frontend'', rule_Type = ProxyRuleEmbeddedFrontend, rule_Matcher = '''',
            rule_Target = '''', rule_AppID = ''''\<rparr>)"

definition xrpc_rule :: "string \<Rightarrow> string \<Rightarrow> rule" where
  "xrpc_rule i name =
     redirect_rule i (''/xrpc/com.habitat.'' @ name) (api_url @ ''/xrpc/com.habitat.'' @ name)"

definition did_rule :: "node_config \<Rightarrow> rule" where
  "did_rule n =
     \<lparr>rule_ID = ''did-rule'', rule_Type = ProxyRuleFileServer, rule_Matcher = ''/.well-known/'',
      rule_Target = HabitatPath n @ ''/well-known/'', rule_AppID = ''''\<rparr>"

definition default_rules :: "node_config \<Rightarrow> rule list" where
  "default_rules n =
     [redirect_rule ''default-rule-api'' ''/habitat/api'' api_url,
      xrpc_rule ''habitat-put-record'' ''putRecord'', xrpc_rule ''habitat-get-record'' ''getRecord'',
      xrpc_rule ''habitat-list-permissions'' ''listPermissions'',
      xrpc_rule ''habitat-add-permissions'' ''addPermission'',
      xrpc_rule ''habitat-remove-permissions'' ''removePermission'', did_rule n, frontend_rule n]"

definition generateDefaultReverseProxyRules :: "node_config \<Rightarrow> (rule option list, config_error) res" where
  "generateDefaultReverseProxyRules n =
     bind_res (cfg_ReverseProxyRules n) (\<lambda>configRules. Ok (map Some (default_rules n) @ configRules))"

section \<open>The initial state\<close>

datatype boot_error = BootConfig config_error | BootState mig_error | BootDB db_error

text \<open>A nil installation, an installation without package and a nil rule panic, and so does writing to a nil map.\<close>

fun initial_apps_loop ::
  "(nat \<Rightarrow> string \<times> string) \<Rightarrow> nat \<Rightarrow> installation option list \<Rightarrow> node_state \<Rightarrow> (node_state, boot_error) res"
where
  "initial_apps_loop draw i [] s = Ok s"
| "initial_apps_loop draw i (None # rest) s = Panic"
| "initial_apps_loop draw i (Some install # rest) s =
     (case (AppInstallations s, Processes s, app_Package install) of
        (Some apps, Some procs, Some pkg) \<Rightarrow>
          (let procID = NewID (pkg_Driver pkg) (fst (draw i)) in
           initial_apps_loop draw (Suc i) rest
             (s\<lparr>AppInstallations :=
                  Some (fmupd (app_ID install) (install\<lparr>app_State := LifecycleStateInstalled\<rparr>) apps),
                Processes :=
                  Some (fmupd procID
                    \<lparr>proc_ID = procID, proc_AppID = app_ID install, proc_UserID = RootUserID,
                     proc_Created = snd (draw i)\<rparr> procs)\<rparr>))
      | _ \<Rightarrow> Panic)"

fun initial_rules_loop :: "rule option list \<Rightarrow> node_state \<Rightarrow> (node_state, boot_error) res" where
  "initial_rules_loop [] s = Ok s"
| "initial_rules_loop (None # rest) s = Panic"
| "initial_rules_loop (Some r # rest) s =
     (case ReverseProxyRules s of
        None \<Rightarrow> Panic
      | Some rules \<Rightarrow>
          initial_rules_loop rest (s\<lparr>ReverseProxyRules := Some (fmupd (rule_ID r) r rules)\<rparr>))"

definition initialState ::
  "env \<Rightarrow> string \<Rightarrow> (nat \<Rightarrow> string \<times> string) \<Rightarrow> string \<Rightarrow> installation option list \<Rightarrow> rule option list
   \<Rightarrow> (node_state \<times> transition list, boot_error) res"
where
  "initialState E uuid draw rootUserCert startApps proxyRules =
     bind_res (map_err BootState (NewStateForLatestVersion E uuid)) (\<lambda>init.
     bind_res (SetRootUserCert init rootUserCert) (\<lambda>init.
     bind_res (initial_apps_loop draw 0 startApps init) (\<lambda>init.
     bind_res (initial_rules_loop proxyRules init) (\<lambda>init.
       Ok (init, [CreateInitializationTransition (Some init)])))))"

text \<open>\<open>main\<close> up to the database: the rules of the apps come before the default ones.\<close>

definition main_state ::
  "env \<Rightarrow> string \<Rightarrow> (nat \<Rightarrow> string \<times> string) \<Rightarrow> node_config \<Rightarrow> (node_state \<times> transition list, boot_error) res"
where
  "main_state E uuid draw nodeConfig =
     bind_res (map_err BootConfig (generateDefaultReverseProxyRules nodeConfig)) (\<lambda>proxyRules.
     bind_res (map_err BootConfig (DefaultApps nodeConfig)) (\<lambda>(defaultApps, defaultProxyRules).
     bind_res (RootUserCertB64 nodeConfig) (\<lambda>cert.
       initialState E uuid draw cert defaultApps (defaultProxyRules @ proxyRules))))"

definition main_database ::
  "env \<Rightarrow> bool \<Rightarrow> bool \<Rightarrow> write_outcome \<Rightarrow> string \<Rightarrow> (nat \<Rightarrow> string \<times> string) \<Rightarrow> node_config \<Rightarrow> disk
   \<Rightarrow> disk \<times> (node_state \<times> file_db option, boot_error) res"
where
  "main_database E statErr readErr out uuid draw nodeConfig d =
     (case main_state E uuid draw nodeConfig of
        Err e \<Rightarrow> (d, Err e)
      | Panic \<Rightarrow> (d, Panic)
      | Ok (initState, initialTransitions) \<Rightarrow>
          (case NewHabitatDB E statErr readErr out (HDBPath nodeConfig) initialTransitions d of
             (d', r) \<Rightarrow> (d', bind_res (map_err BootDB r) (\<lambda>db. Ok (initState, db)))))"

section \<open>What the initial state holds\<close>


text \<open>One round of the loop over the apps: the app is installed and has a process of the root user.\<close>

definition first_process :: "(nat \<Rightarrow> string \<times> string) \<Rightarrow> nat \<Rightarrow> installation \<Rightarrow> process" where
  "first_process draw i x =
     \<lparr>proc_ID = NewID (pkg_Driver (the (app_Package x))) (fst (draw i)), proc_AppID = app_ID x,
      proc_UserID = RootUserID, proc_Created = snd (draw i)\<rparr>"

definition installed :: "installation \<Rightarrow> installation" where
  "installed x = x\<lparr>app_State := LifecycleStateInstalled\<rparr>"

definition app_started :: "(nat \<Rightarrow> string \<times> string) \<Rightarrow> nat \<Rightarrow> installation \<Rightarrow> node_state \<Rightarrow> node_state" where
  "app_started draw i x s = put_process (first_process draw i x) (put_app (app_ID x) (installed x) s)"

lemma installed_simps [simp]:
  "app_ID (installed x) = app_ID x" "app_UserID (installed x) = app_UserID x"
  "app_Package (installed x) = app_Package x" "package_id (installed x) = package_id x"
  "app_State (installed x) = LifecycleStateInstalled"
  by (simp_all add: installed_def package_id_def)

lemma first_process_simps [simp]:
  "proc_AppID (first_process draw i x) = app_ID x" "proc_UserID (first_process draw i x) = RootUserID"
  by (simp_all add: first_process_def)

lemma allocated_app_started [simp]: "allocated (app_started draw i x s) = allocated s"
  by (simp add: app_started_def)

lemma app_started_lookup:
  assumes "allocated s"
  shows "lookup_in (AppInstallations (app_started draw i x s)) k =
      (if k = app_ID x then Some (installed x) else lookup_in (AppInstallations s) k)"
    and "lookup_in (Processes (app_started draw i x s)) pid =
      (if pid = proc_ID (first_process draw i x) then Some (first_process draw i x)
       else lookup_in (Processes s) pid)"
    and "Users (app_started draw i x s) = Users s"
    and "ReverseProxyRules (app_started draw i x s) = ReverseProxyRules s"
    and "NodeID (app_started draw i x s) = NodeID s"
    and "SchemaVersion (app_started draw i x s) = SchemaVersion s"
  using assms by (auto simp: app_started_def put_process_def put_app_def allocated_def)

lemma initial_apps_loop_Cons:
  assumes "allocated s" and "initial_apps_loop draw i (a # rest) s = Ok s'"
  obtains x where "a = Some x" and "app_Package x \<noteq> None"
    and "initial_apps_loop draw (Suc i) rest (app_started draw i x s) = Ok s'"
  using assms that
  by (cases a) (auto simp: app_started_def first_process_def installed_def put_process_def put_app_def
      allocated_def Let_def split: option.splits)

text \<open>What holds of the first state and is kept by each round holds in the end.\<close>

lemma initial_apps_loop_induct:
  assumes "initial_apps_loop draw i apps s = Ok s'" and "allocated s" and "I (map the apps) s"
    and "\<And>i x xs s. app_Package x \<noteq> None \<Longrightarrow> Some x \<in> set apps \<Longrightarrow> allocated s \<Longrightarrow> I (x # xs) s \<Longrightarrow>
      I xs (app_started draw i x s)"
  shows "I [] s' \<and> allocated s' \<and> None \<notin> set apps"
  using assms
proof (induction apps arbitrary: i s)
  case (Cons a apps)
  obtain x where x: "a = Some x" "app_Package x \<noteq> None"
    "initial_apps_loop draw (Suc i) apps (app_started draw i x s) = Ok s'"
    by (rule initial_apps_loop_Cons [OF Cons.prems(2,1)])
  have "I (map the apps) (app_started draw i x s)"
    by (rule Cons.prems(4)) (use x Cons.prems in auto)
  from Cons.IH [OF x(3) _ this Cons.prems(4)] Cons.prems(2) x(1) show ?case by auto
qed simp

lemma initial_apps_loop_frame:
  assumes "initial_apps_loop draw i apps s = Ok s'" and "allocated s"
  shows "Users s' = Users s \<and> ReverseProxyRules s' = ReverseProxyRules s \<and> NodeID s' = NodeID s \<and>
    SchemaVersion s' = SchemaVersion s" and "allocated s'" and "None \<notin> set apps"
  using initial_apps_loop_induct [OF assms, of "\<lambda>_ t. Users t = Users s \<and>
      ReverseProxyRules t = ReverseProxyRules s \<and> NodeID t = NodeID s \<and> SchemaVersion t = SchemaVersion s"]
  by (auto simp: app_started_lookup)

text \<open>The apps of the start are installed, and nothing else is.\<close>

lemma initial_apps_loop_apps:
  assumes "initial_apps_loop draw i apps s = Ok s'" and "allocated s" and "entries (AppInstallations s) = fmempty"
  shows "\<forall>x. Some x \<in> set apps \<longrightarrow> lookup_in (AppInstallations s') (app_ID x) \<noteq> None"
    and "\<forall>k y. lookup_in (AppInstallations s') k = Some y \<longrightarrow> (\<exists>x. Some x \<in> set apps \<and> app_ID x = k \<and> y = installed x)"
proof -
  let ?I = "\<lambda>xs t.
      (\<forall>x. Some x \<in> set apps \<longrightarrow> x \<in> set xs \<or> lookup_in (AppInstallations t) (app_ID x) \<noteq> None) \<and>
      (\<forall>k y. lookup_in (AppInstallations t) k = Some y \<longrightarrow> (\<exists>x. Some x \<in> set apps \<and> app_ID x = k \<and> y = installed x))"
  have step: "?I xs (app_started draw j x t)" if "Some x \<in> set apps" "allocated t" "?I (x # xs) t" for j x xs t
    using that by (auto simp: app_started_lookup split: if_splits)
  have "\<forall>x. Some x \<in> set apps \<longrightarrow> x \<in> set (map the apps)" by force
  then have "?I (map the apps) s" using assms(3) by simp
  then have "?I [] s' \<and> allocated s' \<and> None \<notin> set apps"
    by (rule initial_apps_loop_induct [OF assms(1,2), where I = ?I]) (use step in blast)
  then show "\<forall>x. Some x \<in> set apps \<longrightarrow> lookup_in (AppInstallations s') (app_ID x) \<noteq> None"
    and "\<forall>k y. lookup_in (AppInstallations s') k = Some y \<longrightarrow> (\<exists>x. Some x \<in> set apps \<and> app_ID x = k \<and> y = installed x)"
    by auto
qed

text \<open>Every process belongs to an app that is installed.\<close>

definition first_processes :: "(nat \<Rightarrow> string \<times> string) \<Rightarrow> node_state \<Rightarrow> bool" where
  "first_processes draw s \<longleftrightarrow>
     (\<forall>pid p. lookup_in (Processes s) pid = Some p \<longrightarrow>
        (\<exists>i x. p = first_process draw i x \<and> pid = proc_ID p \<and>
           lookup_in (AppInstallations s) (proc_AppID p) \<noteq> None))"

lemma initial_apps_loop_processes:
  assumes "initial_apps_loop draw i apps s = Ok s'" and "allocated s" and "entries (Processes s) = fmempty"
  shows "first_processes draw s'"
  using initial_apps_loop_induct [OF assms(1,2), of "\<lambda>_. first_processes draw"] assms(3)
  by (fastforce simp: first_processes_def app_started_lookup)

text \<open>When the apps are distinct and belong to the root user, the invariants of the node state hold.\<close>

lemma wf_app_started:
  assumes "allocated s" and "wf_state s" and "app_Package x \<noteq> None" and "app_UserID x = RootUserID"
    and "lookup_in (Users s) RootUserID \<noteq> None"
    and "fmpred (\<lambda>_ a. package_id a \<noteq> package_id x) (entries (AppInstallations s))"
    and "fmpred (\<lambda>_ p. proc_AppID p \<noteq> app_ID x) (entries (Processes s))"
  shows "wf_state (app_started draw i x s)"
proof -
  have "wf_state (put_app (app_ID (installed x)) (installed x) s)"
    by (rule wf_put_app) (use assms in simp_all)
  then show ?thesis
    unfolding app_started_def using assms by (intro wf_put_process) (simp_all add: put_app_def allocated_def)
qed

definition distinct_apps :: "installation list \<Rightarrow> bool" where
  "distinct_apps xs \<longleftrightarrow> distinct (map app_ID xs) \<and> distinct (map package_id xs) \<and>
     list_all (\<lambda>x. app_UserID x = RootUserID) xs"

lemma initial_apps_loop_wf:
  assumes "initial_apps_loop draw i apps s = Ok s'" and "allocated s" and "wf_state s"
    and "lookup_in (Users s) RootUserID \<noteq> None" and "distinct_apps (map the apps)"
    and "entries (AppInstallations s) = fmempty" and "entries (Processes s) = fmempty"
  shows "wf_state s'"
proof -
  let ?I = "\<lambda>xs t. wf_state t \<and> lookup_in (Users t) RootUserID \<noteq> None \<and> distinct_apps xs \<and>
      (\<forall>x \<in> set xs. fmpred (\<lambda>_ a. package_id a \<noteq> package_id x) (entries (AppInstallations t)) \<and>
         fmpred (\<lambda>_ p. proc_AppID p \<noteq> app_ID x) (entries (Processes t)))"
  have step: "?I xs (app_started draw j x t)" if "app_Package x \<noteq> None" "allocated t" "?I (x # xs) t" for j x xs t
  proof (intro conjI ballI)
    show "wf_state (app_started draw j x t)"
      by (rule wf_app_started) (use that in \<open>simp_all add: distinct_apps_def\<close>)
    show "lookup_in (Users (app_started draw j x t)) RootUserID \<noteq> None"
      using that by (simp add: app_started_lookup(3) [OF that(2)])
    show "distinct_apps xs" using that(3) by (simp add: distinct_apps_def)
    fix y assume y: "y \<in> set xs"
    then have ne: "package_id x \<noteq> package_id y" "app_ID x \<noteq> app_ID y"
      using that(3) by (force simp: distinct_apps_def)+
    have old: "fmpred (\<lambda>_ a. package_id a \<noteq> package_id y) (entries (AppInstallations t))"
      "fmpred (\<lambda>_ p. proc_AppID p \<noteq> app_ID y) (entries (Processes t))"
      using that(3) y by simp_all
    show "fmpred (\<lambda>_ a. package_id a \<noteq> package_id y) (entries (AppInstallations (app_started draw j x t)))"
      using old(1) ne unfolding fmpred_iff app_started_lookup(1) [OF that(2)] by simp
    show "fmpred (\<lambda>_ p. proc_AppID p \<noteq> app_ID y) (entries (Processes (app_started draw j x t)))"
      using old(2) ne unfolding fmpred_iff app_started_lookup(2) [OF that(2)] by simp
  qed
  have "?I [] s' \<and> allocated s' \<and> None \<notin> set apps"
  proof (rule initial_apps_loop_induct [OF assms(1,2), where I = ?I])
    show "?I (map the apps) s" using assms(3-) by (simp add: fmpred_iff)
    show "?I xs (app_started draw j x t)" if "app_Package x \<noteq> None" "allocated t" "?I (x # xs) t" for j x xs t
      by (rule step [OF that])
  qed
  then show ?thesis by (elim conjE)
qed

lemma initial_rules_loop_Ok:
  assumes "initial_rules_loop rs s = Ok s'" and "allocated s"
  shows "None \<notin> set rs \<and> s' = fold put_rule (map the rs) s"
  using assms
proof (induction rs arbitrary: s)
  case (Cons a rest)
  then obtain r where r: "a = Some r" "initial_rules_loop rest (put_rule r s) = Ok s'"
    by (cases a) (auto simp: put_rule_def allocated_def split: option.splits)
  from Cons.IH [OF r(2)] Cons.prems(2) r(1) show ?case by simp
qed simp

lemma find_snoc:
  "find P (xs @ [r]) = (case find P xs of None \<Rightarrow> if P r then Some r else None | Some x \<Rightarrow> Some x)"
  by (induction xs) auto

text \<open>Of the rules with one identifier the last wins.\<close>

lemma fold_put_rule_lookup:
  "allocated s \<Longrightarrow> lookup_in (ReverseProxyRules (fold put_rule rs s)) k =
    (case find (\<lambda>r. rule_ID r = k) (rev rs) of Some r \<Rightarrow> Some r | None \<Rightarrow> lookup_in (ReverseProxyRules s) k)"
proof (induction rs arbitrary: s)
  case (Cons r rs)
  then have "lookup_in (ReverseProxyRules (fold put_rule rs (put_rule r s))) k =
    (case find (\<lambda>r. rule_ID r = k) (rev rs) of Some x \<Rightarrow> Some x
     | None \<Rightarrow> lookup_in (ReverseProxyRules (put_rule r s)) k)"
    by simp
  moreover have "lookup_in (ReverseProxyRules (put_rule r s)) k =
      (if rule_ID r = k then Some r else lookup_in (ReverseProxyRules s) k)"
    using Cons.prems by (simp add: put_entries)
  ultimately show ?case by (simp add: find_snoc split: option.splits)
qed simp

lemma fold_put_rule_frame:
  "Users (fold put_rule rs s) = Users s" "AppInstallations (fold put_rule rs s) = AppInstallations s"
  "Processes (fold put_rule rs s) = Processes s" "NodeID (fold put_rule rs s) = NodeID s"
  "SchemaVersion (fold put_rule rs s) = SchemaVersion s"
  by (induction rs arbitrary: s) (simp_all add: put_rule_def)


section \<open>The first boot\<close>

definition root_user :: user where
  "root_user = \<lparr>user_ID = RootUserID, user_Username = RootUsername, user_DID = ''''\<rparr>"

definition first_state :: "string \<Rightarrow> node_state" where
  "first_state uuid = latest_empty\<lparr>NodeID := uuid, Users := Some (fmap_of_list [(RootUserID, root_user)])\<rparr>"

lemma first_state_simps [simp]:
  "allocated (first_state uuid)" "lookup_in (Users (first_state uuid)) RootUserID = Some root_user"
  "entries (AppInstallations (first_state uuid)) = fmempty" "entries (Processes (first_state uuid)) = fmempty"
  "entries (ReverseProxyRules (first_state uuid)) = fmempty" "NodeID (first_state uuid) = uuid"
  "SchemaVersion (first_state uuid) = ''v0.0.8''" "Users (first_state uuid) = Some (fmap_of_list [(RootUserID, root_user)])"
  by (simp_all add: first_state_def latest_empty_def allocated_def)

lemma wf_first_state: "wf_state (first_state uuid)"
  by (simp add: wf_parts keyed_def injective_on_def owned_by_def root_user_def fmpred_iff)

lemma fresh_node:
  assumes "semver_laws E" and "diff_laws (jsonpatch_Apply E) (jsondiff_Compare E)"
  shows "NewStateForLatestVersion E uuid = Ok (latest_empty\<lparr>NodeID := uuid\<rparr>)"
  using fresh_state_aux [OF assms]
  by (simp add: EmptyState_def NewStateForLatestVersion_def CurrentVersion_def LatestVersion_def)

lemma initialState_Ok:
  assumes "semver_laws E" and "diff_laws (jsonpatch_Apply E) (jsondiff_Compare E)"
    and "initialState E uuid draw cert apps rules = Ok (s, ts)"
  obtains s1 where "initial_apps_loop draw 0 apps (first_state uuid) = Ok s1"
    and "None \<notin> set rules" and "s = fold put_rule (map the rules) s1" and "ts = [Initialize (Some s)]"
proof -
  have "SetRootUserCert (latest_empty\<lparr>NodeID := uuid\<rparr>) cert = (Ok (first_state uuid) :: (node_state, boot_error) res)"
    by (simp add: SetRootUserCert_def first_state_def latest_empty_def root_user_def)
  then obtain s1 where s1: "initial_apps_loop draw 0 apps (first_state uuid) = Ok s1"
    and s: "initial_rules_loop rules s1 = Ok s" "ts = [Initialize (Some s)]"
    using assms(3) fresh_node [OF assms(1,2), of uuid]
    by (auto simp: initialState_def CreateInitializationTransition_def bind_res_Ok_iff)
  have "allocated s1" by (rule initial_apps_loop_frame(2) [OF s1]) simp
  from that [OF s1 _ _ s(2)] initial_rules_loop_Ok [OF s(1) this] show thesis by simp
qed

text \<open>
  The state that a node starts with: it has the latest schema version and the root user; the apps that
  are installed are those of the configuration; every process belongs to an installed app; of the rules with
  one identifier it has the last; and when the configured apps are distinct and belong to the root user, it
  satisfies the invariants that all later transitions keep.
\<close>

theorem initial_state_consistent:
  assumes "semver_laws E" and "diff_laws (jsonpatch_Apply E) (jsondiff_Compare E)"
    and "initialState E uuid draw cert apps rules = Ok (s, ts)"
  shows "ts = [Initialize (Some s)] \<and> allocated s \<and> NodeID s = uuid \<and> SchemaVersion s = ''v0.0.8'' \<and>
    Users s = Some (fmap_of_list [(RootUserID, root_user)]) \<and>
    (\<forall>x. Some x \<in> set apps \<longrightarrow> lookup_in (AppInstallations s) (app_ID x) \<noteq> None) \<and>
    (\<forall>k y. lookup_in (AppInstallations s) k = Some y \<longrightarrow>
       (\<exists>x. Some x \<in> set apps \<and> app_ID x = k \<and> y = installed x)) \<and>
    first_processes draw s \<and>
    (\<forall>k. lookup_in (ReverseProxyRules s) k = find (\<lambda>r. rule_ID r = k) (rev (map the rules))) \<and>
    (distinct_apps (map the apps) \<longrightarrow> wf_state s)"
proof -
  obtain s1 where s1: "initial_apps_loop draw 0 apps (first_state uuid) = Ok s1"
    and s: "s = fold put_rule (map the rules) s1" and ts: "ts = [Initialize (Some s)]"
    by (rule initialState_Ok [OF assms])
  note loop = initial_apps_loop_frame [OF s1] initial_apps_loop_apps [OF s1] initial_apps_loop_processes [OF s1]
  have a: "allocated s1" by (rule loop(2)) simp
  have rules: "lookup_in (ReverseProxyRules s) k = find (\<lambda>r. rule_ID r = k) (rev (map the rules))" for k
    using fold_put_rule_lookup [OF a, of "map the rules" k] loop(1) unfolding s by (auto split: option.splits)
  have wf: "distinct_apps (map the apps) \<longrightarrow> wf_state s"
    using initial_apps_loop_wf [OF s1] wf_first_state a unfolding s by (auto intro: wf_fold_put_rule)
  have "first_processes draw s"
    using loop(6) unfolding s by (simp add: first_processes_def fold_put_rule_frame)
  moreover have "allocated s" using a unfolding s by simp
  ultimately show ?thesis
    using loop(1,4,5) rules wf ts by (simp add: s fold_put_rule_frame)
qed


lemma main_state_Ok:
  assumes "semver_laws E" and "diff_laws (jsonpatch_Apply E) (jsondiff_Compare E)"
    and "main_state E uuid draw n = Ok (s, ts)"
  obtains apps rules more s1 where "DefaultApps n = Ok (apps, rules)"
    and "initial_apps_loop draw 0 apps (first_state uuid) = Ok s1"
    and "s = fold put_rule more s1" and "ts = [Initialize (Some s)]" and "allocated s" and "SchemaVersion s = ''v0.0.8''"
proof -
  from assms(3) obtain cert apps r1 r2 where d: "DefaultApps n = Ok (apps, r1)"
    and i: "initialState E uuid draw cert apps r2 = Ok (s, ts)"
    by (auto simp: main_state_def bind_res_Ok_iff map_err_Ok_iff split: prod.splits)
  obtain s1 where s1: "initial_apps_loop draw 0 apps (first_state uuid) = Ok s1"
    and s: "s = fold put_rule (map the r2) s1" "ts = [Initialize (Some s)]"
    by (rule initialState_Ok [OF assms(1,2) i])
  then have "allocated s" "SchemaVersion s = ''v0.0.8''"
    using initial_apps_loop_frame(1,2) [OF s1] by (simp_all add: fold_put_rule_frame)
  with d s1 s show thesis by (rule that)
qed

text \<open>What the first boot leaves in the database file.\<close>

lemma first_boot:
  assumes "semver_laws E" and "diff_laws (jsonpatch_Apply E) (jsondiff_Compare E)" and "env_ok E"
    and "main_database E False False Written uuid draw n d = (d', Ok (s, Some db))"
    and "fmlookup d (HDBPath n) = None"
  shows "\<exists>ts. main_state E uuid draw n = Ok (s, ts)" and "db_state db = Bytes s" and "synced (db, d')"
    and "ValidateState E (db_state db) = Ok ()" and "current s"
proof -
  obtain ts where m: "main_state E uuid draw n = Ok (s, ts)"
    and new: "NewHabitatDB E False False Written (HDBPath n) ts d = (d', Ok (Some db))"
    using assms(4) by (auto simp: main_database_def bind_res_Ok_iff map_err_Ok_iff split: res.splits prod.splits)
  then show "\<exists>ts. main_state E uuid draw n = Ok (s, ts)" by blast
  have ts: "ts = [Initialize (Some s)]" and a: "allocated s" and version: "SchemaVersion s = ''v0.0.8''"
    by (rule main_state_Ok [OF assms(1,2) m]; assumption)+
  then have fill: "fill_maps s = s" by (auto simp: fill_maps_def allocated_def)
  from new assms(5) fresh_state_aux [OF assms(1,2)]
  obtain st ws where p: "ProposeTransitions E (Bytes latest_empty) ts = Ok (st, ws)"
    and v: "ValidateState E st = Ok ()"
    and db: "db = \<lparr>db_path = HDBPath n, db_state = st\<rparr>" "d' = fmupd (HDBPath n) (Some st) d"
    by (auto simp: NewHabitatDB_def writeState_def bind_res_Ok_iff split: res.splits prod.splits)
  have late: "late_version ''v0.0.8''" by (rule latest_is_late)
  have "SchemaVersion latest_empty = ''v0.0.8''" by (simp add: latest_empty_def)
  with late have "current latest_empty" by (simp add: current_def)
  moreover have "list_all stays_current ts" using late version by (simp add: ts)
  ultimately have st: "st = Bytes (fold (means E) ts latest_empty) \<and> current (fold (means E) ts latest_empty)"
    using propose_loop_writes [OF assms(3,1,2) _ _ p [unfolded ProposeTransitions_def]] by blast
  then have "st = Bytes s" by (simp add: ts fill)
  with v db show "db_state db = Bytes s" "synced (db, d')" "ValidateState E (db_state db) = Ok ()"
    by (simp_all add: synced_def)
  from a late version show "current s" by (simp add: current_def)
qed

lemma first_boot_path:
  "main_database E statErr readErr out uuid draw n d = (d', Ok (s, Some db)) \<Longrightarrow> db_path db = HDBPath n"
  by (auto simp: main_database_def NewHabitatDB_def bind_res_Ok_iff map_err_Ok_iff
      split: res.splits prod.splits option.splits if_splits)

text \<open>
  The first boot stores exactly the initial state: the database that it creates is the marshalled initial state, in
  memory and on disk, and satisfies the schema.
\<close>

theorem first_boot_stores_state:
  assumes "semver_laws E" and "diff_laws (jsonpatch_Apply E) (jsondiff_Compare E)" and "env_ok E"
    and "main_database E False False Written uuid draw n d = (d', Ok (s, Some db))"
    and "fmlookup d (HDBPath n) = None"
  shows "(\<exists>ts. main_state E uuid draw n = Ok (s, ts)) \<and> db_state db = Bytes s \<and> synced (db, d') \<and>
    ValidateState E (db_state db) = Ok ()"
  using first_boot [OF assms] by blast



section \<open>The routes of the API server\<close>

text \<open>The routes that the servers register: method and pattern.\<close>

definition CtrlServer_GetRoutes :: "(string \<times> string) list" where
  "CtrlServer_GetRoutes =
     [(''GET'', ''/node/processes/list''), (''POST'', ''/node/processes/start''), (''POST'', ''/node/processes/stop''),
      (''GET'', ''/node/state''), (''POST'', ''/node/apps/{user_id}/install''), (''POST'', ''/node/apps/uninstall''),
      (''POST'', ''/node/users''), (''POST'', ''/node/db/migrate''), (''GET'', ''/node'')]"

definition privi_GetRoutes :: "(string \<times> string) list" where
  "privi_GetRoutes =
     [(''POST'', ''/xrpc/com.habitat.putRecord''), (''GET'', ''/xrpc/com.habitat.getRecord''),
      (''POST'', ''/xrpc/com.habitat.addPermission''), (''POST'', ''/xrpc/com.habitat.removePermission''),
      (''GET'', ''/xrpc/com.habitat.listPermissions'')]"

definition auth_GetRoutes :: "(string \<times> string) list" where
  "auth_GetRoutes =
     [(''GET'', ''/login''), (''GET'', ''/client-metadata.json''), (''GET'', ''/auth-callback''), (''POST'', ''/xrpc/{rest...}'')]"

definition main_routes :: "node_config \<Rightarrow> (string \<times> string) list" where
  "main_routes n =
     [(''GET'', ''/version'')] @ auth_GetRoutes @ CtrlServer_GetRoutes
     @ (if Environment n = EnvironmentDev then [(''GET'', ''/app_store/available_apps'')] else []) @ privi_GetRoutes"

lemmas default_rule_defs =
  default_rules_def redirect_rule_def xrpc_rule_def did_rule_def frontend_rule_def

lemma rank_of_matchers:
  "rankMatch (redirect_rule i ''/habitat/api'' t) = 2" "rankMatch (frontend_rule n) = 0"
  "rule_Matcher (frontend_rule n) = ''''"
  by (simp_all add: rankMatch_def redirect_rule_def frontend_rule_def count_byte_def)

text \<open>A rule that matches alone, apart from ones of lower rank, serves the request.\<close>

lemma bestMatch_is:
  assumes "r \<in> set rs" and "matchRule p r"
    and "\<And>x. x \<in> set rs \<Longrightarrow> matchRule p x \<Longrightarrow> x = r \<or> rankMatch x < rankMatch r"
  shows "bestMatch p rs = Some r"
proof -
  obtain b where b: "bestMatch p rs = Some b" using bestMatch_None_iff [of p rs] assms(1,2) by (cases "bestMatch p rs") auto
  from bestMatch_Some [OF b] assms show ?thesis unfolding b by force
qed

lemma default_match_api:
  assumes "x \<in> set (default_rules n)" and "matchRule (''/habitat/api/'' @ rest) x"
  shows "x = redirect_rule ''default-rule-api'' ''/habitat/api'' api_url \<or> x = frontend_rule n"
proof -
  have "\<not> matchRule (''/habitat/api/'' @ rest) (xrpc_rule i name)" for i name
    by (simp add: matchRule_iff xrpc_rule_def redirect_rule_def)
  moreover have "\<not> matchRule (''/habitat/api/'' @ rest) (did_rule n)"
    by (simp add: matchRule_iff did_rule_def)
  ultimately show ?thesis using assms unfolding default_rules_def list.set insert_iff empty_iff by metis
qed

lemma served_by_redirect:
  assumes "bestMatch p rs = Some r" and "rule_Type r = ProxyRuleRedirect" and "parse (rule_Target r) = Some (host, t)"
  shows "ServeHTTP parse missing base rs p = Forward host (path_Join [t, TrimPrefix p (rule_Matcher r)])"
  using assms by (simp add: ServeHTTP_def getHandlerFromRule_def getRedirectHandler_def redirect_director_def)

lemma routes_clean: "list_all (\<lambda>(_, pattern). path_Clean pattern = pattern)
    ([(''GET'', ''/version''), (''GET'', ''/app_store/available_apps'')] @ auth_GetRoutes @ CtrlServer_GetRoutes @ privi_GetRoutes)"
  by code_simp

text \<open>
  With the default rules, and others that do not match, a request below \<open>/habitat/api\<close> goes to the API
  server with the rest of its path; so every route of the API server is reached below that prefix.
\<close>

lemma proxied:
  assumes "set (default_rules n) \<subseteq> set rs"
    and "\<forall>r \<in> set rs - set (default_rules n). \<not> matchRule (''/habitat/api/'' @ rest) r"
    and "parse api_url = Some (''localhost:3000'', '''')"
  shows "ServeHTTP parse missing base rs (''/habitat/api/'' @ rest) =
      Forward ''localhost:3000'' (path_Clean (CHR ''/'' # rest)) \<and>
    (\<forall>(m, pattern) \<in> set (main_routes n). pattern = CHR ''/'' # rest \<longrightarrow>
       ServeHTTP parse missing base rs (''/habitat/api'' @ pattern) = Forward ''localhost:3000'' pattern)"
proof -
  let ?r = "redirect_rule ''default-rule-api'' ''/habitat/api'' api_url"
  have "bestMatch (''/habitat/api/'' @ rest) rs = Some ?r"
  proof (rule bestMatch_is)
    show "?r \<in> set rs" using assms(1) by (auto simp: default_rules_def)
    show "matchRule (''/habitat/api/'' @ rest) ?r" by (simp add: matchRule_iff redirect_rule_def)
    show "x = ?r \<or> rankMatch x < rankMatch ?r" if "x \<in> set rs" "matchRule (''/habitat/api/'' @ rest) x" for x
      using default_match_api [of x n rest] that assms(2) by (auto simp: rank_of_matchers)
  qed
  from served_by_redirect [OF this, of parse] assms(3)
  have "ServeHTTP parse missing base rs (''/habitat/api/'' @ rest) =
      Forward ''localhost:3000'' (path_Clean (CHR ''/'' # rest))"
    by (simp add: redirect_rule_def rule_types TrimPrefix_def HasPrefix_def path_Join_def)
  moreover have "path_Clean pattern = pattern" if "(m, pattern) \<in> set (main_routes n)" for m pattern
  proof -
    have "(m, pattern) \<in> set ([(''GET'', ''/version''), (''GET'', ''/app_store/available_apps'')] @ auth_GetRoutes
        @ CtrlServer_GetRoutes @ privi_GetRoutes)"
      using that unfolding main_routes_def set_append by (cases "Environment n = EnvironmentDev") auto
    with routes_clean show ?thesis unfolding list_all_iff by fast
  qed
  ultimately show ?thesis by fastforce
qed

text \<open>
  In production a path that no other rule matches, such as the start page or the DID document, falls to
  the rule of the embedded frontend, for which the proxy has no handler: the answer is an error text with
  status 200. The rule for \<open>/.well-known/\<close> ends with a slash and matches no file below it.
\<close>

theorem production_frontend_unserved:
  assumes "\<not> FrontendDev n" and "set (default_rules n) \<subseteq> set rs"
    and "\<forall>r \<in> set rs - set (default_rules n). \<not> matchRule p r"
    and "p \<in> {''/'', ''/index.html'', ''/.well-known/did.json''}"
  shows "\<exists>w. ServeHTTP parse missing base rs p = Respond w \<and> status w = StatusOK \<and>
    rsp_Body w = [HandlerErrorText (UnknownRuleType ProxyRuleEmbeddedFrontend)]"
proof -
  have other: "\<not> matchRule p (redirect_rule i ''/habitat/api'' t)" "\<not> matchRule p (xrpc_rule i name)"
    "\<not> matchRule p (did_rule n)" for i t name
    using assms(4) by (auto simp: matchRule_iff redirect_rule_def xrpc_rule_def did_rule_def)
  have "bestMatch p rs = Some (frontend_rule n)"
  proof (rule bestMatch_is)
    show "frontend_rule n \<in> set rs" using assms(2) by (auto simp: default_rules_def)
    show "matchRule p (frontend_rule n)" using assms(4) by (auto simp: matchRule_iff rank_of_matchers(3))
    show "x = frontend_rule n \<or> rankMatch x < rankMatch (frontend_rule n)" if "x \<in> set rs" "matchRule p x" for x
    proof -
      have "x \<in> set (default_rules n)" using that assms(3) by blast
      then show ?thesis
        using that(2) other unfolding default_rules_def list.set insert_iff empty_iff by metis
    qed
  qed
  moreover have "rule_Type (frontend_rule n) = ProxyRuleEmbeddedFrontend"
    using assms(1) by (simp add: frontend_rule_def)
  ultimately show ?thesis
    by (simp add: ServeHTTP_def getHandlerFromRule_def rule_types WriteHeader_def Write_def status_def empty_response_def)
qed

section \<open>The theorems applied\<close>

definition demo_app :: installation where
  "demo_app = (sample_app DriverTypeNoop)\<lparr>app_UserID := RootUserID, app_State := ''installing''\<rparr>"

definition demo_viper :: viper where
  "demo_viper =
     \<lparr>vp_GetString = (\<lambda>k. if k = ''habitat_path'' then ''/habitat'' else ''''), vp_GetBool = (\<lambda>_. False),
      vp_Unmarshals = True, vp_ReverseProxyRules = Some [],
      vp_DefaultApps = Some [(''app'', Some \<lparr>req_AppInstallation = Some demo_app,
        req_ReverseProxyRules = Some [Some (redirect_rule '''' ''/a'' ''http://a''), Some (redirect_rule '''' ''/b'' ''http://b'')],
        req_StartAfterInstall = True\<rparr>)]\<rparr>"

definition demo_config :: node_config where
  "demo_config = \<lparr>nc_RootUserCert = Some ''cert'', nc_NodeCert = None, nc_viper = demo_viper\<rparr>"

definition demo_draw :: "nat \<Rightarrow> string \<times> string" where
  "demo_draw i = (replicate (Suc i) CHR ''p'', ''now'')"

definition demo_rules :: "rule list" where
  "demo_rules = [redirect_rule '''' ''/a'' ''http://a'', redirect_rule '''' ''/b'' ''http://b''] @ default_rules demo_config"

definition demo_state :: node_state where
  "demo_state = fold put_rule demo_rules (app_started demo_draw 0 demo_app (first_state ''n1''))"

lemma demo_initialState:
  "initialState ref_env ''n1'' demo_draw cert [Some demo_app] (map Some demo_rules) = Ok (demo_state, [Initialize (Some demo_state)])"
proof -
  have "SetRootUserCert (latest_empty\<lparr>NodeID := ''n1''\<rparr>) cert = (Ok (first_state ''n1'') :: (node_state, boot_error) res)"
    by (simp add: SetRootUserCert_def first_state_def latest_empty_def root_user_def)
  moreover have "initial_apps_loop demo_draw 0 [Some demo_app] (first_state ''n1'') = Ok (app_started demo_draw 0 demo_app (first_state ''n1''))"
    by (simp add: app_started_def first_process_def installed_def put_process_def put_app_def demo_app_def
        sample_app_def first_state_def latest_empty_def Let_def)
  moreover have "initial_rules_loop (map Some rs) s = Ok (fold put_rule rs s)" if "allocated s" for rs s
    using that by (induction rs arbitrary: s) (auto simp: put_rule_def allocated_def)
  ultimately show ?thesis
    by (simp add: initialState_def fresh_node CreateInitializationTransition_def demo_state_def)
qed

lemma demo_main_state:
  "main_state ref_env ''n1'' demo_draw demo_config = Ok (demo_state, [Initialize (Some demo_state)])"
proof -
  have "generateDefaultReverseProxyRules demo_config = Ok (map Some (default_rules demo_config))"
    by (simp add: generateDefaultReverseProxyRules_def cfg_ReverseProxyRules_def demo_config_def demo_viper_def)
  moreover have "DefaultApps demo_config = Ok ([Some demo_app],
      [Some (redirect_rule '''' ''/a'' ''http://a''), Some (redirect_rule '''' ''/b'' ''http://b'')])"
    by (simp add: DefaultApps_def demo_config_def demo_viper_def)
  moreover have "RootUserCertB64 demo_config = (Ok (base64_encode ''cert'') :: (string, boot_error) res)"
    by (simp add: RootUserCertB64_def demo_config_def)
  ultimately show ?thesis
    using demo_initialState [of "base64_encode ''cert''"] by (simp add: main_state_def demo_rules_def)
qed


lemma initial_state_consistent_witness:
  "\<exists>s. initialState ref_env ''n1'' demo_draw ''cert'' [Some demo_app] (map Some demo_rules) = Ok (s, [Initialize (Some s)]) \<and>
    wf_state s \<and> lookup_in (AppInstallations s) ''a1'' \<noteq> None \<and>
    lookup_in (ReverseProxyRules s) '''' = Some (redirect_rule '''' ''/b'' ''http://b'')"
proof (intro exI conjI)
  note c = initial_state_consistent [OF ref_env_semver_laws ref_env_diff_laws demo_initialState [of "''cert''"]]
  show "initialState ref_env ''n1'' demo_draw ''cert'' [Some demo_app] (map Some demo_rules) =
      Ok (demo_state, [Initialize (Some demo_state)])"
    by (rule demo_initialState)
  show "wf_state demo_state" using c by (simp add: distinct_apps_def demo_app_def)
  show "lookup_in (AppInstallations demo_state) ''a1'' \<noteq> None"
    using c by (simp add: demo_app_def sample_app_def)
  have "lookup_in (ReverseProxyRules demo_state) '''' = find (\<lambda>r. rule_ID r = '''') (rev (map the (map Some demo_rules)))"
    using c by blast
  also have "map the (map Some demo_rules) = demo_rules" by (simp add: comp_def)
  also have "find (\<lambda>r. rule_ID r = '''') (rev demo_rules) = Some (redirect_rule '''' ''/b'' ''http://b'')"
    by (simp add: demo_rules_def default_rule_defs)
  finally show "lookup_in (ReverseProxyRules demo_state) '''' = Some (redirect_rule '''' ''/b'' ''http://b'')" .
qed

lemma demo_state_version: "SchemaVersion demo_state = ''v0.0.8''" "allocated demo_state"
  by (simp_all add: demo_state_def fold_put_rule_frame app_started_lookup)

lemma demo_first_boot:
  obtains db d' where "main_database ref_env False False Written ''n1'' demo_draw demo_config fmempty = (d', Ok (demo_state, Some db))"
proof -
  let ?t = "Initialize (Some demo_state)"
  have eff: "effect ?t latest_empty = demo_state"
    using demo_state_version(2) by (auto simp: fill_maps_def allocated_def)
  have r: "regular ?t" by (simp add: regular_def)
  obtain doc w where p: "ProposeTransitions ref_env (Bytes latest_empty) [?t] = Ok (doc, [w])"
    using ref_env_accepts [OF FromBytes_Bytes allocated_latest_empty r] demo_state_version(1) eff by auto
  have "FromBytes doc = Ok demo_state"
    using propose_refines [OF ref_env_ok FromBytes_Bytes allocated_latest_empty _ p] r eff by simp
  then have "ValidateState ref_env doc = Ok ()" using demo_state_version(1) by (rule ref_env_valid)
  then show thesis
    using that p fresh_state_aux [of ref_env] demo_main_state
    by (simp add: main_database_def NewHabitatDB_def writeState_def)
qed

lemma first_boot_stores_state_witness:
  "\<exists>db d'. main_database ref_env False False Written ''n1'' demo_draw demo_config fmempty = (d', Ok (demo_state, Some db)) \<and>
    db_state db = Bytes demo_state \<and> synced (db, d')"
proof -
  obtain db d' where m: "main_database ref_env False False Written ''n1'' demo_draw demo_config fmempty =
      (d', Ok (demo_state, Some db))"
    by (rule demo_first_boot)
  from first_boot_stores_state [OF ref_env_semver_laws ref_env_diff_laws ref_env_ok m] m show ?thesis by auto
qed


lemma production_frontend_unserved_witness:
  "\<exists>w. ServeHTTP (\<lambda>_. None) (\<lambda>_. False) ''/web'' demo_rules ''/.well-known/did.json'' = Respond w \<and> status w = StatusOK"
proof -
  have "set (default_rules demo_config) \<subseteq> set demo_rules" by (auto simp: demo_rules_def)
  moreover have "\<forall>r \<in> set demo_rules - set (default_rules demo_config). \<not> matchRule ''/.well-known/did.json'' r"
    by (auto simp: demo_rules_def matchRule_iff redirect_rule_def)
  moreover have "\<not> FrontendDev demo_config" by (simp add: FrontendDev_def demo_config_def demo_viper_def)
  ultimately show ?thesis
    using production_frontend_unserved [of demo_config demo_rules "''/.well-known/did.json''" "\<lambda>_. None" "\<lambda>_. False" "''/web''"]
    by auto
qed

end
