(* ===== verification/NodeRun.thy ===== *)
theory NodeRun
  imports NodeMain
begin

text \<open>
  The running node: what may happen to the database, the processes and the proxy rules between the start of a
  node and any later moment, across restarts.

  The database serialises proposals (\<open>fileDB.mu\<close>), the rule set is changed by \<open>AddRule\<close>, and the world of
  processes and packages changes in every way.  One such change is a \<open>move\<close>; a handler is a sequence of
  moves, and handlers that run at the same time interleave theirs.  \<open>outs\<close> are the outcomes that writing the
  database file may have: with \<open>{Written}\<close> no write fails.  A migration is one of the proposals when its target has
  all four maps, which every version from v0.0.4 on has.
\<close>

section \<open>Requests without special characters\<close>

text \<open>
  The identifiers of the node are pasted into the text of a patch, so that what follows is about
  identifiers of plain characters; those of stored processes and apps stay plain.
\<close>

definition plain_driver :: "package option \<Rightarrow> bool" where
  "plain_driver p = pred_option (\<lambda>p. good_id (pkg_Driver p)) p"

fun admissible :: "transition \<Rightarrow> bool" where
  "admissible (Initialize s) = False"
| "admissible (StartInstallation a rs) = (stays_current (StartInstallation a rs) \<and> plain_driver (app_Package a))"
| "admissible t = stays_current t"

definition plain_keys :: "node_state \<Rightarrow> bool" where
  "plain_keys s \<longleftrightarrow>
     fmpred (\<lambda>k _. good_id k) (entries (Processes s)) \<and>
     fmpred (\<lambda>k a. good_id k \<and> plain_driver (app_Package a)) (entries (AppInstallations s))"

lemma good_id_append: "good_id (a @ b) \<longleftrightarrow> good_id a \<and> good_id b"
  by (auto simp: good_id_def json_plain_def plain_key_def)

lemma good_NewID: "good_id d \<Longrightarrow> good_id u \<Longrightarrow> good_id (NewID d u)"
  by (auto simp: NewID_def good_id_def json_plain_def plain_key_def)

lemma admissible_stays: "admissible t \<Longrightarrow> stays_current t \<and> initial_ok t"
  by (cases t) auto

lemma fold_put_rule_maps:
  "Processes (fold put_rule rs s) = Processes s" "AppInstallations (fold put_rule rs s) = AppInstallations s"
  by (induction rs arbitrary: s) (simp_all add: put_rule_def)

lemma plain_keys_means:
  assumes "semver_laws E" and "diff_laws (jsonpatch_Apply E) (jsondiff_Compare E)"
    and "plain_keys s" and "current s" and "admissible t" and "transition_Validate E t (Bytes s) = Ok u"
  shows "plain_keys (means E t s)"
proof (cases t)
  case (Migration v)
  then have "late_version v" "late_version (SchemaVersion s)" "Validate_Migration E v (Bytes s) = Ok u"
    using assms(4-6) by (simp_all add: current_def)
  with means_Migration [OF assms(1,2), of s v u] assms(3) show ?thesis
    unfolding Migration plain_keys_def by auto
next
  case (StartInstallation a rs)
  then show ?thesis
    using assms by (auto simp: plain_keys_def fold_put_rule_maps put_entries current_def)
next
  case (FinishInstallation i)
  then show ?thesis
    using assms
    by (auto simp: plain_keys_def mark_installed_def put_entries fmpred_iff current_def split: option.splits if_splits)
next
  case (ProcessStart p)
  then show ?thesis
    using assms by (cases p) (auto simp: plain_keys_def put_entries current_def)
qed (use assms in \<open>auto simp: plain_keys_def put_entries put_user_def put_rule_def current_def\<close>)

section \<open>Moves\<close>

inductive move ::
  "env \<Rightarrow> write_outcome set \<Rightarrow> (file_db \<times> disk, 'w) ctrl \<Rightarrow> (file_db \<times> disk, 'w) ctrl \<Rightarrow> bool"
  for E outs
where
  propose: "out \<in> outs \<Longrightarrow> (transition_Validate E t (fileDB_Bytes (ct_db c)) = Ok () \<Longrightarrow> admissible t) \<Longrightarrow>
    fileDB_ProposeTransitions E out [t] (ct_db c) = (dbd, r) \<Longrightarrow> move E outs c (c\<lparr>ct_db := dbd\<rparr>)"
| outside: "move E outs c (c\<lparr>ct_world := w\<rparr>)"
| add_rule: "move E outs c (c\<lparr>ct_rules := fst (AddRule (ct_rules c) r)\<rparr>)"
| restart: "synced (ct_db c) \<Longrightarrow> main_database E False False out uuid draw n (snd (ct_db c)) = (d', Ok (s, Some db)) \<Longrightarrow>
    HDBPath n = db_path (fst (ct_db c)) \<Longrightarrow>
    move E outs c \<lparr>ct_db = (db, d'), ct_world = w, ct_rules = NewProxyServer (WebBundlePath n)\<rparr>"

inductive_cases moveE: "move E outs c c'"

text \<open>What holds at every moment: the database in memory is the marshalled form of a sound state.\<close>

definition node_ok :: "env \<Rightarrow> (file_db \<times> disk, 'w) ctrl \<Rightarrow> bool" where
  "node_ok E c \<longleftrightarrow>
     (\<exists>s. fileDB_Bytes (ct_db c) = Bytes s \<and> current s \<and> wf_state s \<and> plain_keys s) \<and>
     ValidateState E (fileDB_Bytes (ct_db c)) = Ok () \<and> rules_supported (ct_rules c)"

lemma fileDB_State_FromBytes: "fileDB_State dbd = FromBytes (fileDB_Bytes dbd)"
  by (simp add: fileDB_State_def fileDB_Bytes_def split: prod.splits)

lemma node_okE:
  assumes "node_ok E c"
  obtains s where "fileDB_Bytes (ct_db c) = Bytes s" and "current s" and "wf_state s" and "plain_keys s"
    and "ValidateState E (fileDB_Bytes (ct_db c)) = Ok ()" and "rules_supported (ct_rules c)"
    and "fileDB_State (ct_db c) = Ok s"
  using assms by (auto simp: node_ok_def fileDB_State_FromBytes)

lemma rules_supported_new [simp]: "rules_supported (NewProxyServer p)"
  by (simp add: rules_supported_def NewProxyServer_def)

text \<open>
  A proposal to the file database: refused, or not written, without a trace in memory; or the meaning of its
  transition.
\<close>

lemma fileDB_proposal:
  assumes laws: "semver_laws E" "diff_laws (jsonpatch_Apply E) (jsondiff_Compare E)" "env_ok E" "range_laws E"
    and s: "fileDB_Bytes dbd = Bytes s" "current s" "wf_state s" "plain_keys s"
    and "\<And>u. transition_Validate E t (fileDB_Bytes dbd) = Ok u \<Longrightarrow> admissible t"
    and "fileDB_ProposeTransitions E out [t] dbd = (dbd', r)"
  shows "fileDB_Bytes dbd' = fileDB_Bytes dbd \<or>
    (\<exists>s'. fileDB_Bytes dbd' = Bytes s' \<and> current s' \<and> wf_state s' \<and> plain_keys s' \<and>
      ValidateState E (fileDB_Bytes dbd') = Ok ())"
proof -
  obtain db d where dbd: "dbd = (db, d)" by (cases dbd)
  show ?thesis
  proof (cases "ProposeTransitions E (db_state db) [t]")
    case (Ok res)
    obtain doc ws where p: "ProposeTransitions E (Bytes s) [t] = Ok (doc, ws)"
      using Ok s(1) by (cases res) (auto simp: fileDB_Bytes_def dbd)
    then obtain u where v: "transition_Validate E t (Bytes s) = Ok u"
      by (auto simp: ProposeTransitions_def bind_res_Ok_iff)
    have adm: "admissible t" using assms(9) v by (simp add: s)
    then have good: "list_all stays_current [t]" "list_all initial_ok [t]" using admissible_stays by auto
    have doc: "doc = Bytes (means E t s)" "current (means E t s)" "wf_state (means E t s)" "ValidateState E doc = Ok ()"
      using propose_loop_writes [OF laws(3,1,2) s(2) good(1) p [unfolded ProposeTransitions_def]] laws(4) s(3) good(2)
      by auto
    have "fileDB_Bytes dbd' = db_state db \<or> fileDB_Bytes dbd' = doc"
      using assms(10) p s(1)
      by (auto simp: fileDB_ProposeTransitions_def dbd fileDB_Bytes_def Let_def split: prod.splits if_splits)
    then show ?thesis
      using doc plain_keys_means [OF laws(1,2) s(4,2) adm v] by (auto simp: dbd fileDB_Bytes_def)
  qed (use assms(10) in \<open>auto simp: fileDB_ProposeTransitions_def dbd\<close>)
qed

text \<open>A restart opens the stored state.\<close>

lemma restart_opens:
  assumes "main_database E False False out uuid draw n d = (d', Ok (s, Some db))"
    and "fmlookup d (HDBPath n) = Some (Some doc)"
  shows "d' = d" and "db = \<lparr>db_path = HDBPath n, db_state = doc\<rparr>"
  using assms by (auto simp: main_database_def NewHabitatDB_def bind_res_Ok_iff split: res.splits prod.splits)

lemma restart_same:
  assumes "main_database E False False out uuid draw n (snd dbd) = (d', Ok (s, Some db))" and "synced dbd"
    and "HDBPath n = db_path (fst dbd)"
  shows "(db, d') = dbd"
proof -
  have "fmlookup (snd dbd) (HDBPath n) = Some (Some (db_state (fst dbd)))"
    using assms(2,3) by (cases dbd) (simp add: synced_def)
  from restart_opens [OF assms(1) this] assms(3) show ?thesis by (cases dbd) simp
qed

lemma move_keeps:
  assumes laws: "semver_laws E" "diff_laws (jsonpatch_Apply E) (jsondiff_Compare E)" "env_ok E" "range_laws E"
    and "move E outs c c'" and ok: "node_ok E c"
  shows "node_ok E c'"
proof -
  from ok obtain s where s: "fileDB_Bytes (ct_db c) = Bytes s" "current s" "wf_state s" "plain_keys s"
    and r: "rules_supported (ct_rules c)"
    by (rule node_okE)
  from assms(5) show ?thesis
  proof cases
    case (propose out t dbd r')
    from fileDB_proposal [OF laws s _ propose(4)] propose(3) ok r show ?thesis
      by (auto simp: node_ok_def propose(1))
  next
    case (restart out uuid draw n d' st db w)
    from restart_same [OF restart(3,2,4)] ok show ?thesis by (simp add: node_ok_def restart(1))
  qed (use ok AddRule_supported in \<open>auto simp: node_ok_def\<close>)
qed

lemma move_synced:
  assumes "move E {Written} c c'" and "synced (ct_db c)"
  shows "synced (ct_db c')"
  using assms(1)
proof cases
  case (propose out t dbd r)
  then show ?thesis using synced_propose [OF assms(2), of E "[t]"] by simp
next
  case (restart out uuid draw n d' st db w)
  from restart_same [OF restart(3,2,4)] assms(2) show ?thesis by (simp add: restart(1))
qed (use assms(2) in simp_all)

lemma moves_keep:
  assumes "semver_laws E" and "diff_laws (jsonpatch_Apply E) (jsondiff_Compare E)" and "env_ok E" and "range_laws E"
    and "(move E outs)\<^sup>*\<^sup>* c c'" and "node_ok E c"
  shows "node_ok E c'"
  using assms(5,6) by (induction rule: rtranclp_induct) (use move_keeps [OF assms(1-4)] in blast)+

lemma moves_synced:
  assumes "(move E {Written})\<^sup>*\<^sup>* c c'" and "synced (ct_db c)"
  shows "synced (ct_db c')"
  using assms by (induction rule: rtranclp_induct) (use move_synced in blast)+

text \<open>The path of the database file stays the same.\<close>

lemma fileDB_path: "fileDB_ProposeTransitions E out ts dbd = (dbd', r) \<Longrightarrow> db_path (fst dbd') = db_path (fst dbd)"
  by (cases dbd) (auto simp: fileDB_ProposeTransitions_def Let_def split: res.splits prod.splits if_splits)

lemma move_path:
  assumes "move E outs c c'"
  shows "db_path (fst (ct_db c')) = db_path (fst (ct_db c))"
  using assms
proof cases
  case (propose out t dbd r)
  then show ?thesis using fileDB_path [OF propose(4)] by simp
next
  case (restart out uuid draw n d' st db w)
  from restart_same [OF restart(3,2,4), symmetric] show ?thesis by (simp add: restart(1))
qed simp_all

lemma moves_path: "(move E outs)\<^sup>*\<^sup>* c c' \<Longrightarrow> db_path (fst (ct_db c')) = db_path (fst (ct_db c))"
  by (induction rule: rtranclp_induct) (simp_all add: move_path)

section \<open>Requests are moves\<close>

text \<open>
  The requests that change the node, each with the identifiers and the time that its handler draws.
\<close>

datatype node_request =
    StartProcessRequest string string body
  | StopProcessRequest body
  | InstallAppRequest string string string string body
  | UninstallAppRequest body
  | AddUserRequest string body
  | MigrateRequest body

fun serve_request ::
  "env \<Rightarrow> ('c, 'w) controller \<Rightarrow> ((string, rule) fmap \<Rightarrow> rule list) \<Rightarrow> node_request \<Rightarrow> ('c, 'w) ctrl \<Rightarrow> ('c, 'w) handled"
where
  "serve_request E K order (StartProcessRequest uuid now b) c = h_StartProcess K uuid now order b c"
| "serve_request E K order (StopProcessRequest b) c = h_StopProcess K b c"
| "serve_request E K order (InstallAppRequest appUuid uuid now userID b) c =
     h_InstallApp K appUuid uuid now order userID b c"
| "serve_request E K order (UninstallAppRequest b) c = h_UninstallApp K b c"
| "serve_request E K order (AddUserRequest uuid b) c = h_AddUser K uuid b c"
| "serve_request E K order (MigrateRequest b) c = h_MigrateDB E K b c"

text \<open>
  What a request must satisfy: the fresh identifiers are plain (UUIDs are), an install request brings only rules
  with plain identifiers, and a migration goes to a version with all four maps.  Nothing is asked of the
  identifiers in the other requests.
\<close>

definition plain_rules :: "rule option list option \<Rightarrow> bool" where
  "plain_rules rs \<longleftrightarrow> None \<notin> set (slice rs) \<and> list_all (pred_option (\<lambda>r. good_id (rule_ID r))) (slice rs)"

fun request_ok :: "node_request \<Rightarrow> bool" where
  "request_ok (StartProcessRequest uuid now b) = good_id uuid"
| "request_ok (StopProcessRequest b) = True"
| "request_ok (InstallAppRequest appUuid uuid now userID b) =
     (good_id appUuid \<and> good_id uuid \<and>
      (case decode_body dec_install_request b of Ok req \<Rightarrow> plain_rules (req_ReverseProxyRules req) | _ \<Rightarrow> True))"
| "request_ok (UninstallAppRequest b) = True"
| "request_ok (AddUserRequest uuid b) = good_id uuid"
| "request_ok (MigrateRequest b) =
     (case decode_body (\<lambda>m. dec_str m ''target_version'') b of Ok v \<Rightarrow> late_version v | _ \<Rightarrow> True)"

definition plain_managers :: "('c, 'w) controller \<Rightarrow> bool" where
  "plain_managers K = fmpred (\<lambda>d _. good_id d) (ctl_pkgManagers K)"

text \<open>The client of the controller is the file database, each proposal with one of the outcomes.\<close>

definition file_database :: "env \<Rightarrow> write_outcome set \<Rightarrow> (file_db \<times> disk, 'w) controller \<Rightarrow> bool" where
  "file_database E outs K \<longleftrightarrow> cl_State (ctl_db K) = fileDB_State \<and>
     (\<forall>ts x. \<exists>out \<in> outs. cl_Propose (ctl_db K) ts x = fileDB_ProposeTransitions E out ts x)"

lemma file_database_client: "ctl_db K = fileDB_client E \<Longrightarrow> Written \<in> outs \<Longrightarrow> file_database E outs K"
  by (auto simp: file_database_def fileDB_client_def)

text \<open>A run of moves, extended at its end.\<close>

lemma moves_propose:
  assumes K: "file_database E outs K"
    and "(move E outs)\<^sup>*\<^sup>* c c1" and "ctl_propose K [t] c1 = (c2, r)"
    and "transition_Validate E t (fileDB_Bytes (ct_db c1)) = Ok () \<Longrightarrow> admissible t"
  shows "(move E outs)\<^sup>*\<^sup>* c c2"
proof -
  obtain out where out: "out \<in> outs"
    and p: "cl_Propose (ctl_db K) [t] (ct_db c1) = fileDB_ProposeTransitions E out [t] (ct_db c1)"
    using K unfolding file_database_def by blast
  obtain dbd r' where d: "fileDB_ProposeTransitions E out [t] (ct_db c1) = (dbd, r')"
    by (cases "fileDB_ProposeTransitions E out [t] (ct_db c1)")
  with assms(3) p have "c2 = c1\<lparr>ct_db := dbd\<rparr>" by (simp add: ctl_propose_def)
  then show ?thesis
    using rtranclp.rtrancl_into_rtrancl [OF assms(2) move.propose [OF out assms(4) d]] by simp
qed

lemma moves_outside: "(move E outs)\<^sup>*\<^sup>* c c1 \<Longrightarrow> (move E outs)\<^sup>*\<^sup>* c (c1\<lparr>ct_world := w\<rparr>)"
  by (erule rtranclp.rtrancl_into_rtrancl) (rule move.outside)

lemma moves_register:
  "(move E outs)\<^sup>*\<^sup>* c c1 \<Longrightarrow> (move E outs)\<^sup>*\<^sup>* c (c1\<lparr>ct_rules := register_rules i (ct_rules c1) rs\<rparr>)"
proof (induction rs arbitrary: c1)
  case (Cons r rs)
  have step: "(move E outs)\<^sup>*\<^sup>* c (c1\<lparr>ct_rules := fst (AddRule (ct_rules c1) r)\<rparr>)"
    using Cons.prems move.add_rule by (rule rtranclp.rtrancl_into_rtrancl)
  show ?case using step Cons.IH [OF step] Cons.IH [OF Cons.prems] by (auto split: prod.split res.split)
qed simp

lemma moves_restore_rules:
  "(move E outs)\<^sup>*\<^sup>* c c1 \<Longrightarrow> (move E outs)\<^sup>*\<^sup>* c (c1\<lparr>ct_rules := restore_rules rs (ct_rules c1)\<rparr>)"
proof (induction rs arbitrary: c1)
  case (Cons r rs)
  have "(move E outs)\<^sup>*\<^sup>* c (c1\<lparr>ct_rules := fst (AddRule (ct_rules c1) r)\<rparr>)"
    using Cons.prems move.add_rule by (rule rtranclp.rtrancl_into_rtrancl)
  from Cons.IH [OF this] show ?case by (simp add: restore_rules_def)
qed (simp add: restore_rules_def)

text \<open>Identifiers that \<open>Validate\<close> finds in the state are plain.\<close>

lemma known_admissible:
  assumes "fileDB_State dbd = Ok s" and "plain_keys s"
  shows "transition_Validate E (ProcessStop pid) (fileDB_Bytes dbd) = Ok u \<Longrightarrow> admissible (ProcessStop pid)"
    and "transition_Validate E (Uninstall i) (fileDB_Bytes dbd) = Ok u \<Longrightarrow> admissible (Uninstall i)"
  using assms
  by (cases "Processes s"; cases "AppInstallations s";
      auto simp: fileDB_State_FromBytes Validate_ProcessStop_def Validate_Uninstall_def regular_def plain_keys_def
        fmpred_iff bind_res_Ok_iff split: if_splits)+

lemma plain_keysD:
  assumes "plain_keys s" and "lookup_in (AppInstallations s) i = Some a" and "app_Package a = Some p"
  shows "good_id (pkg_Driver p)"
proof -
  have "plain_driver (app_Package a)" using assms(1,2) by (auto simp: plain_keys_def fmpred_iff)
  then show ?thesis using assms(3) by (simp add: plain_driver_def)
qed

lemma startProcess_moves:
  assumes ok: "node_ok E c" and K: "file_database E outs K" and uuid: "good_id uuid"
    and run: "startProcess K uuid now order i c = (c', r)"
  shows "(move E outs)\<^sup>*\<^sup>* c c'"
proof -
  from ok obtain s where s: "fileDB_State (ct_db c) = Ok s" "plain_keys s" by (rule node_okE)
  have st: "getNodeState K c = Ok s" using s K by (simp add: getNodeState_def file_database_def)
  show ?thesis
  proof (cases "\<exists>a t pid. lookup_in (AppInstallations s) i = Some a \<and>
      CreateProcessStartTransition uuid now i s = Ok (t, pid)")
    case True
    then obtain a t pid where a: "lookup_in (AppInstallations s) i = Some a"
      and cr: "CreateProcessStartTransition uuid now i s = Ok (t, pid)" by blast
    obtain p where p: "app_Package a = Some p" "t = ProcessStart (Some (new_process uuid now a p))"
      "pid = NewID (pkg_Driver p) uuid"
      using CreateProcessStart_Ok [OF cr a] by (auto simp: new_process_def)
    have "good_id (pkg_Driver p)"
        by (rule plain_keysD [OF s(2) a p(1)])
    then have pid: "good_id pid" using uuid p(3) by (simp add: good_NewID)
    obtain c1 r1 where p1: "ctl_propose K [t] c = (c1, r1)" by (cases "ctl_propose K [t] c")
    obtain w r2 where w: "pm_StartProcess (ctl_processManager K) pid a (ct_world c1) = (w, r2)"
      by (cases "pm_StartProcess (ctl_processManager K) pid a (ct_world c1)")
    let ?c2 = "c1\<lparr>ct_world := w\<rparr>" and ?stop = "CreateProcessStopTransition pid"
    obtain c3 r3 where p3: "ctl_propose K [?stop] ?c2 = (c3, r3)" by (cases "ctl_propose K [?stop] ?c2")
    have m1: "(move E outs)\<^sup>*\<^sup>* c c1"
      by (rule moves_propose [OF K rtranclp.rtrancl_refl p1])
        (use pid p in \<open>simp add: regular_def new_process_def\<close>)
    note m2 = moves_outside [OF m1, of w]
    have m3: "(move E outs)\<^sup>*\<^sup>* c c3"
      by (rule moves_propose [OF K m2 p3]) (use pid in \<open>simp add: CreateProcessStopTransition_def regular_def\<close>)
    show ?thesis
      using run st a cr p1 w p3 m1 m2 m3 moves_register [OF m2]
      by (auto simp: startProcess_def Let_def split: res.splits)
  qed (use run st in \<open>auto simp: startProcess_def split: option.splits res.splits prod.splits\<close>)
qed

lemma stopProcess_moves:
  assumes ok: "node_ok E c" and K: "file_database E outs K" and run: "stopProcess K pid c = (c', r)"
  shows "(move E outs)\<^sup>*\<^sup>* c c'"
proof -
  from ok obtain s where s: "fileDB_State (ct_db c) = Ok s" "plain_keys s" by (rule node_okE)
  obtain w r1 where w: "pm_StopProcess (ctl_processManager K) pid (ct_world c) = (w, r1)"
    by (cases "pm_StopProcess (ctl_processManager K) pid (ct_world c)")
  let ?c1 = "c\<lparr>ct_world := w\<rparr>" and ?stop = "CreateProcessStopTransition pid"
  obtain c2 r2 where p: "ctl_propose K [?stop] ?c1 = (c2, r2)" by (cases "ctl_propose K [?stop] ?c1")
  have m1: "(move E outs)\<^sup>*\<^sup>* c ?c1" by (rule moves_outside) simp
  have m2: "(move E outs)\<^sup>*\<^sup>* c c2"
    by (rule moves_propose [OF K m1 p]) (use known_admissible(1) [OF s] in \<open>simp add: CreateProcessStopTransition_def\<close>)
  show ?thesis using run w p m1 m2 by (auto simp: stopProcess_def split: res.splits if_splits)
qed

lemma propose_one_moves:
  assumes "file_database E outs K" and "propose_one K t c = (c', r)"
    and "transition_Validate E t (fileDB_Bytes (ct_db c)) = Ok () \<Longrightarrow> admissible t"
  shows "(move E outs)\<^sup>*\<^sup>* c c'"
proof -
  obtain c1 r1 where p: "ctl_propose K [t] c = (c1, r1)" by (cases "ctl_propose K [t] c")
  from moves_propose [OF assms(1) rtranclp.rtrancl_refl p assms(3)] show ?thesis
    using assms(2) p by (simp add: propose_one_def)
qed

lemma uninstallApp_moves:
  assumes ok: "node_ok E c" and K: "file_database E outs K" and run: "uninstallApp K i c = (c', r)"
  shows "(move E outs)\<^sup>*\<^sup>* c c'"
proof -
  from ok obtain s where s: "fileDB_State (ct_db c) = Ok s" "plain_keys s" by (rule node_okE)
  show ?thesis
    using run known_admissible(2) [OF s] unfolding uninstallApp_def CreateUninstallAppTransition_def
    by (rule propose_one_moves [OF K])
qed

lemma migrateDB_moves:
  assumes "file_database E outs K" and "late_version v" and "migrateDB E K v c = (c', r)"
  shows "(move E outs)\<^sup>*\<^sup>* c c'"
  using assms(2,3) propose_one_moves [OF assms(1), of "CreateMigrationTransition v" c]
  by (auto simp: migrateDB_def CreateMigrationTransition_def split: res.splits if_splits)

lemma installApp_moves:
  assumes laws: "semver_laws E" "diff_laws (jsonpatch_Apply E) (jsondiff_Compare E)" "env_ok E" "range_laws E" and ok: "node_ok E c" and K: "file_database E outs K"
    and managers: "plain_managers K" and ids: "good_id appUuid" "good_id uuid" and rules: "plain_rules rs"
    and run: "installApp K appUuid uuid now order userID pkg version name rs start c = (c', r)"
  shows "(move E outs)\<^sup>*\<^sup>* c c'"
proof (cases "\<exists>p m. pkg = Some p \<and> fmlookup (ctl_pkgManagers K) (pkg_Driver p) = Some m")
  case True
  then obtain p m where p: "pkg = Some p" "fmlookup (ctl_pkgManagers K) (pkg_Driver p) = Some m" by blast
  obtain t i where t: "CreateStartInstallationTransition appUuid userID pkg version name rs = (t, i)"
    by (cases "CreateStartInstallationTransition appUuid userID pkg version name rs")
  have "good_id (pkg_Driver p)" using managers p(2) by (auto simp: plain_managers_def fmpred_iff)
  then have adm: "admissible t" and i: "i = appUuid"
    using t p ids(1) rules
    by (auto simp: CreateStartInstallationTransition_def plain_driver_def regular_def plain_rules_def)
  obtain c1 r1 where p1: "ctl_propose K [t] c = (c1, r1)" by (cases "ctl_propose K [t] c")
  obtain w r2 where w: "pkgm_InstallPackage m p version (ct_world c1) = (w, r2)"
    by (cases "pkgm_InstallPackage m p version (ct_world c1)")
  let ?c2 = "c1\<lparr>ct_world := w\<rparr>" and ?fin = "CreateFinishInstallationTransition i"
  obtain c3 r3 where p3: "ctl_propose K [?fin] ?c2 = (c3, r3)" by (cases "ctl_propose K [?fin] ?c2")
  obtain c4 r4 where p4: "startProcess K uuid now order i c3 = (c4, r4)"
    by (cases "startProcess K uuid now order i c3")
  have m1: "(move E outs)\<^sup>*\<^sup>* c c1" by (rule moves_propose [OF K rtranclp.rtrancl_refl p1 adm])
  note m2 = moves_outside [OF m1, of w]
  have m3: "(move E outs)\<^sup>*\<^sup>* c c3"
    by (rule moves_propose [OF K m2 p3]) (use i ids(1) in \<open>simp add: CreateFinishInstallationTransition_def regular_def\<close>)
  have "node_ok E c3" by (rule moves_keep [OF laws m3 ok])
  from startProcess_moves [OF this K ids(2) p4] m3 have m4: "(move E outs)\<^sup>*\<^sup>* c c4" by (rule rtranclp_trans [rotated])
  show ?thesis
    using run p t p1 w p3 p4 m1 m2 m3 m4 by (auto simp: installApp_def split: res.splits if_splits)
qed (use run in \<open>auto simp: installApp_def split: option.splits\<close>)

lemma run_request_moves:
  assumes "run_request req f finish c = (c', w)"
    and "\<And>a c1 r. req = Ok a \<Longrightarrow> f a c = (c1, r) \<Longrightarrow> (move E outs)\<^sup>*\<^sup>* c c1"
  shows "(move E outs)\<^sup>*\<^sup>* c c'"
proof (cases req)
  case (Ok a)
  then show ?thesis
    using assms by (cases "f a c"; cases "snd (f a c)") (auto simp: run_request_def)
qed (use assms(1) in \<open>auto simp: run_request_def\<close>)

lemma restore_moves:
  assumes "restore K R s c = (c', r)"
  shows "(move E outs)\<^sup>*\<^sup>* c c'"
proof -
  obtain w r1 where w: "restore_managers (ord_apps R (entries (AppInstallations s)))
      (ord_managers R (ctl_pkgManagers K)) (ct_world c) = (w, r1)"
    by fastforce
  let ?rules = "restore_rules (ord_rules R (entries (ReverseProxyRules s))) (ct_rules c)"
  have m1: "(move E outs)\<^sup>*\<^sup>* c (c\<lparr>ct_world := w\<rparr>)" by (rule moves_outside) simp
  then have m2: "(move E outs)\<^sup>*\<^sup>* c (c\<lparr>ct_world := w, ct_rules := ?rules\<rparr>)"
    using moves_restore_rules [OF m1] by simp
  have m3: "(move E outs)\<^sup>*\<^sup>* c (c\<lparr>ct_rules := ?rules, ct_world := w'\<rparr>)" for w'
    using moves_outside [OF m2, of w'] by simp
  show ?thesis
    using assms w m1 m2 m3 by (auto simp: restore_def Let_def split: res.splits prod.splits)
qed


section \<open>From the first boot on\<close>

definition plain_app :: "installation \<Rightarrow> bool" where
  "plain_app x \<longleftrightarrow> good_id (app_ID x) \<and> plain_driver (app_Package x)"

lemma plain_keys_app_started:
  assumes "plain_keys s" and "allocated s" and "plain_app x" and "app_Package x \<noteq> None" and "good_id (fst (draw i))"
  shows "plain_keys (app_started draw i x s)"
proof -
  obtain p where p: "app_Package x = Some p" using assms(4) by blast
  have "good_id (proc_ID (first_process draw i x))"
    using assms(3,5) by (simp add: first_process_def p plain_app_def plain_driver_def good_NewID)
  then show ?thesis
    using assms(1,3) by (simp add: plain_keys_def fmpred_iff app_started_lookup [OF assms(2)] plain_app_def)
qed

lemma first_boot_ok:
  assumes laws: "semver_laws E" "diff_laws (jsonpatch_Apply E) (jsondiff_Compare E)" "env_ok E"
    and boot: "main_database E False False Written uuid draw n d = (d', Ok (s, Some db))" "fmlookup d (HDBPath n) = None"
    and apps: "DefaultApps n = Ok (apps, rules)" "distinct_apps (map the apps)" "list_all plain_app (map the apps)"
    and draw: "\<And>i. good_id (fst (draw i))"
  shows "node_ok E \<lparr>ct_db = (db, d'), ct_world = w, ct_rules = NewProxyServer p\<rparr>" and "synced (db, d')"
proof -
  note stored = first_boot [OF laws boot]
  from stored(1) obtain ts where m: "main_state E uuid draw n = Ok (s, ts)" by blast
  obtain apps' more s1 where "DefaultApps n = Ok (apps', fst more)"
    and s1: "initial_apps_loop draw 0 apps' (first_state uuid) = Ok s1"
    and s: "s = fold put_rule (snd more) s1" "allocated s"
    by (rule main_state_Ok [OF laws(1,2) m]) (metis fst_conv snd_conv)
  with apps(1) have eq: "apps' = apps" by simp
  have "wf_state s"
    using initial_apps_loop_wf [OF s1] wf_first_state initial_apps_loop_frame(2) [OF s1] apps(2)
    unfolding s(1) eq by (auto intro: wf_fold_put_rule)
  moreover have "plain_keys (first_state uuid)" by (simp add: plain_keys_def)
  then have "plain_keys s1 \<and> allocated s1 \<and> None \<notin> set apps'"
    by (rule initial_apps_loop_induct [OF s1, where I = "\<lambda>_. plain_keys", rotated])
      (use apps(3) draw eq in \<open>auto simp: list_all_iff intro!: plain_keys_app_started\<close>)
  then have "plain_keys s" by (simp add: s(1) plain_keys_def fold_put_rule_frame)
  ultimately show "node_ok E \<lparr>ct_db = (db, d'), ct_world = w, ct_rules = NewProxyServer p\<rparr>"
    using stored(2,4,5) by (auto simp: node_ok_def fileDB_Bytes_def)
  show "synced (db, d')" by (rule stored(3))
qed

section \<open>The theorems applied\<close>

lemma demo_apps:
  "DefaultApps demo_config = Ok ([Some demo_app],
     [Some (redirect_rule '''' ''/a'' ''http://a''), Some (redirect_rule '''' ''/b'' ''http://b'')])"
  "distinct_apps (map the [Some demo_app])" "list_all plain_app (map the [Some demo_app])"
  by (simp_all add: DefaultApps_def demo_config_def demo_viper_def distinct_apps_def demo_app_def plain_app_def
      sample_app_def sample_package_def plain_driver_def driver_types good_id_def json_plain_def plain_key_def)

lemma demo_draw_plain: "good_id (fst (demo_draw i))"
  by (auto simp: demo_draw_def good_id_def json_plain_def plain_key_def list_all_iff)

lemma demo_node:
  obtains db d' where "main_database ref_env False False Written ''n1'' demo_draw demo_config fmempty = (d', Ok (demo_state, Some db))"
    and "node_ok ref_env \<lparr>ct_db = (db, d'), ct_world = (), ct_rules = NewProxyServer ''/web''\<rparr>"
    and "fileDB_State (db, d') = Ok demo_state" and "synced (db, d')"
proof -
  obtain db d' where m: "main_database ref_env False False Written ''n1'' demo_draw demo_config fmempty =
      (d', Ok (demo_state, Some db))"
    by (rule demo_first_boot)
  note first = first_boot_ok [OF ref_env_semver_laws ref_env_diff_laws ref_env_ok m _ demo_apps demo_draw_plain]
    first_boot(2,3) [OF ref_env_semver_laws ref_env_diff_laws ref_env_ok m]
  from m first(1) [of "()"] first(3,4) show thesis by (intro that) (simp_all add: fileDB_State_def)
qed


end
