(* ===== verification/Permissions.thy ===== *)
theory Permissions
  imports GoPrelude
begin

text \<open>
  Who may read what: \<open>internal/permissions\<close>, with the three implementations of \<open>Store\<close> (the SQLite store,
  the store over casbin, and the in-memory dummy).

  The tables are kept by gorm and SQLite, which are outside the repository: \<open>perm_table\<close> is the record of
  the queries that the SQLite store makes, each with the predicate that its SQL text denotes, and
  \<open>table_laws\<close> is what the store relies on.  The operator \<open>LIKE\<close> is that of SQLite: \<open>%\<close> and \<open>_\<close> are wildcards
  and ASCII letters match in either case.
\<close>

section \<open>The operator LIKE\<close>

definition ascii_lower :: "char \<Rightarrow> char" where
  "ascii_lower c =
     (let n = of_char c :: nat in if 65 \<le> n \<and> n \<le> 90 then char_of (n + 32) else c)"

function (sequential) sql_like :: "string \<Rightarrow> string \<Rightarrow> bool" where
  "sql_like [] s = (s = [])"
| "sql_like (p # ps) s =
     (if p = CHR ''%''
      then sql_like ps s \<or> (case s of [] \<Rightarrow> False | c # cs \<Rightarrow> sql_like (p # ps) cs)
      else
        (case s of
           [] \<Rightarrow> False
         | c # cs \<Rightarrow> (p = CHR ''_'' \<or> ascii_lower p = ascii_lower c) \<and> sql_like ps cs))"
  by pat_completeness auto
termination by (relation "measure (\<lambda>(p, s). length p + length s)") auto

definition no_wildcard :: "string \<Rightarrow> bool" where
  "no_wildcard s \<longleftrightarrow> CHR ''%'' \<notin> set s \<and> CHR ''_'' \<notin> set s"

lemma sql_like_any: "sql_like ''%'' s"
  by (induction s) auto

lemma sql_like_literal:
  assumes "no_wildcard o'"
  shows "sql_like (o' @ q) s \<longleftrightarrow>
     (\<exists>t u. s = t @ u \<and> map ascii_lower t = map ascii_lower o' \<and> sql_like q u)"
  using assms
proof (induction o' arbitrary: s)
  case Nil
  then show ?case by simp
next
  case (Cons x xs)
  then have IH: "sql_like (xs @ q) s' \<longleftrightarrow>
      (\<exists>t u. s' = t @ u \<and> map ascii_lower t = map ascii_lower xs \<and> sql_like q u)" for s'
    by (simp add: no_wildcard_def)
  have x: "x \<noteq> CHR ''%''" "x \<noteq> CHR ''_''" using Cons.prems by (auto simp: no_wildcard_def)
  show ?case
  proof (cases s)
    case Nil
    then show ?thesis using x by auto
  next
    case (Cons c cs)
    have "sql_like ((x # xs) @ q) s \<longleftrightarrow> ascii_lower x = ascii_lower c \<and> sql_like (xs @ q) cs"
      using x by (simp add: Cons)
    also have "\<dots> \<longleftrightarrow> (\<exists>t u. s = t @ u \<and> map ascii_lower t = map ascii_lower (x # xs) \<and> sql_like q u)"
    proof
      assume "ascii_lower x = ascii_lower c \<and> sql_like (xs @ q) cs"
      then obtain t u where "cs = t @ u" "map ascii_lower t = map ascii_lower xs" "sql_like q u"
        "ascii_lower x = ascii_lower c" using IH by blast
      then show "\<exists>t u. s = t @ u \<and> map ascii_lower t = map ascii_lower (x # xs) \<and> sql_like q u"
        by (intro exI [of _ "c # t"] exI [of _ u]) (simp add: Cons)
    next
      assume "\<exists>t u. s = t @ u \<and> map ascii_lower t = map ascii_lower (x # xs) \<and> sql_like q u"
      then show "ascii_lower x = ascii_lower c \<and> sql_like (xs @ q) cs"
        unfolding IH by (auto simp: Cons Cons_eq_append_conv map_eq_Cons_conv)
    qed
    finally show ?thesis .
  qed
qed

section \<open>The SQLite store\<close>

record permission =
  perm_Grantee :: string
  perm_Owner :: string
  perm_Object :: string
  perm_Effect :: string

datatype perm_error = QueryFailed | AddFailed | RemoveFailed | Unsupported | CasbinError

text \<open>
  \<open>tbl_First\<close> takes the predicate of \<open>Where\<close> and the order of \<open>Order\<close> (\<open>before r q\<close>: \<open>r\<close> comes before \<open>q\<close>).
\<close>

record 'd perm_table =
  tbl_First :: "(permission \<Rightarrow> bool) \<Rightarrow> (permission \<Rightarrow> permission \<Rightarrow> bool) \<Rightarrow> 'd \<Rightarrow> (permission option, unit) res"
  tbl_Find :: "(permission \<Rightarrow> bool) \<Rightarrow> 'd \<Rightarrow> (permission list, unit) res"
  tbl_FirstOrCreate :: "(permission \<Rightarrow> bool) \<Rightarrow> string \<Rightarrow> permission \<Rightarrow> 'd \<Rightarrow> 'd \<times> (unit, unit) res"
  tbl_Delete :: "(permission \<Rightarrow> bool) \<Rightarrow> 'd \<Rightarrow> 'd \<times> (unit, unit) res"

definition record_object :: "string \<Rightarrow> string \<Rightarrow> string" where
  "record_object nsid rkey = (if rkey \<noteq> '''' then nsid @ ''.'' @ rkey else nsid)"

text \<open>\<open>object = ? OR ? LIKE object || '.%'\<close>\<close>

definition object_matches :: "string \<Rightarrow> string \<Rightarrow> bool" where
  "object_matches requested object \<longleftrightarrow>
     object = requested \<or> sql_like (object @ ''.%'') requested"

definition permission_query :: "string \<Rightarrow> string \<Rightarrow> string \<Rightarrow> permission \<Rightarrow> bool" where
  "permission_query requester owner object p \<longleftrightarrow>
     perm_Grantee p = requester \<and> perm_Owner p = owner \<and> object_matches object (perm_Object p)"

text \<open>\<open>ORDER BY LENGTH(object) DESC, effect DESC\<close>; of the two effects \<open>deny\<close> is the greater string.\<close>

definition specific_first :: "permission \<Rightarrow> permission \<Rightarrow> bool" where
  "specific_first p q \<longleftrightarrow>
     length (perm_Object p) > length (perm_Object q) \<or>
     length (perm_Object p) = length (perm_Object q) \<and>
       perm_Effect p = ''deny'' \<and> perm_Effect q = ''allow''"

definition sqlite_HasPermission ::
  "'d perm_table \<Rightarrow> string \<Rightarrow> string \<Rightarrow> string \<Rightarrow> string \<Rightarrow> 'd \<Rightarrow> (bool, perm_error) res"
where
  "sqlite_HasPermission T requester owner nsid rkey d =
     (if requester = owner then Ok True
      else
        (case tbl_First T (permission_query requester owner (record_object nsid rkey)) specific_first d of
           Ok None \<Rightarrow> Ok False
         | Ok (Some p) \<Rightarrow> Ok (perm_Effect p = ''allow'')
         | Err _ \<Rightarrow> Err QueryFailed
         | Panic \<Rightarrow> Panic))"

definition exact_query :: "string \<Rightarrow> string \<Rightarrow> string \<Rightarrow> permission \<Rightarrow> bool" where
  "exact_query grantee owner nsid p \<longleftrightarrow>
     perm_Grantee p = grantee \<and> perm_Owner p = owner \<and> perm_Object p = nsid"

definition sqlite_AddLexiconReadPermission ::
  "'d perm_table \<Rightarrow> string \<Rightarrow> string \<Rightarrow> string \<Rightarrow> 'd \<Rightarrow> 'd \<times> (unit, perm_error) res"
where
  "sqlite_AddLexiconReadPermission T grantee owner nsid d =
     (let (d', r) = tbl_FirstOrCreate T (exact_query grantee owner nsid) ''allow''
        \<lparr>perm_Grantee = grantee, perm_Owner = owner, perm_Object = nsid, perm_Effect = ''allow''\<rparr> d in
      (d', map_err (\<lambda>_. AddFailed) r))"

definition sqlite_RemoveLexiconReadPermission ::
  "'d perm_table \<Rightarrow> string \<Rightarrow> string \<Rightarrow> string \<Rightarrow> 'd \<Rightarrow> 'd \<times> (unit, perm_error) res"
where
  "sqlite_RemoveLexiconReadPermission T grantee owner nsid d =
     (let (d', r) = tbl_Delete T (exact_query grantee owner nsid) d in
      (d', map_err (\<lambda>_. RemoveFailed) r))"

text \<open>\<open>result[k] = append(result[k], g)\<close> over the rows.\<close>

definition append_entry ::
  "(string, string list) fmap \<Rightarrow> string \<Rightarrow> string \<Rightarrow> (string, string list) fmap"
where
  "append_entry m k g = fmupd k ((case fmlookup m k of None \<Rightarrow> [] | Some gs \<Rightarrow> gs) @ [g]) m"

definition sqlite_ListReadPermissionsByLexicon ::
  "'d perm_table \<Rightarrow> string \<Rightarrow> 'd \<Rightarrow> ((string, string list) fmap, perm_error) res"
where
  "sqlite_ListReadPermissionsByLexicon T owner d =
     bind_res (map_err (\<lambda>_. QueryFailed)
       (tbl_Find T (\<lambda>p. perm_Owner p = owner \<and> perm_Effect p = ''allow'') d)) (\<lambda>permissions.
       Ok (fold (\<lambda>p m. append_entry m (perm_Object p) (perm_Grantee p)) permissions fmempty))"

definition sqlite_ListReadPermissionsByUser ::
  "'d perm_table \<Rightarrow> string \<Rightarrow> string \<Rightarrow> string \<Rightarrow> 'd \<Rightarrow> (string list \<times> string list, perm_error) res"
where
  "sqlite_ListReadPermissionsByUser T owner requester nsid d =
     (if requester = owner then Ok ([nsid @ ''.*''], [])
      else
        bind_res (map_err (\<lambda>_. QueryFailed) (tbl_Find T (permission_query requester owner nsid) d)) (\<lambda>ps.
          Ok (map perm_Object (filter (\<lambda>p. perm_Effect p = ''allow'') ps),
              map perm_Object (filter (\<lambda>p. perm_Effect p = ''deny'') ps))))"

section \<open>The store over casbin\<close>

text \<open>The enforcer and its adapter are parameters.\<close>

record 'e enforcer =
  Enforce :: "string \<Rightarrow> string \<Rightarrow> string \<Rightarrow> 'e \<Rightarrow> (bool, perm_error) res"
  AddPolicy :: "string list \<Rightarrow> 'e \<Rightarrow> 'e \<times> (unit, perm_error) res"
  RemovePolicy :: "string list \<Rightarrow> 'e \<Rightarrow> 'e \<times> (unit, perm_error) res"
  SavePolicy :: "'e \<Rightarrow> 'e \<times> (unit, perm_error) res"
  GetFilteredPolicy :: "nat \<Rightarrow> string \<Rightarrow> 'e \<Rightarrow> (string list list, perm_error) res"

definition getCasbinObjectFromRecord :: "string \<Rightarrow> string \<Rightarrow> string" where
  "getCasbinObjectFromRecord lexicon rkey = lexicon @ ''.'' @ (if rkey = '''' then ''*'' else rkey)"

definition getCasbinObjectFromLexicon :: "string \<Rightarrow> string" where
  "getCasbinObjectFromLexicon lexicon = lexicon @ ''.*''"

definition casbin_HasPermission ::
  "'e enforcer \<Rightarrow> string \<Rightarrow> string \<Rightarrow> string \<Rightarrow> string \<Rightarrow> 'e \<Rightarrow> (bool, perm_error) res"
where
  "casbin_HasPermission C requester owner nsid rkey e =
     (if requester = owner then Ok True
      else Enforce C requester owner (getCasbinObjectFromRecord nsid rkey) e)"

definition then_save ::
  "'e enforcer \<Rightarrow> 'e \<times> (unit, perm_error) res \<Rightarrow> 'e \<times> (unit, perm_error) res"
where
  "then_save C r = (case r of (e, Ok _) \<Rightarrow> SavePolicy C e | (e, q) \<Rightarrow> (e, q))"

definition casbin_AddLexiconReadPermission ::
  "'e enforcer \<Rightarrow> string \<Rightarrow> string \<Rightarrow> string \<Rightarrow> 'e \<Rightarrow> 'e \<times> (unit, perm_error) res"
where
  "casbin_AddLexiconReadPermission C requester owner nsid e =
     then_save C (AddPolicy C [requester, owner, getCasbinObjectFromLexicon nsid, ''allow''] e)"

definition casbin_RemoveLexiconReadPermission ::
  "'e enforcer \<Rightarrow> string \<Rightarrow> string \<Rightarrow> string \<Rightarrow> 'e \<Rightarrow> 'e \<times> (unit, perm_error) res"
where
  "casbin_RemoveLexiconReadPermission C requester owner nsid e =
     then_save C (RemovePolicy C [requester, owner, getCasbinObjectFromLexicon nsid, ''allow''] e)"

text \<open>A policy with fewer than four fields would panic.\<close>

fun casbin_list_loop ::
  "string list list \<Rightarrow> (string, string list) fmap \<Rightarrow> ((string, string list) fmap, perm_error) res"
where
  "casbin_list_loop [] res = Ok res"
| "casbin_list_loop (policy # ps) res =
     (if length policy < 4 then Panic
      else if policy ! 3 = ''allow''
      then casbin_list_loop ps (append_entry res (TrimSuffix (policy ! 2) ''.*'') (policy ! 0))
      else casbin_list_loop ps res)"

definition casbin_ListReadPermissionsByLexicon ::
  "'e enforcer \<Rightarrow> string \<Rightarrow> 'e \<Rightarrow> ((string, string list) fmap, perm_error) res"
where
  "casbin_ListReadPermissionsByLexicon C owner e =
     bind_res (GetFilteredPolicy C 1 owner e) (\<lambda>policies. casbin_list_loop policies fmempty)"

definition casbin_ListReadPermissionsByUser ::
  "string \<Rightarrow> string \<Rightarrow> string \<Rightarrow> 'e \<Rightarrow> (string list \<times> string list, perm_error) res"
where
  "casbin_ListReadPermissionsByUser owner requester nsid e = Panic"

section \<open>The dummy store\<close>

type_synonym dummy_store = "(string, (string, string fset) fmap) fmap"

definition NewDummyStore :: dummy_store where
  "NewDummyStore = fmempty"

definition dummy_dids :: "dummy_store \<Rightarrow> string \<Rightarrow> string \<Rightarrow> string fset option" where
  "dummy_dids d owner nsid = Option.bind (fmlookup d owner) (\<lambda>m. fmlookup m nsid)"

definition dummy_HasPermission ::
  "string \<Rightarrow> string \<Rightarrow> string \<Rightarrow> string \<Rightarrow> dummy_store \<Rightarrow> (bool, perm_error) res"
where
  "dummy_HasPermission requester owner nsid rkey d =
     (case dummy_dids d owner nsid of None \<Rightarrow> Ok False | Some dids \<Rightarrow> Ok (requester |\<in>| dids))"

definition dummy_AddLexiconReadPermission ::
  "string \<Rightarrow> string \<Rightarrow> string \<Rightarrow> dummy_store \<Rightarrow> dummy_store \<times> (unit, perm_error) res"
where
  "dummy_AddLexiconReadPermission grantee owner nsid d =
     (let dids = (case dummy_dids d owner nsid of None \<Rightarrow> {||} | Some s \<Rightarrow> s);
          m = (case fmlookup d owner of None \<Rightarrow> fmempty | Some m \<Rightarrow> m) in
      (fmupd owner (fmupd nsid (finsert grantee dids) m) d, Ok ()))"

definition dummy_RemoveLexiconReadPermission ::
  "string \<Rightarrow> string \<Rightarrow> string \<Rightarrow> dummy_store \<Rightarrow> dummy_store \<times> (unit, perm_error) res"
where
  "dummy_RemoveLexiconReadPermission grantee owner nsid d = (d, Err Unsupported)"

definition dummy_ListReadPermissionsByLexicon ::
  "string \<Rightarrow> dummy_store \<Rightarrow> ((string, string list) fmap, perm_error) res"
where
  "dummy_ListReadPermissionsByLexicon owner d = Err Unsupported"

definition dummy_ListReadPermissionsByUser ::
  "string \<Rightarrow> string \<Rightarrow> string \<Rightarrow> dummy_store \<Rightarrow> (string list \<times> string list, perm_error) res"
where
  "dummy_ListReadPermissionsByUser owner requester nsid d = Err Unsupported"

section \<open>What the SQLite store relies on\<close>

text \<open>
  \<open>rows d\<close> are the rows that are not deleted.  Nothing is assumed of a query that fails, and creating may
  fail (it does when a deleted row with the same key is still in the unique index).
\<close>

definition table_laws :: "'d perm_table \<Rightarrow> ('d \<Rightarrow> permission set) \<Rightarrow> bool" where
  "table_laws T rows \<longleftrightarrow>
     (\<forall>q before d r. tbl_First T q before d = Ok r \<longrightarrow>
        (case r of
           None \<Rightarrow> \<forall>p \<in> rows d. \<not> q p
         | Some p \<Rightarrow> p \<in> rows d \<and> q p \<and> (\<forall>x \<in> rows d. q x \<longrightarrow> \<not> before x p))) \<and>
     (\<forall>q d ps. tbl_Find T q d = Ok ps \<longrightarrow> set ps = {p \<in> rows d. q p}) \<and>
     (\<forall>q eff p d d'. tbl_FirstOrCreate T q eff p d = (d', Ok ()) \<longrightarrow>
        (if \<exists>x \<in> rows d. q x
         then \<exists>x \<in> rows d. q x \<and> rows d' = insert (x\<lparr>perm_Effect := eff\<rparr>) (rows d - {x})
         else rows d' = insert p (rows d))) \<and>
     (\<forall>q d d'. tbl_Delete T q d = (d', Ok ()) \<longrightarrow> rows d' = {p \<in> rows d. \<not> q p})"

lemma table_First:
  assumes "table_laws T rows" and "tbl_First T q before d = Ok r"
  shows "case r of
      None \<Rightarrow> \<forall>p \<in> rows d. \<not> q p
    | Some p \<Rightarrow> p \<in> rows d \<and> q p \<and> (\<forall>x \<in> rows d. q x \<longrightarrow> \<not> before x p)"
  using assms(1) [unfolded table_laws_def, THEN conjunct1, THEN spec, THEN spec, THEN spec, THEN spec,
    THEN mp, OF assms(2)] .

lemma table_Find: "table_laws T rows \<Longrightarrow> tbl_Find T q d = Ok ps \<Longrightarrow> set ps = {p \<in> rows d. q p}"
  unfolding table_laws_def by blast

lemma table_FirstOrCreate:
  assumes "table_laws T rows" and "tbl_FirstOrCreate T q eff p d = (d', Ok ())"
  shows "if \<exists>x \<in> rows d. q x
    then \<exists>x \<in> rows d. q x \<and> rows d' = insert (x\<lparr>perm_Effect := eff\<rparr>) (rows d - {x})
    else rows d' = insert p (rows d)"
  using assms(1) [unfolded table_laws_def, THEN conjunct2, THEN conjunct2, THEN conjunct1, THEN spec,
    THEN spec, THEN spec, THEN spec, THEN spec, THEN mp, OF assms(2)] .

lemma table_Delete:
  "table_laws T rows \<Longrightarrow> tbl_Delete T q d = (d', Ok ()) \<Longrightarrow> rows d' = {p \<in> rows d. \<not> q p}"
  unfolding table_laws_def by blast

section \<open>Deciding access\<close>

text \<open>An object covers itself and everything below it: what follows the object must be a dot.\<close>

definition covers :: "string \<Rightarrow> string \<Rightarrow> bool" where
  "covers object requested \<longleftrightarrow>
     object = requested \<or>
     (\<exists>t rest. requested = t @ CHR ''.'' # rest \<and> map ascii_lower t = map ascii_lower object)"

lemma ascii_lower_dot: "ascii_lower c = CHR ''.'' \<longleftrightarrow> c = CHR ''.''"
proof
  assume a: "ascii_lower c = CHR ''.''"
  show "c = CHR ''.''"
  proof (cases "65 \<le> (of_char c :: nat) \<and> (of_char c :: nat) \<le> 90")
    case True
    then have "(of_char (char_of (of_char c + 32 :: nat) :: char) :: nat) = of_char (CHR ''.'')"
      using a by (simp add: ascii_lower_def Let_def)
    with True show ?thesis by (simp add: of_char_of)
  next
    case False
    then have "ascii_lower c = c" unfolding ascii_lower_def Let_def by (rule if_not_P)
    with a show ?thesis by simp
  qed
qed (simp add: ascii_lower_def)

lemma object_matches_covers:
  assumes "no_wildcard object"
  shows "object_matches requested object \<longleftrightarrow> covers object requested"
proof -
  have dot: "no_wildcard (object @ ''.'')" using assms by (simp add: no_wildcard_def)
  have "sql_like (object @ ''.%'') requested \<longleftrightarrow>
      (\<exists>t u. requested = t @ u \<and> map ascii_lower t = map ascii_lower (object @ ''.''))"
    using sql_like_literal [OF dot, of "''%''" requested] sql_like_any by simp
  also have "\<dots> \<longleftrightarrow> (\<exists>t rest. requested = t @ CHR ''.'' # rest \<and> map ascii_lower t = map ascii_lower object)"
  proof
    assume "\<exists>t u. requested = t @ u \<and> map ascii_lower t = map ascii_lower (object @ ''.'')"
    then obtain t u where r: "requested = t @ u" and t: "map ascii_lower t = map ascii_lower (object @ ''.'')"
      by blast
    from t obtain t' c where t': "t = t' @ [c]"
      by (cases t rule: rev_cases) auto
    with t have "map ascii_lower t' = map ascii_lower object" "ascii_lower c = CHR ''.''"
      by (auto simp: ascii_lower_def)
    with r t' show "\<exists>t rest. requested = t @ CHR ''.'' # rest \<and> map ascii_lower t = map ascii_lower object"
      by (auto simp: ascii_lower_dot)
  next
    assume "\<exists>t rest. requested = t @ CHR ''.'' # rest \<and> map ascii_lower t = map ascii_lower object"
    then obtain t rest where "requested = t @ CHR ''.'' # rest" "map ascii_lower t = map ascii_lower object"
      by blast
    then show "\<exists>t u. requested = t @ u \<and> map ascii_lower t = map ascii_lower (object @ ''.'')"
      by (intro exI [of _ "t @ ''.''"] exI [of _ rest]) simp
  qed
  finally show ?thesis by (simp add: object_matches_def covers_def)
qed

definition candidates :: "permission set \<Rightarrow> string \<Rightarrow> string \<Rightarrow> string \<Rightarrow> permission set" where
  "candidates R requester owner object =
     {p \<in> R. perm_Grantee p = requester \<and> perm_Owner p = owner \<and> covers (perm_Object p) object}"

text \<open>What the columns of the table admit, and objects that are not patterns themselves.\<close>

definition rows_ok :: "permission set \<Rightarrow> bool" where
  "rows_ok R \<longleftrightarrow> (\<forall>p \<in> R. no_wildcard (perm_Object p) \<and> perm_Effect p \<in> {''allow'', ''deny''})"

lemma permission_query_candidates:
  assumes "rows_ok R"
  shows "p \<in> R \<and> permission_query requester owner object p \<longleftrightarrow> p \<in> candidates R requester owner object"
  using assms by (auto simp: permission_query_def candidates_def object_matches_covers rows_ok_def)

lemma HasPermission_first:
  assumes "table_laws T rows" and "rows_ok (rows d)" and "requester \<noteq> owner"
    and "sqlite_HasPermission T requester owner nsid rkey d = Ok b"
  shows "(candidates (rows d) requester owner (record_object nsid rkey) = {} \<and> \<not> b) \<or>
     (\<exists>p \<in> candidates (rows d) requester owner (record_object nsid rkey).
        b = (perm_Effect p = ''allow'') \<and>
        (\<forall>q \<in> candidates (rows d) requester owner (record_object nsid rkey). \<not> specific_first q p))"
proof -
  let ?q = "permission_query requester owner (record_object nsid rkey)"
  let ?C = "candidates (rows d) requester owner (record_object nsid rkey)"
  from assms(3,4) obtain r where r: "tbl_First T ?q specific_first d = Ok r"
    and b: "b = (case r of None \<Rightarrow> False | Some p \<Rightarrow> perm_Effect p = ''allow'')"
    by (auto simp: sqlite_HasPermission_def split: res.splits option.splits)
  have C: "p \<in> ?C \<longleftrightarrow> p \<in> rows d \<and> ?q p" for p
    using permission_query_candidates [OF assms(2)] by blast
  show ?thesis
    using table_First [OF assms(1) r] b C by (cases r) auto
qed

text \<open>
  C16: access is decided by the most specific of the stored permissions that cover the record, a denial
  winning over a grant of the same length; the owner always has access, and without a covering permission
  access is denied.
\<close>

theorem most_specific_permission_decides:
  assumes "table_laws T rows" and "rows_ok (rows d)"
    and "sqlite_HasPermission T requester owner nsid rkey d = Ok b"
  shows "b \<longleftrightarrow> requester = owner \<or>
     (\<exists>p \<in> candidates (rows d) requester owner (record_object nsid rkey). perm_Effect p = ''allow'' \<and>
        (\<forall>q \<in> candidates (rows d) requester owner (record_object nsid rkey).
           length (perm_Object q) \<le> length (perm_Object p) \<and>
           (length (perm_Object q) = length (perm_Object p) \<longrightarrow> perm_Effect q \<noteq> ''deny'')))"
proof (cases "requester = owner")
  case True
  then show ?thesis using assms(3) by (simp add: sqlite_HasPermission_def)
next
  case False
  let ?C = "candidates (rows d) requester owner (record_object nsid rkey)"
  have eff: "perm_Effect p = ''allow'' \<or> perm_Effect p = ''deny''" if "p \<in> ?C" for p
    using that assms(2) by (auto simp: candidates_def rows_ok_def)
  from HasPermission_first [OF assms(1,2) False assms(3)] show ?thesis
  proof (elim disjE bexE conjE)
    fix p assume p: "p \<in> ?C" and b: "b = (perm_Effect p = ''allow'')"
      and best: "\<forall>q \<in> ?C. \<not> specific_first q p"
    have best': "length (perm_Object q) \<le> length (perm_Object p)" if "q \<in> ?C" for q
      using best that by (auto simp: specific_first_def)
    show ?thesis
    proof
      assume b
      with p b best best' show "requester = owner \<or> (\<exists>p \<in> ?C. perm_Effect p = ''allow'' \<and>
          (\<forall>q \<in> ?C. length (perm_Object q) \<le> length (perm_Object p) \<and>
             (length (perm_Object q) = length (perm_Object p) \<longrightarrow> perm_Effect q \<noteq> ''deny'')))"
        by (intro disjI2 bexI [of _ p]) (auto simp: specific_first_def)
    next
      assume "requester = owner \<or> (\<exists>p \<in> ?C. perm_Effect p = ''allow'' \<and>
          (\<forall>q \<in> ?C. length (perm_Object q) \<le> length (perm_Object p) \<and>
             (length (perm_Object q) = length (perm_Object p) \<longrightarrow> perm_Effect q \<noteq> ''deny'')))"
      with False obtain x where x: "x \<in> ?C" "length (perm_Object p) \<le> length (perm_Object x)"
        "length (perm_Object p) = length (perm_Object x) \<longrightarrow> perm_Effect p \<noteq> ''deny''"
        using p by blast
      with best' [OF x(1)] have "perm_Effect p \<noteq> ''deny''" by simp
      then show b using eff [OF p] b by blast
    qed
  qed (use False in auto)
qed

section \<open>Grants\<close>

text \<open>The store itself only writes grants; then a table is the set of grants it holds.\<close>

definition grant :: "string \<Rightarrow> string \<Rightarrow> string \<Rightarrow> permission" where
  "grant grantee owner nsid =
     \<lparr>perm_Grantee = grantee, perm_Owner = owner, perm_Object = nsid, perm_Effect = ''allow''\<rparr>"

definition only_grants :: "permission set \<Rightarrow> bool" where
  "only_grants R \<longleftrightarrow> (\<forall>p \<in> R. no_wildcard (perm_Object p) \<and> perm_Effect p = ''allow'')"

definition may_read :: "permission set \<Rightarrow> string \<Rightarrow> string \<Rightarrow> string \<Rightarrow> string \<Rightarrow> bool" where
  "may_read R requester owner nsid rkey \<longleftrightarrow>
     requester = owner \<or> (\<exists>p \<in> R. perm_Grantee p = requester \<and> perm_Owner p = owner \<and>
       covers (perm_Object p) (record_object nsid rkey))"

lemma exact_query_grant:
  "perm_Effect p = ''allow'' \<Longrightarrow> exact_query g w n p \<longleftrightarrow> p = grant g w n"
  by (cases p) (auto simp: exact_query_def grant_def)

lemma sqlite_Add_rows:
  assumes "table_laws T rows" and "only_grants (rows d)"
    and "sqlite_AddLexiconReadPermission T g w n d = (d', Ok ())"
  shows "rows d' = insert (grant g w n) (rows d)"
proof -
  have create: "tbl_FirstOrCreate T (exact_query g w n) ''allow'' (grant g w n) d = (d', Ok ())"
    using assms(3) by (auto simp: sqlite_AddLexiconReadPermission_def grant_def split: prod.splits)
  have q: "exact_query g w n x \<longleftrightarrow> x = grant g w n" if "x \<in> rows d" for x
    using assms(2) that by (simp add: only_grants_def exact_query_grant)
  have same: "(grant g w n)\<lparr>perm_Effect := ''allow''\<rparr> = grant g w n" by (simp add: grant_def)
  show ?thesis
    using table_FirstOrCreate [OF assms(1) create] q same by (auto split: if_splits)
qed

lemma sqlite_Remove_rows:
  assumes "table_laws T rows" and "only_grants (rows d)"
    and "sqlite_RemoveLexiconReadPermission T g w n d = (d', Ok ())"
  shows "rows d' = rows d - {grant g w n}"
proof -
  have "tbl_Delete T (exact_query g w n) d = (d', Ok ())"
    using assms(3) by (auto simp: sqlite_RemoveLexiconReadPermission_def split: prod.splits)
  from table_Delete [OF assms(1) this] assms(2) show ?thesis
    by (auto simp: only_grants_def exact_query_grant)
qed

lemma HasPermission_may_read:
  assumes "table_laws T rows" and "only_grants (rows d)"
    and "sqlite_HasPermission T requester owner nsid rkey d = Ok b"
  shows "b = may_read (rows d) requester owner nsid rkey"
proof (cases "requester = owner")
  case True
  then show ?thesis using assms(3) by (simp add: sqlite_HasPermission_def may_read_def)
next
  case False
  have ok: "rows_ok (rows d)" using assms(2) by (auto simp: rows_ok_def only_grants_def)
  from HasPermission_first [OF assms(1) ok False assms(3)] False assms(2)
  show ?thesis by (auto simp: may_read_def candidates_def only_grants_def)
qed

text \<open>
  C13: the SQLite store refines a set of grants: adding inserts one, removing deletes it and no other,
  and a record may be read exactly by its owner and by those who hold a grant on it or above it.
\<close>

theorem sqlite_store_refines_grants:
  assumes "table_laws T rows" and "only_grants (rows d)" and "no_wildcard n"
  shows "(\<forall>b. sqlite_HasPermission T r w nsid rkey d = Ok b \<longrightarrow> b = may_read (rows d) r w nsid rkey) \<and>
     (\<forall>d'. sqlite_AddLexiconReadPermission T g w n d = (d', Ok ()) \<longrightarrow>
        only_grants (rows d') \<and> rows d' = insert (grant g w n) (rows d)) \<and>
     (\<forall>d'. sqlite_RemoveLexiconReadPermission T g w n d = (d', Ok ()) \<longrightarrow>
        only_grants (rows d') \<and> rows d' = rows d - {grant g w n})"
proof -
  have "only_grants (insert (grant g w n) (rows d))" "only_grants (rows d - {grant g w n})"
    using assms(2,3) by (auto simp: only_grants_def grant_def)
  then show ?thesis
    using HasPermission_may_read [OF assms(1,2)] sqlite_Add_rows [OF assms(1,2)]
      sqlite_Remove_rows [OF assms(1,2)] by auto
qed

text \<open>The listing of an owner's permissions.\<close>

definition entry :: "(string, string list) fmap \<Rightarrow> string \<Rightarrow> string list" where
  "entry m k = (case fmlookup m k of None \<Rightarrow> [] | Some gs \<Rightarrow> gs)"

lemma entry_append_entry: "entry (append_entry m k g) n = (if n = k then entry m n @ [g] else entry m n)"
  by (simp add: entry_def append_entry_def)

lemma entry_fold:
  "set (entry (fold (\<lambda>p m. append_entry m (perm_Object p) (perm_Grantee p)) ps m) n) =
     set (entry m n) \<union> {perm_Grantee p |p. p \<in> set ps \<and> perm_Object p = n}"
  by (induction ps arbitrary: m) (auto simp: entry_append_entry)

text \<open>
  The permissions that an owner is shown are exactly the stored grants: a grantee is listed under an
  object if and only if the table holds that grant.
\<close>

theorem listing_shows_the_grants:
  assumes "table_laws T rows" and "only_grants (rows d)"
    and "sqlite_ListReadPermissionsByLexicon T w d = Ok m"
  shows "g \<in> set (entry m n) \<longleftrightarrow> grant g w n \<in> rows d"
proof -
  from assms(3) obtain ps where ps: "tbl_Find T (\<lambda>p. perm_Owner p = w \<and> perm_Effect p = ''allow'') d = Ok ps"
    and m: "m = fold (\<lambda>p m. append_entry m (perm_Object p) (perm_Grantee p)) ps fmempty"
    by (auto simp: sqlite_ListReadPermissionsByLexicon_def bind_res_Ok_iff)
  have "g \<in> set (entry m n) \<longleftrightarrow>
      (\<exists>p \<in> rows d. perm_Owner p = w \<and> perm_Effect p = ''allow'' \<and> perm_Object p = n \<and> perm_Grantee p = g)"
    unfolding m entry_fold table_Find [OF assms(1) ps] by (auto simp: entry_def)
  also have "\<dots> \<longleftrightarrow> (\<exists>p \<in> rows d. p = grant g w n)"
    by (intro bex_cong refl) (auto simp: grant_def)
  also have "\<dots> \<longleftrightarrow> grant g w n \<in> rows d" by simp
  finally show ?thesis .
qed

section \<open>The interface Store\<close>

text \<open>
  What a client of \<open>Store\<close> can count on where adding a permission cannot fail: it gives the grantee access
  to the records of the lexicon, and changes nobody else's access.
\<close>

locale read_grants =
  fixes has :: "string \<Rightarrow> string \<Rightarrow> string \<Rightarrow> string \<Rightarrow> 'd \<Rightarrow> (bool, perm_error) res"
    and add :: "string \<Rightarrow> string \<Rightarrow> string \<Rightarrow> 'd \<Rightarrow> 'd \<times> (unit, perm_error) res"
  assumes add_Ok: "snd (add g w n d) = Ok ()"
    and has_add: "has r v m k (fst (add g w n d)) =
      (if r = g \<and> v = w \<and> m = n then Ok True else has r v m k d)"
begin

lemma has_after_adds:
  "has r v m k (fold (\<lambda>(g, w, n) d. fst (add g w n d)) gs d) =
     (if (r, v, m) \<in> set gs then Ok True else has r v m k d)"
  by (induction gs arbitrary: d) (auto simp: has_add split: if_splits)

end

interpretation dummy_grants: read_grants dummy_HasPermission dummy_AddLexiconReadPermission
  by unfold_locales
    (auto simp: dummy_HasPermission_def dummy_AddLexiconReadPermission_def dummy_dids_def Let_def
      split: option.splits)

text \<open>
  In a store filled from scratch with \<open>AddLexiconReadPermission\<close>, a requester has access to the
  records of a lexicon exactly when that permission was added; there is no access by default.
\<close>

theorem dummy_store_grants:
  "dummy_HasPermission r v m k
     (fold (\<lambda>(g, w, n) d. fst (dummy_AddLexiconReadPermission g w n d)) gs NewDummyStore) =
   Ok ((r, v, m) \<in> set gs)"
  by (simp add: dummy_grants.has_after_adds) (simp add: dummy_HasPermission_def dummy_dids_def NewDummyStore_def)

section \<open>The theorems applied\<close>

text \<open>A table whose world is the list of its rows.\<close>

definition list_table :: "permission list perm_table" where
  "list_table =
     \<lparr>tbl_First = (\<lambda>q before d.
        (case find (\<lambda>p. q p \<and> list_all (\<lambda>x. q x \<longrightarrow> \<not> before x p) d) d of
           Some p \<Rightarrow> Ok (Some p)
         | None \<Rightarrow> if list_ex q d then Err () else Ok None)),
      tbl_Find = (\<lambda>q d. Ok (filter q d)),
      tbl_FirstOrCreate = (\<lambda>q eff p d. if list_ex q d then (d, Err ()) else (p # d, Ok ())),
      tbl_Delete = (\<lambda>q d. (filter (\<lambda>p. \<not> q p) d, Ok ()))\<rparr>"

lemma list_table_laws: "table_laws list_table set"
  unfolding table_laws_def
  by (intro conjI)
    (auto simp: list_table_def find_None_iff find_Some_iff list_ex_iff list_all_iff
      split: option.splits if_splits)

definition sample_grants :: "permission list" where
  "sample_grants = [grant ''alice'' ''bob'' ''com.habitat'',
     \<lparr>perm_Grantee = ''alice'', perm_Owner = ''bob'', perm_Object = ''com.habitat.posts'', perm_Effect = ''deny''\<rparr>]"

lemma most_specific_permission_decides_witness:
  "sqlite_HasPermission list_table ''alice'' ''bob'' ''com.habitat.posts'' ''r1'' sample_grants = Ok False \<and>
   \<not> (\<exists>p \<in> candidates (set sample_grants) ''alice'' ''bob'' (record_object ''com.habitat.posts'' ''r1'').
        perm_Effect p = ''allow'' \<and>
        (\<forall>q \<in> candidates (set sample_grants) ''alice'' ''bob'' (record_object ''com.habitat.posts'' ''r1'').
           length (perm_Object q) \<le> length (perm_Object p) \<and>
           (length (perm_Object q) = length (perm_Object p) \<longrightarrow> perm_Effect q \<noteq> ''deny'')))"
proof -
  have ok: "rows_ok (set sample_grants)"
    by (simp add: rows_ok_def sample_grants_def grant_def no_wildcard_def)
  have run: "sqlite_HasPermission list_table ''alice'' ''bob'' ''com.habitat.posts'' ''r1'' sample_grants = Ok False"
    by (simp add: sqlite_HasPermission_def list_table_def sample_grants_def grant_def permission_query_def
        object_matches_def record_object_def specific_first_def ascii_lower_def)
  from most_specific_permission_decides [OF list_table_laws ok run] run show ?thesis by simp
qed

lemma sqlite_store_refines_grants_witness:
  "\<exists>d'. sqlite_AddLexiconReadPermission list_table ''carol'' ''bob'' ''com.x'' [] = (d', Ok ()) \<and>
     set d' = {grant ''carol'' ''bob'' ''com.x''} \<and> only_grants (set d')"
proof -
  obtain d' where add: "sqlite_AddLexiconReadPermission list_table ''carol'' ''bob'' ''com.x'' [] = (d', Ok ())"
    by (simp add: sqlite_AddLexiconReadPermission_def list_table_def)
  have "only_grants (set [])" "no_wildcard ''com.x''" by (simp_all add: only_grants_def no_wildcard_def)
  from sqlite_store_refines_grants [OF list_table_laws this, where g = "''carol''" and w = "''bob''"
      and r = "''alice''" and nsid = "''com.x''" and rkey = "''r''"] add
  have "only_grants (set d')" "set d' = insert (grant ''carol'' ''bob'' ''com.x'') (set [])" by blast+
  with add show ?thesis by auto
qed

lemma listing_shows_the_grants_witness:
  "\<exists>m. sqlite_ListReadPermissionsByLexicon list_table ''bob'' [grant ''carol'' ''bob'' ''com.x''] = Ok m \<and>
     ''carol'' \<in> set (entry m ''com.x'') \<and> ''dave'' \<notin> set (entry m ''com.x'')"
proof -
  let ?d = "[grant ''carol'' ''bob'' ''com.x'']"
  obtain m where m: "sqlite_ListReadPermissionsByLexicon list_table ''bob'' ?d = Ok m"
    by (simp add: sqlite_ListReadPermissionsByLexicon_def list_table_def)
  have g: "only_grants (set ?d)" by (simp add: only_grants_def grant_def no_wildcard_def)
  from listing_shows_the_grants [OF list_table_laws g m] m show ?thesis by (auto simp: grant_def)
qed

end
