(* ===== verification/Privi.thy ===== *)
theory Privi
  imports Json Permissions Http "HOL-Library.List_Lexorder" "HOL-Library.Char_ord"
begin

text \<open>
  Private data: \<open>internal/privi\<close> (\<open>repo.go\<close>, \<open>privi.go\<close>, \<open>server.go\<close>, \<open>noop_encrypter.go\<close>,
  \<open>signing_method.go\<close>) and \<open>internal/utils\<close>.

  The records and blobs are kept by gorm and SQLite: \<open>repo_db\<close> is the record of the queries that the
  repository makes, and \<open>repo_laws\<close> what it relies on.  A record is kept as its JSON document.  The
  identity directory, the JWT library, the form decoder, CIDs and the validation of atproto data are
  parameters, collected in \<open>privi_env\<close>.
\<close>

section \<open>The repository of records and blobs\<close>

record repo_record =
  rec_Did :: string
  rec_Rkey :: string
  rec_Rec :: json

record repo_blob =
  blob_Did :: string
  blob_Cid :: string
  blob_MimeType :: string
  blob_Blob :: "char list"

datatype privi_error =
    InvalidRecord
  | DatabaseError
  | ErrRecordNotFound
  | BlobTooBig nat
  | CidError
  | ErrUnauthorized
  | PermissionError perm_error
  | BadBody
  | BadIdentifier
  | LookupFailed
  | OnlyOwnerPuts
  | BadQuery
  | NoMimeType
  | BadToken
  | NoIssuer

record 'd repo_db =
  rdb_Upsert :: "repo_record \<Rightarrow> 'd \<Rightarrow> 'd \<times> (unit, unit) res"
  rdb_First :: "string \<Rightarrow> string \<Rightarrow> 'd \<Rightarrow> (repo_record option, unit) res"
  rdb_Find :: "(repo_record \<Rightarrow> bool) \<Rightarrow> int option \<Rightarrow> 'd \<Rightarrow> (repo_record list, unit) res"
  rdb_CreateBlob :: "repo_blob \<Rightarrow> 'd \<Rightarrow> 'd \<times> (unit, unit) res"
  rdb_FirstBlob :: "string \<Rightarrow> string \<Rightarrow> 'd \<Rightarrow> (repo_blob option, unit) res"

record list_params =
  lp_Collection :: string
  lp_Cursor :: string
  lp_Limit :: int
  lp_Repo :: string
  lp_Reverse :: bool

text \<open>The two outside functions of the repository: \<open>atdata.Validate\<close>, and the CID of a blob.\<close>

record 'd repo =
  repo_db :: "'d repo_db"
  repo_maxBlobSize :: nat
  atdata_Validate :: "(string, json) fmap option \<Rightarrow> bool"
  cid_Sum :: "char list \<Rightarrow> string option"

definition NewSQLiteRepo ::
  "'d repo_db \<Rightarrow> ((string, json) fmap option \<Rightarrow> bool) \<Rightarrow> (char list \<Rightarrow> string option) \<Rightarrow> 'd repo"
where
  "NewSQLiteRepo db validate cidSum =
     \<lparr>repo_db = db, repo_maxBlobSize = 0, atdata_Validate = validate, cid_Sum = cidSum\<rparr>"

definition repo_putRecord ::
  "'d repo \<Rightarrow> string \<Rightarrow> string \<Rightarrow> (string, json) fmap option \<Rightarrow> bool option \<Rightarrow> 'd
   \<Rightarrow> 'd \<times> (unit, privi_error) res"
where
  "repo_putRecord R did rkey rec validate d =
     (if validate = Some True \<and> \<not> atdata_Validate R rec then (d, Err InvalidRecord)
      else
        (let (d', r) = rdb_Upsert (repo_db R) \<lparr>rec_Did = did, rec_Rkey = rkey, rec_Rec = enc_map id rec\<rparr> d in
         (d', map_err (\<lambda>_. DatabaseError) r)))"

definition repo_getRecord ::
  "'d repo \<Rightarrow> string \<Rightarrow> string \<Rightarrow> 'd \<Rightarrow> (repo_record, privi_error) res"
where
  "repo_getRecord R did rkey d =
     bind_res (map_err (\<lambda>_. DatabaseError) (rdb_First (repo_db R) did rkey d)) (\<lambda>row.
       ok_or ErrRecordNotFound row)"

record blob_ref =
  ref_Cid :: string
  ref_MimeType :: string
  ref_Size :: nat

definition repo_uploadBlob ::
  "'d repo \<Rightarrow> string \<Rightarrow> char list \<Rightarrow> string \<Rightarrow> 'd \<Rightarrow> 'd \<times> (blob_ref, privi_error) res"
where
  "repo_uploadBlob R did bytes mimeType d =
     (if length bytes > repo_maxBlobSize R then (d, Err (BlobTooBig (repo_maxBlobSize R)))
      else
        (case cid_Sum R bytes of
           None \<Rightarrow> (d, Err CidError)
         | Some cid \<Rightarrow>
             (case rdb_CreateBlob (repo_db R)
                     \<lparr>blob_Did = did, blob_Cid = cid, blob_MimeType = mimeType, blob_Blob = bytes\<rparr> d of
                (d', Ok _) \<Rightarrow>
                  (d', Ok \<lparr>ref_Cid = cid, ref_MimeType = mimeType, ref_Size = length bytes\<rparr>)
              | (d', Err _) \<Rightarrow> (d', Err DatabaseError)
              | (d', Panic) \<Rightarrow> (d', Panic))))"

definition repo_getBlob ::
  "'d repo \<Rightarrow> string \<Rightarrow> string \<Rightarrow> 'd \<Rightarrow> (string \<times> char list, privi_error) res"
where
  "repo_getBlob R did cid d =
     bind_res (map_err (\<lambda>_. DatabaseError) (rdb_FirstBlob (repo_db R) did cid d)) (\<lambda>row.
     bind_res (ok_or ErrRecordNotFound row) (\<lambda>b. Ok (blob_MimeType b, blob_Blob b)))"

text \<open>The conditions that \<open>listRecords\<close> puts together.\<close>

definition allow_condition :: "string \<Rightarrow> string \<Rightarrow> bool" where
  "allow_condition a rkey \<longleftrightarrow>
     (if HasSuffix a ''*'' then sql_like (TrimSuffix a ''*'' @ ''%'') rkey else rkey = a)"

definition list_condition ::
  "list_params \<Rightarrow> string list \<Rightarrow> string list \<Rightarrow> repo_record \<Rightarrow> bool"
where
  "list_condition params allow deny r \<longleftrightarrow>
     rec_Did r = lp_Repo params \<and>
     list_ex (\<lambda>a. allow_condition a (rec_Rkey r)) allow \<and>
     list_all (\<lambda>a. \<not> allow_condition a (rec_Rkey r)) deny \<and>
     (lp_Cursor params \<noteq> '''' \<longrightarrow> lp_Cursor params < rec_Rkey r)"

definition repo_listRecords ::
  "'d repo \<Rightarrow> list_params \<Rightarrow> string list \<Rightarrow> string list \<Rightarrow> 'd \<Rightarrow> (repo_record list, privi_error) res"
where
  "repo_listRecords R params allow deny d =
     (if allow = [] then Ok []
      else
        map_err (\<lambda>_. DatabaseError)
          (rdb_Find (repo_db R) (list_condition params allow deny)
             (if lp_Limit params = 0 then None else Some (lp_Limit params)) d))"

section \<open>The store\<close>

text \<open>\<open>permissions.Store\<close> as its operations.\<close>

record 'p perm_store =
  st_HasPermission :: "string \<Rightarrow> string \<Rightarrow> string \<Rightarrow> string \<Rightarrow> 'p \<Rightarrow> (bool, perm_error) res"
  st_Add :: "string \<Rightarrow> string \<Rightarrow> string \<Rightarrow> 'p \<Rightarrow> 'p \<times> (unit, perm_error) res"
  st_Remove :: "string \<Rightarrow> string \<Rightarrow> string \<Rightarrow> 'p \<Rightarrow> 'p \<times> (unit, perm_error) res"
  st_ListByLexicon :: "string \<Rightarrow> 'p \<Rightarrow> ((string, string list) fmap, perm_error) res"
  st_ListByUser :: "string \<Rightarrow> string \<Rightarrow> string \<Rightarrow> 'p \<Rightarrow> (string list \<times> string list, perm_error) res"

definition sqlite_store :: "'d perm_table \<Rightarrow> 'd perm_store" where
  "sqlite_store T =
     \<lparr>st_HasPermission = sqlite_HasPermission T, st_Add = sqlite_AddLexiconReadPermission T,
      st_Remove = sqlite_RemoveLexiconReadPermission T,
      st_ListByLexicon = sqlite_ListReadPermissionsByLexicon T,
      st_ListByUser = sqlite_ListReadPermissionsByUser T\<rparr>"

definition dummy_perm_store :: "dummy_store perm_store" where
  "dummy_perm_store =
     \<lparr>st_HasPermission = dummy_HasPermission, st_Add = dummy_AddLexiconReadPermission,
      st_Remove = dummy_RemoveLexiconReadPermission,
      st_ListByLexicon = dummy_ListReadPermissionsByLexicon,
      st_ListByUser = dummy_ListReadPermissionsByUser\<rparr>"

definition record_key :: "string \<Rightarrow> string \<Rightarrow> string" where
  "record_key collection rkey = collection @ ''.'' @ rkey"

definition store_putRecord ::
  "'d repo \<Rightarrow> string \<Rightarrow> string \<Rightarrow> (string, json) fmap option \<Rightarrow> string \<Rightarrow> bool option \<Rightarrow> 'd
   \<Rightarrow> 'd \<times> (unit, privi_error) res"
where
  "store_putRecord R did collection rec rkey validate d =
     repo_putRecord R did (record_key collection rkey) rec validate d"

definition store_getRecord ::
  "'p perm_store \<Rightarrow> 'd repo \<Rightarrow> string \<Rightarrow> string \<Rightarrow> string \<Rightarrow> string \<Rightarrow> 'p \<Rightarrow> 'd
   \<Rightarrow> (repo_record, privi_error) res"
where
  "store_getRecord P R collection rkey targetDID callerDID p d =
     bind_res (map_err PermissionError (st_HasPermission P callerDID targetDID collection rkey p)) (\<lambda>authz.
       if \<not> authz then Err ErrUnauthorized
       else repo_getRecord R targetDID (record_key collection rkey) d)"

definition store_listRecords ::
  "'p perm_store \<Rightarrow> 'd repo \<Rightarrow> list_params \<Rightarrow> string \<Rightarrow> 'p \<Rightarrow> 'd
   \<Rightarrow> (repo_record list, privi_error) res"
where
  "store_listRecords P R params callerDID p d =
     bind_res (map_err PermissionError
       (st_ListByUser P (lp_Repo params) callerDID (lp_Collection params) p)) (\<lambda>(allow, deny).
       repo_listRecords R params allow deny d)"

section \<open>Encryption and signatures\<close>

text \<open>The only encrypter in use does nothing.\<close>

definition noop_Encrypt :: "string \<Rightarrow> char list \<Rightarrow> (char list, privi_error) res" where
  "noop_Encrypt rkey bytes = Ok bytes"

definition noop_Decrypt :: "string \<Rightarrow> char list \<Rightarrow> (char list, privi_error) res" where
  "noop_Decrypt rkey encrypted = Ok encrypted"

datatype sig_error = ErrWrongKeyFormat | ErrHashUnavailable | ErrVerification

text \<open>A key is of the K256 type or another; verification itself is that of the crypto library.\<close>

datatype 'k sig_key = K256 'k | OtherKey

definition secp256k1_Verify ::
  "('k \<Rightarrow> string \<Rightarrow> string \<Rightarrow> bool) \<Rightarrow> bool \<Rightarrow> string \<Rightarrow> string \<Rightarrow> 'k sig_key \<Rightarrow> (unit, sig_error) res"
where
  "secp256k1_Verify HashAndVerify hashAvailable signingString signature key =
     (case key of
        OtherKey \<Rightarrow> Err ErrWrongKeyFormat
      | K256 pub \<Rightarrow>
          if \<not> hashAvailable then Err ErrHashUnavailable
          else if HashAndVerify pub signingString signature then Ok () else Err ErrVerification)"

section \<open>The server\<close>

definition LogAndHTTPError :: "'b \<Rightarrow> nat \<Rightarrow> 'b response \<Rightarrow> 'b response" where
  "LogAndHTTPError err code w = http_Error err code w"

record request =
  rq_Header :: "string \<Rightarrow> string"
  rq_Body :: "json option"
  rq_Bytes :: "char list option"
  rq_Query :: string

record get_params =
  gp_Collection :: string
  gp_Repo :: string
  gp_Rkey :: string

datatype 'o privi_text = ErrorText privi_error | OutputText json | OAuthText 'o

type_synonym 'o privi_response = "'o privi_text response"

text \<open>
  \<open>sv_jwt_Parse token key\<close>: the issuer of the token, when \<open>jwt.Parse\<close> accepts it with the key that
  \<open>key\<close> finds for that issuer (the options admit ES256K only and switch the validation of the claims off,
  the expiry included).  \<open>sv_PublicKey\<close> is \<open>LookupDID\<close> followed by \<open>PublicKey\<close>, \<open>sv_Lookup\<close> the DID of the
  identity found.  \<open>sv_oauth_Validate\<close> is \<open>OAuthServer.Validate\<close>, which writes its own
  error response (texts \<open>'o\<close>).
\<close>

record ('d, 'p, 'k, 'o) privi_server =
  sv_perms :: "'p perm_store"
  sv_repo :: "'d repo"
  sv_ParseAtIdentifier :: "string \<Rightarrow> string option"
  sv_Lookup :: "string \<Rightarrow> string option"
  sv_PublicKey :: "string \<Rightarrow> 'k option"
  sv_jwt_Parse :: "string \<Rightarrow> (string \<Rightarrow> 'k option) \<Rightarrow> string option"
  sv_oauth_Validate :: "request \<Rightarrow> 'o privi_response \<Rightarrow> ('o privi_response \<times> string option, privi_error) res"
  sv_decode_get :: "string \<Rightarrow> get_params option"
  sv_decode_list :: "string \<Rightarrow> list_params option"

text \<open>\<open>strings.Split\<close> for a separator that is not empty.\<close>

function split_on :: "string \<Rightarrow> string \<Rightarrow> string \<Rightarrow> string list" where
  "split_on sep acc s =
     (if s = [] \<or> sep = [] then [rev acc @ s]
      else if HasPrefix s sep then rev acc # split_on sep [] (drop (length sep) s)
      else split_on sep (hd s # acc) (tl s))"
  by auto
termination by (relation "measure (\<lambda>(sep, acc, s). length s)") auto

declare split_on.simps [simp del]

text \<open>The second part of a header without the separator is out of range.\<close>

definition getCaller ::
  "('d, 'p, 'k, 'o) privi_server \<Rightarrow> request \<Rightarrow> (string, privi_error) res"
where
  "getCaller S r =
     (let parts = split_on ''Bearer '' [] (rq_Header r ''Authorization'') in
      if length parts < 2 then Panic
      else ok_or BadToken (sv_jwt_Parse S (parts ! 1) (sv_PublicKey S)))"

text \<open>\<open>getAuthedUser\<close>: the response so far and, when the caller is known, its DID.\<close>

definition getAuthedUser ::
  "('d, 'p, 'k, 'o) privi_server \<Rightarrow> request \<Rightarrow> 'o privi_response
   \<Rightarrow> ('o privi_response \<times> string option, privi_error) res"
where
  "getAuthedUser S r w =
     (if rq_Header r ''Habitat-Auth-Method'' = ''oauth'' then sv_oauth_Validate S r w
      else
        (case getCaller S r of
           Ok did \<Rightarrow> Ok (w, Some did)
         | Err e \<Rightarrow> Ok (LogAndHTTPError (ErrorText e) StatusForbidden w, None)
         | Panic \<Rightarrow> Panic))"

text \<open>Running the rest of a handler for an authenticated caller; \<open>None\<close> is a panic.\<close>

definition with_user ::
  "('d, 'p, 'k, 'o) privi_server \<Rightarrow> request \<Rightarrow> 'o privi_response
   \<Rightarrow> (string \<Rightarrow> 'o privi_response \<Rightarrow> 'd \<times> 'o privi_response option) \<Rightarrow> 'd \<Rightarrow> 'd \<times> 'o privi_response option"
where
  "with_user S r w f d =
     (case getAuthedUser S r w of
        Ok (w', Some did) \<Rightarrow> f did w'
      | Ok (w', None) \<Rightarrow> (d, Some w')
      | Err e \<Rightarrow> (d, None)
      | Panic \<Rightarrow> (d, None))"

record put_request =
  pr_Collection :: string
  pr_Record :: "(string, json) fmap option"
  pr_Repo :: string
  pr_Rkey :: string

definition dec_put_request :: "json option \<Rightarrow> (put_request, decode_error) res" where
  "dec_put_request b =
     bind_res (ok_or NotAnObject (as_object b)) (\<lambda>m.
     bind_res (dec_field m ''collection'') (\<lambda>c.
     bind_res (dec_map Ok (fmlookup m ''record'')) (\<lambda>rec.
     bind_res (dec_field m ''repo'') (\<lambda>repo.
     bind_res (dec_field m ''rkey'') (\<lambda>rkey.
     bind_res
       (case fmlookup m ''validate'' of
          None \<Rightarrow> Ok () | Some JNull \<Rightarrow> Ok () | Some (JBool _) \<Rightarrow> Ok () | Some _ \<Rightarrow> Err TypeMismatch) (\<lambda>_.
       Ok \<lparr>pr_Collection = c, pr_Record = rec, pr_Repo = repo, pr_Rkey = rkey\<rparr>))))))"

definition habitat_uri :: "string \<Rightarrow> string \<Rightarrow> string \<Rightarrow> string" where
  "habitat_uri did collection rkey = ''habitat://'' @ did @ ''/'' @ collection @ ''/'' @ rkey"

text \<open>The target DID that a repository parameter (a handle or a DID) stands for.\<close>

definition resolve_repo ::
  "('d, 'p, 'k, 'o) privi_server \<Rightarrow> string \<Rightarrow> (string, privi_error) res"
where
  "resolve_repo S repo =
     bind_res (ok_or BadIdentifier (sv_ParseAtIdentifier S repo)) (\<lambda>atid.
       ok_or LookupFailed (sv_Lookup S atid))"

text \<open>
  \<open>PutRecord\<close>: a nil record map is stored as JSON \<open>null\<close>.  \<open>uuid\<close> is the key made up for an empty one.
\<close>

definition PutRecord ::
  "('d, 'p, 'k, 'o) privi_server \<Rightarrow> string \<Rightarrow> request \<Rightarrow> 'd \<Rightarrow> 'd \<times> 'o privi_response option"
where
  "PutRecord S uuid r d =
     with_user S r empty_response (\<lambda>callerDID w.
       (case dec_put_request (rq_Body r) of
          Err e \<Rightarrow> (d, Some (LogAndHTTPError (ErrorText BadBody) StatusBadRequest w))
        | Panic \<Rightarrow> (d, None)
        | Ok req \<Rightarrow>
            (case resolve_repo S (pr_Repo req) of
               Err e \<Rightarrow> (d, Some (LogAndHTTPError (ErrorText e) StatusBadRequest w))
             | Panic \<Rightarrow> (d, None)
             | Ok owner \<Rightarrow>
                 if owner \<noteq> callerDID
                 then (d, Some (LogAndHTTPError (ErrorText OnlyOwnerPuts) 405 w))
                 else
                   (let rkey = (if pr_Rkey req = '''' then uuid else pr_Rkey req) in
                    (case store_putRecord (sv_repo S) owner (pr_Collection req)
                            (pr_Record req) rkey (Some True) d of
                       (d', Err e) \<Rightarrow> (d', Some (LogAndHTTPError (ErrorText e) StatusInternalServerError w))
                     | (d', Panic) \<Rightarrow> (d', None)
                     | (d', Ok _) \<Rightarrow>
                         (d', Some (Write (OutputText (JObj (fmap_of_list
                            [(''uri'', JStr (habitat_uri owner (pr_Collection req) rkey))]))) w))))))) d"

definition GetRecord ::
  "('d, 'p, 'k, 'o) privi_server \<Rightarrow> request \<Rightarrow> 'p \<Rightarrow> 'd \<Rightarrow> 'o privi_response option"
where
  "GetRecord S r p d =
     snd (with_user S r empty_response (\<lambda>callerDID w.
       (d,
        (case sv_decode_get S (rq_Query r) of
           None \<Rightarrow> Some (LogAndHTTPError (ErrorText BadQuery) StatusBadRequest w)
         | Some params \<Rightarrow>
             (case resolve_repo S (gp_Repo params) of
                Err e \<Rightarrow> Some (LogAndHTTPError (ErrorText e) StatusBadRequest w)
              | Panic \<Rightarrow> None
              | Ok targetDID \<Rightarrow>
                  (case store_getRecord (sv_perms S) (sv_repo S) (gp_Collection params) (gp_Rkey params)
                          targetDID callerDID p d of
                     Err e \<Rightarrow> Some (LogAndHTTPError (ErrorText e) StatusInternalServerError w)
                   | Panic \<Rightarrow> None
                   | Ok record \<Rightarrow>
                       Some (Write (OutputText (JObj (fmap_of_list
                         [(''uri'', JStr (habitat_uri targetDID (gp_Collection params) (gp_Rkey params))),
                          (''value'', rec_Rec record)]))) w)))))) d)"

definition UploadBlob ::
  "('d, 'p, 'k, 'o) privi_server \<Rightarrow> request \<Rightarrow> 'd \<Rightarrow> 'd \<times> 'o privi_response option"
where
  "UploadBlob S r d =
     with_user S r empty_response (\<lambda>callerDID w.
       (let mimeType = rq_Header r ''Content-Type'' in
        if mimeType = '''' then (d, Some (LogAndHTTPError (ErrorText NoMimeType) StatusInternalServerError w))
        else
          (case rq_Bytes r of
             None \<Rightarrow> (d, Some (LogAndHTTPError (ErrorText BadBody) StatusInternalServerError w))
           | Some bytes \<Rightarrow>
               (case repo_uploadBlob (sv_repo S) callerDID bytes mimeType d of
                  (d', Err e) \<Rightarrow> (d', Some (LogAndHTTPError (ErrorText e) StatusInternalServerError w))
                | (d', Panic) \<Rightarrow> (d', None)
                | (d', Ok b) \<Rightarrow>
                    (d', Some (Write (OutputText (JObj (fmap_of_list [(''blob'', JObj (fmap_of_list
                       [(''cid'', JObj (fmap_of_list [(''$link'', JStr (ref_Cid b))])),
                        (''mimetype'', JStr (ref_MimeType b)),
                        (''size'', JNum (of_nat (ref_Size b)))]))]))) w)))))) d"

definition list_entry :: "list_params \<Rightarrow> repo_record \<Rightarrow> json" where
  "list_entry params r =
     JObj (fmap_of_list
       [(''cid'', JStr ''''),
        (''uri'', JStr (habitat_uri (lp_Repo params) (lp_Collection params)
            (last (split_byte (CHR ''.'') (rec_Rkey r))))),
        (''value'', rec_Rec r)])"

definition ListRecords ::
  "('d, 'p, 'k, 'o) privi_server \<Rightarrow> request \<Rightarrow> 'p \<Rightarrow> 'd \<Rightarrow> 'o privi_response option"
where
  "ListRecords S r p d =
     snd (with_user S r empty_response (\<lambda>callerDID w.
       (d,
        (case sv_decode_list S (rq_Query r) of
           None \<Rightarrow> Some (LogAndHTTPError (ErrorText BadQuery) StatusBadRequest w)
         | Some params0 \<Rightarrow>
             (case resolve_repo S (lp_Repo params0) of
                Err e \<Rightarrow> Some (LogAndHTTPError (ErrorText e) StatusBadRequest w)
              | Panic \<Rightarrow> None
              | Ok did \<Rightarrow>
                  (let params = params0\<lparr>lp_Repo := did\<rparr> in
                   (case store_listRecords (sv_perms S) (sv_repo S) params callerDID p d of
                      Err e \<Rightarrow> Some (LogAndHTTPError (ErrorText e) StatusInternalServerError w)
                    | Panic \<Rightarrow> None
                    | Ok records \<Rightarrow>
                        Some (Write (OutputText (JObj (fmap_of_list
                          [(''records'', JArr (map (list_entry params) records))]))) w))))))) d)"

section \<open>Editing permissions\<close>

definition dec_edit_request :: "json option \<Rightarrow> (string \<times> string, decode_error) res" where
  "dec_edit_request b =
     bind_res (ok_or NotAnObject (as_object b)) (\<lambda>m.
     bind_res (dec_field m ''did'') (\<lambda>did. bind_res (dec_field m ''lexicon'') (\<lambda>l. Ok (did, l))))"

text \<open>The two handlers differ in the operation of the store.\<close>

definition edit_permission ::
  "('d, 'p, 'k, 'o) privi_server
   \<Rightarrow> (string \<Rightarrow> string \<Rightarrow> string \<Rightarrow> 'p \<Rightarrow> 'p \<times> (unit, perm_error) res) \<Rightarrow> request
   \<Rightarrow> 'p \<Rightarrow> 'p \<times> 'o privi_response option"
where
  "edit_permission S op r p =
     (case dec_edit_request (rq_Body r) of
        Err e \<Rightarrow> (p, Some (LogAndHTTPError (ErrorText BadBody) StatusBadRequest empty_response))
      | Panic \<Rightarrow> (p, None)
      | Ok (did, lexicon) \<Rightarrow>
          (case getCaller S r of
             Err e \<Rightarrow> (p, Some (LogAndHTTPError (ErrorText e) StatusForbidden empty_response))
           | Panic \<Rightarrow> (p, None)
           | Ok callerDID \<Rightarrow>
               (case op did callerDID lexicon p of
                  (p', Ok _) \<Rightarrow> (p', Some empty_response)
                | (p', Err e) \<Rightarrow>
                    (p', Some (LogAndHTTPError (ErrorText (PermissionError e)) StatusInternalServerError
                      empty_response))
                | (p', Panic) \<Rightarrow> (p', None))))"

definition AddPermission ::
  "('d, 'p, 'k, 'o) privi_server \<Rightarrow> request \<Rightarrow> 'p \<Rightarrow> 'p \<times> 'o privi_response option"
where
  "AddPermission S r p = edit_permission S (st_Add (sv_perms S)) r p"

definition RemovePermission ::
  "('d, 'p, 'k, 'o) privi_server \<Rightarrow> request \<Rightarrow> 'p \<Rightarrow> 'p \<times> 'o privi_response option"
where
  "RemovePermission S r p = edit_permission S (st_Remove (sv_perms S)) r p"

definition ListPermissions ::
  "('d, 'p, 'k, 'o) privi_server \<Rightarrow> request \<Rightarrow> 'p \<Rightarrow> 'o privi_response option"
where
  "ListPermissions S r p =
     (case getCaller S r of
        Err e \<Rightarrow> Some (LogAndHTTPError (ErrorText e) StatusForbidden empty_response)
      | Panic \<Rightarrow> None
      | Ok callerDID \<Rightarrow>
          (case st_ListByLexicon (sv_perms S) callerDID p of
             Err e \<Rightarrow> Some (LogAndHTTPError (ErrorText (PermissionError e)) StatusInternalServerError empty_response)
           | Panic \<Rightarrow> None
           | Ok m \<Rightarrow>
               Some (Write (OutputText (JObj (fmmap (\<lambda>gs. JArr (map JStr gs)) m))) empty_response)))"

section \<open>What the repository relies on\<close>

text \<open>
  \<open>table d\<close> are the records in the order of their keys; a DID and a key name at most one.  A query with a
  positive limit returns the first records that it would return without.
\<close>

definition same_key :: "repo_record \<Rightarrow> repo_record \<Rightarrow> bool" where
  "same_key x y \<longleftrightarrow> rec_Did x = rec_Did y \<and> rec_Rkey x = rec_Rkey y"

definition repo_laws :: "'d repo_db \<Rightarrow> ('d \<Rightarrow> repo_record list) \<Rightarrow> bool" where
  "repo_laws D table \<longleftrightarrow>
     (\<forall>d. sorted (map rec_Rkey (table d)) \<and> distinct (map (\<lambda>r. (rec_Did r, rec_Rkey r)) (table d))) \<and>
     (\<forall>r d d'. rdb_Upsert D r d = (d', Ok ()) \<longrightarrow>
        set (table d') = insert r {x \<in> set (table d). \<not> same_key x r}) \<and>
     (\<forall>did rkey d r. rdb_First D did rkey d = Ok r \<longrightarrow>
        r = find (\<lambda>x. rec_Did x = did \<and> rec_Rkey x = rkey) (table d)) \<and>
     (\<forall>q d rs. rdb_Find D q None d = Ok rs \<longrightarrow> rs = filter q (table d)) \<and>
     (\<forall>q n d rs. 0 < n \<longrightarrow> rdb_Find D q (Some n) d = Ok rs \<longrightarrow> rs = take (nat n) (filter q (table d)))"

lemma repo_sorted:
  "repo_laws D table \<Longrightarrow> sorted (map rec_Rkey (table d)) \<and> distinct (map (\<lambda>r. (rec_Did r, rec_Rkey r)) (table d))"
  by (simp add: repo_laws_def)

lemma repo_Upsert:
  "repo_laws D table \<Longrightarrow> rdb_Upsert D r d = (d', Ok ()) \<Longrightarrow>
     set (table d') = insert r {x \<in> set (table d). \<not> same_key x r}"
  by (simp add: repo_laws_def)

lemma repo_First:
  "repo_laws D table \<Longrightarrow> rdb_First D did rkey d = Ok r \<Longrightarrow>
     r = find (\<lambda>x. rec_Did x = did \<and> rec_Rkey x = rkey) (table d)"
  by (simp add: repo_laws_def)

lemma repo_Find:
  assumes "repo_laws D table"
  shows "rdb_Find D q None d = Ok rs \<Longrightarrow> rs = filter q (table d)"
    and "0 < n \<Longrightarrow> rdb_Find D q (Some n) d = Ok rs \<Longrightarrow> rs = take (nat n) (filter q (table d))"
  using assms by (simp_all add: repo_laws_def)

lemma find_key:
  assumes "distinct (map (\<lambda>r. (rec_Did r, rec_Rkey r)) t)" and "x \<in> set t"
  shows "find (\<lambda>y. rec_Did y = rec_Did x \<and> rec_Rkey y = rec_Rkey x) t = Some x"
  using assms by (induction t) force+

lemma getRecord_Ok:
  assumes "repo_laws (repo_db R) table" and "repo_getRecord R did rkey d = Ok r"
  shows "r \<in> set (table d) \<and> rec_Did r = did \<and> rec_Rkey r = rkey"
proof -
  have "find (\<lambda>x. rec_Did x = did \<and> rec_Rkey x = rkey) (table d) = Some r"
    using assms repo_First [OF assms(1)] by (auto simp: repo_getRecord_def bind_res_Ok_iff)
  then show ?thesis by (auto simp: find_Some_iff)
qed

lemma getRecord_present:
  assumes "repo_laws (repo_db R) table" and "x \<in> set (table d)"
    and "repo_getRecord R (rec_Did x) (rec_Rkey x) d = r"
  shows "r = Ok x \<or> r = Err DatabaseError \<or> r = Panic"
proof (cases "rdb_First (repo_db R) (rec_Did x) (rec_Rkey x) d")
  case (Ok f)
  have "f = Some x"
    using repo_First [OF assms(1) Ok] find_key [OF _ assms(2)] repo_sorted [OF assms(1)] by simp
  with Ok assms(3) show ?thesis by (simp add: repo_getRecord_def)
qed (use assms(3) in \<open>auto simp: repo_getRecord_def\<close>)

section \<open>Properties of the store\<close>


text \<open>
  C19: nobody reads a record without permission: a record is returned only to its owner or to a caller
  with a stored grant on it or above it, and it is the record of that owner under that key.
\<close>

theorem get_record_is_authorized:
  assumes "table_laws T rows" and "only_grants (rows p)" and "repo_laws (repo_db R) table"
    and "store_getRecord (sqlite_store T) R collection rkey targetDID callerDID p d = Ok r"
  shows "may_read (rows p) callerDID targetDID collection rkey \<and>
     r \<in> set (table d) \<and> rec_Did r = targetDID \<and> rec_Rkey r = record_key collection rkey"
proof -
  from assms(4) have "sqlite_HasPermission T callerDID targetDID collection rkey p = Ok True"
    and "repo_getRecord R targetDID (record_key collection rkey) d = Ok r"
    by (auto simp: store_getRecord_def sqlite_store_def bind_res_Ok_iff split: if_splits)
  then show ?thesis
    using HasPermission_may_read [OF assms(1,2)] getRecord_Ok [OF assms(3)] by blast
qed

text \<open>Listing in pages.\<close>

lemma filter_after_last:
  fixes f :: "'a \<Rightarrow> 'b::linorder"
  assumes "sorted_wrt (<) (map f (a @ b))" and "a \<noteq> []"
  shows "filter (\<lambda>r. f (last a) < f r) (a @ b) = b"
proof -
  obtain a' z where a: "a = a' @ [z]" using assms(2) by (cases a rule: rev_cases) auto
  have "filter (\<lambda>r. f (last a) < f r) a = []"
    using assms(1) by (auto simp: a sorted_wrt_append filter_empty_conv dest: less_not_sym)
  moreover have "filter (\<lambda>r. f (last a) < f r) b = b"
    using assms(1) by (auto simp: a sorted_wrt_append filter_id_conv)
  ultimately show ?thesis by simp
qed

lemma list_condition_sorted:
  assumes "repo_laws D table"
  shows "sorted_wrt (<) (map rec_Rkey (filter (list_condition params allow deny) (table d)))"
proof -
  let ?F = "filter (list_condition params allow deny) (table d)"
  have "sorted (map rec_Rkey ?F)"
    using repo_sorted [OF assms] by (simp add: sorted_filter)
  moreover have "distinct (map rec_Rkey ?F)"
  proof -
    have "distinct (map (\<lambda>r. (rec_Did r, rec_Rkey r)) ?F)"
      using repo_sorted [OF assms] by (simp add: distinct_map_filter)
    moreover have "\<forall>r \<in> set ?F. rec_Did r = lp_Repo params" by (simp add: list_condition_def)
    ultimately show ?thesis by (auto simp: distinct_map inj_on_def)
  qed
  ultimately show ?thesis by (simp add: strict_sorted_iff)
qed

text \<open>
  C36: a client that asks for pages of \<open>n\<close> records and passes the last key as the cursor gets the records
  of an unlimited listing, each once and in order.
\<close>

theorem pages_continue:
  assumes "repo_laws (repo_db R) table" and "0 < n"
    and "repo_listRecords R (params\<lparr>lp_Limit := n\<rparr>) allow deny d = Ok rs" and "length rs = nat n"
    and "repo_listRecords R (params\<lparr>lp_Limit := n, lp_Cursor := rec_Rkey (last rs)\<rparr>) allow deny d = Ok rs'"
    and "repo_listRecords R (params\<lparr>lp_Limit := 0\<rparr>) allow deny d = Ok all"
    and "rec_Rkey (last rs) \<noteq> ''''"
  shows "rs @ rs' = take (2 * nat n) all"
proof -
  let ?q = "list_condition params allow deny" and ?c = "rec_Rkey (last rs)"
  let ?F = "filter ?q (table d)"
  have ne: "rs \<noteq> []" using assms(2,4) by auto
  have allow: "allow \<noteq> []" using assms(3) ne by (auto simp: repo_listRecords_def)
  have q: "list_condition (params\<lparr>lp_Limit := k\<rparr>) allow deny = ?q" for k
    by (simp add: list_condition_def fun_eq_iff)
  have rs: "rs = take (nat n) ?F"
    using assms(3) allow assms(2) repo_Find(2) [OF assms(1) assms(2)] by (simp add: repo_listRecords_def q)
  have all: "all = ?F"
    using assms(6) allow repo_Find(1) [OF assms(1)] by (simp add: repo_listRecords_def q)
  let ?q' = "list_condition (params\<lparr>lp_Limit := n, lp_Cursor := ?c\<rparr>) allow deny"
  have rs': "rs' = take (nat n) (filter ?q' (table d))"
    using assms(5) allow assms(2) repo_Find(2) [OF assms(1) assms(2)] by (simp add: repo_listRecords_def)
  have "last rs \<in> set ?F" using ne rs by (metis in_set_takeD last_in_set)
  then have "?q (last rs)" by simp
  then have "?q' = (\<lambda>r. ?q r \<and> ?c < rec_Rkey r)"
    using assms(7) by (intro ext) (auto simp: list_condition_def)
  then have "filter ?q' (table d) = filter (\<lambda>r. ?c < rec_Rkey r) ?F" by simp
  also have "?F = rs @ drop (nat n) ?F" using rs by simp
  also have "filter (\<lambda>r. ?c < rec_Rkey r) \<dots> = drop (nat n) ?F"
    using list_condition_sorted [OF assms(1), of params allow deny d] ne rs
    by (intro filter_after_last) simp_all
  finally have "rs' = take (nat n) (drop (nat n) ?F)" using rs' by simp
  then show ?thesis
    unfolding all rs by (simp add: take_add [symmetric] mult_2)
qed

text \<open>What a grantee is shown.\<close>

lemma ascii_lower_star: "ascii_lower c = CHR ''*'' \<longleftrightarrow> c = CHR ''*''"
proof
  assume a: "ascii_lower c = CHR ''*''"
  show "c = CHR ''*''"
  proof (cases "65 \<le> (of_char c :: nat) \<and> (of_char c :: nat) \<le> 90")
    case True
    then have "(of_char (char_of (of_char c + 32 :: nat) :: char) :: nat) = of_char (CHR ''*'')"
      using a by (simp add: ascii_lower_def Let_def)
    with True show ?thesis by (simp add: of_char_of)
  next
    case False
    then have "ascii_lower c = c" unfolding ascii_lower_def Let_def by (rule if_not_P)
    with a show ?thesis by simp
  qed
qed (simp add: ascii_lower_def)

lemma covers_no_star:
  assumes "covers object nsid" and "CHR ''*'' \<notin> set nsid"
  shows "\<not> HasSuffix object ''*'' \<and> length object \<le> length nsid"
proof -
  from assms(1) obtain t where t: "map ascii_lower t = map ascii_lower object" "set t \<subseteq> set nsid"
    "length t \<le> length nsid"
    unfolding covers_def by force
  have "CHR ''*'' \<notin> ascii_lower ` set t"
  proof
    assume "CHR ''*'' \<in> ascii_lower ` set t"
    then obtain x where "x \<in> set t" "ascii_lower x = CHR ''*''" by (metis imageE)
    then show False using t(2) assms(2) by (auto simp: ascii_lower_star)
  qed
  then have "CHR ''*'' \<notin> ascii_lower ` set object" using t(1) by (metis list.set_map)
  then have "CHR ''*'' \<notin> set object" by (metis ascii_lower_star image_eqI)
  moreover have "length object = length t" using t(1) by (metis length_map)
  ultimately show ?thesis using t(3) by (auto simp: HasSuffix_iff)
qed

lemma listRecords_subset:
  assumes "repo_laws (repo_db R) table" and "lp_Limit params \<ge> 0" and "allow \<noteq> []"
    and "repo_listRecords R params allow deny d = Ok rs"
  shows "set rs \<subseteq> set (filter (list_condition params allow deny) (table d))"
proof (cases "lp_Limit params = 0")
  case True
  then have "rs = filter (list_condition params allow deny) (table d)"
    using assms(3,4) by (intro repo_Find(1) [OF assms(1)]) (simp add: repo_listRecords_def)
  then show ?thesis by simp
next
  case False
  then have "rs = take (nat (lp_Limit params)) (filter (list_condition params allow deny) (table d))"
    using assms(2-4) by (intro repo_Find(2) [OF assms(1)]) (simp_all add: repo_listRecords_def)
  then show ?thesis by (metis set_take_subset)
qed

text \<open>
  Somebody other than the owner never finds a record of the collection in a listing of it, also
  with a grant on the collection, with which the same record can be read.
\<close>

theorem grantee_lists_no_record:
  assumes "table_laws T rows" and "only_grants (rows p)" and "repo_laws (repo_db R) table"
    and "callerDID \<noteq> lp_Repo params" and "CHR ''*'' \<notin> set (lp_Collection params)"
    and "lp_Limit params \<ge> 0"
    and "store_listRecords (sqlite_store T) R params callerDID p d = Ok rs"
  shows "\<forall>r \<in> set rs. \<forall>k. rec_Rkey r \<noteq> record_key (lp_Collection params) k"
proof (intro ballI allI)
  fix r k assume r: "r \<in> set rs"
  let ?nsid = "lp_Collection params"
  let ?q = "permission_query callerDID (lp_Repo params) ?nsid"
  from assms(7) obtain ps where ps: "tbl_Find T ?q p = Ok ps"
    and list: "repo_listRecords R params (map perm_Object (filter (\<lambda>x. perm_Effect x = ''allow'') ps))
      (map perm_Object (filter (\<lambda>x. perm_Effect x = ''deny'') ps)) d = Ok rs"
    using assms(4) by (auto simp: store_listRecords_def sqlite_store_def sqlite_ListReadPermissionsByUser_def
        bind_res_Ok_iff)
  have obj: "\<not> HasSuffix (perm_Object x) ''*'' \<and> length (perm_Object x) \<le> length ?nsid" if "x \<in> set ps" for x
  proof -
    have "x \<in> rows p" "?q x" using table_Find [OF assms(1) ps] that by auto
    then have "covers (perm_Object x) ?nsid"
      using assms(2) by (simp add: permission_query_def only_grants_def object_matches_covers)
    then show ?thesis using assms(5) by (rule covers_no_star)
  qed
  let ?allow = "map perm_Object (filter (\<lambda>x. perm_Effect x = ''allow'') ps)"
  let ?deny = "map perm_Object (filter (\<lambda>x. perm_Effect x = ''deny'') ps)"
  from list r have "?allow \<noteq> []" by (auto simp: repo_listRecords_def)
  with listRecords_subset [OF assms(3,6) _ list] r have "list_condition params ?allow ?deny r" by auto
  then obtain a where "a \<in> set ?allow" "allow_condition a (rec_Rkey r)"
    by (auto simp: list_condition_def list_ex_iff)
  then have "length (rec_Rkey r) \<le> length ?nsid"
    using obj by (auto simp: allow_condition_def)
  then show "rec_Rkey r \<noteq> record_key ?nsid k" by (auto simp: record_key_def)
qed

lemma record_key_split:
  "CHR ''.'' \<notin> set rkey \<Longrightarrow> last (split_byte (CHR ''.'') (record_key collection rkey)) = rkey"
  by (simp add: record_key_def last_split_byte)

text \<open>
  The key of a record determines its collection and its record key, provided that the record key
  has no dot; and then the listing shows the record key that was put.
\<close>

theorem record_key_roundtrip:
  assumes "CHR ''.'' \<notin> set rkey"
  shows "last (split_byte (CHR ''.'') (record_key collection rkey)) = rkey \<and>
     (\<forall>c k. CHR ''.'' \<notin> set k \<longrightarrow> record_key c k = record_key collection rkey \<longrightarrow> c = collection \<and> k = rkey)"
proof (intro conjI allI impI)
  show "last (split_byte (CHR ''.'') (record_key collection rkey)) = rkey"
    using assms by (rule record_key_split)
  fix c k assume k: "CHR ''.'' \<notin> set k" and eq: "record_key c k = record_key collection rkey"
  then show "k = rkey" using record_key_split [OF k, of c] record_key_split [OF assms, of collection] by simp
  then show "c = collection" using eq by (simp add: record_key_def)
qed

text \<open>With a dot in a record key two records share one key.\<close>

lemma record_keys_collide: "record_key ''com.a'' ''b.c'' = record_key ''com.a.b'' ''c''"
  by (simp add: record_key_def)

section \<open>Properties of the server\<close>

text \<open>
  What the handlers rely on of the JWT library: a token is accepted only if the key found for its issuer
  verifies it.
\<close>

definition jwt_laws ::
  "(string \<Rightarrow> (string \<Rightarrow> 'k option) \<Rightarrow> string option) \<Rightarrow> ('k \<Rightarrow> string \<Rightarrow> bool) \<Rightarrow> bool"
where
  "jwt_laws parse verifies \<longleftrightarrow>
     (\<forall>token key iss. parse token key = Some iss \<longrightarrow> (\<exists>k. key iss = Some k \<and> verifies k token))"

definition bearer_token :: "request \<Rightarrow> string" where
  "bearer_token r = split_on ''Bearer '' [] (rq_Header r ''Authorization'') ! 1"

lemma getCaller_verified:
  assumes "jwt_laws (sv_jwt_Parse S) verifies" and "getCaller S r = Ok did"
  shows "\<exists>k. sv_PublicKey S did = Some k \<and> verifies k (bearer_token r)"
proof -
  have "sv_jwt_Parse S (bearer_token r) (sv_PublicKey S) = Some did"
    using assms(2) by (auto simp: getCaller_def bearer_token_def Let_def split: if_splits)
  with assms(1) show ?thesis unfolding jwt_laws_def by blast
qed

lemma with_user_changed:
  assumes "with_user S r w f d = (d', resp)" and "d' \<noteq> d"
    and "rq_Header r ''Habitat-Auth-Method'' \<noteq> ''oauth''"
  shows "\<exists>did. getCaller S r = Ok did \<and> f did w = (d', resp)"
  using assms by (auto simp: with_user_def getAuthedUser_def split: res.splits option.splits if_splits)

text \<open>
  C17: without OAuth, data is written only for a caller who presents a token that the key published for
  the owner of the repository verifies.
\<close>

theorem put_requires_owner_key:
  assumes "jwt_laws (sv_jwt_Parse S) verifies" and "rq_Header r ''Habitat-Auth-Method'' \<noteq> ''oauth''"
    and "PutRecord S uuid r d = (d', resp)" and "d' \<noteq> d"
  shows "\<exists>req owner k. dec_put_request (rq_Body r) = Ok req \<and> resolve_repo S (pr_Repo req) = Ok owner \<and>
     sv_PublicKey S owner = Some k \<and> verifies k (bearer_token r)"
proof -
  note changed = with_user_changed [OF assms(3) [unfolded PutRecord_def] assms(4,2)]
  then obtain did where did: "getCaller S r = Ok did" by blast
  obtain req where req: "dec_put_request (rq_Body r) = Ok req"
    using changed assms(4) by (cases "dec_put_request (rq_Body r)") auto
  obtain owner where owner: "resolve_repo S (pr_Repo req) = Ok owner"
    using changed assms(4) req by (cases "resolve_repo S (pr_Repo req)") auto
  have "owner = did" using changed assms(4) req owner did by (auto split: if_splits)
  with getCaller_verified [OF assms(1) did] req owner show ?thesis by blast
qed

text \<open>
  C34: permissions are changed only in the name of the caller whose token is verified: what is added is a
  grant on the caller's own data, whatever the request says.
\<close>

theorem permissions_changed_by_owner_only:
  assumes "jwt_laws (sv_jwt_Parse S) verifies" and "AddPermission S r p = (p', resp)" and "p' \<noteq> p"
  shows "\<exists>did owner lexicon k. dec_edit_request (rq_Body r) = Ok (did, lexicon) \<and>
     sv_PublicKey S owner = Some k \<and> verifies k (bearer_token r) \<and>
     fst (st_Add (sv_perms S) did owner lexicon p) = p'"
proof -
  from assms(2,3) obtain did lexicon owner where "dec_edit_request (rq_Body r) = Ok (did, lexicon)"
    and "getCaller S r = Ok owner" and "fst (st_Add (sv_perms S) did owner lexicon p) = p'"
    by (auto simp: AddPermission_def edit_permission_def split: res.splits prod.splits)
  with getCaller_verified [OF assms(1)] show ?thesis by blast
qed

text \<open>
  The repository that the server is built with refuses every blob that is not empty.
\<close>

theorem new_repo_refuses_blobs:
  "repo_uploadBlob (NewSQLiteRepo D validate cid) did bytes mime d =
     (if bytes = [] then repo_uploadBlob (NewSQLiteRepo D validate cid) did [] mime d
      else (d, Err (BlobTooBig 0)))"
  by (auto simp: repo_uploadBlob_def NewSQLiteRepo_def)

section \<open>The theorems applied\<close>

text \<open>A repository whose world is the list of records written, the last write first.\<close>

fun latest :: "repo_record list \<Rightarrow> repo_record list" where
  "latest [] = []"
| "latest (x # xs) = x # filter (\<lambda>y. \<not> same_key y x) (latest xs)"

definition latest_sorted :: "repo_record list \<Rightarrow> repo_record list" where
  "latest_sorted d = sort_key rec_Rkey (latest d)"

definition list_repo :: "repo_record list repo_db" where
  "list_repo =
     \<lparr>rdb_Upsert = (\<lambda>r d. (r # d, Ok ())),
      rdb_First = (\<lambda>did rkey d. Ok (find (\<lambda>x. rec_Did x = did \<and> rec_Rkey x = rkey) (latest_sorted d))),
      rdb_Find = (\<lambda>q lim d. Ok ((case lim of None \<Rightarrow> (\<lambda>x. x) | Some n \<Rightarrow> take (nat n))
        (filter q (latest_sorted d)))),
      rdb_CreateBlob = (\<lambda>_ d. (d, Ok ())),
      rdb_FirstBlob = (\<lambda>_ _ _. Ok None)\<rparr>"

lemma latest_distinct: "distinct (map (\<lambda>r. (rec_Did r, rec_Rkey r)) (latest d))"
  by (induction d) (auto simp: same_key_def distinct_map_filter)

lemma list_repo_laws: "repo_laws list_repo latest_sorted"
proof -
  have "distinct (map (\<lambda>r. (rec_Did r, rec_Rkey r)) (latest_sorted d))" for d
    using latest_distinct [of d]
    by (simp add: latest_sorted_def distinct_map)
  then show ?thesis
    by (auto simp: repo_laws_def list_repo_def latest_sorted_def)
qed

definition sample_repo :: "repo_record list repo" where
  "sample_repo = NewSQLiteRepo list_repo (\<lambda>_. True) (\<lambda>_. Some ''cid'')"

lemma sample_repo_laws: "repo_laws (repo_db sample_repo) latest_sorted"
  by (simp add: sample_repo_def NewSQLiteRepo_def list_repo_laws)

lemma sample_getRecord:
  "(\<exists>r. repo_getRecord sample_repo did k d = Ok r) \<or> repo_getRecord sample_repo did k d = Err ErrRecordNotFound"
  by (cases "find (\<lambda>x. rec_Did x = did \<and> rec_Rkey x = k) (latest_sorted d)")
    (simp_all add: repo_getRecord_def sample_repo_def NewSQLiteRepo_def list_repo_def)

definition sample_record :: "string \<Rightarrow> repo_record" where
  "sample_record k = \<lparr>rec_Did = ''bob'', rec_Rkey = record_key ''com.x'' k, rec_Rec = JObj fmempty\<rparr>"


lemma get_record_is_authorized_witness:
  "store_getRecord (sqlite_store list_table) sample_repo ''com.x'' ''b'' ''bob'' ''carol''
     [grant ''carol'' ''bob'' ''com''] [sample_record ''b''] = Ok (sample_record ''b'') \<and>
   may_read {grant ''carol'' ''bob'' ''com''} ''carol'' ''bob'' ''com.x'' ''b''"
proof -
  let ?p = "[grant ''carol'' ''bob'' ''com'']"
  have run: "store_getRecord (sqlite_store list_table) sample_repo ''com.x'' ''b'' ''bob'' ''carol'' ?p
      [sample_record ''b''] = Ok (sample_record ''b'')"
    by (simp add: store_getRecord_def sqlite_store_def sqlite_HasPermission_def list_table_def grant_def
        permission_query_def object_matches_def record_object_def specific_first_def ascii_lower_def
        repo_getRecord_def sample_repo_def NewSQLiteRepo_def list_repo_def latest_sorted_def
        sample_record_def record_key_def)
  have "only_grants (set ?p)" by (simp add: only_grants_def grant_def no_wildcard_def)
  from get_record_is_authorized [OF list_table_laws this sample_repo_laws run] run show ?thesis by simp
qed

lemma pages_continue_witness:
  "\<exists>rs rs' all. repo_listRecords sample_repo
       \<lparr>lp_Collection = ''com.x'', lp_Cursor = '''', lp_Limit = 1, lp_Repo = ''bob'', lp_Reverse = False\<rparr>
       [''com.x.*''] [] [sample_record ''b'', sample_record ''a''] = Ok rs \<and>
     rs @ rs' = take 2 all \<and> rs = [sample_record ''a''] \<and> rs' = [sample_record ''b'']"
proof -
  let ?p = "\<lparr>lp_Collection = ''com.x'', lp_Cursor = '''', lp_Limit = 1, lp_Repo = ''bob'', lp_Reverse = False\<rparr>"
  let ?d = "[sample_record ''b'', sample_record ''a'']" and ?allow = "[''com.x.*'']"
  have t: "latest_sorted ?d = [sample_record ''a'', sample_record ''b'']"
    by (simp add: latest_sorted_def same_key_def sample_record_def record_key_def)
  have any: "k = [] \<or> (case k of [] \<Rightarrow> False | c # x \<Rightarrow> sql_like ''%'' x)" for k
    by (cases k) (simp_all only: sql_like_any list.case simp_thms)
  have q: "list_condition p ?allow [] (sample_record k) \<longleftrightarrow> lp_Repo p = ''bob'' \<and>
      (lp_Cursor p \<noteq> '''' \<longrightarrow> lp_Cursor p < record_key ''com.x'' k)" for p k
    by (simp add: list_condition_def sample_record_def allow_condition_def HasSuffix_def TrimSuffix_def
        record_key_def ascii_lower_def any eq_commute [of "''bob''"])
  have list: "repo_listRecords sample_repo p ?allow [] ?d = Ok ((if lp_Limit p = 0 then (\<lambda>x. x)
      else take (nat (lp_Limit p))) (filter (list_condition p ?allow []) [sample_record ''a'', sample_record ''b'']))" for p
    by (simp add: repo_listRecords_def sample_repo_def NewSQLiteRepo_def list_repo_def t)
  have one: "repo_listRecords sample_repo (?p\<lparr>lp_Limit := 1\<rparr>) ?allow [] ?d = Ok [sample_record ''a'']"
    unfolding list by (simp add: q)
  have key: "rec_Rkey (last [sample_record ''a'']) = record_key ''com.x'' ''a''" by (simp add: sample_record_def)
  have two: "repo_listRecords sample_repo (?p\<lparr>lp_Limit := 1, lp_Cursor := rec_Rkey (last [sample_record ''a''])\<rparr>)
      ?allow [] ?d = Ok [sample_record ''b'']"
    unfolding list key by (simp add: q) (simp add: record_key_def)
  have all: "repo_listRecords sample_repo (?p\<lparr>lp_Limit := 0\<rparr>) ?allow [] ?d = Ok [sample_record ''a'', sample_record ''b'']"
    unfolding list by (simp add: q)
  have "[sample_record ''a''] @ [sample_record ''b''] = take (2 * nat 1) [sample_record ''a'', sample_record ''b'']"
    by (rule pages_continue [OF sample_repo_laws _ one _ two all]) (simp_all add: sample_record_def record_key_def)
  with one show ?thesis
    by (intro exI [of _ "[sample_record ''a'']"] exI [of _ "[sample_record ''b'']"]
        exI [of _ "[sample_record ''a'', sample_record ''b'']"]) simp
qed

lemma grantee_lists_no_record_witness:
  "\<exists>rs. store_listRecords (sqlite_store list_table) sample_repo
       \<lparr>lp_Collection = ''com.x'', lp_Cursor = '''', lp_Limit = 0, lp_Repo = ''bob'', lp_Reverse = False\<rparr>
       ''carol'' [grant ''carol'' ''bob'' ''com.x''] [sample_record ''b''] = Ok rs \<and>
     (\<forall>r \<in> set rs. \<forall>k. rec_Rkey r \<noteq> record_key ''com.x'' k) \<and>
     sqlite_HasPermission list_table ''carol'' ''bob'' ''com.x'' ''b'' [grant ''carol'' ''bob'' ''com.x''] = Ok True"
proof -
  let ?p = "\<lparr>lp_Collection = ''com.x'', lp_Cursor = '''', lp_Limit = 0, lp_Repo = ''bob'', lp_Reverse = False\<rparr>"
  let ?g = "[grant ''carol'' ''bob'' ''com.x'']"
  obtain rs where rs: "store_listRecords (sqlite_store list_table) sample_repo ?p ''carol'' ?g [sample_record ''b''] = Ok rs"
    by (simp add: store_listRecords_def sqlite_store_def sqlite_ListReadPermissionsByUser_def list_table_def
        repo_listRecords_def sample_repo_def NewSQLiteRepo_def list_repo_def grant_def permission_query_def
        object_matches_def ascii_lower_def split: if_splits)
  have g: "only_grants (set ?g)" by (simp add: only_grants_def grant_def no_wildcard_def)
  have "\<forall>r \<in> set rs. \<forall>k. rec_Rkey r \<noteq> record_key (lp_Collection ?p) k"
    by (rule grantee_lists_no_record [OF list_table_laws g sample_repo_laws _ _ _ rs]) simp_all
  moreover have "sqlite_HasPermission list_table ''carol'' ''bob'' ''com.x'' ''b'' ?g = Ok True"
    by (simp add: sqlite_HasPermission_def list_table_def grant_def permission_query_def
        object_matches_def record_object_def specific_first_def ascii_lower_def)
  ultimately show ?thesis using rs by auto
qed

lemma record_key_roundtrip_witness:
  "last (split_byte (CHR ''.'') (record_key ''com.x'' ''k1'')) = ''k1''"
  using record_key_roundtrip [of "''k1''" "''com.x''"] by simp

text \<open>A server in which the token is the key of its issuer.\<close>

definition sample_server :: "(repo_record list, permission list, string, unit) privi_server" where
  "sample_server =
     \<lparr>sv_perms = sqlite_store list_table, sv_repo = sample_repo,
      sv_ParseAtIdentifier = Some, sv_Lookup = Some,
      sv_PublicKey = Some,
      sv_jwt_Parse = (\<lambda>token key. if key token = Some token then Some token else None),
      sv_oauth_Validate = (\<lambda>_ w. Ok (w, None)),
      sv_decode_get = (\<lambda>_. None), sv_decode_list = (\<lambda>_. None)\<rparr>"

definition sample_request :: "json option \<Rightarrow> request" where
  "sample_request b =
     \<lparr>rq_Header = (\<lambda>h. if h = ''Authorization'' then ''Bearer bob'' else ''''), rq_Body = b,
      rq_Bytes = None, rq_Query = ''''\<rparr>"

lemma sample_server_jwt: "jwt_laws (sv_jwt_Parse sample_server) (\<lambda>k token. k = token)"
  by (simp add: jwt_laws_def sample_server_def)

lemma sample_caller: "getCaller sample_server (sample_request b) = Ok ''bob''"
  by (simp add: getCaller_def sample_request_def sample_server_def split_on.simps HasPrefix_def)

lemma put_requires_owner_key_witness:
  "\<exists>d' resp req owner k. PutRecord sample_server ''k'' (sample_request (Some (JObj (fmap_of_list
       [(''collection'', JStr ''com.x''), (''repo'', JStr ''bob'')])))) [] = (d', resp) \<and> d' \<noteq> [] \<and>
     resolve_repo sample_server (pr_Repo (req :: put_request)) = Ok owner \<and> owner = ''bob'' \<and> k = bearer_token (sample_request None)"
proof -
  let ?r = "sample_request (Some (JObj (fmap_of_list [(''collection'', JStr ''com.x''), (''repo'', JStr ''bob'')])))"
  have h: "rq_Header ?r ''Habitat-Auth-Method'' \<noteq> ''oauth''" by (simp add: sample_request_def)
  have req: "dec_put_request (rq_Body ?r) =
      Ok \<lparr>pr_Collection = ''com.x'', pr_Record = None, pr_Repo = ''bob'', pr_Rkey = ''''\<rparr>"
    by (simp add: dec_put_request_def sample_request_def dec_field_def)
  obtain d' resp where put: "PutRecord sample_server ''k'' ?r [] = (d', resp)" and ne: "d' \<noteq> []"
    using h req
    by (simp add: PutRecord_def with_user_def getAuthedUser_def resolve_repo_def sample_caller Let_def)
      (simp add: sample_server_def sample_repo_def NewSQLiteRepo_def list_repo_def Let_def
        store_putRecord_def repo_putRecord_def)
  from put_requires_owner_key [OF sample_server_jwt h put ne]
  obtain req' owner k where r: "dec_put_request (rq_Body ?r) = Ok req'"
    "resolve_repo sample_server (pr_Repo req') = Ok owner" "k = bearer_token ?r" by auto
  then have "owner = ''bob''" using req by (auto simp: resolve_repo_def sample_server_def)
  with r have res: "resolve_repo sample_server (pr_Repo req') = Ok ''bob''" by simp
  show ?thesis by (intro exI conjI) (rule put ne res refl)+
qed

lemma permissions_changed_by_owner_only_witness:
  "\<exists>p' resp owner. AddPermission sample_server (sample_request (Some (JObj (fmap_of_list
       [(''did'', JStr ''carol''), (''lexicon'', JStr ''com.x'')])))) [] = (p', resp) \<and> p' \<noteq> [] \<and>
     owner = bearer_token (sample_request None)"
proof -
  let ?r = "sample_request (Some (JObj (fmap_of_list [(''did'', JStr ''carol''), (''lexicon'', JStr ''com.x'')])))"
  obtain p' resp where add: "AddPermission sample_server ?r [] = (p', resp)" and ne: "p' \<noteq> []"
    using sample_caller
    by (simp add: AddPermission_def edit_permission_def)
      (simp add: dec_edit_request_def dec_field_def sample_request_def sample_server_def sqlite_store_def
        sqlite_AddLexiconReadPermission_def list_table_def)
  from permissions_changed_by_owner_only [OF sample_server_jwt add ne] add ne show ?thesis by auto
qed

end
