(* ===== verification/Casbin.thy ===== *)
theory Casbin
  imports Permissions
begin

text \<open>
  What the store over casbin decides: the model of \<open>internal/permissions/model.conf\<close>, the abstraction of its
  policies to a set of grants, and its agreement with the SQLite store.

  The enforcer is a parameter.  \<open>pols e\<close> are the policies it holds, \<open>roles e\<close> the inheritance of its roles, and
  \<open>keyMatch\<close> the matching function of casbin, of which only patterns that end in their one star are used.
\<close>

section \<open>The model\<close>

definition model_matcher ::
  "(string \<Rightarrow> string \<Rightarrow> bool) \<Rightarrow> (string \<Rightarrow> string \<Rightarrow> bool) \<Rightarrow> string \<Rightarrow> string \<Rightarrow> string \<Rightarrow> string list \<Rightarrow> bool"
where
  "model_matcher g keyMatch sub own obj p \<longleftrightarrow> g sub (p ! 0) \<and> own = p ! 1 \<and> keyMatch obj (p ! 2)"

definition model_effect :: "string list set \<Rightarrow> bool" where
  "model_effect matched \<longleftrightarrow> (\<exists>p \<in> matched. p ! 3 = ''allow'') \<and> \<not> (\<exists>p \<in> matched. p ! 3 = ''deny'')"

definition keyMatch_laws :: "(string \<Rightarrow> string \<Rightarrow> bool) \<Rightarrow> bool" where
  "keyMatch_laws keyMatch \<longleftrightarrow>
     (\<forall>key p. CHR ''*'' \<notin> set p \<longrightarrow> keyMatch key (p @ ''*'') = HasPrefix key p)"

definition casbin_laws ::
  "'e enforcer \<Rightarrow> ('e \<Rightarrow> string list set) \<Rightarrow> ('e \<Rightarrow> string \<Rightarrow> string \<Rightarrow> bool) \<Rightarrow> (string \<Rightarrow> string \<Rightarrow> bool) \<Rightarrow> bool"
where
  "casbin_laws C pols roles keyMatch \<longleftrightarrow>
     (\<forall>sub own obj e b. Enforce C sub own obj e = Ok b \<longrightarrow>
        b = model_effect {p \<in> pols e. model_matcher (roles e) keyMatch sub own obj p}) \<and>
     (\<forall>p e e'. AddPolicy C p e = (e', Ok ()) \<longrightarrow> pols e' = insert p (pols e) \<and> roles e' = roles e) \<and>
     (\<forall>p e e'. RemovePolicy C p e = (e', Ok ()) \<longrightarrow> pols e' = pols e - {p} \<and> roles e' = roles e) \<and>
     (\<forall>e e' r. SavePolicy C e = (e', r) \<longrightarrow> pols e' = pols e \<and> roles e' = roles e)"

lemma casbin_Enforce:
  assumes "casbin_laws C pols roles km" and "Enforce C sub own obj e = Ok b"
  shows "b = model_effect {p \<in> pols e. model_matcher (roles e) km sub own obj p}"
  using assms(1) [unfolded casbin_laws_def, THEN conjunct1, rule_format, OF assms(2)] .

lemma casbin_AddPolicy:
  assumes "casbin_laws C pols roles km" and "AddPolicy C p e = (e', Ok ())"
  shows "pols e' = insert p (pols e) \<and> roles e' = roles e"
  using assms(1) [unfolded casbin_laws_def, THEN conjunct2, THEN conjunct1, rule_format, OF assms(2)] .

lemma casbin_RemovePolicy:
  assumes "casbin_laws C pols roles km" and "RemovePolicy C p e = (e', Ok ())"
  shows "pols e' = pols e - {p} \<and> roles e' = roles e"
  using assms(1) [unfolded casbin_laws_def, THEN conjunct2, THEN conjunct2, THEN conjunct1, rule_format, OF assms(2)] .

lemma casbin_SavePolicy:
  assumes "casbin_laws C pols roles km" and "SavePolicy C e = (e', r)"
  shows "pols e' = pols e \<and> roles e' = roles e"
  using assms(1) [unfolded casbin_laws_def, THEN conjunct2, THEN conjunct2, THEN conjunct2, rule_format, OF assms(2)] .

lemma then_save_Ok:
  assumes "casbin_laws C pols roles km" and "then_save C (e, r) = (e', Ok ())"
  shows "r = Ok () \<and> pols e' = pols e \<and> roles e' = roles e"
  using assms(2) casbin_SavePolicy [OF assms(1), of e e' "Ok ()"] by (cases r) (simp_all add: then_save_def)

lemma casbin_Add_pols:
  assumes "casbin_laws C pols roles km" and "casbin_AddLexiconReadPermission C g w n e = (e', Ok ())"
  shows "pols e' = insert [g, w, getCasbinObjectFromLexicon n, ''allow''] (pols e) \<and> roles e' = roles e"
proof -
  obtain e1 r where add: "AddPolicy C [g, w, getCasbinObjectFromLexicon n, ''allow''] e = (e1, r)" by fastforce
  with then_save_Ok [OF assms(1), of e1 r e'] assms(2)
  have "r = Ok ()" "pols e' = pols e1" "roles e' = roles e1" by (simp_all add: casbin_AddLexiconReadPermission_def)
  with casbin_AddPolicy [OF assms(1)] add show ?thesis by simp
qed

lemma casbin_Remove_pols:
  assumes "casbin_laws C pols roles km" and "casbin_RemoveLexiconReadPermission C g w n e = (e', Ok ())"
  shows "pols e' = pols e - {[g, w, getCasbinObjectFromLexicon n, ''allow'']} \<and> roles e' = roles e"
proof -
  obtain e1 r where remove: "RemovePolicy C [g, w, getCasbinObjectFromLexicon n, ''allow''] e = (e1, r)" by fastforce
  with then_save_Ok [OF assms(1), of e1 r e'] assms(2)
  have "r = Ok ()" "pols e' = pols e1" "roles e' = roles e1" by (simp_all add: casbin_RemoveLexiconReadPermission_def)
  with casbin_RemovePolicy [OF assms(1)] remove show ?thesis by simp
qed

section \<open>Policies as grants\<close>

definition policy_of :: "permission \<Rightarrow> string list" where
  "policy_of p = [perm_Grantee p, perm_Owner p, getCasbinObjectFromLexicon (perm_Object p), perm_Effect p]"

lemma policy_of_inj [simp]: "policy_of p = policy_of q \<longleftrightarrow> p = q"
  by (cases p; cases q) (auto simp: policy_of_def getCasbinObjectFromLexicon_def)

lemma policy_of_grant: "policy_of (grant g w n) = [g, w, getCasbinObjectFromLexicon n, ''allow'']"
  by (simp add: policy_of_def grant_def)

definition held :: "('e \<Rightarrow> string list set) \<Rightarrow> 'e \<Rightarrow> permission set" where
  "held pols e = {p. policy_of p \<in> pols e}"

text \<open>Every policy is a grant on a lexicon, whose name has no star.\<close>

definition plain_lexicon :: "string \<Rightarrow> bool" where
  "plain_lexicon n \<longleftrightarrow> CHR ''*'' \<notin> set n"

definition grants_only :: "('e \<Rightarrow> string list set) \<Rightarrow> 'e \<Rightarrow> bool" where
  "grants_only pols e \<longleftrightarrow>
     pols e \<subseteq> policy_of ` {p. perm_Effect p = ''allow'' \<and> plain_lexicon (perm_Object p)}"

definition casbin_may_read ::
  "(string \<Rightarrow> string \<Rightarrow> bool) \<Rightarrow> permission set \<Rightarrow> string \<Rightarrow> string \<Rightarrow> string \<Rightarrow> string \<Rightarrow> bool"
where
  "casbin_may_read inherits R requester owner nsid rkey \<longleftrightarrow>
     requester = owner \<or> (\<exists>p \<in> R. inherits requester (perm_Grantee p) \<and> perm_Owner p = owner \<and>
       HasPrefix (getCasbinObjectFromRecord nsid rkey) (perm_Object p @ ''.''))"

lemma keyMatch_lexicon:
  assumes "keyMatch_laws km" and "plain_lexicon n"
  shows "km x (getCasbinObjectFromLexicon n) = HasPrefix x (n @ ''.'')"
  using assms(1) [unfolded keyMatch_laws_def, rule_format, of "n @ ''.''" x] assms(2)
  by (simp add: getCasbinObjectFromLexicon_def plain_lexicon_def)

lemma grants_only_cases:
  assumes "grants_only pols e" and "x \<in> pols e"
  obtains p where "x = policy_of p" and "p \<in> held pols e" and "perm_Effect p = ''allow''" and "plain_lexicon (perm_Object p)"
  using assms by (auto simp: grants_only_def held_def)

lemma casbin_HasPermission_held:
  assumes "casbin_laws C pols roles km" and "keyMatch_laws km" and "grants_only pols e"
    and "casbin_HasPermission C r w n k e = Ok b"
  shows "b = casbin_may_read (roles e) (held pols e) r w n k"
proof (cases "r = w")
  case True
  then show ?thesis using assms(4) by (simp add: casbin_HasPermission_def casbin_may_read_def)
next
  case False
  let ?x = "getCasbinObjectFromRecord n k"
  let ?M = "{p \<in> pols e. model_matcher (roles e) km r w ?x p}"
  have b: "b = model_effect ?M"
    using casbin_Enforce [OF assms(1)] assms(4) False by (simp add: casbin_HasPermission_def)
  have fits: "model_matcher (roles e) km r w ?x (policy_of p) \<longleftrightarrow>
      roles e r (perm_Grantee p) \<and> perm_Owner p = w \<and> HasPrefix ?x (perm_Object p @ ''.'')"
    if "plain_lexicon (perm_Object p)" for p
    using keyMatch_lexicon [OF assms(2) that] by (auto simp: model_matcher_def policy_of_def)
  have allow: "q ! 3 = ''allow''" if "q \<in> ?M" for q
    using that by (auto elim!: grants_only_cases [OF assms(3)] simp: policy_of_def)
  then have "b \<longleftrightarrow> ?M \<noteq> {}" unfolding b model_effect_def by fastforce
  also have "\<dots> \<longleftrightarrow> casbin_may_read (roles e) (held pols e) r w n k"
  proof
    assume "?M \<noteq> {}"
    then show "casbin_may_read (roles e) (held pols e) r w n k"
      by (auto simp: casbin_may_read_def fits elim!: grants_only_cases [OF assms(3)])
  next
    assume "casbin_may_read (roles e) (held pols e) r w n k"
    then obtain p where p: "p \<in> held pols e" "roles e r (perm_Grantee p)" "perm_Owner p = w"
      "HasPrefix ?x (perm_Object p @ ''.'')"
      using False by (auto simp: casbin_may_read_def)
    have "policy_of p \<in> pols e" using p(1) by (simp add: held_def)
    moreover then have "plain_lexicon (perm_Object p)" by (auto elim!: grants_only_cases [OF assms(3)])
    ultimately show "?M \<noteq> {}" using fits p by blast
  qed
  finally show ?thesis .
qed

section \<open>The interface of granting\<close>

text \<open>
  What every store promises of its state: \<open>content\<close> is the set of grants it stands for, \<open>ok\<close> its invariant, and
  \<open>plain\<close> the names of lexicons it admits.
\<close>

datatype grant_op = AddGrant string string string | RemoveGrant string string string

fun op_lexicon :: "grant_op \<Rightarrow> string" where
  "op_lexicon (AddGrant g w n) = n"
| "op_lexicon (RemoveGrant g w n) = n"

fun op_effect :: "grant_op \<Rightarrow> permission set \<Rightarrow> permission set" where
  "op_effect (AddGrant g w n) R = insert (grant g w n) R"
| "op_effect (RemoveGrant g w n) R = R - {grant g w n}"

text \<open>A history of a store, up to its first error.\<close>

fun run_grants ::
  "(string \<Rightarrow> string \<Rightarrow> string \<Rightarrow> 'd \<Rightarrow> 'd \<times> (unit, perm_error) res)
   \<Rightarrow> (string \<Rightarrow> string \<Rightarrow> string \<Rightarrow> 'd \<Rightarrow> 'd \<times> (unit, perm_error) res)
   \<Rightarrow> grant_op list \<Rightarrow> 'd \<Rightarrow> 'd \<times> (unit, perm_error) res"
where
  "run_grants add remove [] d = (d, Ok ())"
| "run_grants add remove (x # xs) d =
     (case (case x of AddGrant g w n \<Rightarrow> add g w n d | RemoveGrant g w n \<Rightarrow> remove g w n d) of
        (d', Ok _) \<Rightarrow> run_grants add remove xs d'
      | (d', r) \<Rightarrow> (d', r))"

locale grant_store =
  fixes add :: "string \<Rightarrow> string \<Rightarrow> string \<Rightarrow> 'd \<Rightarrow> 'd \<times> (unit, perm_error) res"
    and remove :: "string \<Rightarrow> string \<Rightarrow> string \<Rightarrow> 'd \<Rightarrow> 'd \<times> (unit, perm_error) res"
    and content :: "'d \<Rightarrow> permission set"
    and ok :: "'d \<Rightarrow> bool"
    and plain :: "string \<Rightarrow> bool"
  assumes add_content: "ok d \<Longrightarrow> plain n \<Longrightarrow> add g w n d = (d', Ok ()) \<Longrightarrow>
      ok d' \<and> content d' = insert (grant g w n) (content d)"
    and remove_content: "ok d \<Longrightarrow> plain n \<Longrightarrow> remove g w n d = (d', Ok ()) \<Longrightarrow>
      ok d' \<and> content d' = content d - {grant g w n}"
begin

lemma run_content:
  assumes "ok d" and "list_all (\<lambda>x. plain (op_lexicon x)) xs" and "run_grants add remove xs d = (d', Ok ())"
  shows "ok d' \<and> content d' = fold op_effect xs (content d)"
  using assms
proof (induction xs arbitrary: d)
  case (Cons x xs)
  then obtain d1 where step: "(case x of AddGrant g w n \<Rightarrow> add g w n d | RemoveGrant g w n \<Rightarrow> remove g w n d) = (d1, Ok ())"
    and rest: "run_grants add remove xs d1 = (d', Ok ())"
    by (auto split: prod.splits res.splits)
  have "ok d1 \<and> content d1 = op_effect x (content d)"
  proof (cases x)
    case (AddGrant g w n)
    then show ?thesis using add_content [OF Cons.prems(1), of n g w d1] step Cons.prems(2) by simp
  next
    case (RemoveGrant g w n)
    then show ?thesis using remove_content [OF Cons.prems(1), of n g w d1] step Cons.prems(2) by simp
  qed
  with Cons.IH [of d1] Cons.prems(2) rest show ?case by simp
qed simp

end

interpretation sqlite_grants: grant_store "sqlite_AddLexiconReadPermission T" "sqlite_RemoveLexiconReadPermission T" rows
  "\<lambda>d. table_laws T rows \<and> only_grants (rows d)" no_wildcard for T rows
proof unfold_locales
  fix d n g w d'
  assume ok: "table_laws T rows \<and> only_grants (rows d)" and n: "no_wildcard n"
  then have keep: "only_grants (insert (grant g w n) (rows d))" "only_grants (rows d - {grant g w n})"
    by (auto simp: only_grants_def grant_def)
  show "(table_laws T rows \<and> only_grants (rows d')) \<and> rows d' = insert (grant g w n) (rows d)"
    if "sqlite_AddLexiconReadPermission T g w n d = (d', Ok ())"
    using sqlite_Add_rows [OF _ _ that] ok keep(1) by simp
  show "(table_laws T rows \<and> only_grants (rows d')) \<and> rows d' = rows d - {grant g w n}"
    if "sqlite_RemoveLexiconReadPermission T g w n d = (d', Ok ())"
    using sqlite_Remove_rows [OF _ _ that] ok keep(2) by simp
qed

lemma held_changes:
  assumes "grants_only pols e" and "plain_lexicon n"
  shows "pols e' = insert (policy_of (grant g w n)) (pols e) \<Longrightarrow>
      grants_only pols e' \<and> held pols e' = insert (grant g w n) (held pols e)"
    and "pols e' = pols e - {policy_of (grant g w n)} \<Longrightarrow>
      grants_only pols e' \<and> held pols e' = held pols e - {grant g w n}"
proof -
  have "policy_of (grant g w n) \<in> policy_of ` {p. perm_Effect p = ''allow'' \<and> plain_lexicon (perm_Object p)}"
    using assms(2) by (simp add: grant_def)
  then show "pols e' = insert (policy_of (grant g w n)) (pols e) \<Longrightarrow>
      grants_only pols e' \<and> held pols e' = insert (grant g w n) (held pols e)"
    using assms(1) by (simp add: grants_only_def held_def) blast
  show "pols e' = pols e - {policy_of (grant g w n)} \<Longrightarrow>
      grants_only pols e' \<and> held pols e' = held pols e - {grant g w n}"
    using assms(1) by (simp add: grants_only_def held_def) blast
qed

interpretation casbin_grants: grant_store "casbin_AddLexiconReadPermission C" "casbin_RemoveLexiconReadPermission C"
  "held pols" "\<lambda>e. casbin_laws C pols roles km \<and> grants_only pols e \<and> roles e = inherits" plain_lexicon
  for C pols roles km inherits
proof unfold_locales
  fix e n g w e'
  assume ok: "casbin_laws C pols roles km \<and> grants_only pols e \<and> roles e = inherits" and n: "plain_lexicon n"
  then have only: "grants_only pols e" and laws: "casbin_laws C pols roles km" by simp_all
  show "(casbin_laws C pols roles km \<and> grants_only pols e' \<and> roles e' = inherits) \<and>
      held pols e' = insert (grant g w n) (held pols e)"
    if "casbin_AddLexiconReadPermission C g w n e = (e', Ok ())"
    using casbin_Add_pols [OF laws that] held_changes(1) [OF only n] ok by (simp add: policy_of_grant)
  show "(casbin_laws C pols roles km \<and> grants_only pols e' \<and> roles e' = inherits) \<and>
      held pols e' = held pols e - {grant g w n}"
    if "casbin_RemoveLexiconReadPermission C g w n e = (e', Ok ())"
    using casbin_Remove_pols [OF laws that] held_changes(2) [OF only n] ok by (simp add: policy_of_grant)
qed

section \<open>The two stores\<close>

text \<open>
  C14: the store over casbin refines a set of grants as the SQLite store does: adding inserts one and removing
  deletes it; a record may be read by its owner and by those who inherit from the grantee of a lexicon above it.
\<close>

theorem casbin_store_refines_grants:
  assumes "casbin_laws C pols roles km" and "keyMatch_laws km" and "grants_only pols e" and "plain_lexicon n"
  shows "(\<forall>b. casbin_HasPermission C r w m k e = Ok b \<longrightarrow> b = casbin_may_read (roles e) (held pols e) r w m k) \<and>
     (\<forall>e'. casbin_AddLexiconReadPermission C g w n e = (e', Ok ()) \<longrightarrow>
        grants_only pols e' \<and> roles e' = roles e \<and> held pols e' = insert (grant g w n) (held pols e)) \<and>
     (\<forall>e'. casbin_RemoveLexiconReadPermission C g w n e = (e', Ok ()) \<longrightarrow>
        grants_only pols e' \<and> roles e' = roles e \<and> held pols e' = held pols e - {grant g w n})"
proof (intro conjI allI impI)
  have ok: "casbin_laws C pols roles km \<and> grants_only pols e \<and> roles e = roles e" using assms by simp
  show "b = casbin_may_read (roles e) (held pols e) r w m k" if "casbin_HasPermission C r w m k e = Ok b" for b
    by (rule casbin_HasPermission_held [OF assms(1-3) that])
  note add = casbin_grants.add_content [OF ok assms(4)]
  note remove = casbin_grants.remove_content [OF ok assms(4)]
  fix e'
  {
    assume "casbin_AddLexiconReadPermission C g w n e = (e', Ok ())"
    from add [OF this] show "grants_only pols e'" "roles e' = roles e" "held pols e' = insert (grant g w n) (held pols e)"
      by simp_all
  }
  {
    assume "casbin_RemoveLexiconReadPermission C g w n e = (e', Ok ())"
    from remove [OF this] show "grants_only pols e'" "roles e' = roles e" "held pols e' = held pols e - {grant g w n}"
      by simp_all
  }
qed

definition lower_case :: "string \<Rightarrow> bool" where
  "lower_case s \<longleftrightarrow> map ascii_lower s = s"

lemma covers_lower:
  assumes "lower_case x" and "lower_case q"
  shows "covers x q \<longleftrightarrow> x = q \<or> HasPrefix q (x @ ''.'')"
proof -
  have "t = x" if "q = t @ CHR ''.'' # u" "map ascii_lower t = map ascii_lower x" for t u
    using that assms by (simp add: lower_case_def)
  then show ?thesis by (auto simp: covers_def HasPrefix_iff)
qed

lemma prefix_star: "HasPrefix (n @ ''.*'') (x @ ''.'') \<longleftrightarrow> x = n \<or> HasPrefix n (x @ ''.'')"
proof
  assume "HasPrefix (n @ ''.*'') (x @ ''.'')"
  then obtain u where u: "n @ ''.*'' = x @ ''.'' @ u" by (auto simp: HasPrefix_iff)
  show "x = n \<or> HasPrefix n (x @ ''.'')"
  proof (cases u rule: rev_cases)
    case Nil
    with u show ?thesis using arg_cong [OF u, of last] by simp
  next
    case (snoc v c)
    with u have v: "n @ ''.'' = x @ ''.'' @ v" using arg_cong [OF u, of butlast] by (simp add: butlast_append)
    show ?thesis
    proof (cases v rule: rev_cases)
      case Nil
      with v show ?thesis by simp
    next
      case (snoc v' c')
      with v have "n = x @ ''.'' @ v'" using arg_cong [OF v, of butlast] by (simp add: butlast_append)
      then show ?thesis by (auto simp: HasPrefix_iff)
    qed
  qed
next
  assume "x = n \<or> HasPrefix n (x @ ''.'')"
  then show "HasPrefix (n @ ''.*'') (x @ ''.'')" by (auto simp: HasPrefix_iff)
qed

lemma covers_record:
  assumes "lower_case x" and "lower_case n" and "lower_case k"
  shows "covers x (record_object n k) \<longleftrightarrow>
     HasPrefix (getCasbinObjectFromRecord n k) (x @ ''.'') \<or> k \<noteq> '''' \<and> x = n @ ''.'' @ k"
proof -
  have "lower_case (record_object n k)" using assms(2,3) by (simp add: lower_case_def record_object_def ascii_lower_def)
  then show ?thesis
    using covers_lower [OF assms(1)] prefix_star by (auto simp: record_object_def getCasbinObjectFromRecord_def)
qed

lemma fold_effect_objects:
  "p \<in> fold op_effect xs R \<Longrightarrow> p \<in> R \<or> perm_Object p \<in> op_lexicon ` set xs"
proof (induction xs arbitrary: R)
  case (Cons x xs)
  from Cons.prems have "p \<in> fold op_effect xs (op_effect x R)" by simp
  with Cons.IH [of "op_effect x R"] show ?case by (cases x) (auto simp: grant_def)
qed simp

lemma may_read_casbin:
  assumes "\<forall>p \<in> R. perm_Effect p = ''allow'' \<and> lower_case (perm_Object p)" and "lower_case m" and "lower_case k"
  shows "may_read R r w m k \<longleftrightarrow>
    casbin_may_read (=) R r w m k \<or> k \<noteq> '''' \<and> grant r w (m @ ''.'' @ k) \<in> R"
proof -
  have exact: "grant r w x \<in> R \<longleftrightarrow> (\<exists>p \<in> R. perm_Grantee p = r \<and> perm_Owner p = w \<and> perm_Object p = x)" for x
  proof
    assume "grant r w x \<in> R"
    then show "\<exists>p \<in> R. perm_Grantee p = r \<and> perm_Owner p = w \<and> perm_Object p = x"
      by (rule bexI [rotated]) (simp add: grant_def)
  next
    assume "\<exists>p \<in> R. perm_Grantee p = r \<and> perm_Owner p = w \<and> perm_Object p = x"
    then obtain p where "p \<in> R" "perm_Grantee p = r" "perm_Owner p = w" "perm_Object p = x" by blast
    moreover have "perm_Effect p = ''allow''" using assms(1) \<open>p \<in> R\<close> by blast
    ultimately have "p \<in> R" "p = grant r w x" by (simp_all add: grant_def)
    then show "grant r w x \<in> R" by simp
  qed
  have cov: "covers (perm_Object p) (record_object m k) \<longleftrightarrow>
      HasPrefix (getCasbinObjectFromRecord m k) (perm_Object p @ ''.'') \<or> k \<noteq> '''' \<and> perm_Object p = m @ ''.'' @ k"
    if "p \<in> R" for p
    using covers_record [OF _ assms(2,3)] assms(1) that by blast
  show ?thesis unfolding may_read_def casbin_may_read_def exact using cov by blast
qed

text \<open>A lexicon of a history: its name is in lower case and has none of the characters of a pattern.\<close>

definition usual_lexicon :: "string \<Rightarrow> bool" where
  "usual_lexicon n \<longleftrightarrow> lower_case n \<and> no_wildcard n \<and> plain_lexicon n"


section \<open>The theorems applied\<close>

text \<open>An enforcer without roles that keeps its policies in a list.\<close>

definition star_match :: "string \<Rightarrow> string \<Rightarrow> bool" where
  "star_match key p = HasPrefix key (takeWhile (\<lambda>c. c \<noteq> CHR ''*'') p)"

lemma star_match_laws: "keyMatch_laws star_match"
proof -
  have "takeWhile (\<lambda>c. c \<noteq> CHR ''*'') (p @ ''*'') = p" if "CHR ''*'' \<notin> set p" for p
    using that by (induction p) auto
  then show ?thesis by (simp add: keyMatch_laws_def star_match_def)
qed

definition list_enforcer :: "string list list enforcer" where
  "list_enforcer =
     \<lparr>Enforce = (\<lambda>sub own obj e. Ok (model_effect (set (filter (model_matcher (=) star_match sub own obj) e)))),
      AddPolicy = (\<lambda>p e. (p # e, Ok ())), RemovePolicy = (\<lambda>p e. (removeAll p e, Ok ())), SavePolicy = (\<lambda>e. (e, Ok ())),
      GetFilteredPolicy = (\<lambda>i v e. Ok (filter (\<lambda>p. p ! i = v) e))\<rparr>"

lemma list_enforcer_laws: "casbin_laws list_enforcer set (\<lambda>_. (=)) star_match"
  unfolding casbin_laws_def by (intro conjI) (simp_all add: list_enforcer_def)

definition usual_history :: "grant_op list" where
  "usual_history = [AddGrant ''alice'' ''bob'' ''com.posts'', AddGrant ''alice'' ''bob'' ''com.likes'',
     RemoveGrant ''alice'' ''bob'' ''com.likes'']"

lemma casbin_store_refines_grants_witness:
  "\<exists>e'. casbin_AddLexiconReadPermission list_enforcer ''carol'' ''bob'' ''com.x'' [] = (e', Ok ()) \<and>
     held set e' = {grant ''carol'' ''bob'' ''com.x''}"
proof -
  obtain e' where add: "casbin_AddLexiconReadPermission list_enforcer ''carol'' ''bob'' ''com.x'' [] = (e', Ok ())"
    by (simp add: casbin_AddLexiconReadPermission_def list_enforcer_def then_save_def)
  have "grants_only set []" "plain_lexicon ''com.x''" by (simp_all add: grants_only_def plain_lexicon_def)
  from casbin_store_refines_grants [OF list_enforcer_laws star_match_laws this, where g = "''carol''" and w = "''bob''"
      and r = "''alice''" and m = "''com.x''" and k = "''r''"] add
  have "held set e' = insert (grant ''carol'' ''bob'' ''com.x'') (held set [])" by blast
  with add show ?thesis by (auto simp: held_def)
qed


end
