(* ===== verification/NodeBoot.thy ===== *)
theory NodeBoot
  imports NodeRun Privi FileSystem Casbin
begin

text \<open>
  The whole start of a node: \<open>main\<close> and \<open>setupPrivi\<close> of \<open>cmd/node/main.go\<close>.  The start puts the components
  together: the database, the proxy, the controller with its drivers and package managers, the routes of the
  API, and the private data server.

  \<open>log.Fatal\<close> ends the program: it is an error of the start.  Listening, the Docker client, and what the
  libraries of casbin and gorm open are parameters; the loops of the servers and the shutdown are outside.
\<close>

section \<open>The private data of the node\<close>

datatype start_error =
    BootFailed boot_error
  | RunsWithoutDatabase
  | TLSFailed config_error
  | ListenFailed
  | ComponentMissing
  | RestoreFailed ctrl_error
  | AuthRoutesFailed
  | PermissionStoreFailed
  | DemoGrantFailed perm_error
  | RepoFileFailed os_error
  | RepoOpenFailed
  | RepoTablesFailed

definition sashankDID :: string where "sashankDID = ''did:plc:v3amhno5wvyfams6aioqqj66''"
definition arushiDID :: string where "arushiDID = ''did:plc:l3k2mbu6qa6rxjej5tvjj7zz''"

text \<open>The file of the repository is created when it does not exist.\<close>

definition repo_file :: "string list \<Rightarrow> fs \<Rightarrow> fs \<times> (unit, start_error) res" where
  "repo_file p t =
     (case os_Stat p t of
        Ok _ \<Rightarrow> (t, Ok ())
      | Panic \<Rightarrow> (t, Panic)
      | Err e \<Rightarrow>
          if e = NotExist then (case os_Create p t of (t', r) \<Rightarrow> (t', map_err RepoFileFailed r))
          else (t, Err (RepoFileFailed e)))"

text \<open>
  \<open>setupPrivi\<close>: every node starts with a grant for a demonstration.  The server gets no authorization server:
  \<open>Validate\<close> of the nil pointer panics.  \<open>pl_base\<close> is a server with the identity directory and the libraries that
  \<open>NewServer\<close> takes from its package.
\<close>

definition casbin_store :: "'e enforcer \<Rightarrow> 'e perm_store" where
  "casbin_store C =
     \<lparr>st_HasPermission = casbin_HasPermission C, st_Add = casbin_AddLexiconReadPermission C,
      st_Remove = casbin_RemoveLexiconReadPermission C, st_ListByLexicon = casbin_ListReadPermissionsByLexicon C,
      st_ListByUser = casbin_ListReadPermissionsByUser\<rparr>"

record ('d, 'e, 'k, 'o) privi_lib =
  pl_NewStore :: "string \<Rightarrow> 'e option"
  pl_enforcer :: "'e enforcer"
  pl_Open :: "string \<Rightarrow> bool"
  pl_NewSQLiteRepo :: "'d repo option"
  pl_base :: "('d, 'e, 'k, 'o) privi_server"

definition setupPrivi ::
  "('d, 'e, 'k, 'o) privi_lib \<Rightarrow> string list \<Rightarrow> node_config \<Rightarrow> fs
   \<Rightarrow> fs \<times> ('e \<times> ('d, 'e, 'k, 'o) privi_server, start_error) res"
where
  "setupPrivi L cwd nodeConfig t =
     (case pl_NewStore L (path_Join [PermissionPolicyFilesDir nodeConfig, ''policies.csv'']) of
        None \<Rightarrow> (t, Err PermissionStoreFailed)
      | Some e \<Rightarrow>
          (case casbin_AddLexiconReadPermission (pl_enforcer L) arushiDID sashankDID ''com.habitat.test'' e of
             (e', Err x) \<Rightarrow> (t, Err (DemoGrantFailed x))
           | (e', Panic) \<Rightarrow> (t, Panic)
           | (e', Ok _) \<Rightarrow>
               (case repo_file (locate cwd (PriviRepoFile nodeConfig)) t of
                  (t', r) \<Rightarrow>
                    (t', bind_res r (\<lambda>_.
                       if \<not> pl_Open L (PriviRepoFile nodeConfig) then Err RepoOpenFailed
                       else
                         bind_res (ok_or RepoTablesFailed (pl_NewSQLiteRepo L)) (\<lambda>repo.
                           Ok (e', (pl_base L)\<lparr>sv_perms := casbin_store (pl_enforcer L), sv_repo := repo,
                             sv_oauth_Validate := (\<lambda>_ _. Panic)\<rparr>)))))))"

section \<open>The start\<close>

text \<open>\<open>NewController\<close> checks that the process manager is a component, which the one of the code is.\<close>

definition NewController ::
  "'w process_manager \<Rightarrow> (DriverType, 'w package_manager) fmap \<Rightarrow> 'c db_client \<Rightarrow> bool
   \<Rightarrow> (('c, 'w) controller, start_error) res"
where
  "NewController pm pkgManagers db is_component =
     (if \<not> is_component then Err ComponentMissing
      else Ok \<lparr>ctl_db = db, ctl_processManager = pm, ctl_pkgManagers = pkgManagers\<rparr>)"

text \<open>The drivers and package managers of the two kinds of packages; the one for the web has its directory.\<close>

record 'w machine =
  mc_dockerDriver :: "'w driver"
  mc_webDriver :: "'w driver"
  mc_dockerPackages :: "'w package_manager"
  mc_webPackages :: "string \<Rightarrow> 'w package_manager"
  mc_Listen :: "string \<Rightarrow> bool"
  mc_AuthRoutes :: bool

definition main_pkgManagers :: "'w machine \<Rightarrow> node_config \<Rightarrow> (DriverType, 'w package_manager) fmap" where
  "main_pkgManagers M nodeConfig =
     fmap_of_list [(DriverTypeDocker, mc_dockerPackages M), (DriverTypeWeb, mc_webPackages M (WebBundlePath nodeConfig))]"

definition main_controller ::
  "env \<Rightarrow> 'w machine \<Rightarrow> node_config \<Rightarrow> ((file_db \<times> disk, 'w) controller, start_error) res"
where
  "main_controller E M nodeConfig =
     NewController (NewProcessManager [mc_dockerDriver M, mc_webDriver M]) (main_pkgManagers M nodeConfig)
       (fileDB_client E) True"

text \<open>
  \<open>main\<close> up to its servers.  A database that could not be written is nil without an error: the node goes on
  with it and panics at the first request; this is the error \<open>RunsWithoutDatabase\<close> here.
\<close>

definition main_start ::
  "env \<Rightarrow> cert_lib \<Rightarrow> 'w machine \<Rightarrow> 'w restore_orders \<Rightarrow> write_outcome \<Rightarrow> string \<Rightarrow> (nat \<Rightarrow> string \<times> string)
   \<Rightarrow> node_config \<Rightarrow> disk \<Rightarrow> 'w \<Rightarrow> ((file_db \<times> disk, 'w) ctrl, start_error) res"
where
  "main_start E C M R out uuid draw nodeConfig d w =
     (case main_database E False False out uuid draw nodeConfig d of
        (d', Err e) \<Rightarrow> Err (BootFailed e)
      | (d', Panic) \<Rightarrow> Panic
      | (d', Ok (initState, None)) \<Rightarrow> Err RunsWithoutDatabase
      | (d', Ok (initState, Some db)) \<Rightarrow>
          bind_res (map_err TLSFailed (TLSConfig C nodeConfig)) (\<lambda>tlsConfig.
          if \<not> mc_Listen M (CHR '':'' # ReverseProxyPort nodeConfig) then Err ListenFailed
          else
            bind_res (main_controller E M nodeConfig) (\<lambda>ctrl2.
              (case NewCtrlServer ctrl2 R initState
                      \<lparr>ct_db = (db, d'), ct_world = w, ct_rules = NewProxyServer (WebBundlePath nodeConfig)\<rparr> of
                 (c, Err e) \<Rightarrow> Err (RestoreFailed e)
               | (c, Panic) \<Rightarrow> Panic
               | (c, Ok _) \<Rightarrow> if mc_AuthRoutes M then Ok c else Err AuthRoutesFailed))))"

definition main_node ::
  "env \<Rightarrow> cert_lib \<Rightarrow> ('d, 'e, 'k, 'o) privi_lib \<Rightarrow> 'w machine \<Rightarrow> 'w restore_orders \<Rightarrow> write_outcome \<Rightarrow> string
   \<Rightarrow> (nat \<Rightarrow> string \<times> string) \<Rightarrow> string list \<Rightarrow> node_config \<Rightarrow> disk \<Rightarrow> 'w \<Rightarrow> fs
   \<Rightarrow> fs \<times> ((file_db \<times> disk, 'w) ctrl \<times> 'e \<times> ('d, 'e, 'k, 'o) privi_server, start_error) res"
where
  "main_node E C L M R out uuid draw cwd nodeConfig d w t =
     (case main_start E C M R out uuid draw nodeConfig d w of
        Err e \<Rightarrow> (t, Err e)
      | Panic \<Rightarrow> (t, Panic)
      | Ok c \<Rightarrow>
          (case setupPrivi L cwd nodeConfig t of
             (t', r) \<Rightarrow> (t', bind_res r (\<lambda>(e, S). Ok (c, e, S)))))"

section \<open>From the start on\<close>

lemma main_start_Ok:
  assumes "main_start E C M R out uuid draw n d w = Ok c"
  obtains s db d' K r where "main_database E False False out uuid draw n d = (d', Ok (s, Some db))"
    and "main_controller E M n = Ok K"
    and "NewCtrlServer K R s \<lparr>ct_db = (db, d'), ct_world = w, ct_rules = NewProxyServer (WebBundlePath n)\<rparr> = (c, Ok r)"
proof -
  obtain d' s db where m: "main_database E False False out uuid draw n d = (d', Ok (s, Some db))"
    using assms by (auto simp: main_start_def split: prod.splits res.splits option.splits)
  obtain K where K: "main_controller E M n = Ok K"
    by (simp add: main_controller_def NewController_def)
  obtain c' r where "NewCtrlServer K R s \<lparr>ct_db = (db, d'), ct_world = w, ct_rules = NewProxyServer (WebBundlePath n)\<rparr> = (c', r)"
    by fastforce
  with assms m K have "NewCtrlServer K R s \<lparr>ct_db = (db, d'), ct_world = w, ct_rules = NewProxyServer (WebBundlePath n)\<rparr> = (c, Ok ())"
    by (auto simp: main_start_def bind_res_Ok_iff split: if_splits res.splits)
  with m K show thesis by (rule that)
qed

text \<open>The requests that the node serves are sequences of moves: its controller has what the proof of this asks.\<close>

lemma main_controller_plain:
  assumes "main_controller E M n = Ok K" and "Written \<in> outs"
  shows "file_database E outs K" and "plain_managers K"
  using assms
  by (auto intro!: file_database_client simp: main_controller_def NewController_def plain_managers_def main_pkgManagers_def fmpred_iff driver_types
      good_id_def json_plain_def plain_key_def split: if_splits)


lemma restore_db: "NewCtrlServer K R s c = (c', r) \<Longrightarrow> ct_db c' = ct_db c"
  by (auto simp: NewCtrlServer_def restore_def Let_def split: res.splits prod.splits)


text \<open>
  The private data server that the node starts has no authorization server: a request to one of its records
  that names OAuth as its method ends in a panic.
\<close>

theorem node_privi_panics_on_oauth:
  assumes "setupPrivi L cwd n t = (t', Ok (e, S))" and "rq_Header r ''Habitat-Auth-Method'' = ''oauth''"
  shows "PutRecord S uuid r d = (d, None) \<and> GetRecord S r p d = None"
proof -
  have "sv_oauth_Validate S = (\<lambda>_ _. Panic)"
    using assms(1) by (auto simp: setupPrivi_def bind_res_Ok_iff split: option.splits prod.splits res.splits if_splits)
  then have "getAuthedUser S r w = Panic" for w using assms(2) by (simp add: getAuthedUser_def)
  then show ?thesis by (simp add: PutRecord_def GetRecord_def with_user_def)
qed

text \<open>
  The grant for the demonstration is on every node, whoever runs it: unless a stored policy denies it, the one
  account may read the test records of the other.
\<close>

theorem every_node_has_the_demo_grant:
  assumes "casbin_laws (pl_enforcer L) pols roles km" and "keyMatch_laws km" and "\<And>e. roles e arushiDID arushiDID"
    and "setupPrivi L cwd n t = (t', Ok (e, S))" and "\<forall>p \<in> pols e. p ! 3 \<noteq> ''deny''"
    and "st_HasPermission (sv_perms S) arushiDID sashankDID ''com.habitat.test'' k e = Ok b"
  shows b
proof -
  obtain e0 where add: "casbin_AddLexiconReadPermission (pl_enforcer L) arushiDID sashankDID ''com.habitat.test'' e0 = (e, Ok ())"
    and S: "sv_perms S = casbin_store (pl_enforcer L)"
    using assms(4) by (auto simp: setupPrivi_def bind_res_Ok_iff split: option.splits prod.splits res.splits if_splits)
  let ?p = "[arushiDID, sashankDID, getCasbinObjectFromLexicon ''com.habitat.test'', ''allow'']"
  have "?p \<in> pols e" using casbin_Add_pols [OF assms(1) add] by simp
  moreover have "model_matcher (roles e) km arushiDID sashankDID (getCasbinObjectFromRecord ''com.habitat.test'' k) ?p"
    using keyMatch_lexicon [OF assms(2), of "''com.habitat.test''"] assms(3)
    by (simp add: model_matcher_def plain_lexicon_def getCasbinObjectFromRecord_def HasPrefix_def)
  ultimately have "model_effect {p \<in> pols e. model_matcher (roles e) km arushiDID sashankDID
      (getCasbinObjectFromRecord ''com.habitat.test'' k) p}"
    using assms(5) unfolding model_effect_def by fastforce
  moreover have "arushiDID \<noteq> sashankDID" by (simp add: arushiDID_def sashankDID_def)
  ultimately show b
    using assms(6) casbin_Enforce [OF assms(1)] by (auto simp: S casbin_store_def casbin_HasPermission_def)
qed

section \<open>The theorems applied\<close>

definition demo_machine :: "unit machine" where
  "demo_machine =
     \<lparr>mc_dockerDriver = NewNoopDriver DriverTypeDocker, mc_webDriver = NewNoopDriver DriverTypeWeb,
      mc_dockerPackages = \<lparr>pkgm_Driver = DriverTypeDocker, pkgm_IsInstalled = (\<lambda>_ _ _. Ok True),
        pkgm_InstallPackage = (\<lambda>_ _ w. (w, Ok ())), pkgm_UninstallPackage = (\<lambda>_ _ w. (w, Ok ())),
        pkgm_RestoreFromState = (\<lambda>_ w. (w, Ok ()))\<rparr>,
      mc_webPackages = (\<lambda>_. \<lparr>pkgm_Driver = DriverTypeWeb, pkgm_IsInstalled = (\<lambda>_ _ _. Ok True),
        pkgm_InstallPackage = (\<lambda>_ _ w. (w, Ok ())), pkgm_UninstallPackage = (\<lambda>_ _ w. (w, Ok ())),
        pkgm_RestoreFromState = (\<lambda>_ w. (w, Ok ()))\<rparr>),
      mc_Listen = (\<lambda>_. True), mc_AuthRoutes = True\<rparr>"

definition no_orders :: "unit restore_orders" where
  "no_orders = \<lparr>ord_managers = (\<lambda>_. []), ord_apps = (\<lambda>_. []), ord_rules = (\<lambda>_. []), ord_processes = (\<lambda>_. []),
     ord_info = (\<lambda>_. [])\<rparr>"

definition demo_enforcer :: "string list list enforcer" where
  "demo_enforcer =
     \<lparr>Enforce = (\<lambda>g o' x e. Ok ([g, o', x, ''allow''] \<in> set e)), AddPolicy = (\<lambda>p e. (p # e, Ok ())),
      RemovePolicy = (\<lambda>p e. (removeAll p e, Ok ())), SavePolicy = (\<lambda>e. (e, Ok ())),
      GetFilteredPolicy = (\<lambda>i v e. Ok (filter (\<lambda>p. p ! i = v) e))\<rparr>"

definition demo_lib :: "(repo_record list, string list list, string, unit) privi_lib" where
  "demo_lib =
     \<lparr>pl_NewStore = (\<lambda>_. Some []), pl_enforcer = demo_enforcer, pl_Open = (\<lambda>_. True), pl_NewSQLiteRepo = Some sample_repo,
      pl_base =
        \<lparr>sv_perms = casbin_store demo_enforcer, sv_repo = sample_repo, sv_ParseAtIdentifier = Some, sv_Lookup = Some,
         sv_PublicKey = Some, sv_jwt_Parse = (\<lambda>token key. None), sv_oauth_Validate = (\<lambda>_ w. Ok (w, None)),
         sv_decode_get = (\<lambda>_. None), sv_decode_list = (\<lambda>_. None)\<rparr>\<rparr>"

definition demo_tree :: fs where
  "demo_tree = fmap_of_list [([], DirNode), ([''habitat''], DirNode)]"

lemma demo_setup: "\<exists>t' e S. setupPrivi demo_lib [] demo_config demo_tree = (t', Ok (e, S))"
proof -
  have p: "locate [] (PriviRepoFile demo_config) = [''habitat'', ''privi-repo.db'']"
    by code_simp
  have "\<exists>t'. repo_file [''habitat'', ''privi-repo.db''] demo_tree = (t', Ok ())"
    by (simp add: repo_file_def os_Stat_def os_Create_def os_OpenFile_def file_above_def demo_tree_def)
  then show ?thesis
    by (auto simp: setupPrivi_def p demo_lib_def demo_enforcer_def casbin_AddLexiconReadPermission_def then_save_def)
qed

lemma demo_start:
  obtains c0 where "main_start ref_env C demo_machine no_orders Written ''n1'' demo_draw demo_config fmempty () = Ok c0"
    and "ct_rules c0 = NewProxyServer (WebBundlePath demo_config)"
proof -
  obtain db d' where m: "main_database ref_env False False Written ''n1'' demo_draw demo_config fmempty =
      (d', Ok (demo_state, Some db))"
    by (rule demo_first_boot)
  have "TLSConfig C demo_config = Ok None"
    by (simp add: TLSConfig_def UseTLS_def demo_config_def demo_viper_def)
  with m that show thesis
    by (simp add: main_start_def demo_machine_def main_controller_def NewController_def NewCtrlServer_def restore_def
        no_orders_def Let_def restore_rules_def)
qed

lemma demo_restart:
  assumes "main_database ref_env False False Written ''n1'' demo_draw demo_config fmempty = (d', Ok (demo_state, Some db))"
  shows "\<exists>c1. main_start ref_env C demo_machine no_orders out ''n1'' demo_draw demo_config d' () = Ok c1"
proof -
  note boot = first_boot(3,4) [OF ref_env_semver_laws ref_env_diff_laws ref_env_ok assms fmempty_lookup]
  have "fmlookup d' (HDBPath demo_config) = Some (Some (db_state db))"
    using boot(1) first_boot_path [OF assms] by (simp add: synced_def)
  then have "main_database ref_env False False out ''n1'' demo_draw demo_config d' =
      (d', Ok (demo_state, Some \<lparr>db_path = HDBPath demo_config, db_state = db_state db\<rparr>))"
    using boot(2) demo_main_state by (simp add: main_database_def NewHabitatDB_def)
  moreover have "TLSConfig C demo_config = Ok None"
    by (simp add: TLSConfig_def UseTLS_def demo_config_def demo_viper_def)
  ultimately show ?thesis
    by (simp add: main_start_def demo_machine_def main_controller_def NewController_def NewCtrlServer_def restore_def
        no_orders_def Let_def restore_rules_def)
qed

definition no_certs :: cert_lib where
  "no_certs = \<lparr>ce_ReadFile = (\<lambda>_. None), ce_pem_Decode = (\<lambda>_. None), ce_ParseCertificate = (\<lambda>_. None)\<rparr>"



end
