(* ===== verification/Interleaving.thy ===== *)
theory Interleaving
  imports NodeRun
begin

text \<open>
  Requests that are served at the same time.  The server runs each handler in a goroutine of its own, and what the
  handlers share is the controller: the database, whose lock makes a proposal and a reading atomic, the proxy rules,
  and the world of processes and packages.

  A handler is written as a program, a tree of atomic actions with what follows each of its results.  Run
  alone, a program is the handler of \<open>CtrlServer\<close>.  A pool of programs takes its actions in any order.
\<close>

section \<open>Programs\<close>

text \<open>
  \<open>World g f\<close> changes the world by \<open>g\<close> and goes on as \<open>f\<close> says of the world from before; \<open>Rule r f\<close> calls
  \<open>AddRule\<close>.
\<close>

datatype ('w, 'a) prog =
    Done 'a
  | Read "(node_state, decode_error) res \<Rightarrow> ('w, 'a) prog"
  | Propose transition "(json, db_error) res \<Rightarrow> ('w, 'a) prog"
  | World "'w \<Rightarrow> 'w" "'w \<Rightarrow> ('w, 'a) prog"
  | Rule rule "bool \<Rightarrow> ('w, 'a) prog"

definition perform :: "('w \<Rightarrow> 'w \<times> 'r) \<Rightarrow> ('r \<Rightarrow> ('w, 'a) prog) \<Rightarrow> ('w, 'a) prog" where
  "perform op k = World (\<lambda>w. fst (op w)) (\<lambda>w. k (snd (op w)))"

text \<open>One action, and a program to its end.\<close>

fun exec :: "('c, 'w) controller \<Rightarrow> ('w, 'a) prog \<Rightarrow> ('c, 'w) ctrl \<Rightarrow> ('c, 'w) ctrl \<times> ('w, 'a) prog" where
  "exec K (Done a) c = (c, Done a)"
| "exec K (Read f) c = (c, f (getNodeState K c))"
| "exec K (Propose t f) c = (let (c', r) = ctl_propose K [t] c in (c', f r))"
| "exec K (World g f) c = (c\<lparr>ct_world := g (ct_world c)\<rparr>, f (ct_world c))"
| "exec K (Rule r f) c = (let (rs, x) = AddRule (ct_rules c) r in (c\<lparr>ct_rules := rs\<rparr>, f (is_Ok x)))"

primrec run_prog :: "('c, 'w) controller \<Rightarrow> ('w, 'a) prog \<Rightarrow> ('c, 'w) ctrl \<Rightarrow> ('c, 'w) ctrl \<times> 'a" where
  "run_prog K (Done a) = (\<lambda>c. (c, a))"
| "run_prog K (Read f) = (\<lambda>c. run_prog K (f (getNodeState K c)) c)"
| "run_prog K (Propose t f) = (\<lambda>c. let (c', r) = ctl_propose K [t] c in run_prog K (f r) c')"
| "run_prog K (World g f) = (\<lambda>c. run_prog K (f (ct_world c)) (c\<lparr>ct_world := g (ct_world c)\<rparr>))"
| "run_prog K (Rule r f) = (\<lambda>c. let (rs, x) = AddRule (ct_rules c) r in run_prog K (f (is_Ok x)) (c\<lparr>ct_rules := rs\<rparr>))"

section \<open>The handlers as programs\<close>

fun rules_prog :: "string \<Rightarrow> rule list \<Rightarrow> ('w, (unit, ctrl_error) res) prog" where
  "rules_prog appID [] = Done (Ok ())"
| "rules_prog appID (r # rest) =
     (if rule_AppID r = appID then Rule r (\<lambda>ok. if ok then rules_prog appID rest else Done (Ok ()))
      else rules_prog appID rest)"

definition start_prog ::
  "('c, 'w) controller \<Rightarrow> string \<Rightarrow> string \<Rightarrow> ((string, rule) fmap \<Rightarrow> rule list) \<Rightarrow> string
   \<Rightarrow> ('w, (unit, ctrl_error) res) prog"
where
  "start_prog K uuid now order installationID =
     Read (\<lambda>s. (case s of
        Err e \<Rightarrow> Done (Err (NodeStateError e))
      | Panic \<Rightarrow> Done Panic
      | Ok state \<Rightarrow>
     (case lookup_in (AppInstallations state) installationID of
        None \<Rightarrow> Done (Err (AppMissing installationID))
      | Some app \<Rightarrow>
     (case CreateProcessStartTransition uuid now installationID state of
        Err e \<Rightarrow> Done (Err (CreatingTransition e))
      | Panic \<Rightarrow> Done Panic
      | Ok (t, pid) \<Rightarrow>
     Propose t (\<lambda>r. (case r of
        Err e \<Rightarrow> Done (Err (ProposingTransition e))
      | Panic \<Rightarrow> Done Panic
      | Ok _ \<Rightarrow>
     perform (pm_StartProcess (ctl_processManager K) pid app) (\<lambda>r. (case r of
        Panic \<Rightarrow> Done Panic
      | Err _ \<Rightarrow>
          Propose (CreateProcessStopTransition pid) (\<lambda>r. Done (case r of
             Ok _ \<Rightarrow> Ok () | Err e \<Rightarrow> Err (StartingProcess e) | Panic \<Rightarrow> Panic))
      | Ok _ \<Rightarrow>
     Read (\<lambda>s. (case s of
        Err e \<Rightarrow> Done (Err (NodeStateError e))
      | Panic \<Rightarrow> Done Panic
      | Ok newState \<Rightarrow> rules_prog (app_ID app) (order (entries (ReverseProxyRules newState)))))))))))))"

definition propose_prog :: "transition \<Rightarrow> ('w, (unit, ctrl_error) res) prog" where
  "propose_prog t = Propose t (\<lambda>r. Done (bind_res (map_err ProposingTransition r) (\<lambda>_. Ok ())))"

definition stop_prog :: "('c, 'w) controller \<Rightarrow> process_id \<Rightarrow> ('w, (unit, ctrl_error) res) prog" where
  "stop_prog K processID =
     perform (pm_StopProcess (ctl_processManager K) processID) (\<lambda>procErr.
       (case procErr of
          Panic \<Rightarrow> Done Panic
        | _ \<Rightarrow>
            if stop_blocked procErr then Done (map_err ProcessError procErr)
            else propose_prog (CreateProcessStopTransition processID)))"

definition install_prog ::
  "('c, 'w) controller \<Rightarrow> string \<Rightarrow> string \<Rightarrow> string \<Rightarrow> ((string, rule) fmap \<Rightarrow> rule list)
   \<Rightarrow> string \<Rightarrow> package option \<Rightarrow> string \<Rightarrow> string \<Rightarrow> rule option list option \<Rightarrow> bool
   \<Rightarrow> ('w, (unit, ctrl_error) res) prog"
where
  "install_prog K appUuid uuid now order userID pkg version name proxyRules start =
     (case pkg of
        None \<Rightarrow> Done Panic
      | Some p \<Rightarrow>
     (case fmlookup (ctl_pkgManagers K) (pkg_Driver p) of
        None \<Rightarrow> Done (Err (NoPackageDriver (pkg_Driver p)))
      | Some installer \<Rightarrow>
          let (t, i) = CreateStartInstallationTransition appUuid userID pkg version name proxyRules in
     Propose t (\<lambda>r. (case r of
        Err e \<Rightarrow> Done (Err (ProposingTransition e))
      | Panic \<Rightarrow> Done Panic
      | Ok _ \<Rightarrow>
     perform (pkgm_InstallPackage installer p version) (\<lambda>r. (case r of
        Err e \<Rightarrow> Done (Err (PackageError e))
      | Panic \<Rightarrow> Done Panic
      | Ok _ \<Rightarrow>
     Propose (CreateFinishInstallationTransition i) (\<lambda>r. (case r of
        Err e \<Rightarrow> Done (Err (ProposingTransition e))
      | Panic \<Rightarrow> Done Panic
      | Ok _ \<Rightarrow> if start then start_prog K uuid now order i else Done (Ok ())))))))))"

definition migrate_prog :: "env \<Rightarrow> string \<Rightarrow> ('w, (unit, ctrl_error) res) prog" where
  "migrate_prog E targetVersion =
     Read (\<lambda>s. (case s of
        Err e \<Rightarrow> Done (Err (NodeStateError e))
      | Panic \<Rightarrow> Done Panic
      | Ok nodeState \<Rightarrow>
          if semver_Compare E (SchemaVersion nodeState) targetVersion = 0 then Done (Ok ())
          else propose_prog (CreateMigrationTransition targetVersion)))"

text \<open>What a handler writes at the end of its operation, and the requests.\<close>

fun answer :: "(ctrl_text response \<Rightarrow> ctrl_text response) \<Rightarrow> (unit, ctrl_error) res \<Rightarrow> ctrl_text response option" where
  "answer finish (Err e) = Some (http_Error (CtrlErrorText e) StatusInternalServerError empty_response)"
| "answer finish Panic = None"
| "answer finish (Ok _) = Some (finish empty_response)"

definition handler_prog ::
  "('a, ctrl_text) res \<Rightarrow> ('a \<Rightarrow> ('w, (unit, ctrl_error) res) prog) \<Rightarrow> (ctrl_text response \<Rightarrow> ctrl_text response)
   \<Rightarrow> ('w, ctrl_text response option) prog"
where
  "handler_prog req p finish =
     (case req of
        Err e \<Rightarrow> Done (Some (http_Error e StatusBadRequest empty_response))
      | Panic \<Rightarrow> Done None
      | Ok a \<Rightarrow> map_prog (answer finish) (p a))"

fun request_prog ::
  "env \<Rightarrow> ('c, 'w) controller \<Rightarrow> ((string, rule) fmap \<Rightarrow> rule list) \<Rightarrow> node_request
   \<Rightarrow> ('w, ctrl_text response option) prog"
where
  "request_prog E K order (StartProcessRequest uuid now b) =
     handler_prog (decode_body (\<lambda>m. dec_str m ''app_id'') b) (start_prog K uuid now order) (WriteHeader StatusCreated)"
| "request_prog E K order (StopProcessRequest b) =
     handler_prog (decode_body (\<lambda>m. dec_str m ''process_id'') b) (stop_prog K) (\<lambda>w. w)"
| "request_prog E K order (InstallAppRequest appUuid uuid now userID b) =
     handler_prog (decode_body dec_install_request b)
       (\<lambda>req. (case req_AppInstallation req of
          None \<Rightarrow> Done Panic
        | Some a \<Rightarrow>
            install_prog K appUuid uuid now order userID (app_Package a) (app_Version a) (app_Name a)
              (req_ReverseProxyRules req) (req_StartAfterInstall req)))
       (WriteHeader StatusCreated)"
| "request_prog E K order (UninstallAppRequest b) =
     handler_prog (decode_body (\<lambda>m. dec_str m ''app_id'') b)
       (\<lambda>i. propose_prog (CreateUninstallAppTransition i)) (WriteHeader StatusOK)"
| "request_prog E K order (AddUserRequest uuid b) =
     handler_prog
       (decode_body (\<lambda>m. bind_res (dec_str m ''did'') (\<lambda>d. bind_res (dec_str m ''handle'') (\<lambda>h. Ok (h, d)))) b)
       (\<lambda>(handle, did). propose_prog (CreateAddUserTransition uuid handle did)) (Write SuccessText)"
| "request_prog E K order (MigrateRequest b) =
     handler_prog (decode_body (\<lambda>m. dec_str m ''target_version'') b) (migrate_prog E) (\<lambda>w. w)"

section \<open>Alone\<close>

lemma run_perform:
  "run_prog K (perform op k) c = (case op (ct_world c) of (w, r) \<Rightarrow> run_prog K (k r) (c\<lparr>ct_world := w\<rparr>))"
  by (simp add: perform_def split: prod.split)

lemma run_rules:
  "run_prog K (rules_prog appID rs) c = (c\<lparr>ct_rules := register_rules appID (ct_rules c) rs\<rparr>, Ok ())"
proof (induction rs arbitrary: c)
  case (Cons r rs)
  show ?case
  proof (cases "rule_AppID r = appID")
    case True
    obtain rs' x where a: "AddRule (ct_rules c) r = (rs', x)" by (cases "AddRule (ct_rules c) r")
    show ?thesis using True a Cons.IH by (cases x) simp_all
  qed (simp add: Cons.IH)
qed simp

lemma run_propose: "run_prog K (propose_prog t) c = propose_one K t c"
  by (simp add: propose_prog_def propose_one_def Let_def split: prod.split)

lemma run_start: "run_prog K (start_prog K uuid now order i) c = startProcess K uuid now order i c"
  unfolding start_prog_def startProcess_def
  by (auto simp: run_perform run_rules Let_def split: res.split option.split prod.split)

lemma run_stop: "run_prog K (stop_prog K pid) c = stopProcess K pid c"
  unfolding stop_prog_def stopProcess_def
  by (auto simp: run_perform run_propose propose_one_def Let_def split: res.split prod.split)

lemma run_install:
  "run_prog K (install_prog K appUuid uuid now order userID pkg version name rs start) c =
     installApp K appUuid uuid now order userID pkg version name rs start c"
  unfolding install_prog_def installApp_def
  by (auto simp: run_perform run_start Let_def split: res.split option.split prod.split)

lemma run_migrate: "run_prog K (migrate_prog E v) c = migrateDB E K v c"
  unfolding migrate_prog_def migrateDB_def by (auto simp: run_propose split: res.split)

lemma run_map: "run_prog K (map_prog f p) c = map_prod id f (run_prog K p c)"
  by (induction p arbitrary: c) (simp_all add: Let_def split: prod.split)

lemma run_handler:
  assumes "\<And>a c. run_prog K (p a) c = f a c"
  shows "run_prog K (handler_prog req p finish) c = run_request req f finish c"
proof (cases req)
  case (Ok a)
  then show ?thesis
    by (cases "f a c"; cases "snd (f a c)") (auto simp: handler_prog_def run_request_def run_map assms)
qed (simp_all add: handler_prog_def run_request_def)

text \<open>Run alone, the program of a request is its handler.\<close>

lemma run_request_prog: "run_prog K (request_prog E K order q) c = serve_request E K order q c"
proof (cases q)
  case (StartProcessRequest uuid now b)
  then show ?thesis by (simp add: h_StartProcess_def run_handler run_start)
next
  case (StopProcessRequest b)
  then show ?thesis by (simp add: h_StopProcess_def run_handler run_stop)
next
  case (InstallAppRequest appUuid uuid now userID b)
  then show ?thesis
    unfolding InstallAppRequest request_prog.simps serve_request.simps h_InstallApp_def
    by (intro run_handler) (simp add: run_install split: option.split)
next
  case (UninstallAppRequest b)
  then show ?thesis
    unfolding UninstallAppRequest request_prog.simps serve_request.simps h_UninstallApp_def
    by (intro run_handler) (simp add: run_propose uninstallApp_def)
next
  case (AddUserRequest uuid b)
  then show ?thesis
    unfolding AddUserRequest request_prog.simps serve_request.simps h_AddUser_def
    by (intro run_handler) (simp add: run_propose addUser_def split: prod.split)
next
  case (MigrateRequest b)
  then show ?thesis by (simp add: h_MigrateDB_def run_handler run_migrate)
qed

section \<open>Actions are moves\<close>

text \<open>
  A program is good when its proposals are admissible in every sound state that they may meet, whatever the
  state was when the program read it.
\<close>

inductive good_prog :: "env \<Rightarrow> ('w, 'a) prog \<Rightarrow> bool" for E where
  good_Done: "good_prog E (Done a)"
| good_Read: "(\<And>s. plain_keys s \<Longrightarrow> good_prog E (f (Ok s))) \<Longrightarrow> good_prog E (Read f)"
| good_Propose: "(\<And>s u. plain_keys s \<Longrightarrow> transition_Validate E t (Bytes s) = Ok u \<Longrightarrow> admissible t) \<Longrightarrow>
    (\<And>r. good_prog E (f r)) \<Longrightarrow> good_prog E (Propose t f)"
| good_World: "(\<And>w. good_prog E (f w)) \<Longrightarrow> good_prog E (World g f)"
| good_Rule: "(\<And>b. good_prog E (f b)) \<Longrightarrow> good_prog E (Rule r f)"

inductive_cases good_progE:
  "good_prog E (Read f)" "good_prog E (Propose t f)" "good_prog E (World g f)" "good_prog E (Rule r f)"

lemma exec_moves:
  assumes K: "file_database E outs K" and ok: "node_ok E c" and "good_prog E p" and "exec K p c = (c', p')"
  shows "(move E outs)\<^sup>*\<^sup>* c c' \<and> good_prog E p'"
proof (cases p)
  case (Done a)
  then show ?thesis using assms(3,4) by auto
next
  case (Read f)
  obtain s where "getNodeState K c = Ok s" "plain_keys s"
    using ok K by (auto elim: node_okE simp: getNodeState_def file_database_def)
  then show ?thesis using assms(3,4) unfolding Read by (auto elim: good_progE)
next
  case (Propose t f)
  obtain c1 r where p: "ctl_propose K [t] c = (c1, r)" by (cases "ctl_propose K [t] c")
  obtain s where s: "fileDB_Bytes (ct_db c) = Bytes s" "plain_keys s" using ok by (auto elim: node_okE)
  from assms(3) have good: "\<And>r. good_prog E (f r)"
    and adm: "\<And>u. transition_Validate E t (Bytes s) = Ok u \<Longrightarrow> admissible t"
    using s(2) unfolding Propose by (auto elim: good_progE)
  have "(move E outs)\<^sup>*\<^sup>* c c1"
    by (rule moves_propose [OF K rtranclp.rtrancl_refl p]) (use adm s(1) in simp)
  then show ?thesis using assms(4) p good [of r] by (auto simp: Propose)
next
  case (World g f)
  have "(move E outs)\<^sup>*\<^sup>* c (c\<lparr>ct_world := g (ct_world c)\<rparr>)" by (rule moves_outside) simp
  then show ?thesis using assms(3,4) unfolding World by (auto elim: good_progE)
next
  case (Rule r f)
  have "(move E outs)\<^sup>*\<^sup>* c (c\<lparr>ct_rules := fst (AddRule (ct_rules c) r)\<rparr>)"
    by (rule r_into_rtranclp, rule move.add_rule)
  then show ?thesis using assms(3,4) unfolding Rule by (auto elim: good_progE split: prod.splits)
qed

lemma good_perform: "(\<And>r. good_prog E (k r)) \<Longrightarrow> good_prog E (perform op k)"
  unfolding perform_def by (rule good_World)

lemma good_rules: "good_prog E (rules_prog appID rs)"
  by (induction rs) (auto intro!: good_Done good_Rule)

lemma good_map: "good_prog E p \<Longrightarrow> good_prog E (map_prog f p)"
  by (induction rule: good_prog.induct) (auto intro: good_prog.intros)

lemma good_propose:
  "(\<And>s u. plain_keys s \<Longrightarrow> transition_Validate E t (Bytes s) = Ok u \<Longrightarrow> admissible t) \<Longrightarrow> good_prog E (propose_prog t)"
  unfolding propose_prog_def by (rule good_Propose) (auto intro: good_Done)

lemma stored_plain:
  assumes "plain_keys s"
  shows "transition_Validate E (ProcessStop pid) (Bytes s) = Ok u \<Longrightarrow> admissible (ProcessStop pid)"
    and "transition_Validate E (Uninstall i) (Bytes s) = Ok u \<Longrightarrow> admissible (Uninstall i)"
proof -
  have "fileDB_State (\<lparr>db_path = '''', db_state = Bytes s\<rparr>, fmempty) = Ok s" by (simp add: fileDB_State_def)
  from known_admissible [OF this assms] show
    "transition_Validate E (ProcessStop pid) (Bytes s) = Ok u \<Longrightarrow> admissible (ProcessStop pid)"
    "transition_Validate E (Uninstall i) (Bytes s) = Ok u \<Longrightarrow> admissible (Uninstall i)"
    by (simp_all add: fileDB_Bytes_def)
qed

lemma start_admissible:
  assumes "good_id uuid" and "plain_keys s" and "lookup_in (AppInstallations s) i = Some a"
    and "CreateProcessStartTransition uuid now i s = Ok (t, pid)"
  shows "admissible t" and "admissible (CreateProcessStopTransition pid)"
proof -
  obtain p where p: "app_Package a = Some p" "t = ProcessStart (Some (new_process uuid now a p))"
    "pid = NewID (pkg_Driver p) uuid"
    using CreateProcessStart_Ok [OF assms(4,3)] by (auto simp: new_process_def)
  have "good_id pid" using plain_keysD [OF assms(2,3) p(1)] assms(1) p(3) by (simp add: good_NewID)
  with p show "admissible t" "admissible (CreateProcessStopTransition pid)"
    by (simp_all add: new_process_def CreateProcessStopTransition_def)
qed

lemma good_start: "good_id uuid \<Longrightarrow> good_prog E (start_prog K uuid now order i)"
  unfolding start_prog_def
  by (auto intro!: good_Read good_Done good_Propose good_perform good_rules split: res.split option.split)
    (blast intro: start_admissible)+

lemma good_stop: "good_prog E (stop_prog K pid)"
  unfolding stop_prog_def CreateProcessStopTransition_def
  by (auto intro!: good_perform good_Done good_propose stored_plain(1)
      simp del: transition_Validate.simps split: res.split)

lemma good_install:
  assumes "plain_managers K" and "good_id appUuid" and "good_id uuid" and "plain_rules rs"
  shows "good_prog E (install_prog K appUuid uuid now order userID pkg version name rs start)"
proof -
  obtain t where t: "CreateStartInstallationTransition appUuid userID pkg version name rs = (t, appUuid)"
    by (simp add: CreateStartInstallationTransition_def)
  have "admissible t" if "pkg = Some p" "fmlookup (ctl_pkgManagers K) (pkg_Driver p) = Some m" for p m
  proof -
    have "good_id (pkg_Driver p)" using assms(1) that(2) by (auto simp: plain_managers_def fmpred_iff)
    then show ?thesis
      using that t assms(2,4) by (auto simp: CreateStartInstallationTransition_def plain_driver_def plain_rules_def)
  qed
  moreover have "admissible (CreateFinishInstallationTransition appUuid)"
    using assms(2) by (simp add: CreateFinishInstallationTransition_def)
  ultimately show ?thesis
    unfolding install_prog_def Let_def t prod.case
    by (auto intro!: good_perform good_Done good_Propose good_start [OF assms(3)] split: res.split option.split)
qed

lemma good_migrate: "late_version v \<Longrightarrow> good_prog E (migrate_prog E v)"
  unfolding migrate_prog_def CreateMigrationTransition_def
  by (auto intro!: good_Read good_Done good_propose split: res.split)

lemma good_handler:
  "(\<And>a. req = Ok a \<Longrightarrow> good_prog E (p a)) \<Longrightarrow> good_prog E (handler_prog req p finish)"
  by (cases req) (auto simp: handler_prog_def intro: good_Done good_map)

lemma good_request:
  assumes "plain_managers K" and "request_ok q"
  shows "good_prog E (request_prog E K order q)"
proof (cases q)
  case (StartProcessRequest uuid now b)
  then show ?thesis using assms(2) by (auto intro!: good_handler good_start)
next
  case (StopProcessRequest b)
  then show ?thesis by (auto intro!: good_handler good_stop)
next
  case (InstallAppRequest appUuid uuid now userID b)
  then show ?thesis
    using assms by (auto intro!: good_handler good_install good_Done split: option.split)
next
  case (UninstallAppRequest b)
  then show ?thesis
    by (auto intro!: good_handler good_propose stored_plain(2) simp: CreateUninstallAppTransition_def
        simp del: transition_Validate.simps)
next
  case (AddUserRequest uuid b)
  then show ?thesis
    using assms(2) by (auto intro!: good_handler good_propose simp: CreateAddUserTransition_def)
next
  case (MigrateRequest b)
  then show ?thesis using assms(2) by (auto intro!: good_handler good_migrate)
qed


section \<open>A pool of handlers\<close>

text \<open>
  Any handler may take its next action; a proposal is written with any of the outcomes \<open>outs\<close>, whatever the one
  before.  Requests arrive, and the world changes by itself.
\<close>

type_synonym 'w pool = "(file_db \<times> disk, 'w) ctrl \<times> ('w, ctrl_text response option) prog list"

fun answered :: "('w, 'a) prog \<Rightarrow> bool" where
  "answered (Done a) = True"
| "answered _ = False"

inductive pool_act :: "env \<Rightarrow> write_outcome set \<Rightarrow> 'w pool \<Rightarrow> 'w pool \<Rightarrow> bool" for E outs where
  act: "i < length ps \<Longrightarrow> \<not> answered (ps ! i) \<Longrightarrow> file_database E outs K' \<Longrightarrow> exec K' (ps ! i) c = (c', p') \<Longrightarrow>
    pool_act E outs (c, ps) (c', ps[i := p'])"

inductive pool_step ::
  "env \<Rightarrow> write_outcome set \<Rightarrow> (file_db \<times> disk, 'w) controller \<Rightarrow> ((string, rule) fmap \<Rightarrow> rule list) \<Rightarrow> 'w pool \<Rightarrow> 'w pool \<Rightarrow> bool"
  for E outs K order
where
  acts: "pool_act E outs s s' \<Longrightarrow> pool_step E outs K order s s'"
| arrives: "request_ok q \<Longrightarrow> pool_step E outs K order (c, ps) (c, ps @ [request_prog E K order q])"
| changes: "pool_step E outs K order (c, ps) (c\<lparr>ct_world := w\<rparr>, ps)"

definition pool_ok :: "env \<Rightarrow> 'w pool \<Rightarrow> bool" where
  "pool_ok E s \<longleftrightarrow> node_ok E (fst s) \<and> list_all (good_prog E) (snd s)"

lemma pool_step_ok:
  assumes laws: "semver_laws E" "diff_laws (jsonpatch_Apply E) (jsondiff_Compare E)" "env_ok E" "range_laws E"
    and "plain_managers K" and "pool_step E outs K order s s'" and "pool_ok E s"
  shows "(move E outs)\<^sup>*\<^sup>* (fst s) (fst s') \<and> pool_ok E s'"
  using assms(6)
proof cases
  case acts
  then show ?thesis
  proof cases
    case (act i ps K' c c' p')
    have ok: "node_ok E c" "good_prog E (ps ! i)" using assms(7) act by (auto simp: pool_ok_def list_all_length)
    from exec_moves [OF act(5) ok act(6)]
    have m: "(move E outs)\<^sup>*\<^sup>* c c'" "good_prog E p'" by simp_all
    have "list_all (good_prog E) (ps[i := p'])"
      using assms(7) act m(2) by (auto simp: pool_ok_def list_all_length nth_list_update)
    with m moves_keep [OF laws m(1) ok(1)] act show ?thesis by (simp add: pool_ok_def)
  qed
next
  case (arrives q c ps)
  then show ?thesis using assms(7) good_request [OF assms(5)] by (simp add: pool_ok_def)
next
  case (changes c ps w)
  have "(move E outs)\<^sup>*\<^sup>* c (c\<lparr>ct_world := w\<rparr>)" by (rule moves_outside) simp
  with moves_keep [OF laws this] changes assms(7) show ?thesis by (simp add: pool_ok_def)
qed

text \<open>A handler run to its end in one go.\<close>

lemma run_acts:
  assumes "file_database E outs K" and "run_prog K p c = (c', a)"
  shows "(pool_act E outs)\<^sup>*\<^sup>* (c, [p]) (c', [Done a])"
  using assms(2)
proof (induction p arbitrary: c)
  case (Done x)
  then show ?case by simp
next
  case (Read f)
  have "pool_act E outs (c, [Read f]) (c, [f (getNodeState K c)])"
    using act [of 0 "[Read f]" E outs K c c "f (getNodeState K c)"] assms(1) by simp
  moreover have "(pool_act E outs)\<^sup>*\<^sup>* (c, [f (getNodeState K c)]) (c', [Done a])"
    using Read.IH [of "f (getNodeState K c)" c] Read.prems by simp
  ultimately show ?case by (rule converse_rtranclp_into_rtranclp)
next
  case (Propose t f)
  obtain c1 r where p: "ctl_propose K [t] c = (c1, r)" by (cases "ctl_propose K [t] c")
  have "pool_act E outs (c, [Propose t f]) (c1, [f r])"
    using act [of 0 "[Propose t f]" E outs K c c1 "f r"] assms(1) p by simp
  moreover have "(pool_act E outs)\<^sup>*\<^sup>* (c1, [f r]) (c', [Done a])"
    using Propose.IH [of "f r" c1] Propose.prems p by simp
  ultimately show ?case by (rule converse_rtranclp_into_rtranclp)
next
  case (World g f)
  let ?c1 = "c\<lparr>ct_world := g (ct_world c)\<rparr>"
  have "pool_act E outs (c, [World g f]) (?c1, [f (ct_world c)])"
    using act [of 0 "[World g f]" E outs K c ?c1 "f (ct_world c)"] assms(1) by simp
  moreover have "(pool_act E outs)\<^sup>*\<^sup>* (?c1, [f (ct_world c)]) (c', [Done a])"
    using World.IH [of "f (ct_world c)" ?c1] World.prems by simp
  ultimately show ?case by (rule converse_rtranclp_into_rtranclp)
next
  case (Rule r f)
  obtain rs x where p: "AddRule (ct_rules c) r = (rs, x)" by (cases "AddRule (ct_rules c) r")
  let ?c1 = "c\<lparr>ct_rules := rs\<rparr>"
  have "pool_act E outs (c, [Rule r f]) (?c1, [f (is_Ok x)])"
    using act [of 0 "[Rule r f]" E outs K c ?c1 "f (is_Ok x)"] assms(1) p by simp
  moreover have "(pool_act E outs)\<^sup>*\<^sup>* (?c1, [f (is_Ok x)]) (c', [Done a])"
    using Rule.IH [of "f (is_Ok x)" ?c1] Rule.prems p by simp
  ultimately show ?case by (rule converse_rtranclp_into_rtranclp)
qed


text \<open>What follows an action is a smaller program.\<close>

definition prog_succ :: "(('w, 'a) prog \<times> ('w, 'a) prog) set" where
  "prog_succ = {(p', p). (\<exists>f x. p = Read f \<and> p' = f x) \<or> (\<exists>t f x. p = Propose t f \<and> p' = f x) \<or>
     (\<exists>g f x. p = World g f \<and> p' = f x) \<or> (\<exists>r f x. p = Rule r f \<and> p' = f x)}"

lemma wf_prog_succ: "wf prog_succ"
proof (rule wfUNIVI)
  fix P :: "('a, 'b) prog \<Rightarrow> bool" and p
  assume "\<forall>p. (\<forall>p'. (p', p) \<in> prog_succ \<longrightarrow> P p') \<longrightarrow> P p"
  then have step: "P p" if "\<And>p'. (p', p) \<in> prog_succ \<Longrightarrow> P p'" for p using that by blast
  show "P p"
    by (induction p; rule step) (auto simp: prog_succ_def)
qed

lemma exec_succ: "\<not> answered p \<Longrightarrow> exec K p c = (c', p') \<Longrightarrow> (p', p) \<in> prog_succ"
  by (cases p) (auto simp: prog_succ_def Let_def split: prod.splits)

lemma pool_act_succ: "pool_act E outs s s' \<Longrightarrow> (snd s', snd s) \<in> listrel1 prog_succ"
proof (erule pool_act.cases)
  fix i K' c' p' and ps :: "('a, ctrl_text response option) prog list" and c
  assume s: "s = (c, ps)" "s' = (c', ps[i := p'])" and i: "i < length ps"
    and "\<not> answered (ps ! i)" "exec K' (ps ! i) c = (c', p')"
  then have "(p', ps ! i) \<in> prog_succ" using exec_succ by blast
  then have "(take i ps @ p' # drop (Suc i) ps, take i ps @ ps ! i # drop (Suc i) ps) \<in> listrel1 prog_succ"
    by (rule listrel1I) simp_all
  then show ?thesis using s i by (simp add: upd_conv_take_nth_drop id_take_nth_drop [symmetric])
qed

lemma pool_act_length: "pool_act E outs s s' \<Longrightarrow> length (snd s') = length (snd s)"
  by (auto elim: pool_act.cases)

lemma pool_not_stuck:
  fixes K :: "(file_db \<times> disk, 'w) controller" and s :: "'w pool"
  assumes "file_database E outs K" and "\<not> list_all answered (snd s)"
  shows "\<exists>s'. pool_act E outs s s'"
proof -
  obtain c ps where s: "s = (c, ps)" by (cases s)
  from assms(2) obtain i where "i < length ps" "\<not> answered (ps ! i)" by (auto simp: s list_all_length)
  moreover obtain c' p' where "exec K (ps ! i) c = (c', p')" by (cases "exec K (ps ! i) c")
  ultimately show ?thesis using act [OF _ _ assms(1)] unfolding s by blast
qed

lemma answered_map: "list_all answered ps \<Longrightarrow> \<exists>rs. ps = map Done rs"
proof (induction ps)
  case (Cons p ps)
  then obtain rs a where "ps = map Done rs" "p = Done a" by (cases p) auto
  then have "p # ps = map Done (a # rs)" by simp
  then show ?case ..
qed simp

lemma pool_answers:
  fixes K :: "(file_db \<times> disk, 'w) controller" and s :: "'w pool"
  assumes "file_database E outs K"
  shows "\<exists>c' rs. (pool_act E outs)\<^sup>*\<^sup>* s (c', map Done rs) \<and> length rs = length (snd s)"
proof (induction "snd s" arbitrary: s rule: wf_induct_rule [OF wf_listrel1_iff [THEN iffD2, OF wf_prog_succ]])
  case (1 s)
  show ?case
  proof (cases "list_all answered (snd s)")
    case True
    then obtain rs where "snd s = map Done rs" using answered_map by blast
    then show ?thesis by (intro exI [of _ "fst s"] exI [of _ rs]) (cases s; simp)
  next
    case False
    then obtain s1 where s1: "pool_act E outs s s1" using pool_not_stuck [OF assms] by blast
    from 1 [OF pool_act_succ [OF this]] obtain c' rs where
      "(pool_act E outs)\<^sup>*\<^sup>* s1 (c', map Done rs)" "length rs = length (snd s1)"
      by blast
    with s1 pool_act_length [OF s1] show ?thesis by (metis converse_rtranclp_into_rtranclp)
  qed
qed


section \<open>Two migrations at the same time\<close>

lemma late_Compare: "semver_laws E \<Longrightarrow> late_version v \<Longrightarrow> late_version u \<Longrightarrow> semver_Compare E v u = 0 \<longleftrightarrow> v = u"
  by (auto simp: late_version_def semver_lawsD split: if_splits)

lemma migrate_again_refused:
  assumes "semver_laws E" and "fileDB_Bytes dbd = Bytes s" and "late_version (SchemaVersion s)"
  shows "\<exists>e. fileDB_ProposeTransitions E out [Migration (SchemaVersion s)] dbd = (dbd, Err e)"
proof -
  obtain db d where dbd: "dbd = (db, d)" by (cases dbd)
  have "semver_Compare E (SchemaVersion s) (SchemaVersion s) = 0" using late_Compare [OF assms(1,3,3)] by simp
  then have "transition_Validate E (Migration (SchemaVersion s)) (Bytes s) = Err (MigrationError SameVersion)"
    by (simp add: Validate_Migration_def unmarshal_state_def GetMigrationPatch_def migrated_state_def GetNeededMigrations_def)
  then show ?thesis
    using assms(2) by (simp add: dbd fileDB_Bytes_def fileDB_ProposeTransitions_def ProposeTransitions_def)
qed

lemma migrated_version:
  assumes "semver_laws E" and "diff_laws (jsonpatch_Apply E) (jsondiff_Compare E)" and "env_ok E"
    and "fileDB_Bytes dbd = Bytes s" and "current s" and "late_version v"
    and "fileDB_ProposeTransitions E Written [Migration v] dbd = (dbd', Ok doc)"
  shows "\<exists>s'. fileDB_Bytes dbd' = Bytes s' \<and> SchemaVersion s' = v"
proof -
  obtain db d where dbd: "dbd = (db, d)" by (cases dbd)
  obtain ws where p: "ProposeTransitions E (Bytes s) [Migration v] = Ok (doc, ws)"
    and dbd': "fileDB_Bytes dbd' = doc"
    using assms(4,7) by (auto simp: dbd fileDB_ProposeTransitions_def fileDB_Bytes_def writeState_def split: res.splits)
  then obtain u where "Validate_Migration E v (Bytes s) = Ok u" by (auto simp: ProposeTransitions_def bind_res_Ok_iff)
  with means_Migration [OF assms(1,2) _ assms(6)] assms(5)
  have "means E (Migration v) s = s\<lparr>SchemaVersion := v\<rparr> \<or> means E (Migration v) s = (clear_DIDs s)\<lparr>SchemaVersion := v\<rparr>"
    by (simp add: current_def del: means.simps)
  then have "SchemaVersion (means E (Migration v) s) = v" by (elim disjE) (simp_all del: means.simps)
  moreover have "doc = Bytes (means E (Migration v) s)"
    using propose_loop_writes [OF assms(3,1,2,5) _ p [unfolded ProposeTransitions_def]] assms(6) by simp
  ultimately show ?thesis using dbd' by auto
qed

text \<open>
  C40: two requests for the same migration are both answered with 200 when they are served one after the other, because
  the second finds nothing to do; when both look at the version before either proposes, the second is answered
  with 500.
\<close>

theorem concurrent_migrations_refused:
  assumes "semver_laws E" and "diff_laws (jsonpatch_Apply E) (jsondiff_Compare E)" and "env_ok E"
    and "file_database E {Written} K" and "node_ok E c" and "getNodeState K c = Ok s" and "SchemaVersion s \<noteq> v"
    and "decode_body (\<lambda>m. dec_str m ''target_version'') b = Ok v" and "late_version v"
    and "migrateDB E K v c = (c1, Ok ())"
  shows "serve_request E K order (MigrateRequest b) c = (c1, Some empty_response) \<and>
    serve_request E K order (MigrateRequest b) c1 = (c1, Some empty_response) \<and>
    (\<exists>w. (pool_act E {Written})\<^sup>*\<^sup>* (c, map (request_prog E K order) [MigrateRequest b, MigrateRequest b])
        (c1, [Done (Some empty_response), Done (Some w)]) \<and> status w = StatusInternalServerError)"
proof -
  let ?P = "Propose (Migration v) (\<lambda>r. Done (answer (\<lambda>w. w) (bind_res (map_err ProposingTransition r) (\<lambda>_. Ok ()))))"
  let ?R = "request_prog E K order (MigrateRequest b)"
  have state: "getNodeState K x = fileDB_State (ct_db x)" for x
    using assms(4) by (simp add: getNodeState_def file_database_def)
  have doc: "fileDB_Bytes (ct_db c) = Bytes s" "current s"
    using assms(5,6) by (auto elim!: node_okE simp: state)
  then have other: "semver_Compare E (SchemaVersion s) v \<noteq> 0"
    using late_Compare [OF assms(1) _ assms(9)] assms(7) by (simp add: current_def)
  have client: "cl_Propose (ctl_db K) ts x = fileDB_ProposeTransitions E Written ts x" for ts x
    using assms(4) unfolding file_database_def by blast
  obtain dbd doc' where p: "fileDB_ProposeTransitions E Written [Migration v] (ct_db c) = (dbd, Ok doc')"
    and c1: "c1 = c\<lparr>ct_db := dbd\<rparr>"
    using assms(10) other by (auto simp: migrateDB_def assms(6) propose_one_def ctl_propose_def client
        CreateMigrationTransition_def bind_res_Ok_iff split: prod.splits)
  obtain s' where s': "fileDB_Bytes dbd = Bytes s'" "SchemaVersion s' = v"
    using migrated_version [OF assms(1-3) doc assms(9) p] by blast
  then obtain e where again: "fileDB_ProposeTransitions E Written [Migration v] dbd = (dbd, Err e)"
    using migrate_again_refused [OF assms(1) s'(1)] assms(9) by auto
  have "migrateDB E K v c1 = (c1, Ok ())"
    using s' late_Compare [OF assms(1,9,9)] by (simp add: migrateDB_def state c1 fileDB_State_FromBytes)
  then have alone: "serve_request E K order (MigrateRequest b) c = (c1, Some empty_response)"
    "serve_request E K order (MigrateRequest b) c1 = (c1, Some empty_response)"
    using assms(8,10) by (simp_all add: h_MigrateDB_def run_request_def)
  have step: "pool_act E {Written} (x, ps) (x', ps[i := p'])"
    if "i < length ps" "\<not> answered (ps ! i)" "exec K (ps ! i) x = (x', p')" for x x' p' i and ps
    by (rule act [OF that(1,2) assms(4) that(3)])
  have read: "exec K ?R c = (c, ?P)"
    using other by (simp add: assms(8) handler_prog_def migrate_prog_def propose_prog_def CreateMigrationTransition_def assms(6) o_def)
  have R: "\<not> answered ?R" by (simp add: assms(8) handler_prog_def migrate_prog_def)
  let ?e = "http_Error (CtrlErrorText (ProposingTransition e)) StatusInternalServerError empty_response"
  have a1: "pool_act E {Written} (c, [?R, ?R]) (c, [?P, ?R])" using step [of 0 "[?R, ?R]" c c ?P] read R by simp
  have a2: "pool_act E {Written} (c, [?P, ?R]) (c, [?P, ?P])" using step [of 1 "[?P, ?R]" c c ?P] read R by simp
  have a3: "pool_act E {Written} (c, [?P, ?P]) (c1, [Done (Some empty_response), ?P])"
    using step [of 0 "[?P, ?P]" c c1 "Done (Some empty_response)"] p by (simp add: ctl_propose_def client c1)
  have a4: "pool_act E {Written} (c1, [Done (Some empty_response), ?P]) (c1, [Done (Some empty_response), Done (Some ?e)])"
    using step [of 1 "[Done (Some empty_response), ?P]" c1 c1 "Done (Some ?e)"] again
    by (simp add: ctl_propose_def client c1)
  note then_acts = converse_rtranclp_into_rtranclp [where r = "pool_act E {Written}"]
  note acts4 = then_acts [OF a1 then_acts [OF a2 then_acts [OF a3 then_acts [OF a4 rtranclp.rtrancl_refl]]]]
  have "status ?e = StatusInternalServerError"
    by (simp add: status_def http_Error_def Write_def WriteHeader_def empty_response_def)
  with alone acts4 show ?thesis by (simp only: list.map) blast
qed

section \<open>The theorems applied\<close>

text \<open>Two requests at the same time: one adds a user, the other stops a process that is not there.\<close>

definition demo_requests :: "node_request list" where
  "demo_requests =
     [AddUserRequest ''u1'' (Some (JObj (fmap_of_list [(''handle'', JStr ''alice'')]))),
      StopProcessRequest (Some (JObj (fmap_of_list [(''process_id'', JStr ''noop:1'')])))]"

lemma demo_requests_ok: "list_all request_ok demo_requests" "length demo_requests = 2"
  by (simp_all add: demo_requests_def good_id_def json_plain_def plain_key_def)

lemma sample_file_database: "file_database ref_env {Written} sample_controller" "plain_managers sample_controller"
  using file_database_client [OF sample_ctrl_simps(3), of "{Written}"]
  by (simp_all add: plain_managers_def sample_controller_def fmpred_iff driver_types good_id_def json_plain_def
      plain_key_def)

lemma requests_arrive:
  "list_all request_ok qs \<Longrightarrow>
    (pool_step E outs K order)\<^sup>*\<^sup>* (c, ps) (c, ps @ map (request_prog E K order) qs)"
proof (induction qs arbitrary: ps)
  case (Cons q qs)
  then have "pool_step E outs K order (c, ps) (c, ps @ [request_prog E K order q])" by (auto intro: arrives)
  moreover have "(pool_step E outs K order)\<^sup>*\<^sup>* (c, ps @ [request_prog E K order q])
      (c, (ps @ [request_prog E K order q]) @ map (request_prog E K order) qs)"
    by (rule Cons.IH) (use Cons.prems in simp)
  ultimately show ?case by (simp add: converse_rtranclp_into_rtranclp)
qed simp



text \<open>The node of the version before the last one, and two requests to migrate it.\<close>

definition old_ctrl :: "(file_db \<times> disk, unit) ctrl" where
  "old_ctrl = \<lparr>ct_db = (\<lparr>db_path = ''db'', db_state = Bytes old_empty\<rparr>, fmempty), ct_world = (), ct_rules = NewProxyServer ''''\<rparr>"

lemma concurrent_migrations_refused_witness:
  "\<exists>c1 w. (pool_act ref_env {Written})\<^sup>*\<^sup>* (old_ctrl, map (request_prog ref_env sample_controller (\<lambda>_. []))
      (replicate 2 (MigrateRequest (Some (JObj (fmap_of_list [(''target_version'', JStr ''v0.0.8'')]))))))
      (c1, [Done (Some empty_response), Done (Some w)]) \<and> status w = StatusInternalServerError"
proof -
  let ?b = "Some (JObj (fmap_of_list [(''target_version'', JStr ''v0.0.8'')]))"
  have state: "fileDB_State (ct_db old_ctrl) = Ok old_empty" "fileDB_Bytes (ct_db old_ctrl) = Bytes old_empty"
    by (simp_all add: old_ctrl_def fileDB_State_def fileDB_Bytes_def)
  have "SchemaVersion old_empty = ''v0.0.7''" by (simp add: old_empty_def)
  then have "ValidateState ref_env (Bytes old_empty) = Ok ()"
    by (simp add: ValidateState_def JSONSchemaForVersion_def readSchemaMigrationFiles_def ref_env_def
        schema_file_def versions_def HasSuffix_def getSchemaVersion_def version_index_def)
  moreover have "plain_keys old_empty" by (simp add: plain_keys_def old_empty_def latest_empty_def)
  ultimately have ok: "node_ok ref_env old_ctrl"
    using old_empty_current state(2) by (auto simp: node_ok_def old_ctrl_def)
  have get: "getNodeState sample_controller old_ctrl = Ok old_empty"
    using state(1) by (simp add: getNodeState_def fileDB_client_def)
  obtain p where p: "transition_Validate ref_env (Migration ''v0.0.8'') (Bytes old_empty) = Ok ()"
    "transition_Patch ref_env (Migration ''v0.0.8'') (Bytes old_empty) = Ok ([], p)"
    "applyPatch ref_env (Bytes old_empty) ([], p) = Ok (Bytes latest_empty)"
    by (rule old_empty_migrates)
  then obtain ws where "ProposeTransitions ref_env (Bytes old_empty) [Migration ''v0.0.8''] = Ok (Bytes latest_empty, ws)"
    by (simp add: ProposeTransitions_def del: transition_Validate.simps transition_Patch.simps)
  then obtain dbd where "fileDB_ProposeTransitions ref_env Written [Migration ''v0.0.8''] (ct_db old_ctrl) =
      (dbd, Ok (Bytes latest_empty))"
    by (simp add: old_ctrl_def fileDB_ProposeTransitions_def writeState_def)
  then have "\<exists>c1. migrateDB ref_env sample_controller ''v0.0.8'' old_ctrl = (c1, Ok ())"
    by (simp add: migrateDB_def get propose_one_def ctl_propose_def CreateMigrationTransition_def fileDB_client_def)
  then obtain c1 where run: "migrateDB ref_env sample_controller ''v0.0.8'' old_ctrl = (c1, Ok ())" ..
  have "SchemaVersion old_empty \<noteq> ''v0.0.8''" "decode_body (\<lambda>m. dec_str m ''target_version'') ?b = Ok ''v0.0.8''"
    by (simp_all add: old_empty_def decode_body_def dec_str_def)
  from concurrent_migrations_refused [OF ref_env_semver_laws ref_env_diff_laws ref_env_ok sample_file_database(1) ok get
      this latest_is_late run]
  show ?thesis by (auto simp: numeral_2_eq_2)
qed

end
