(* ===== verification/Router.thy ===== *)
theory Router
  imports Http
begin

text \<open>
  Routes: \<open>internal/node/api/router.go\<close> and \<open>handlers.go\<close>.

  A route is its method, its pattern and its handler; the multiplexer of \<open>net/http\<close> is outside the model.
  \<open>processedRoute.ServeHTTP\<close> ends with \<open>p.ServeHTTP(w, r)\<close>, which is the method itself and not that of the
  embedded route: the recursion is modelled as it is, with \<open>None\<close> for a call that never returns.
\<close>

datatype route_text = InvalidMethodText string | VersionText

record ('r, 'b) route =
  rt_Method :: string
  rt_Pattern :: string
  rt_ServeHTTP :: "'r \<Rightarrow> 'b response \<Rightarrow> 'b response"

definition NewBasicRoute ::
  "string \<Rightarrow> string \<Rightarrow> ('r \<Rightarrow> 'b response \<Rightarrow> 'b response) \<Rightarrow> ('r, 'b) route"
where
  "NewBasicRoute method pattern fn =
     \<lparr>rt_Method = method, rt_Pattern = pattern, rt_ServeHTTP = fn\<rparr>"

definition NewVersionHandler :: "('r, route_text) route" where
  "NewVersionHandler =
     \<lparr>rt_Method = ''GET'', rt_Pattern = ''/version'', rt_ServeHTTP = (\<lambda>_ w. Write VersionText w)\<rparr>"

abbreviation StatusMethodNotAllowed :: nat where "StatusMethodNotAllowed \<equiv> 405"

text \<open>\<open>meth r\<close> is \<open>r.Method\<close>.\<close>

partial_function (option) processed_ServeHTTP ::
  "('r \<Rightarrow> string) \<Rightarrow> ('r, route_text) route \<Rightarrow> 'r \<Rightarrow> route_text response \<Rightarrow> route_text response option"
where
  "processed_ServeHTTP meth p r w =
     (if meth r \<noteq> rt_Method p
      then Some (http_Error (InvalidMethodText (rt_Method p)) StatusMethodNotAllowed w)
      else processed_ServeHTTP meth p r w)"

text \<open>The route that the router registers for each pattern; a later route replaces none (the multiplexer
  refuses a pattern it already has).\<close>

definition NewRouter ::
  "('r \<Rightarrow> string) \<Rightarrow> ('r, route_text) route list
   \<Rightarrow> (string \<times> ('r \<Rightarrow> route_text response \<Rightarrow> route_text response option)) list"
where
  "NewRouter meth routes =
     map (\<lambda>route. (rt_Pattern route, processed_ServeHTTP meth route)) routes"

lemma processed_returns_only_errors:
  "processed_ServeHTTP meth p r w = Some w' \<Longrightarrow> meth r \<noteq> rt_Method p"
  by (erule processed_ServeHTTP.raw_induct [rotated]) (auto split: if_splits)

text \<open>
  A processed route answers a request with another method by 405, and never answers a request with
  its own method: the handler of the route is never reached.
\<close>

theorem processed_route_never_reaches_handler:
  "processed_ServeHTTP meth p r w =
     (if meth r = rt_Method p then None
      else Some (http_Error (InvalidMethodText (rt_Method p)) StatusMethodNotAllowed w))"
proof (cases "meth r = rt_Method p")
  case True
  then show ?thesis
    using processed_returns_only_errors [of meth p r w]
    by (cases "processed_ServeHTTP meth p r w") auto
next
  case False
  then show ?thesis by (subst processed_ServeHTTP.simps) simp
qed

end
