(* ===== verification/NodeServers.thy ===== *)
theory NodeServers
  imports NodeMain Router
begin

text \<open>
  The servers of a node: \<open>internal/node/server/server.go\<close>, the listeners of \<open>reverse_proxy/server.go\<close>, the
  listing of \<open>internal/node/appstore/routes.go\<close>, and the end of \<open>main\<close> in \<open>cmd/node/main.go\<close>, which runs the two
  servers, waits, and shuts them down.

  Sockets and the serving of connections are \<open>net\<close>, \<open>net/http\<close> and the tailscale library: parameters.  The run
  of the servers is a step relation over the goroutines of \<open>main\<close>.
\<close>

section \<open>Serving\<close>

record tls_files =
  tf_config :: tls_config
  tf_certFile :: string
  tf_keyFile :: string

record 'l server_option =
  so_listener :: "'l option"
  so_tlsConfig :: "tls_files option"

record http_server =
  hs_Addr :: string
  hs_TLSConfig :: "tls_config option"

definition WithTLSConfig :: "tls_config option \<Rightarrow> string \<Rightarrow> string \<Rightarrow> 'l server_option \<Rightarrow> 'l server_option" where
  "WithTLSConfig config certFilePath keyFilePath so =
     (case config of
        None \<Rightarrow> so
      | Some c \<Rightarrow> so\<lparr>so_tlsConfig := Some \<lparr>tf_config = c, tf_certFile = certFilePath, tf_keyFile = keyFilePath\<rparr>\<rparr>)"

definition WithListener :: "'l option \<Rightarrow> 'l server_option \<Rightarrow> 'l server_option" where
  "WithListener listener so = so\<lparr>so_listener := listener\<rparr>"

datatype serve_error = ErrServerClosed | ListenError | ServeError string

datatype 'l serve_call = ServeTLS 'l string string | Serve 'l

text \<open>The callback of \<open>ServeFn\<close> up to the call that serves, and what it makes of the error of that call.\<close>

definition ServeFn_call ::
  "(string \<Rightarrow> 'l option) \<Rightarrow> http_server \<Rightarrow> ('l server_option \<Rightarrow> 'l server_option) list
   \<Rightarrow> (http_server \<times> 'l serve_call, serve_error) res"
where
  "ServeFn_call Listen srv opts =
     (let options = fold (\<lambda>opt so. opt so) opts \<lparr>so_listener = None, so_tlsConfig = None\<rparr> in
      bind_res
        (case so_listener options of Some l \<Rightarrow> Ok l | None \<Rightarrow> ok_or ListenError (Listen (hs_Addr srv)))
        (\<lambda>listener.
          let srv' =
            (case so_tlsConfig options of
               None \<Rightarrow> srv
             | Some files \<Rightarrow> srv\<lparr>hs_TLSConfig := Some (tf_config files)\<rparr>) in
          Ok (srv',
            case (hs_TLSConfig srv', so_tlsConfig options) of
              (Some _, Some files) \<Rightarrow> ServeTLS listener (tf_certFile files) (tf_keyFile files)
            | _ \<Rightarrow> Serve listener)))"

definition ServeFn_result :: "serve_error \<Rightarrow> serve_error option" where
  "ServeFn_result err = (if err \<noteq> ErrServerClosed then Some err else None)"

definition ServeFn ::
  "(string \<Rightarrow> 'l option) \<Rightarrow> (http_server \<Rightarrow> 'l serve_call \<Rightarrow> serve_error) \<Rightarrow> http_server
   \<Rightarrow> ('l server_option \<Rightarrow> 'l server_option) list \<Rightarrow> serve_error option"
where
  "ServeFn Listen serve srv opts =
     (case ServeFn_call Listen srv opts of
        Ok (srv', call) \<Rightarrow> ServeFn_result (serve srv' call)
      | Err err \<Rightarrow> Some err
      | Panic \<Rightarrow> None)"

section \<open>The listeners\<close>

text \<open>The arguments of the tailscale listeners: host name, state directory and address.\<close>

record 'l net_lib =
  nl_Listen :: "string \<Rightarrow> 'l option"
  nl_tsnet_Listen :: "string \<Rightarrow> string \<Rightarrow> string \<Rightarrow> 'l option"
  nl_tsnet_ListenFunnel :: "string \<Rightarrow> string \<Rightarrow> string \<Rightarrow> 'l option"

definition proxy_Listener :: "'l net_lib \<Rightarrow> string \<Rightarrow> 'l option" where
  "proxy_Listener N addr = nl_Listen N addr"

definition proxy_TailscaleListener :: "'l net_lib \<Rightarrow> string \<Rightarrow> string \<Rightarrow> string \<Rightarrow> bool \<Rightarrow> 'l option" where
  "proxy_TailscaleListener N addr hostname tsStatePath funnelEnabled =
     (if funnelEnabled then nl_tsnet_ListenFunnel N hostname tsStatePath addr
      else nl_tsnet_Listen N hostname tsStatePath addr)"

definition proxy_addr :: "node_config \<Rightarrow> string" where
  "proxy_addr n = CHR '':'' # ReverseProxyPort n"

definition main_listener :: "'l net_lib \<Rightarrow> node_config \<Rightarrow> 'l option" where
  "main_listener N n =
     (if TailscaleAuthkey n = '''' then proxy_Listener N (proxy_addr n)
      else proxy_TailscaleListener N (proxy_addr n) (Hostname n) (TailScaleStatePath n) (TailScaleFunnelEnabled n))"

text \<open>The two servers of \<open>main\<close>, each with the call that serves it.\<close>

definition main_proxyServer ::
  "'l net_lib \<Rightarrow> node_config \<Rightarrow> tls_config option \<Rightarrow> 'l \<Rightarrow> (http_server \<times> 'l serve_call, serve_error) res"
where
  "main_proxyServer N n tlsConfig l =
     ServeFn_call (nl_Listen N) \<lparr>hs_Addr = proxy_addr n, hs_TLSConfig = None\<rparr>
       [WithTLSConfig tlsConfig (NodeCertPath n) (NodeKeyPath n), WithListener (Some l)]"

definition main_apiServer ::
  "'l net_lib \<Rightarrow> node_config \<Rightarrow> tls_config option \<Rightarrow> (http_server \<times> 'l serve_call, serve_error) res"
where
  "main_apiServer N n tlsConfig =
     ServeFn_call (nl_Listen N) \<lparr>hs_Addr = CHR '':'' # DefaultPortHabitatAPI, hs_TLSConfig = None\<rparr>
       [WithTLSConfig tlsConfig (NodeCertPath n) (NodeKeyPath n)]"

lemma proxyServer_call:
  "main_proxyServer N n tls l =
     Ok (\<lparr>hs_Addr = proxy_addr n, hs_TLSConfig = tls\<rparr>,
       if tls = None then Serve l else ServeTLS l (NodeCertPath n) (NodeKeyPath n))"
  by (cases tls) (simp_all add: main_proxyServer_def ServeFn_call_def WithTLSConfig_def WithListener_def Let_def)

lemma apiServer_call:
  "main_apiServer N n tls =
     bind_res (ok_or ListenError (nl_Listen N (CHR '':'' # DefaultPortHabitatAPI))) (\<lambda>l.
       Ok (\<lparr>hs_Addr = CHR '':'' # DefaultPortHabitatAPI, hs_TLSConfig = tls\<rparr>,
         if tls = None then Serve l else ServeTLS l (NodeCertPath n) (NodeKeyPath n)))"
  by (cases tls) (simp_all add: main_apiServer_def ServeFn_call_def WithTLSConfig_def Let_def)

text \<open>
  The two servers of a node are served in the same way.  With \<open>use_tls\<close> both are served over TLS with the
  certificate of the node, and both ask every client for a certificate that the root user's certificate
  verifies; without it both are served in the clear.
\<close>

theorem tls_for_both_or_neither:
  assumes "TLSConfig C n = Ok tls" and "main_listener N n = Some l" and "main_apiServer N n tls = Ok (api, apiCall)"
    and "main_proxyServer N n tls l = Ok (srv, srvCall)"
  shows "if UseTLS n
     then \<exists>roots l'. ce_ReadFile C (RootUserCertPath n) = Some roots \<and>
       apiCall = ServeTLS l' (NodeCertPath n) (NodeKeyPath n) \<and> srvCall = ServeTLS l (NodeCertPath n) (NodeKeyPath n) \<and>
       (\<forall>s \<in> {api, srv}. hs_TLSConfig s = Some \<lparr>tls_ClientCAs = roots, tls_RequireAndVerifyClientCert = True\<rparr>)
     else \<exists>l'. apiCall = Serve l' \<and> srvCall = Serve l \<and> hs_TLSConfig api = None \<and> hs_TLSConfig srv = None"
proof (cases "UseTLS n")
  case True
  with assms(1) obtain roots where "ce_ReadFile C (RootUserCertPath n) = Some roots"
    and "tls = Some \<lparr>tls_ClientCAs = roots, tls_RequireAndVerifyClientCert = True\<rparr>"
    by (auto simp: TLSConfig_def bind_res_Ok_iff)
  with True assms(3,4) show ?thesis by (auto simp: proxyServer_call apiServer_call bind_res_Ok_iff)
next
  case False
  with assms(1) have "tls = None" by (simp add: TLSConfig_def)
  with False assms(3,4) show ?thesis by (auto simp: proxyServer_call apiServer_call bind_res_Ok_iff)
qed

section \<open>The listing of available apps\<close>

text \<open>
  The list is a template embedded in the program.  The file system of the embedding, the template language and
  YAML are parameters; \<open>'q\<close> is the type of the requests to install.
\<close>

record 'q store_lib =
  sl_ReadFile :: "string \<Rightarrow> string option"
  sl_Parse :: "string \<Rightarrow> (string \<Rightarrow> string option) option"
  sl_Unmarshal :: "string \<Rightarrow> 'q list option"
  sl_Marshal :: "'q list \<Rightarrow> json option"

datatype store_error = ListUnreadable | TemplateInvalid | TemplateFailed | ListInvalid | ListUnmarshalable

datatype store_text = StoreErrorText store_error | AppsJSON json

definition renderDevAppsList :: "'q store_lib \<Rightarrow> string \<Rightarrow> string \<Rightarrow> ('q list, store_error) res" where
  "renderDevAppsList L path raw =
     bind_res (ok_or TemplateInvalid (sl_Parse L raw)) (\<lambda>tmpl.
     bind_res (ok_or TemplateFailed (tmpl path)) (\<lambda>yml.
       ok_or ListInvalid (sl_Unmarshal L yml)))"

definition getDevAppsList :: "'q store_lib \<Rightarrow> string \<Rightarrow> ('q list, store_error) res" where
  "getDevAppsList L path =
     bind_res (ok_or ListUnreadable (sl_ReadFile L ''apps.dev.yml.tpl'')) (\<lambda>raw. renderDevAppsList L path raw)"

definition AvailableApps_ServeHTTP :: "'q store_lib \<Rightarrow> string \<Rightarrow> store_text response \<Rightarrow> store_text response" where
  "AvailableApps_ServeHTTP L path w =
     (case getDevAppsList L path of
        Ok apps \<Rightarrow>
          (case sl_Marshal L apps of
             Some marshalled \<Rightarrow> Write (AppsJSON marshalled) w
           | None \<Rightarrow> http_Error (StoreErrorText ListUnmarshalable) StatusInternalServerError w)
      | Err err \<Rightarrow> http_Error (StoreErrorText err) StatusInternalServerError w
      | Panic \<Rightarrow> w)"

definition NewAvailableAppsRoute :: "'q store_lib \<Rightarrow> string \<Rightarrow> ('r, store_text) route" where
  "NewAvailableAppsRoute L path =
     \<lparr>rt_Method = ''GET'', rt_Pattern = ''/app_store/available_apps'',
      rt_ServeHTTP = (\<lambda>_ w. AvailableApps_ServeHTTP L path w)\<rparr>"

lemma available_route_in_dev:
  "(rt_Method (NewAvailableAppsRoute L path :: ('r, store_text) route), rt_Pattern (NewAvailableAppsRoute L path :: ('r, store_text) route))
     \<in> set (main_routes n) \<longleftrightarrow> Environment n = EnvironmentDev"
  by (auto simp: NewAvailableAppsRoute_def main_routes_def CtrlServer_GetRoutes_def privi_GetRoutes_def auth_GetRoutes_def)

section \<open>Running and shutting down\<close>

text \<open>
  The goroutines after both servers are started.  \<open>run_conns\<close> counts the open connections of a server, and
  \<open>run_shut\<close> says whether \<open>Shutdown\<close> was called on it: then \<open>Serve\<close> returns \<open>ErrServerClosed\<close>, also when it is
  called only afterwards, and \<open>Shutdown\<close> itself returns when no connection is left.  \<open>run_failed\<close> is the first
  error of the group of goroutines; it cancels \<open>egCtx\<close>.
\<close>

datatype server_name = ProxyServer | APIServer

datatype server_run = Starting | Serving | Returned "serve_error option"

datatype main_phase = Awaiting | StoppingAPI | StoppingProxy | WaitingForAll | Finished "serve_error option"

record node_run =
  run_server :: "server_name \<Rightarrow> server_run"
  run_shut :: "server_name \<Rightarrow> bool"
  run_conns :: "server_name \<Rightarrow> nat"
  run_failed :: "serve_error option"
  run_interrupted :: bool
  run_phase :: main_phase

definition servers_started :: node_run where
  "servers_started =
     \<lparr>run_server = (\<lambda>_. Starting), run_shut = (\<lambda>_. False), run_conns = (\<lambda>_. 0), run_failed = None,
      run_interrupted = False, run_phase = Awaiting\<rparr>"

text \<open>A goroutine returns with what \<open>ServeFn\<close> makes of its error.\<close>

definition returns :: "server_name \<Rightarrow> serve_error \<Rightarrow> node_run \<Rightarrow> node_run" where
  "returns s err r =
     r\<lparr>run_server := (run_server r)(s := Returned (ServeFn_result err)),
       run_failed := (case run_failed r of None \<Rightarrow> ServeFn_result err | Some e \<Rightarrow> Some e)\<rparr>"

definition call_Shutdown :: "server_name \<Rightarrow> node_run \<Rightarrow> node_run" where
  "call_Shutdown s r = r\<lparr>run_shut := (run_shut r)(s := True)\<rparr>"

definition running :: "node_run \<Rightarrow> server_name \<Rightarrow> bool" where
  "running r s \<longleftrightarrow> run_server r s = Starting \<or> run_server r s = Serving"

definition stop_requested :: "node_run \<Rightarrow> bool" where
  "stop_requested r \<longleftrightarrow> run_interrupted r \<or> run_failed r \<noteq> None"

inductive run_step :: "node_run \<Rightarrow> node_run \<Rightarrow> bool" where
  serves: "run_server r s = Starting \<Longrightarrow> \<not> run_shut r s \<Longrightarrow>
    run_step r (r\<lparr>run_server := (run_server r)(s := Serving)\<rparr>)"
| fails: "running r s \<Longrightarrow> err \<noteq> ErrServerClosed \<Longrightarrow> run_step r (returns s err r)"
| closes: "running r s \<Longrightarrow> run_shut r s \<Longrightarrow> run_step r (returns s ErrServerClosed r)"
| connects: "run_server r s = Serving \<Longrightarrow> \<not> run_shut r s \<Longrightarrow>
    run_step r (r\<lparr>run_conns := (run_conns r)(s := Suc (run_conns r s))\<rparr>)"
| disconnects: "run_conns r s = Suc k \<Longrightarrow> run_step r (r\<lparr>run_conns := (run_conns r)(s := k)\<rparr>)"
| interrupt: "\<not> run_interrupted r \<Longrightarrow> run_step r (r\<lparr>run_interrupted := True\<rparr>)"
| stop: "run_phase r = Awaiting \<Longrightarrow> stop_requested r \<Longrightarrow>
    run_step r (call_Shutdown APIServer r\<lparr>run_phase := StoppingAPI\<rparr>)"
| api_stopped: "run_phase r = StoppingAPI \<Longrightarrow> run_conns r APIServer = 0 \<Longrightarrow>
    run_step r (call_Shutdown ProxyServer r\<lparr>run_phase := StoppingProxy\<rparr>)"
| proxy_stopped: "run_phase r = StoppingProxy \<Longrightarrow> run_conns r ProxyServer = 0 \<Longrightarrow>
    run_step r (r\<lparr>run_phase := WaitingForAll\<rparr>)"
| all_returned: "run_phase r = WaitingForAll \<Longrightarrow> (\<And>s. \<not> running r s) \<Longrightarrow>
    run_step r (r\<lparr>run_phase := Finished (run_failed r)\<rparr>)"

definition node_finished :: "node_run \<Rightarrow> bool" where
  "node_finished r \<longleftrightarrow> (\<exists>res. run_phase r = Finished res)"

lemma not_running_iff: "\<not> running r s \<longleftrightarrow> (\<exists>e. run_server r s = Returned e)"
  by (cases "run_server r s") (simp_all add: running_def)

lemma all_servers: "(\<forall>s. P s) \<longleftrightarrow> P ProxyServer \<and> P APIServer"
  by (metis server_name.exhaust)

text \<open>How far \<open>main\<close> is.\<close>

fun phase_rank :: "main_phase \<Rightarrow> nat" where
  "phase_rank Awaiting = 4"
| "phase_rank StoppingAPI = 3"
| "phase_rank StoppingProxy = 2"
| "phase_rank WaitingForAll = 1"
| "phase_rank (Finished res) = 0"

definition run_ok :: "node_run \<Rightarrow> bool" where
  "run_ok r \<longleftrightarrow>
     (phase_rank (run_phase r) \<le> 3 \<longrightarrow> stop_requested r) \<and>
     (run_shut r APIServer \<longleftrightarrow> phase_rank (run_phase r) \<le> 3) \<and>
     (run_shut r ProxyServer \<longleftrightarrow> phase_rank (run_phase r) \<le> 2) \<and>
     (phase_rank (run_phase r) \<le> 2 \<longrightarrow> run_conns r APIServer = 0) \<and>
     (phase_rank (run_phase r) \<le> 1 \<longrightarrow> run_conns r ProxyServer = 0) \<and>
     (\<forall>s. run_server r s = Returned None \<longrightarrow> run_shut r s) \<and>
     (\<forall>s e. run_server r s = Returned (Some e) \<longrightarrow> run_failed r \<noteq> None) \<and>
     (\<forall>e. run_failed r = Some e \<longrightarrow> (\<exists>s. run_server r s = Returned (Some e))) \<and>
     (\<forall>res. run_phase r = Finished res \<longrightarrow> res = run_failed r \<and> (\<forall>s. \<not> running r s))"

lemma started_ok: "run_ok servers_started"
  by (simp add: run_ok_def servers_started_def)

lemma returns_fields [simp]:
  "run_shut (returns s err r) = run_shut r" "run_conns (returns s err r) = run_conns r"
  "run_interrupted (returns s err r) = run_interrupted r" "run_phase (returns s err r) = run_phase r"
  by (simp_all add: returns_def)

lemma returns_server: "run_server (returns s err r) t = (if t = s then Returned (ServeFn_result err) else run_server r t)"
  by (simp add: returns_def)

lemma returns_failed:
  "run_failed (returns s err r) = (case run_failed r of None \<Rightarrow> ServeFn_result err | Some e \<Rightarrow> Some e)"
  by (simp add: returns_def)

lemma returns_ok:
  assumes "run_ok r" and "running r s" and "err = ErrServerClosed \<longrightarrow> run_shut r s"
  shows "run_ok (returns s err r)"
proof -
  have "\<not> (\<exists>res. run_phase r = Finished res)" using assms(1,2) by (auto simp: run_ok_def)
  moreover have "stop_requested r \<longrightarrow> stop_requested (returns s err r)"
    by (auto simp: stop_requested_def returns_failed)
  moreover have "\<exists>t. run_server (returns s err r) t = Returned (Some e)" if "run_failed (returns s err r) = Some e" for e
  proof (cases "run_failed r")
    case None
    with that show ?thesis by (auto simp: returns_failed returns_server)
  next
    case (Some e')
    with that have "run_failed r = Some e" by (simp add: returns_failed)
    then obtain t where t: "run_server r t = Returned (Some e)" using assms(1) unfolding run_ok_def by blast
    then have "t \<noteq> s" using assms(2) by (auto simp: running_def)
    with t have "run_server (returns s err r) t = Returned (Some e)" by (simp add: returns_server)
    then show ?thesis ..
  qed
  moreover have "run_shut r t" if "run_server (returns s err r) t = Returned None" for t
    using that assms(1,3) by (auto simp: returns_server ServeFn_result_def run_ok_def split: if_splits)
  moreover have "run_failed (returns s err r) \<noteq> None" if "run_server (returns s err r) t = Returned (Some e)" for t e
    using that assms(1) by (auto simp: returns_server returns_failed run_ok_def split: if_splits option.splits)
  ultimately show ?thesis using assms(1) unfolding run_ok_def by simp
qed

lemma run_step_ok:
  assumes "run_step r r'" and "run_ok r"
  shows "run_ok r'"
  using assms
proof cases
  case (serves s)
  then have "run_server r' t = Returned e \<longleftrightarrow> run_server r t = Returned e" "running r' t \<longleftrightarrow> running r t"
    "stop_requested r' \<longleftrightarrow> stop_requested r" for t e
    by (simp_all add: running_def stop_requested_def)
  then show ?thesis using assms(2) serves(1) unfolding run_ok_def by simp
next
  case (fails s err)
  then show ?thesis using returns_ok [OF assms(2), of s err] by simp
next
  case (closes s)
  then show ?thesis using returns_ok [OF assms(2), of s ErrServerClosed] by simp
next
  case (connects s)
  then show ?thesis using assms(2) by (cases s) (auto simp: run_ok_def stop_requested_def running_def)
next
  case (disconnects s k)
  then show ?thesis using assms(2) by (cases s) (auto simp: run_ok_def stop_requested_def running_def)
next
  case interrupt
  then show ?thesis using assms(2) by (auto simp: run_ok_def stop_requested_def running_def)
next
  case stop
  then show ?thesis using assms(2) by (auto simp: run_ok_def stop_requested_def running_def call_Shutdown_def)
next
  case api_stopped
  then show ?thesis using assms(2) by (auto simp: run_ok_def stop_requested_def running_def call_Shutdown_def)
next
  case proxy_stopped
  then show ?thesis using assms(2) by (auto simp: run_ok_def stop_requested_def running_def)
next
  case all_returned
  then show ?thesis using assms(2) by (auto simp: run_ok_def stop_requested_def running_def)
qed


lemma run_reaches_ok: "run_step\<^sup>*\<^sup>* servers_started r \<Longrightarrow> run_ok r"
  by (induction rule: rtranclp_induct) (auto intro: started_ok run_step_ok)

text \<open>What is left to do before \<open>main\<close> ends.\<close>

fun run_rank :: "server_run \<Rightarrow> nat" where
  "run_rank Starting = 2"
| "run_rank Serving = 1"
| "run_rank (Returned res) = 0"

definition work_left :: "node_run \<Rightarrow> nat" where
  "work_left r = phase_rank (run_phase r) + run_conns r APIServer + run_conns r ProxyServer +
     run_rank (run_server r APIServer) + run_rank (run_server r ProxyServer) + (if run_interrupted r then 0 else 1)"

lemma work_left_conn:
  "run_conns r s = Suc k \<Longrightarrow> work_left (r\<lparr>run_conns := (run_conns r)(s := k)\<rparr>) < work_left r"
  by (cases s) (simp_all add: work_left_def)

lemma work_left_returns: "running r s \<Longrightarrow> work_left (returns s err r) < work_left r"
  by (cases s) (auto simp: work_left_def returns_server running_def)

lemma stop_requested_returns: "stop_requested r \<Longrightarrow> stop_requested (returns s err r)"
  by (auto simp: stop_requested_def returns_failed)

lemma disconnect_progress:
  assumes "stop_requested r" and "run_conns r s = Suc k"
  shows "\<exists>r'. run_step r r' \<and> work_left r' < work_left r \<and> stop_requested r'"
proof -
  let ?r = "r\<lparr>run_conns := (run_conns r)(s := k)\<rparr>"
  have "stop_requested ?r" using assms(1) by (simp add: stop_requested_def)
  then show ?thesis using run_step.disconnects [OF assms(2)] work_left_conn [OF assms(2)] by blast
qed

lemma node_progress:
  assumes "run_ok r" and "stop_requested r" and "\<not> node_finished r"
  shows "\<exists>r'. run_step r r' \<and> work_left r' < work_left r \<and> stop_requested r'"
proof (cases "run_phase r")
  case Awaiting
  then show ?thesis
    using run_step.stop [OF Awaiting assms(2)] assms(2)
    by (intro exI [of _ "call_Shutdown APIServer r\<lparr>run_phase := StoppingAPI\<rparr>"])
      (simp add: work_left_def call_Shutdown_def stop_requested_def)
next
  case StoppingAPI
  show ?thesis
  proof (cases "run_conns r APIServer")
    case 0
    then show ?thesis
      using run_step.api_stopped [OF StoppingAPI 0] assms(2) StoppingAPI
      by (intro exI [of _ "call_Shutdown ProxyServer r\<lparr>run_phase := StoppingProxy\<rparr>"])
        (simp add: work_left_def call_Shutdown_def stop_requested_def)
  next
    case (Suc k)
    with assms(2) show ?thesis by (rule disconnect_progress)
  qed
next
  case StoppingProxy
  show ?thesis
  proof (cases "run_conns r ProxyServer")
    case 0
    then show ?thesis
      using run_step.proxy_stopped [OF StoppingProxy 0] assms(2) StoppingProxy
      by (intro exI [of _ "r\<lparr>run_phase := WaitingForAll\<rparr>"]) (simp add: work_left_def stop_requested_def)
  next
    case (Suc k)
    with assms(2) show ?thesis by (rule disconnect_progress)
  qed
next
  case WaitingForAll
  show ?thesis
  proof (cases "\<exists>s. running r s")
    case True
    then obtain s where s: "running r s" ..
    have "run_shut r s" using assms(1) WaitingForAll by (cases s) (simp_all add: run_ok_def)
    then show ?thesis
      using run_step.closes [OF s] work_left_returns [OF s] stop_requested_returns [OF assms(2)] by blast
  next
    case False
    then show ?thesis
      using run_step.all_returned [OF WaitingForAll] assms(2) WaitingForAll
      by (intro exI [of _ "r\<lparr>run_phase := Finished (run_failed r)\<rparr>"]) (simp add: work_left_def stop_requested_def)
  qed
next
  case (Finished res)
  with assms(3) show ?thesis by (simp add: node_finished_def)
qed

lemma node_can_finish:
  assumes "run_ok r" and "stop_requested r"
  shows "\<exists>r'. run_step\<^sup>*\<^sup>* r r' \<and> node_finished r'"
  using assms
proof (induction "work_left r" arbitrary: r rule: less_induct)
  case less
  show ?case
  proof (cases "node_finished r")
    case False
    then obtain r1 where "run_step r r1" "work_left r1 < work_left r" "stop_requested r1"
      using node_progress [OF less.prems] by blast
    with less.hyps [of r1] run_step_ok [OF _ less.prems(1)] show ?thesis
      by (blast intro: converse_rtranclp_into_rtranclp)
  qed blast
qed

text \<open>Once both servers are told to stop, each step leaves less to do.\<close>

lemma run_step_work:
  assumes "run_step r r'" and "run_ok r" and "phase_rank (run_phase r) \<le> 2"
  shows "work_left r' < work_left r \<and> phase_rank (run_phase r') \<le> 2"
proof -
  have shut: "run_shut r s" for s using assms(2,3) by (cases s) (simp_all add: run_ok_def)
  show ?thesis
    using assms(1)
  proof cases
    case (fails s err)
    then show ?thesis using work_left_returns assms(3) by simp
  next
    case (closes s)
    then show ?thesis using work_left_returns assms(3) by simp
  next
    case (disconnects s k)
    then show ?thesis using work_left_conn assms(3) by simp
  qed (use shut assms(3) in \<open>simp_all add: work_left_def call_Shutdown_def\<close>)
qed

lemma run_steps_work:
  "(run_step ^^ k) r r' \<Longrightarrow> run_ok r \<Longrightarrow> phase_rank (run_phase r) \<le> 2 \<Longrightarrow>
     work_left r' + k \<le> work_left r \<and> run_ok r' \<and> phase_rank (run_phase r') \<le> 2"
proof (induction k arbitrary: r')
  case (Suc k)
  then obtain r1 where "(run_step ^^ k) r r1" "run_step r1 r'" by auto
  with Suc run_step_work [of r1 r'] run_step_ok [of r1 r'] show ?case by fastforce
qed simp

text \<open>
  C22: however the servers of a node run, neither is shut down or has returned before an interrupt or a failure of
  one of them; and when \<open>main\<close> ends, both have returned, no connection is open, and what the group of goroutines
  reports is the first failure, if there was one.
\<close>

theorem node_shuts_down_cleanly:
  assumes "run_step\<^sup>*\<^sup>* servers_started r"
  shows "(\<not> stop_requested r \<longrightarrow> run_phase r = Awaiting \<and> (\<forall>s. \<not> run_shut r s \<and> running r s)) \<and>
    (\<forall>res. run_phase r = Finished res \<longrightarrow>
       (\<forall>s. \<not> running r s \<and> run_shut r s \<and> run_conns r s = 0) \<and>
       (res = None \<longrightarrow> run_interrupted r \<and> (\<forall>s. run_server r s = Returned None)) \<and>
       (\<forall>e. res = Some e \<longrightarrow> (\<exists>s. run_server r s = Returned (Some e))))"
proof -
  have ok: "run_ok r" by (rule run_reaches_ok [OF assms])
  have "run_phase r = Awaiting \<and> (\<forall>s. \<not> run_shut r s \<and> running r s)" if "\<not> stop_requested r"
  proof -
    have rank: "\<not> phase_rank (run_phase r) \<le> 3" using ok that unfolding run_ok_def by blast
    then have awaiting: "run_phase r = Awaiting" by (cases "run_phase r") simp_all
    have shut: "\<not> run_shut r s" for s using ok rank by (cases s) (simp_all add: run_ok_def)
    have "running r s" for s
    proof (rule ccontr)
      assume "\<not> running r s"
      then obtain e where "run_server r s = Returned e" by (auto simp: not_running_iff)
      then show False using ok shut that by (cases e) (auto simp: run_ok_def stop_requested_def)
    qed
    with awaiting shut show ?thesis by blast
  qed
  moreover have "(\<forall>s. \<not> running r s \<and> run_shut r s \<and> run_conns r s = 0) \<and>
      (res = None \<longrightarrow> run_interrupted r \<and> (\<forall>s. run_server r s = Returned None)) \<and>
      (\<forall>e. res = Some e \<longrightarrow> (\<exists>s. run_server r s = Returned (Some e)))"
    if fin: "run_phase r = Finished res" for res
  proof -
    have "stop_requested r" "res = run_failed r" "\<And>s. \<not> running r s"
      using ok fin by (simp_all add: run_ok_def)
    moreover have failed: "\<And>s e. run_server r s = Returned (Some e) \<Longrightarrow> run_failed r \<noteq> None"
      and "\<And>e. run_failed r = Some e \<Longrightarrow> \<exists>s. run_server r s = Returned (Some e)"
      using ok unfolding run_ok_def by blast+
    moreover have "run_shut r s \<and> run_conns r s = 0" for s using ok fin by (cases s) (simp_all add: run_ok_def)
    moreover have "run_server r s = Returned None" if "run_failed r = None" for s
    proof -
      obtain e where e: "run_server r s = Returned e" using \<open>\<not> running r s\<close> by (auto simp: not_running_iff)
      then show ?thesis using failed [of s] that by (cases e) auto
    qed
    ultimately show ?thesis by (auto simp: stop_requested_def)
  qed
  ultimately show ?thesis by blast
qed


section \<open>The theorems applied\<close>

lemma interrupted_start: "run_step\<^sup>*\<^sup>* servers_started (servers_started\<lparr>run_interrupted := True\<rparr>)"
  by (rule r_into_rtranclp, rule run_step.interrupt) (simp add: servers_started_def)

lemma node_shuts_down_cleanly_witness:
  "\<exists>r res. run_step\<^sup>*\<^sup>* servers_started r \<and> run_phase r = Finished res \<and> (\<forall>s. \<not> running r s \<and> run_conns r s = 0)"
proof -
  have "run_ok (servers_started\<lparr>run_interrupted := True\<rparr>)" by (rule run_reaches_ok [OF interrupted_start])
  moreover have "stop_requested (servers_started\<lparr>run_interrupted := True\<rparr>)" by (simp add: stop_requested_def)
  ultimately obtain r where "run_step\<^sup>*\<^sup>* (servers_started\<lparr>run_interrupted := True\<rparr>) r" and fin: "node_finished r"
    using node_can_finish by blast
  with interrupted_start have run: "run_step\<^sup>*\<^sup>* servers_started r" by simp
  from fin obtain res where res: "run_phase r = Finished res" by (auto simp: node_finished_def)
  from node_shuts_down_cleanly [OF run, THEN conjunct2, THEN spec, THEN mp, OF res, THEN conjunct1]
  have "\<forall>s. \<not> running r s \<and> run_conns r s = 0" by simp
  with run res show ?thesis by (intro exI conjI)
qed


definition demo_net_lib :: "string net_lib" where
  "demo_net_lib = \<lparr>nl_Listen = Some, nl_tsnet_Listen = (\<lambda>_ _ _. None), nl_tsnet_ListenFunnel = (\<lambda>_ _ _. None)\<rparr>"

definition tls_node :: node_config where
  "tls_node = demo_config\<lparr>nc_viper := demo_viper\<lparr>vp_GetBool := (\<lambda>k. k = ''use_tls'')\<rparr>\<rparr>"

lemma tls_for_both_or_neither_witness:
  "\<exists>tls l api apiCall srv srvCall.
     TLSConfig \<lparr>ce_ReadFile = Some, ce_pem_Decode = (\<lambda>_. None), ce_ParseCertificate = (\<lambda>_. None)\<rparr> tls_node = Ok tls \<and>
     main_listener demo_net_lib tls_node = Some l \<and> main_apiServer demo_net_lib tls_node tls = Ok (api, apiCall) \<and>
     main_proxyServer demo_net_lib tls_node tls l = Ok (srv, srvCall) \<and>
     srvCall = ServeTLS l (NodeCertPath tls_node) (NodeKeyPath tls_node)"
proof -
  let ?C = "\<lparr>ce_ReadFile = Some, ce_pem_Decode = (\<lambda>_. None), ce_ParseCertificate = (\<lambda>_. None)\<rparr>"
  have use: "UseTLS tls_node" by (simp add: UseTLS_def tls_node_def)
  then obtain tls where tls: "TLSConfig ?C tls_node = Ok tls" by (simp add: TLSConfig_def)
  obtain l where l: "main_listener demo_net_lib tls_node = Some l"
    by (simp add: main_listener_def TailscaleAuthkey_def tls_node_def demo_config_def demo_viper_def demo_net_lib_def
        proxy_Listener_def)
  obtain api apiCall where api: "main_apiServer demo_net_lib tls_node tls = Ok (api, apiCall)"
    by (simp add: apiServer_call demo_net_lib_def)
  obtain srv srvCall where srv: "main_proxyServer demo_net_lib tls_node tls l = Ok (srv, srvCall)"
    by (simp add: proxyServer_call)
  from tls_for_both_or_neither [OF tls l api srv] use
  have "srvCall = ServeTLS l (NodeCertPath tls_node) (NodeKeyPath tls_node)" by auto
  with tls l api srv show ?thesis by blast
qed

end
