(* ===== verification/Funnel.thy ===== *)
theory Funnel
  imports NodeServers
begin

text \<open>
  The funnel program: \<open>cmd/funnel/main.go\<close>, which serves a local port under a public tailscale name.

  The first part of \<open>main\<close> is \<open>funnel_start\<close>: the arguments, the flags, the configuration, the listener and the
  target.  What the program then does is a step relation: the goroutine that serves, the wait for a signal or an
  error, the shutdown with its deadline, and the close of the tailscale server.  Package \<open>flag\<close> is modelled as far
  as a set with one boolean flag needs it; the tailscale library and \<open>net/url\<close> are parameters.
\<close>

section \<open>Flags\<close>

datatype flag_error = BadFlagSyntax string | FlagHelp | FlagNotDefined string

text \<open>
  \<open>flag.Parse\<close> with the flag \<open>debug\<close>, which takes any value: \<open>None\<close> of \<open>flag_name\<close> is an argument that is no flag,
  and ends the flags as \<open>--\<close> does.
\<close>

definition flag_name :: "string \<Rightarrow> string option" where
  "flag_name s =
     (if length s < 2 \<or> hd s \<noteq> CHR ''-'' \<or> s = ''--'' then None
      else Some (if s ! 1 = CHR ''-'' then drop 2 s else drop 1 s))"

fun flag_Parse :: "string list \<Rightarrow> bool \<Rightarrow> (bool, flag_error) res" where
  "flag_Parse [] debug = Ok debug"
| "flag_Parse (s # args) debug =
     (case flag_name s of
        None \<Rightarrow> Ok debug
      | Some name \<Rightarrow>
          if hd name = CHR ''-'' \<or> hd name = CHR ''='' then Err (BadFlagSyntax s)
          else
            let key = hd name # takeWhile (\<lambda>c. c \<noteq> CHR ''='') (tl name) in
            if key = ''debug'' then flag_Parse args True
            else if key = ''help'' \<or> key = ''h'' then Err FlagHelp
            else Err (FlagNotDefined key))"

section \<open>The start\<close>

record tsnet_server =
  tsn_Hostname :: string
  tsn_AuthKey :: string
  tsn_Dir :: string

record ('u, 'l) funnel_lib =
  fl_viper :: viper_lib
  fl_certs :: cert_lib
  fl_home :: "string option"
  fl_ListenFunnel :: "tsnet_server \<Rightarrow> string \<Rightarrow> string \<Rightarrow> 'l option"
  fl_url_Parse :: "string \<Rightarrow> 'u option"

datatype funnel_error =
    FlagsExit flag_error
  | FunnelConfig config_error
  | FunnelListen
  | FunnelURL

record ('u, 'l) funnel =
  fu_debug :: bool
  fu_server :: tsnet_server
  fu_listener :: 'l
  fu_target :: 'u

definition funnel_server :: "string \<Rightarrow> node_config \<Rightarrow> tsnet_server" where
  "funnel_server hostName nodeConfig =
     \<lparr>tsn_Hostname = hostName, tsn_AuthKey = TailscaleAuthkey nodeConfig, tsn_Dir = ''.habitat/funnel/'' @ hostName\<rparr>"

text \<open>\<open>args\<close> are the arguments after the name of the program; to read one that is missing panics.\<close>

fun funnel_start :: "('u, 'l) funnel_lib \<Rightarrow> string list \<Rightarrow> (('u, 'l) funnel, funnel_error) res" where
  "funnel_start L (port # hostName # rest) =
     bind_res (map_err FlagsExit (flag_Parse (port # hostName # rest) False)) (\<lambda>debug.
     bind_res (map_err FunnelConfig (NewNodeConfig (fl_viper L) (fl_certs L) (fl_home L))) (\<lambda>nodeConfig.
     let server = funnel_server hostName nodeConfig in
     bind_res (ok_or FunnelListen (fl_ListenFunnel L server ''tcp'' '':443'')) (\<lambda>ln.
     bind_res (ok_or FunnelURL (fl_url_Parse L (''http://localhost:'' @ port))) (\<lambda>localUrl.
       Ok \<lparr>fu_debug = debug, fu_server = server, fu_listener = ln, fu_target = localUrl\<rparr>))))"
| "funnel_start L args = Panic"

text \<open>
  What \<open>url.Parse\<close> says of a port: it must be made of digits.  This is stated for words of letters, digits and the
  characters of flags; with other characters the port may end early.
\<close>

definition digits :: string where "digits = ''0123456789''"

definition flag_chars :: string where
  "flag_chars = digits @ ''abcdefghijklmnopqrstuvwxyzABCDEFGHIJKLMNOPQRSTUVWXYZ-_.=''"

definition port_law :: "(string \<Rightarrow> 'u option) \<Rightarrow> bool" where
  "port_law parse \<longleftrightarrow>
     (\<forall>port. set port \<subseteq> set flag_chars \<longrightarrow> (parse (''http://localhost:'' @ port) \<noteq> None \<longleftrightarrow> set port \<subseteq> set digits))"

section \<open>Serving and stopping\<close>

text \<open>
  \<open>fr_signalled\<close>: a signal is in the channel or was read, later ones are dropped.  \<open>fr_shut\<close>: \<open>Shutdown\<close> was
  called, after which \<open>Serve\<close> returns \<open>ErrServerClosed\<close>.  \<open>fr_expired\<close>: the ten seconds of the shutdown have
  passed.  \<open>fr_conns\<close> are the connections of clients, and \<open>fr_tsnet\<close> says whether the tailscale server is up.
  The program ends with \<open>Stopped\<close>, or by \<open>log.Fatal\<close>.
\<close>

datatype funnel_serve = NotServing | ServingFunnel | ServeReturned serve_error

datatype funnel_phase = Waiting | ShuttingDown | ClosingServer | Stopped | FatalServer serve_error

record funnel_run =
  fr_serve :: funnel_serve
  fr_signalled :: bool
  fr_shut :: bool
  fr_expired :: bool
  fr_conns :: nat
  fr_tsnet :: bool
  fr_phase :: funnel_phase

definition funnel_started :: funnel_run where
  "funnel_started =
     \<lparr>fr_serve = NotServing, fr_signalled = False, fr_shut = False, fr_expired = False, fr_conns = 0, fr_tsnet = True,
      fr_phase = Waiting\<rparr>"

fun has_returned :: "funnel_serve \<Rightarrow> bool" where
  "has_returned (ServeReturned err) = True"
| "has_returned _ = False"

fun ended :: "funnel_phase \<Rightarrow> bool" where
  "ended Stopped = True"
| "ended (FatalServer err) = True"
| "ended _ = False"

text \<open>What the goroutines and the clients may do next.\<close>

inductive funnel_event :: "funnel_run \<Rightarrow> funnel_run \<Rightarrow> bool" where
  serves: "fr_serve r = NotServing \<Longrightarrow> \<not> fr_shut r \<Longrightarrow> funnel_event r (r\<lparr>fr_serve := ServingFunnel\<rparr>)"
| fails: "\<not> has_returned (fr_serve r) \<Longrightarrow> err \<noteq> ErrServerClosed \<Longrightarrow>
    funnel_event r (r\<lparr>fr_serve := ServeReturned err\<rparr>)"
| closes: "\<not> has_returned (fr_serve r) \<Longrightarrow> fr_shut r \<Longrightarrow> funnel_event r (r\<lparr>fr_serve := ServeReturned ErrServerClosed\<rparr>)"
| connects: "fr_serve r = ServingFunnel \<Longrightarrow> \<not> fr_shut r \<Longrightarrow> funnel_event r (r\<lparr>fr_conns := Suc (fr_conns r)\<rparr>)"
| disconnects: "fr_conns r = Suc k \<Longrightarrow> funnel_event r (r\<lparr>fr_conns := k\<rparr>)"
| signal: "\<not> fr_signalled r \<Longrightarrow> funnel_event r (r\<lparr>fr_signalled := True\<rparr>)"
| server_error: "fr_phase r = Waiting \<Longrightarrow> fr_serve r = ServeReturned err \<Longrightarrow>
    funnel_event r (if err \<noteq> ErrServerClosed then r\<lparr>fr_phase := FatalServer err\<rparr>
      else r\<lparr>fr_shut := True, fr_phase := ShuttingDown\<rparr>)"
| interrupted: "fr_phase r = Waiting \<Longrightarrow> fr_signalled r \<Longrightarrow>
    funnel_event r (r\<lparr>fr_shut := True, fr_phase := ShuttingDown\<rparr>)"
| expires: "fr_phase r = ShuttingDown \<Longrightarrow> \<not> fr_expired r \<Longrightarrow> funnel_event r (r\<lparr>fr_expired := True\<rparr>)"
| shut_down: "fr_phase r = ShuttingDown \<Longrightarrow> fr_conns r = 0 \<or> fr_expired r \<Longrightarrow>
    funnel_event r (r\<lparr>fr_phase := ClosingServer\<rparr>)"
| tsnet_closes: "fr_phase r = ClosingServer \<Longrightarrow> funnel_event r (r\<lparr>fr_tsnet := False, fr_phase := Stopped\<rparr>)"

definition funnel_step :: "funnel_run \<Rightarrow> funnel_run \<Rightarrow> bool" where
  "funnel_step r r' \<longleftrightarrow> \<not> ended (fr_phase r) \<and> funnel_event r r'"

text \<open>A step in which no client comes or goes.\<close>

definition funnel_alone :: "funnel_run \<Rightarrow> funnel_run \<Rightarrow> bool" where
  "funnel_alone r r' \<longleftrightarrow> funnel_step r r' \<and> fr_conns r' = fr_conns r"

definition funnel_ok :: "funnel_run \<Rightarrow> bool" where
  "funnel_ok r \<longleftrightarrow>
     (case fr_phase r of
        Waiting \<Rightarrow> \<not> fr_shut r \<and> fr_tsnet r \<and> fr_serve r \<noteq> ServeReturned ErrServerClosed \<and> \<not> fr_expired r
      | ShuttingDown \<Rightarrow> fr_shut r \<and> fr_signalled r \<and> fr_tsnet r
      | ClosingServer \<Rightarrow> fr_shut r \<and> fr_signalled r \<and> fr_tsnet r \<and> (fr_conns r = 0 \<or> fr_expired r)
      | Stopped \<Rightarrow> fr_shut r \<and> fr_signalled r \<and> \<not> fr_tsnet r \<and> (fr_conns r = 0 \<or> fr_expired r)
      | FatalServer err \<Rightarrow> \<not> fr_shut r \<and> fr_tsnet r \<and> err \<noteq> ErrServerClosed \<and> fr_serve r = ServeReturned err)"

lemma funnel_step_ok:
  assumes "funnel_step r r'" and "funnel_ok r"
  shows "funnel_ok r'"
proof -
  from assms(1) have live: "\<not> ended (fr_phase r)" and "funnel_event r r'" by (simp_all add: funnel_step_def)
  from this(2) show ?thesis
    by cases (use assms(2) live in \<open>auto simp: funnel_ok_def split: funnel_phase.splits if_splits\<close>)
qed

lemma funnel_started_ok: "funnel_ok funnel_started"
  by (simp add: funnel_ok_def funnel_started_def)

lemma funnel_reaches_ok: "funnel_step\<^sup>*\<^sup>* funnel_started r \<Longrightarrow> funnel_ok r"
  by (induction rule: rtranclp_induct) (auto intro: funnel_started_ok funnel_step_ok)

text \<open>A program that is asked to stop does so, although its clients stay.\<close>

lemma alone_ends:
  "fr_phase r = ClosingServer \<Longrightarrow> \<exists>r'. funnel_alone\<^sup>*\<^sup>* r r' \<and> ended (fr_phase r')"
  using funnel_event.tsnet_closes [of r]
  by (intro exI [of _ "r\<lparr>fr_tsnet := False, fr_phase := Stopped\<rparr>"]) (auto simp: funnel_alone_def funnel_step_def)

lemma alone_expired_ends:
  assumes "fr_phase r = ShuttingDown" and "fr_expired r"
  shows "\<exists>r'. funnel_alone\<^sup>*\<^sup>* r r' \<and> ended (fr_phase r')"
proof -
  let ?r = "r\<lparr>fr_phase := ClosingServer\<rparr>"
  have "funnel_alone r ?r"
    using funnel_event.shut_down [of r] assms by (simp add: funnel_alone_def funnel_step_def)
  moreover obtain r' where "funnel_alone\<^sup>*\<^sup>* ?r r'" "ended (fr_phase r')" using alone_ends [of ?r] by auto
  ultimately show ?thesis by (meson converse_rtranclp_into_rtranclp)
qed

lemma alone_shutting_ends:
  assumes "fr_phase r = ShuttingDown"
  shows "\<exists>r'. funnel_alone\<^sup>*\<^sup>* r r' \<and> ended (fr_phase r')"
proof (cases "fr_expired r")
  case False
  let ?r = "r\<lparr>fr_expired := True\<rparr>"
  have "funnel_alone r ?r"
    using funnel_event.expires [of r] assms False by (simp add: funnel_alone_def funnel_step_def)
  moreover obtain r' where "funnel_alone\<^sup>*\<^sup>* ?r r'" "ended (fr_phase r')"
    using alone_expired_ends [of ?r] assms by auto
  ultimately show ?thesis by (meson converse_rtranclp_into_rtranclp)
qed (use alone_expired_ends assms in blast)

lemma alone_asked_ends:
  assumes "fr_signalled r \<or> has_returned (fr_serve r)"
  shows "\<exists>r'. funnel_alone\<^sup>*\<^sup>* r r' \<and> ended (fr_phase r')"
proof (cases "fr_phase r")
  case Waiting
  have "\<exists>r1. funnel_alone r r1 \<and> (ended (fr_phase r1) \<or> fr_phase r1 = ShuttingDown)"
    using assms
  proof
    assume "fr_signalled r"
    then show ?thesis
      using funnel_event.interrupted [OF Waiting] Waiting
      by (intro exI [of _ "r\<lparr>fr_shut := True, fr_phase := ShuttingDown\<rparr>"]) (simp add: funnel_alone_def funnel_step_def)
  next
    assume "has_returned (fr_serve r)"
    then obtain err where "fr_serve r = ServeReturned err" by (cases "fr_serve r") auto
    from funnel_event.server_error [OF Waiting this] Waiting
    have "funnel_alone r (if err \<noteq> ErrServerClosed then r\<lparr>fr_phase := FatalServer err\<rparr>
      else r\<lparr>fr_shut := True, fr_phase := ShuttingDown\<rparr>)"
      by (simp add: funnel_alone_def funnel_step_def)
    then show ?thesis by (intro exI conjI) (assumption, simp)
  qed
  then show ?thesis using alone_shutting_ends by (meson converse_rtranclp_into_rtranclp r_into_rtranclp)
qed (use alone_shutting_ends alone_ends in auto)

text \<open>What is left to do.\<close>

fun funnel_rank :: "funnel_phase \<Rightarrow> nat" where
  "funnel_rank Waiting = 3"
| "funnel_rank ShuttingDown = 2"
| "funnel_rank ClosingServer = 1"
| "funnel_rank _ = 0"

fun funnel_serve_rank :: "funnel_serve \<Rightarrow> nat" where
  "funnel_serve_rank NotServing = 2"
| "funnel_serve_rank ServingFunnel = 1"
| "funnel_serve_rank (ServeReturned err) = 0"

definition funnel_left :: "funnel_run \<Rightarrow> nat" where
  "funnel_left r = funnel_rank (fr_phase r) + fr_conns r + funnel_serve_rank (fr_serve r) +
     (if fr_expired r then 0 else 1) + (if fr_signalled r then 0 else 1)"

lemma funnel_step_left:
  assumes "funnel_step r r'" and "funnel_ok r" and "fr_shut r"
  shows "funnel_left r' < funnel_left r \<and> fr_shut r'"
proof -
  from assms(1) have live: "\<not> ended (fr_phase r)" and "funnel_event r r'" by (simp_all add: funnel_step_def)
  from this(2) show ?thesis
    by cases (use assms(2,3) live in \<open>auto simp: funnel_left_def funnel_ok_def\<close>, (cases "fr_serve r"; simp)+)
qed

lemma funnel_steps_left:
  "(funnel_step ^^ k) r r' \<Longrightarrow> funnel_ok r \<Longrightarrow> fr_shut r \<Longrightarrow>
     funnel_left r' + k \<le> funnel_left r \<and> funnel_ok r' \<and> fr_shut r'"
proof (induction k arbitrary: r')
  case (Suc k)
  then obtain r1 where "(funnel_step ^^ k) r r1" "funnel_step r1 r'" by auto
  with Suc funnel_step_left [of r1 r'] funnel_step_ok [of r1 r'] show ?case by fastforce
qed simp

text \<open>
  C23: the funnel ends by a signal or by the failure of its server, and in no other way: after a signal its HTTP
  server was shut down and its tailscale server closed, and clients are cut off only at the deadline; after a
  failure neither is done.  Once it is asked to stop, it can end although no client leaves; and from the shutdown
  on it cannot go on for ever, whatever the clients do.
\<close>

theorem funnel_stops:
  assumes "funnel_step\<^sup>*\<^sup>* funnel_started r"
  shows "(fr_phase r = Stopped \<longrightarrow> fr_signalled r \<and> fr_shut r \<and> \<not> fr_tsnet r \<and> (fr_conns r = 0 \<or> fr_expired r)) \<and>
    (\<forall>err. fr_phase r = FatalServer err \<longrightarrow> err \<noteq> ErrServerClosed \<and> fr_serve r = ServeReturned err \<and> \<not> fr_shut r \<and> fr_tsnet r) \<and>
    (fr_signalled r \<or> has_returned (fr_serve r) \<longrightarrow> (\<exists>r'. funnel_alone\<^sup>*\<^sup>* r r' \<and> ended (fr_phase r'))) \<and>
    (\<forall>k r'. fr_shut r \<longrightarrow> (funnel_step ^^ k) r r' \<longrightarrow>
       k \<le> funnel_left r \<and> ((\<nexists>r''. funnel_step r' r'') \<longrightarrow> ended (fr_phase r')))"
proof -
  have ok: "funnel_ok r" by (rule funnel_reaches_ok [OF assms])
  have "k \<le> funnel_left r \<and> ((\<nexists>r''. funnel_step r' r'') \<longrightarrow> ended (fr_phase r'))"
    if "fr_shut r" "(funnel_step ^^ k) r r'" for k r'
  proof -
    from funnel_steps_left [OF that(2) ok that(1)]
    have left: "k \<le> funnel_left r" "funnel_ok r'" "fr_shut r'" by simp_all
    then have "fr_signalled r' \<or> ended (fr_phase r')"
      by (auto simp: funnel_ok_def split: funnel_phase.splits)
    then have "ended (fr_phase r') \<or> (\<exists>r''. funnel_step r' r'')"
      using alone_asked_ends [of r'] by (metis converse_rtranclpE funnel_alone_def)
    with left show ?thesis by blast
  qed
  moreover have "fr_phase r = Stopped \<longrightarrow> fr_signalled r \<and> fr_shut r \<and> \<not> fr_tsnet r \<and> (fr_conns r = 0 \<or> fr_expired r)"
    and "\<forall>err. fr_phase r = FatalServer err \<longrightarrow> err \<noteq> ErrServerClosed \<and> fr_serve r = ServeReturned err \<and> \<not> fr_shut r \<and> fr_tsnet r"
    using ok by (auto simp: funnel_ok_def)
  ultimately show ?thesis using alone_asked_ends by blast
qed

text \<open>
  The flag \<open>-debug\<close> cannot be used: the first argument is the port, at which the flags end.  A program that
  starts has a port made of digits and does not log its debugging messages, whatever its arguments are; and with
  fewer than two arguments it panics, also when it is asked for help.
\<close>

theorem funnel_debug_flag_is_dead:
  assumes "port_law (fl_url_Parse L)"
  shows "(length args < 2 \<longrightarrow> funnel_start L args = Panic) \<and>
    (\<forall>fu. funnel_start L args = Ok fu \<longrightarrow> set (hd args) \<subseteq> set flag_chars \<longrightarrow>
       \<not> fu_debug fu \<and> set (hd args) \<subseteq> set digits \<and> tsn_Hostname (fu_server fu) = args ! 1)"
proof -
  have "\<not> fu_debug fu \<and> set (hd args) \<subseteq> set digits \<and> tsn_Hostname (fu_server fu) = args ! 1"
    if ok: "funnel_start L args = Ok fu" and chars: "set (hd args) \<subseteq> set flag_chars" for fu
  proof -
    obtain port hostName rest where args: "args = port # hostName # rest"
      using ok by (cases "(L, args)" rule: funnel_start.cases) auto
    obtain debug where debug: "flag_Parse args False = Ok debug" "fu_debug fu = debug"
      and url: "fl_url_Parse L (''http://localhost:'' @ port) \<noteq> None" and "tsn_Hostname (fu_server fu) = hostName"
      using ok by (auto simp: args bind_res_Ok_iff map_err_Ok_iff Let_def funnel_server_def)
    moreover have port: "set port \<subseteq> set digits" using assms url chars by (simp add: port_law_def args)
    moreover have "flag_name port = None"
    proof (cases port)
      case (Cons c cs)
      with port have "c \<noteq> CHR ''-''" by (auto simp: digits_def)
      with Cons show ?thesis by (simp add: flag_name_def)
    qed (simp add: flag_name_def)
    ultimately show ?thesis by (simp add: args)
  qed
  moreover have "length args < 2 \<longrightarrow> funnel_start L args = Panic"
    by (cases "(L, args)" rule: funnel_start.cases) auto
  ultimately show ?thesis by blast
qed


section \<open>The theorems applied\<close>

definition demo_url_Parse :: "string \<Rightarrow> string option" where
  "demo_url_Parse u = (if set (drop 17 u) \<subseteq> set digits then Some u else None)"

definition demo_funnel_lib :: "(string, unit) funnel_lib" where
  "demo_funnel_lib =
     \<lparr>fl_viper = \<lparr>vl_accepts = (\<lambda>_. True), vl_GetString = (\<lambda>_ _. ''''), vl_ReadInConfig = (\<lambda>_ _ _ _. Some demo_viper)\<rparr>,
      fl_certs = \<lparr>ce_ReadFile = Some, ce_pem_Decode = (\<lambda>s. Some (''CERTIFICATE'', s)), ce_ParseCertificate = Some\<rparr>,
      fl_home = Some ''/home'', fl_ListenFunnel = (\<lambda>_ _ _. Some ()), fl_url_Parse = demo_url_Parse\<rparr>"

lemma demo_port_law: "port_law (fl_url_Parse demo_funnel_lib)"
  by (simp add: port_law_def demo_funnel_lib_def demo_url_Parse_def)

lemma demo_funnel_config:
  obtains n where "NewNodeConfig (fl_viper demo_funnel_lib) (fl_certs demo_funnel_lib) (fl_home demo_funnel_lib) = Ok n"
proof -
  have load: "loadViperConfig (fl_viper demo_funnel_lib) (fl_home demo_funnel_lib) = Ok demo_viper"
    "NewNodeConfigFromViper demo_viper = Ok \<lparr>nc_RootUserCert = None, nc_NodeCert = None, nc_viper = demo_viper\<rparr>"
    by (simp_all add: demo_funnel_lib_def loadViperConfig_def loadEnv_def NewNodeConfigFromViper_def list_all_iff)
      (simp add: demo_viper_def)
  have decode: "decodePemCert (fl_certs demo_funnel_lib) p = Ok p" for p
    by (simp add: decodePemCert_def demo_funnel_lib_def)
  have "\<exists>n. NewNodeConfig (fl_viper demo_funnel_lib) (fl_certs demo_funnel_lib) (fl_home demo_funnel_lib) = Ok n"
    unfolding NewNodeConfig_def load decode bind_res.simps by (simp split: if_split)
  then show thesis using that by blast
qed

lemma demo_funnel_starts:
  "\<exists>fu. funnel_start demo_funnel_lib [''3000'', ''name'', ''-debug''] = Ok fu"
  "funnel_start demo_funnel_lib [''-debug'', ''3000'', ''name''] = Err FunnelURL"
proof -
  obtain n where n: "NewNodeConfig (fl_viper demo_funnel_lib) (fl_certs demo_funnel_lib) (fl_home demo_funnel_lib) = Ok n"
    by (rule demo_funnel_config)
  have rest: "fl_ListenFunnel demo_funnel_lib s a b = Some ()" "fl_url_Parse demo_funnel_lib = demo_url_Parse" for s a b
    by (simp_all add: demo_funnel_lib_def)
  show "\<exists>fu. funnel_start demo_funnel_lib [''3000'', ''name'', ''-debug''] = Ok fu"
    "funnel_start demo_funnel_lib [''-debug'', ''3000'', ''name''] = Err FunnelURL"
    by (simp_all add: n rest flag_name_def Let_def demo_url_Parse_def digits_def)
qed

lemma funnel_debug_flag_is_dead_witness:
  "\<exists>fu. funnel_start demo_funnel_lib [''3000'', ''name'', ''-debug''] = Ok fu \<and> \<not> fu_debug fu \<and>
     tsn_Hostname (fu_server fu) = ''name''"
proof -
  obtain fu where fu: "funnel_start demo_funnel_lib [''3000'', ''name'', ''-debug''] = Ok fu"
    using demo_funnel_starts(1) by blast
  have "set ''3000'' \<subseteq> set flag_chars" by (simp add: flag_chars_def digits_def)
  with funnel_debug_flag_is_dead [OF demo_port_law, of "[''3000'', ''name'', ''-debug'']"] fu show ?thesis by simp
qed

text \<open>A signal comes while a client is connected, and the client stays.\<close>

lemma funnel_stops_witness:
  "\<exists>r r'. funnel_step\<^sup>*\<^sup>* funnel_started r \<and> fr_conns r = 1 \<and> funnel_alone\<^sup>*\<^sup>* r r' \<and> ended (fr_phase r')"
proof -
  let ?a = "funnel_started\<lparr>fr_serve := ServingFunnel\<rparr>"
  let ?b = "?a\<lparr>fr_conns := 1\<rparr>" and ?c = "?a\<lparr>fr_conns := 1, fr_signalled := True\<rparr>"
  have "funnel_step funnel_started ?a"
    using funnel_event.serves [of funnel_started] by (simp add: funnel_step_def funnel_started_def)
  moreover have "funnel_step ?a ?b"
    using funnel_event.connects [of ?a] by (simp add: funnel_step_def funnel_started_def)
  moreover have "funnel_step ?b ?c"
    using funnel_event.signal [of ?b] by (simp add: funnel_step_def funnel_started_def)
  ultimately have run: "funnel_step\<^sup>*\<^sup>* funnel_started ?c"
    by (blast intro: converse_rtranclp_into_rtranclp)
  from funnel_stops [OF run] obtain r' where "funnel_alone\<^sup>*\<^sup>* ?c r'" "ended (fr_phase r')" by auto
  with run show ?thesis by (intro exI [of _ ?c] exI [of _ r']) simp
qed

end
