(* ===== verification/Dpop.thy ===== *)
theory Dpop
  imports HttpClient Base64
begin

text \<open>
  The HTTP client that proves the possession of a key: \<open>internal/auth/dpop.go\<close>, with \<open>utils.go\<close>.

  Signing (\<open>go-jose\<close>) and SHA-256 are parameters, and so are the identifiers and clock readings, one pair
  for each proof.  A nonce provider is the pair of its methods over a state.
\<close>

datatype auth_error =
    SigningFailed
  | BodyUnreadable
  | TransportFailed string
  | ValueNotBytes string
  | ValueNotString string
  | ValueUndecodable string
  | MissingValue string
  | StoreFailed
  | KeyGenerationFailed
  | UnexpectedStatus nat
  | BadURL
  | BadJSON
  | NoAuthorizationServer
  | RandomFailed
  | NotDecrypted
  | NotFound auth_error
  | ProviderFailed string
  | NotSupported

section \<open>Nonces\<close>

record 's nonce_provider =
  GetDpopNonce :: "'s \<Rightarrow> (string \<times> bool, auth_error) res"
  SetDpopNonce :: "string \<Rightarrow> 's \<Rightarrow> 's \<times> (unit, auth_error) res"

text \<open>What is read after a nonce was set.\<close>

locale nonce_store =
  fixes P :: "'s nonce_provider"
  assumes set_Ok: "snd (SetDpopNonce P n s) = Ok ()"
    and get_set: "GetDpopNonce P (fst (SetDpopNonce P n s)) = Ok (n, True)"
begin

lemma SetDpopNonce_eq: "SetDpopNonce P n s = (fst (SetDpopNonce P n s), Ok ())"
  using set_Ok [of n s] by (cases "SetDpopNonce P n s") simp

end

text \<open>The provider of \<open>internal/oauthserver/oauth_server.go\<close> holds one nonce in memory, at first the empty one.\<close>

definition nonceProvider :: "string nonce_provider" where
  "nonceProvider = \<lparr>GetDpopNonce = (\<lambda>n. Ok (n, True)), SetDpopNonce = (\<lambda>nonce n. (nonce, Ok ()))\<rparr>"

interpretation memory_nonces: nonce_store nonceProvider
  by unfold_locales (simp_all add: nonceProvider_def)

section \<open>Claims\<close>

record dpop_claims =
  dc_ID :: string
  dc_IssuedAt :: int
  dc_Method :: string
  dc_URL :: string
  dc_AccessTokenHash :: string
  dc_Nonce :: string

record dpop_options =
  opt_HTU :: string
  opt_AccessToken :: string

type_synonym dpop_option = "dpop_options \<Rightarrow> dpop_options"

definition WithHTU :: "string \<Rightarrow> dpop_option" where
  "WithHTU htu opts = opts\<lparr>opt_HTU := htu\<rparr>"

definition WithAccessToken :: "string \<Rightarrow> dpop_option" where
  "WithAccessToken accessToken opts = opts\<lparr>opt_AccessToken := accessToken\<rparr>"

record ('k, 's) dpop_client =
  dp_key :: 'k
  dp_nonceProvider :: "'s nonce_provider"
  dp_opts :: dpop_options

definition NewDpopHttpClient ::
  "'k \<Rightarrow> 's nonce_provider \<Rightarrow> dpop_option list \<Rightarrow> ('k, 's) dpop_client"
where
  "NewDpopHttpClient key provider options =
     \<lparr>dp_key = key, dp_nonceProvider = provider,
      dp_opts = fold (\<lambda>option opts. option opts) options \<lparr>opt_HTU = '''', opt_AccessToken = ''''\<rparr>\<rparr>"

record 'k dpop_env =
  de_Signed :: "'k \<Rightarrow> dpop_claims \<Rightarrow> string option"
  de_sha256 :: "string \<Rightarrow> string"
  de_URL_String :: "url \<Rightarrow> string"
  de_URL_Parse :: "string \<Rightarrow> url option"
  de_json_Parse :: "string \<Rightarrow> json option"

definition hashAccessToken :: "'k dpop_env \<Rightarrow> string \<Rightarrow> string" where
  "hashAccessToken E accessToken = raw_url_encode (de_sha256 E accessToken)"

definition generateClaims ::
  "'k dpop_env \<Rightarrow> ('k, 's) dpop_client \<Rightarrow> string \<Rightarrow> int \<Rightarrow> http_request \<Rightarrow> 's
   \<Rightarrow> (dpop_claims, auth_error) res"
where
  "generateClaims E C uuid now req s =
     (let htu = (if opt_HTU (dp_opts C) \<noteq> '''' then opt_HTU (dp_opts C) else de_URL_String E (hq_URL req)) in
      bind_res (GetDpopNonce (dp_nonceProvider C) s) (\<lambda>(nonce, ok).
        Ok \<lparr>dc_ID = base64_encode uuid, dc_IssuedAt = now, dc_Method = hq_Method req, dc_URL = htu,
            dc_AccessTokenHash =
              (if opt_AccessToken (dp_opts C) \<noteq> '''' then hashAccessToken E (opt_AccessToken (dp_opts C)) else ''''),
            dc_Nonce = (if ok then nonce else '''')\<rparr>))"

definition dpop_sign ::
  "'k dpop_env \<Rightarrow> ('k, 's) dpop_client \<Rightarrow> string \<times> int \<Rightarrow> http_request \<Rightarrow> 's
   \<Rightarrow> (http_request, auth_error) res"
where
  "dpop_sign E C draw req s =
     bind_res (generateClaims E C (fst draw) (snd draw) req s) (\<lambda>claims.
     bind_res (ok_or SigningFailed (de_Signed E (dp_key C) claims)) (\<lambda>signedJWK.
       Ok (req\<lparr>hq_Header := hdr_Set ''DPoP'' signedJWK (hq_Header req)\<rparr>)))"

text \<open>
  \<open>isUseDPopNonceError\<close> reads the body of a response with status 400 and puts it back, except when it
  answers true.  A body that is no object, or whose \<open>error\<close> is another value, means false.
\<close>

definition use_nonce_body :: "'k dpop_env \<Rightarrow> string \<Rightarrow> bool" where
  "use_nonce_body E body =
     (case de_json_Parse E body of
        Some (JObj m) \<Rightarrow> fmlookup m ''error'' = Some (JStr ''use_dpop_nonce'')
      | _ \<Rightarrow> False)"

definition isUseDPopNonceError :: "'k dpop_env \<Rightarrow> http_response \<Rightarrow> http_response \<times> bool" where
  "isUseDPopNonceError E resp =
     (let wwwAuth = hdr_Get ''WWW-Authenticate'' (hs_Header resp) in
      if hs_StatusCode resp = 401 \<and> HasPrefix wwwAuth ''DPoP''
      then (resp, str_Contains wwwAuth ''error=\"use_dpop_nonce\"'')
      else if hs_StatusCode resp = 400
      then
        (if \<not> hs_ReadFails resp \<and> use_nonce_body E (hs_Body resp)
         then (resp\<lparr>hs_Body := ''''\<rparr>, True)
         else (resp\<lparr>hs_ReadFails := False\<rparr>, False))
      else (resp, False))"

text \<open>
  \<open>Do\<close>: the request is signed and sent; when the answer asks for a nonce, its nonce is stored and the
  request is signed and sent once more.  The bodies of the code's requests come from memory and can
  always be read.
\<close>

definition dpop_Do ::
  "'k dpop_env \<Rightarrow> ('w, auth_error) http_client \<Rightarrow> ('k, 's) dpop_client \<Rightarrow> string \<times> int \<Rightarrow> string \<times> int
   \<Rightarrow> http_request \<Rightarrow> 's \<times> 'w \<Rightarrow> ('s \<times> 'w) \<times> (http_response, auth_error) res"
where
  "dpop_Do E H C draw1 draw2 req0 sw =
     (let (s, w) = sw in
      (case dpop_sign E C draw1 req0 s of
         Err e \<Rightarrow> ((s, w), Err e)
       | Panic \<Rightarrow> ((s, w), Panic)
       | Ok signed \<Rightarrow>
           (let req = signed\<lparr>hq_Header :=
                  hdr_Set ''Authorization'' (''DPoP '' @ opt_AccessToken (dp_opts C)) (hq_Header signed)\<rparr> in
            (case H req w of
               (w1, Err e) \<Rightarrow> ((s, w1), Err e)
             | (w1, Panic) \<Rightarrow> ((s, w1), Panic)
             | (w1, Ok resp0) \<Rightarrow>
                 (let (resp, again) = isUseDPopNonceError E resp0 in
                  if \<not> again then ((s, w1), Ok resp)
                  else
                    (let nonce = hdr_Get ''DPoP-Nonce'' (hs_Header resp);
                         (s1, stored) =
                           (if nonce \<noteq> '''' then SetDpopNonce (dp_nonceProvider C) nonce s else (s, Ok ())) in
                     (case stored of
                        Err e \<Rightarrow> ((s1, w1), Err e)
                      | Panic \<Rightarrow> ((s1, w1), Panic)
                      | Ok _ \<Rightarrow>
                          (case dpop_sign E C draw2 req s1 of
                             Err e \<Rightarrow> ((s1, w1), Err e)
                           | Panic \<Rightarrow> ((s1, w1), Panic)
                           | Ok req2 \<Rightarrow> (case H req2 w1 of (w2, r) \<Rightarrow> ((s1, w2), r))))))))))"

section \<open>Helpers of the login: utils.go\<close>

definition generateNonce :: "string \<Rightarrow> string" where
  "generateNonce uuid = base64_encode uuid"

definition mapAuthServerURL :: "'k dpop_env \<Rightarrow> string \<Rightarrow> (string, auth_error) res" where
  "mapAuthServerURL E oldURL =
     bind_res (ok_or BadURL (de_URL_Parse E oldURL)) (\<lambda>newURL. Ok (de_URL_String E newURL))"

definition doesHandleBelongToDomain :: "string \<Rightarrow> string \<Rightarrow> bool" where
  "doesHandleBelongToDomain handle domain \<longleftrightarrow> HasSuffix handle (CHR ''.'' # domain) \<or> handle = domain"

section \<open>What is sent\<close>

text \<open>A client that keeps a log of the requests it sends.\<close>

definition logged :: "('w, auth_error) http_client \<Rightarrow> ('w \<times> http_request list, auth_error) http_client" where
  "logged H q wl = (case H q (fst wl) of (w', r) \<Rightarrow> ((w', snd wl @ [q]), r))"

lemma logged_simps [simp]: "logged H q (w, l) = ((fst (H q w), l @ [q]), snd (H q w))"
  by (simp add: logged_def split: prod.splits)

text \<open>\<open>proves E C q c\<close>: the request carries the claims \<open>c\<close>, signed with the key of the client.\<close>

definition proves :: "'k dpop_env \<Rightarrow> ('k, 's) dpop_client \<Rightarrow> http_request \<Rightarrow> dpop_claims \<Rightarrow> bool" where
  "proves E C q c \<longleftrightarrow> de_Signed E (dp_key C) c = Some (hdr_Get ''DPoP'' (hq_Header q))"

definition claim_URL :: "'k dpop_env \<Rightarrow> ('k, 's) dpop_client \<Rightarrow> http_request \<Rightarrow> string" where
  "claim_URL E C req = (if opt_HTU (dp_opts C) \<noteq> '''' then opt_HTU (dp_opts C) else de_URL_String E (hq_URL req))"

definition claim_hash :: "'k dpop_env \<Rightarrow> ('k, 's) dpop_client \<Rightarrow> string" where
  "claim_hash E C =
     (if opt_AccessToken (dp_opts C) = '''' then '''' else hashAccessToken E (opt_AccessToken (dp_opts C)))"

text \<open>\<open>attempt E C req q\<close>: \<open>q\<close> is the call \<open>req\<close> with the token and a proof for it.\<close>

definition attempt :: "'k dpop_env \<Rightarrow> ('k, 's) dpop_client \<Rightarrow> http_request \<Rightarrow> http_request \<Rightarrow> bool" where
  "attempt E C req q \<longleftrightarrow>
     hq_Method q = hq_Method req \<and> hq_URL q = hq_URL req \<and> hq_Body q = hq_Body req \<and>
     hdr_Get ''Authorization'' (hq_Header q) = ''DPoP '' @ opt_AccessToken (dp_opts C) \<and>
     (\<exists>c. proves E C q c \<and> dc_Method c = hq_Method req \<and> dc_URL c = claim_URL E C req \<and>
        dc_AccessTokenHash c = claim_hash E C)"

lemma canonical_names [simp]:
  "canonical ''DPoP'' = ''Dpop''" "canonical ''Authorization'' = ''Authorization''"
  "canonical ''DPoP-Nonce'' = ''Dpop-Nonce''" "canonical ''WWW-Authenticate'' = ''Www-Authenticate''"
  "canonical ''Content-Type'' = ''Content-Type''"
  by (simp_all add: canonical_def token_char_def ascii_letter_def to_upper_def to_lower_def char_of_def bit_Suc_0_iff)

lemma generateClaims_Ok:
  assumes "generateClaims E C uuid now req s = Ok c"
  shows "dc_Method c = hq_Method req \<and> dc_URL c = claim_URL E C req \<and> dc_AccessTokenHash c = claim_hash E C \<and>
    (\<exists>n ok. GetDpopNonce (dp_nonceProvider C) s = Ok (n, ok) \<and> dc_Nonce c = (if ok then n else ''''))"
proof (cases "GetDpopNonce (dp_nonceProvider C) s")
  case (Ok p)
  obtain n ok where p: "p = (n, ok)" by (cases p)
  have "c = \<lparr>dc_ID = base64_encode uuid, dc_IssuedAt = now, dc_Method = hq_Method req,
    dc_URL = claim_URL E C req, dc_AccessTokenHash = claim_hash E C, dc_Nonce = (if ok then n else '''')\<rparr>"
    using assms Ok p by (simp add: generateClaims_def Let_def claim_URL_def claim_hash_def split: if_splits)
  with Ok p show ?thesis by simp
qed (use assms in \<open>simp_all add: generateClaims_def Let_def\<close>)

text \<open>Signing keeps the call and proves the claims; the nonce of the provider is among them.\<close>

lemma dpop_sign_Ok:
  assumes "dpop_sign E C draw req s = Ok q"
  shows "hq_Method q = hq_Method req \<and> hq_URL q = hq_URL req \<and> hq_Body q = hq_Body req \<and>
    (\<forall>k. canonical k \<noteq> ''Dpop'' \<longrightarrow> hdr_Get k (hq_Header q) = hdr_Get k (hq_Header req)) \<and>
    (\<exists>c n ok. proves E C q c \<and> dc_Method c = hq_Method req \<and> dc_URL c = claim_URL E C req \<and>
       dc_AccessTokenHash c = claim_hash E C \<and> GetDpopNonce (dp_nonceProvider C) s = Ok (n, ok) \<and>
       dc_Nonce c = (if ok then n else ''''))"
proof -
  obtain c t where c: "generateClaims E C (fst draw) (snd draw) req s = Ok c"
    and t: "de_Signed E (dp_key C) c = Some t"
    and q: "q = req\<lparr>hq_Header := hdr_Set ''DPoP'' t (hq_Header req)\<rparr>"
    using assms by (auto simp: dpop_sign_def bind_res_Ok_iff split: option.splits)
  have "proves E C q c" using t by (simp add: proves_def q hdr_Get_Set)
  moreover obtain n ok where "GetDpopNonce (dp_nonceProvider C) s = Ok (n, ok)"
    "dc_Nonce c = (if ok then n else '''')" using generateClaims_Ok [OF c] by blast
  ultimately show ?thesis using generateClaims_Ok [OF c]
    by (intro conjI exI [of _ c] exI [of _ n] exI [of _ ok]) (simp_all add: q hdr_Get_Set)
qed

lemma attempt_signed:
  assumes "dpop_sign E C draw req s = Ok q"
  shows "attempt E C req (q\<lparr>hq_Header :=
    hdr_Set ''Authorization'' (''DPoP '' @ opt_AccessToken (dp_opts C)) (hq_Header q)\<rparr>)"
  using dpop_sign_Ok [OF assms] by (auto simp: attempt_def proves_def hdr_Get_Set)

lemma attempt_again:
  assumes "attempt E C req q" and "dpop_sign E C draw q s = Ok q2"
  shows "attempt E C req q2"
  using assms(1) dpop_sign_Ok [OF assms(2)] by (auto simp: attempt_def claim_URL_def)

text \<open>The nonce with which the answer to the first request asks for another one.\<close>

definition nonce_wanted ::
  "'k dpop_env \<Rightarrow> ('w, auth_error) http_client \<Rightarrow> http_request \<Rightarrow> 'w \<Rightarrow> string option"
where
  "nonce_wanted E H q w =
     (case snd (H q w) of
        Ok resp \<Rightarrow>
          (if snd (isUseDPopNonceError E resp) then Some (hdr_Get ''DPoP-Nonce'' (hs_Header resp)) else None)
      | _ \<Rightarrow> None)"

lemma isUse_Header [simp]: "hs_Header (fst (isUseDPopNonceError E resp)) = hs_Header resp"
  by (simp add: isUseDPopNonceError_def Let_def)

lemma isUse_StatusCode [simp]: "hs_StatusCode (fst (isUseDPopNonceError E resp)) = hs_StatusCode resp"
  by (simp add: isUseDPopNonceError_def Let_def)

text \<open>The four ways in which \<open>Do\<close> runs.\<close>

lemma dpop_Do_cases:
  assumes "dpop_Do E H C d1 d2 req (s, w) = ((s', w'), r)"
  obtains (unsigned) "s' = s" "w' = w" "\<forall>q. dpop_sign E C d1 req s \<noteq> Ok q" "\<forall>resp. r \<noteq> Ok resp"
  | (once) q where "attempt E C req q" "s' = s" "w' = fst (H q w)" "nonce_wanted E H q w = None"
      "\<exists>q0. dpop_sign E C d1 req s = Ok q0 \<and> hdr_Get ''DPoP'' (hq_Header q) = hdr_Get ''DPoP'' (hq_Header q0)"
      "r = (case snd (H q w) of Ok resp \<Rightarrow> Ok (fst (isUseDPopNonceError E resp)) | Err e \<Rightarrow> Err e | Panic \<Rightarrow> Panic)"
  | (stuck) q n where "attempt E C req q" "w' = fst (H q w)" "nonce_wanted E H q w = Some n"
      "\<forall>resp. r \<noteq> Ok resp" "s' = (if n = '''' then s else fst (SetDpopNonce (dp_nonceProvider C) n s))"
      "(n \<noteq> '''' \<and> snd (SetDpopNonce (dp_nonceProvider C) n s) \<noteq> Ok ()) \<or> (\<forall>q2. dpop_sign E C d2 q s' \<noteq> Ok q2)"
  | (twice) q n q2 where "attempt E C req q" "nonce_wanted E H q w = Some n"
      "s' = (if n = '''' then s else fst (SetDpopNonce (dp_nonceProvider C) n s))"
      "n \<noteq> '''' \<longrightarrow> snd (SetDpopNonce (dp_nonceProvider C) n s) = Ok ()"
      "dpop_sign E C d2 q s' = Ok q2" "w' = fst (H q2 (fst (H q w)))" "r = snd (H q2 (fst (H q w)))"
      "\<exists>q0. dpop_sign E C d1 req s = Ok q0 \<and> hdr_Get ''DPoP'' (hq_Header q) = hdr_Get ''DPoP'' (hq_Header q0)"
proof (cases "dpop_sign E C d1 req s")
  case signed: (Ok q0)
  let ?q = "q0\<lparr>hq_Header := hdr_Set ''Authorization'' (''DPoP '' @ opt_AccessToken (dp_opts C)) (hq_Header q0)\<rparr>"
  note a = attempt_signed [OF signed]
  have tok: "hdr_Get ''DPoP'' (hq_Header ?q) = hdr_Get ''DPoP'' (hq_Header q0)" by (simp add: hdr_Get_Set)
  show ?thesis
  proof (cases "nonce_wanted E H ?q w")
    case None
    show ?thesis
      by (rule once [OF a])
        (use assms signed None tok in \<open>auto simp: dpop_Do_def nonce_wanted_def Let_def split: prod.splits res.splits if_splits\<close>)
  next
    case (Some n)
    obtain resp where resp: "snd (H ?q w) = Ok resp" and again: "snd (isUseDPopNonceError E resp)"
      and n: "n = hdr_Get ''DPoP-Nonce'' (hs_Header resp)"
      using Some by (auto simp: nonce_wanted_def split: res.splits if_splits)
    obtain w1 where h: "H ?q w = (w1, Ok resp)" using resp by (cases "H ?q w") simp
    obtain resp' where i: "isUseDPopNonceError E resp = (resp', True)"
      using again by (cases "isUseDPopNonceError E resp") simp
    have hn: "hdr_Get ''DPoP-Nonce'' (hs_Header resp') = n"
      using n isUse_Header [of E resp] i by simp
    let ?set = "if n \<noteq> '''' then SetDpopNonce (dp_nonceProvider C) n s else (s, Ok ())"
    obtain s1 stored where st: "?set = (s1, stored)" by (cases ?set)
    have s1: "s1 = (if n = '''' then s else fst (SetDpopNonce (dp_nonceProvider C) n s))"
      and sn: "stored = (if n = '''' then Ok () else snd (SetDpopNonce (dp_nonceProvider C) n s))"
      using st by (auto split: if_splits)
    have run: "dpop_Do E H C d1 d2 req (s, w) =
      (case stored of Err e \<Rightarrow> ((s1, w1), Err e) | Panic \<Rightarrow> ((s1, w1), Panic)
       | Ok _ \<Rightarrow> (case dpop_sign E C d2 ?q s1 of Err e \<Rightarrow> ((s1, w1), Err e) | Panic \<Rightarrow> ((s1, w1), Panic)
           | Ok req2 \<Rightarrow> (case H req2 w1 of (w2, r) \<Rightarrow> ((s1, w2), r))))"
      using signed h i hn st by (simp add: dpop_Do_def Let_def del: append_Cons)
    show ?thesis
    proof (cases "\<exists>q2. stored = Ok () \<and> dpop_sign E C d2 ?q s1 = Ok q2")
      case True
      then obtain q2 where q2: "stored = Ok ()" "dpop_sign E C d2 ?q s1 = Ok q2" by blast
      have "s' = s1" "w' = fst (H q2 w1)" "r = snd (H q2 w1)"
        using assms run q2 by (auto split: prod.splits)
      then show ?thesis
        by (intro twice [OF a Some]) (use q2 s1 sn h signed tok in \<open>auto split: if_splits\<close>)
    next
      case False
      then have "s' = s1" "w' = w1" "\<forall>resp. r \<noteq> Ok resp"
        using assms run by (auto split: res.splits)
      then show ?thesis
        by (intro stuck [OF a _ Some]) (use False s1 sn h in \<open>auto split: if_splits\<close>)
    qed
  qed
next
  case (Err e)
  then have "s' = s" "w' = w" "r = Err e" using assms by (simp_all add: dpop_Do_def)
  then show ?thesis by (intro unsigned) (simp_all add: Err)
next
  case Panic
  then have "s' = s" "w' = w" "r = Panic" using assms by (simp_all add: dpop_Do_def)
  then show ?thesis by (intro unsigned) (simp_all add: Panic)
qed

lemma nonce_wanted_logged [simp]: "nonce_wanted E (logged H) q (w, l) = nonce_wanted E H q w"
  by (simp add: nonce_wanted_def)

lemma dpop_Do_sends:
  assumes "nonce_store (dp_nonceProvider C)"
    and "dpop_Do E (logged H) C d1 d2 req (s, (w, l)) = ((s', (w', l')), r)"
  shows "\<exists>reqs. l' = l @ reqs \<and> length reqs \<le> 2 \<and> (\<forall>q \<in> set reqs. attempt E C req q) \<and>
    (\<forall>q1 q2. reqs = [q1, q2] \<longrightarrow>
       (\<exists>n. nonce_wanted E H q1 w = Some n \<and>
          (n \<noteq> '''' \<longrightarrow> GetDpopNonce (dp_nonceProvider C) s' = Ok (n, True) \<and>
             (\<exists>c. proves E C q2 c \<and> dc_Nonce c = n))))"
  using assms(2)
proof (cases rule: dpop_Do_cases)
  case unsigned
  then show ?thesis by (intro exI [of _ "[]"]) simp
next
  case (once q)
  then show ?thesis by (intro exI [of _ "[q]"]) simp
next
  case (stuck q n)
  then show ?thesis by (intro exI [of _ "[q]"]) simp
next
  case (twice q n q2)
  have n: "GetDpopNonce (dp_nonceProvider C) s' = Ok (n, True)" if "n \<noteq> ''''"
    using that twice(3) nonce_store.get_set [OF assms(1)] by simp
  have "\<exists>c. proves E C q2 c \<and> dc_Nonce c = n" if "n \<noteq> ''''"
    using dpop_sign_Ok [OF twice(5)] n [OF that] by auto
  with twice n attempt_again [OF twice(1,5)] show ?thesis by (intro exI [of _ "[q, q2]"]) simp
qed

text \<open>
  A server that demands a nonce, for the witnesses: proofs are their nonces, and the answer to another
  proof is 401 with the nonce.
\<close>

definition plain_env :: "unit dpop_env" where
  "plain_env =
     \<lparr>de_Signed = (\<lambda>k c. Some (dc_Nonce c)), de_sha256 = (\<lambda>s. s), de_URL_String = u_Path,
      de_URL_Parse = (\<lambda>s. None), de_json_Parse = (\<lambda>s. None)\<rparr>"

definition strict_server :: "(unit, auth_error) http_client" where
  "strict_server q w =
     (w, Ok (if hdr_Get ''DPoP'' (hq_Header q) = ''n1''
             then \<lparr>hs_StatusCode = 200, hs_Header = fmempty, hs_Body = [], hs_ReadFails = False\<rparr>
             else \<lparr>hs_StatusCode = 401,
                   hs_Header = hdr_Set ''WWW-Authenticate'' ''DPoP error=\"use_dpop_nonce\"''
                     (hdr_Set ''DPoP-Nonce'' ''n1'' fmempty),
                   hs_Body = [], hs_ReadFails = False\<rparr>))"

definition plain_client :: "(unit, string) dpop_client" where
  "plain_client = NewDpopHttpClient () nonceProvider []"

definition plain_request :: http_request where
  "plain_request =
     \<lparr>hq_Method = ''GET'', hq_URL = \<lparr>u_Scheme = ''https'', u_Host = ''pds'', u_Path = ''/x'', u_RawQuery = ''''\<rparr>,
      hq_Header = fmempty, hq_Body = ''''\<rparr>"

lemma strict_wants:
  "nonce_wanted plain_env strict_server q w =
    (if hdr_Get ''DPoP'' (hq_Header q) = ''n1'' then None else Some ''n1'')"
  by (simp add: nonce_wanted_def strict_server_def isUseDPopNonceError_def hdr_Get_Set HasPrefix_def)

lemma plain_provider [simp]: "dp_nonceProvider plain_client = nonceProvider"
  by (simp add: plain_client_def NewDpopHttpClient_def)



text \<open>
  A server that demands the nonce \<open>n\<close>: it answers a request whose proof carries it, and asks every
  other one for \<open>n\<close>.  \<open>nonce_of\<close> reads the nonce out of a signed proof.
\<close>

definition demands :: "'k dpop_env \<Rightarrow> ('w, auth_error) http_client \<Rightarrow> string \<Rightarrow> (string \<Rightarrow> string) \<Rightarrow> bool" where
  "demands E H n nonce_of \<longleftrightarrow> n \<noteq> '''' \<and>
     (\<forall>q w. is_Ok (snd (H q w)) \<and>
       nonce_wanted E H q w = (if nonce_of (hdr_Get ''DPoP'' (hq_Header q)) = n then None else Some n))"

definition signing_laws :: "'k dpop_env \<Rightarrow> (string \<Rightarrow> string) \<Rightarrow> bool" where
  "signing_laws E nonce_of \<longleftrightarrow>
     (\<forall>k c. \<exists>t. de_Signed E k c = Some t \<and> nonce_of t = dc_Nonce c)"

lemma signed_nonce:
  "signing_laws E nonce_of \<Longrightarrow> proves E C q c \<Longrightarrow> nonce_of (hdr_Get ''DPoP'' (hq_Header q)) = dc_Nonce c"
  unfolding signing_laws_def proves_def by (metis option.inject)

lemma sign_succeeds:
  assumes "signing_laws E nonce_of" and "GetDpopNonce (dp_nonceProvider C) s = Ok x"
  shows "\<exists>q. dpop_sign E C d req s = Ok q"
proof -
  obtain c where c: "generateClaims E C (fst d) (snd d) req s = Ok c"
    using assms(2) by (cases x) (simp add: generateClaims_def Let_def)
  obtain t where "de_Signed E (dp_key C) c = Some t" using assms(1) unfolding signing_laws_def by blast
  with c show ?thesis by (simp add: dpop_sign_def)
qed

text \<open>What comes back is the answer to a request that was accepted.\<close>

lemma dpop_Do_reaches:
  assumes "nonce_store (dp_nonceProvider C)" and "signing_laws E nonce_of" and "demands E H n nonce_of"
    and "GetDpopNonce (dp_nonceProvider C) s = Ok (m, ok)"
    and "dpop_Do E (logged H) C d1 d2 req (s, (w, l)) = ((s', (w', l')), r)"
  shows "is_Ok r \<and>
    (if (if ok then m else '''') = n then s' = s \<and> length l' = length l + 1
     else GetDpopNonce (dp_nonceProvider C) s' = Ok (n, True) \<and> length l' = length l + 2) \<and>
    (\<exists>q v. nonce_wanted E H q v = None \<and>
       map_res hs_StatusCode (\<lambda>e. e) r = map_res hs_StatusCode (\<lambda>e. e) (snd (H q v)))"
proof -
  have sent: "nonce_of (hdr_Get ''DPoP'' (hq_Header q)) = (if ok then m else '''')"
    if signed: "\<exists>q0. dpop_sign E C d1 req s = Ok q0 \<and> hdr_Get ''DPoP'' (hq_Header q) = hdr_Get ''DPoP'' (hq_Header q0)" for q :: http_request
  proof -
    obtain q0 where q0: "dpop_sign E C d1 req s = Ok q0"
      "hdr_Get ''DPoP'' (hq_Header q) = hdr_Get ''DPoP'' (hq_Header q0)" using signed by blast
    obtain c where "proves E C q0 c" "dc_Nonce c = (if ok then m else '''')"
      using dpop_sign_Ok [OF q0(1)] assms(4) by auto
    then show ?thesis using signed_nonce [OF assms(2) \<open>proves E C q0 c\<close>] q0(2) by simp
  qed
  have n: "n \<noteq> ''''" using assms(3) by (simp add: demands_def)
  have wanted: "nonce_wanted E H q w = Some k \<Longrightarrow> k = n" for q w k
    using assms(3) by (auto simp: demands_def split: if_splits)
  from assms(5) show ?thesis
  proof (cases rule: dpop_Do_cases)
    case unsigned
    then show ?thesis using sign_succeeds [OF assms(2,4)] by blast
  next
    case (once q)
    have "is_Ok (snd (H q w))" using assms(3) by (simp add: demands_def)
    then obtain resp where resp: "snd (H q w) = Ok resp" by (auto simp: is_Ok_iff)
    have "nonce_of (hdr_Get ''DPoP'' (hq_Header q)) = n"
      using once(4) assms(3) by (auto simp: demands_def split: if_splits)
    moreover have "\<exists>q v. nonce_wanted E H q v = None \<and>
        map_res hs_StatusCode (\<lambda>e. e) r = map_res hs_StatusCode (\<lambda>e. e) (snd (H q v))"
      using once(4) resp by (intro exI [of _ q] exI [of _ w]) (simp add: once(6))
    ultimately show ?thesis using once(2,3) resp sent [OF once(5)] by (simp add: once(6))
  next
    case (stuck q k)
    then have "GetDpopNonce (dp_nonceProvider C) s' = Ok (k, True)"
      using wanted [of q w k] n nonce_store.get_set [OF assms(1)] by simp
    from sign_succeeds [OF assms(2) this] stuck(6) nonce_store.set_Ok [OF assms(1)] show ?thesis by blast
  next
    case (twice q k q2)
    then have "nonce_of (hdr_Get ''DPoP'' (hq_Header q)) \<noteq> n"
      using assms(3) by (auto simp: demands_def split: if_splits)
    moreover have "GetDpopNonce (dp_nonceProvider C) s' = Ok (n, True)"
      using twice(2,3) wanted [of q w k] n nonce_store.get_set [OF assms(1)] by simp
    moreover have "nonce_wanted E H q2 (fst (H q w)) = None"
    proof -
      obtain c where c: "proves E C q2 c" "dc_Nonce c = n"
        using dpop_sign_Ok [OF twice(5)] \<open>GetDpopNonce _ s' = Ok (n, True)\<close> by auto
      then show ?thesis using signed_nonce [OF assms(2) c(1)] assms(3) by (simp add: demands_def)
    qed
    moreover have "r = snd (H q2 (fst (H q w)))" "l' = l @ [q, q2]" using twice(6,7) by simp_all
    moreover have "is_Ok r" using assms(3) twice(7) by (simp add: demands_def)
    ultimately show ?thesis using sent [OF twice(8)] by (auto intro!: exI [of _ q2])
  qed
qed



end
