(* ===== verification/AuthSession.thy ===== *)
theory AuthSession
  imports Dpop
begin

text \<open>
  The session of a logged-in user: \<open>internal/auth/session.go\<close>.

  A session is a \<open>gorilla/sessions\<close> value: a map from names to values that the store keeps in cookies.  The
  store, the serialisation of keys (\<open>crypto/x509\<close>) and of identities are parameters; JSON text is printed
  and parsed by parameters, on documents it is modelled.
\<close>

section \<open>Values\<close>

datatype 'f session_value = VBytes string | VString string | VOther 'f

record 'f gsession =
  gs_Values :: "(string, 'f session_value) fmap"

text \<open>
  The store: \<open>New\<close> and \<open>Get\<close> give a session even when they give an error; \<open>Save\<close> puts the cookie into
  the response, from where the browser has it: \<open>'j\<close> is the browser's cookies.
\<close>

record ('j, 'f) session_store =
  st_New :: "string \<Rightarrow> 'j \<Rightarrow> 'f gsession \<times> auth_error option"
  st_Get :: "string \<Rightarrow> 'j \<Rightarrow> 'f gsession \<times> auth_error option"
  st_Save :: "string \<Rightarrow> 'f gsession \<Rightarrow> 'j \<Rightarrow> 'j \<times> (unit, auth_error) res"
  st_AddFlash :: "'f session_value \<Rightarrow> 'f gsession \<Rightarrow> 'f gsession"
  st_Flashes :: "'f gsession \<Rightarrow> 'f gsession \<times> 'f session_value list"

definition SessionKeyDpop :: string where "SessionKeyDpop = ''dpop-session''"
definition SessionKeyAuth :: string where "SessionKeyAuth = ''auth-session''"

definition cKeySessionKey :: string where "cKeySessionKey = ''key''"
definition cNonceSessionKey :: string where "cNonceSessionKey = ''nonce''"
definition cTokenInfoSessionKey :: string where "cTokenInfoSessionKey = ''token_info''"
definition cIssuerSessionKey :: string where "cIssuerSessionKey = ''issuer''"
definition cIdentitySessionKey :: string where "cIdentitySessionKey = ''identity''"
definition cPDSURLSessionKey :: string where "cPDSURLSessionKey = ''pds_url''"

lemmas session_keys = cKeySessionKey_def cNonceSessionKey_def cTokenInfoSessionKey_def
  cIssuerSessionKey_def cIdentitySessionKey_def cPDSURLSessionKey_def

record token_response =
  AccessToken :: string
  RefreshToken :: string
  Scope :: string
  TokenType :: string
  ExpiresIn :: int

fun dec_int :: "json option \<Rightarrow> (int, decode_error) res" where
  "dec_int None = Ok 0"
| "dec_int (Some JNull) = Ok 0"
| "dec_int (Some (JNum q)) = (if of_int \<lfloor>q\<rfloor> = q then Ok \<lfloor>q\<rfloor> else Err TypeMismatch)"
| "dec_int (Some _) = Err TypeMismatch"

definition enc_token_response :: "token_response \<Rightarrow> json" where
  "enc_token_response t =
     JObj (fmap_of_list
       [(''access_token'', JStr (AccessToken t)), (''refresh_token'', JStr (RefreshToken t)),
        (''scope'', JStr (Scope t)), (''token_type'', JStr (TokenType t)),
        (''expires_in'', JNum (of_int (ExpiresIn t)))])"

definition dec_token_response :: "json option \<Rightarrow> (token_response, decode_error) res" where
  "dec_token_response b =
     bind_res (ok_or NotAnObject (as_object b)) (\<lambda>m.
     bind_res (dec_field m ''access_token'') (\<lambda>a.
     bind_res (dec_field m ''refresh_token'') (\<lambda>r.
     bind_res (dec_field m ''scope'') (\<lambda>sc.
     bind_res (dec_field m ''token_type'') (\<lambda>t.
     bind_res (dec_int (fmlookup m ''expires_in'')) (\<lambda>e.
       Ok \<lparr>AccessToken = a, RefreshToken = r, Scope = sc, TokenType = t, ExpiresIn = e\<rparr>))))))"

lemma dec_enc_token_response [simp]: "dec_token_response (Some (enc_token_response t)) = Ok t"
  by (simp add: dec_token_response_def enc_token_response_def dec_field_def)

text \<open>The codecs of the session: keys, identities and JSON text.\<close>

record ('k, 'i) session_codec =
  sc_MarshalECPrivateKey :: "'k \<Rightarrow> string option"
  sc_ParseECPrivateKey :: "string \<Rightarrow> 'k option"
  sc_MarshalIdentity :: "'i \<Rightarrow> string option"
  sc_UnmarshalIdentity :: "string \<Rightarrow> 'i option"
  sc_json_Text :: "json \<Rightarrow> string"
  sc_json_Parse :: "string \<Rightarrow> json option"

definition codec_laws :: "('k, 'i) session_codec \<Rightarrow> bool" where
  "codec_laws D \<longleftrightarrow>
     (\<forall>k b. sc_MarshalECPrivateKey D k = Some b \<longrightarrow> sc_ParseECPrivateKey D b = Some k) \<and>
     (\<forall>i b. sc_MarshalIdentity D i = Some b \<longrightarrow> sc_UnmarshalIdentity D b = Some i) \<and>
     (\<forall>j. sc_json_Parse D (sc_json_Text D j) = Some j)"

section \<open>Reading and writing values\<close>

definition put_value :: "string \<Rightarrow> 'f session_value \<Rightarrow> 'f gsession \<Rightarrow> 'f gsession" where
  "put_value k v s = s\<lparr>gs_Values := fmupd k v (gs_Values s)\<rparr>"

definition get_bytes :: "string \<Rightarrow> 'f gsession \<Rightarrow> (string option, auth_error) res" where
  "get_bytes k s =
     (case fmlookup (gs_Values s) k of
        None \<Rightarrow> Ok None
      | Some (VBytes b) \<Rightarrow> Ok (Some b)
      | Some _ \<Rightarrow> Err (ValueNotBytes k))"

text \<open>A getter of a string gives the string and whether it was found.\<close>

definition get_string :: "string \<Rightarrow> 'f gsession \<Rightarrow> (string \<times> bool, auth_error) res" where
  "get_string k s =
     (case fmlookup (gs_Values s) k of
        None \<Rightarrow> Ok ('''', False)
      | Some (VString v) \<Rightarrow> Ok (v, True)
      | Some _ \<Rightarrow> Err (ValueNotString k))"

text \<open>A getter that decodes gives \<open>None\<close> when the value is not there.\<close>

definition get_decoded ::
  "string \<Rightarrow> (string \<Rightarrow> 'a option) \<Rightarrow> 'f gsession \<Rightarrow> ('a option, auth_error) res"
where
  "get_decoded k dec s =
     bind_res (get_bytes k s) (\<lambda>b.
       (case b of
          None \<Rightarrow> Ok None
        | Some b \<Rightarrow> bind_res (ok_or (ValueUndecodable k) (dec b)) (\<lambda>v. Ok (Some v))))"

definition SetDpopKey ::
  "('k, 'i) session_codec \<Rightarrow> 'k \<Rightarrow> 'f gsession \<Rightarrow> ('f gsession, auth_error) res"
where
  "SetDpopKey D key s =
     bind_res (ok_or (ValueUndecodable cKeySessionKey) (sc_MarshalECPrivateKey D key)) (\<lambda>keyBytes.
       Ok (put_value cKeySessionKey (VBytes keyBytes) s))"

definition GetDpopKey :: "('k, 'i) session_codec \<Rightarrow> 'f gsession \<Rightarrow> ('k option, auth_error) res" where
  "GetDpopKey D = get_decoded cKeySessionKey (sc_ParseECPrivateKey D)"

definition SetTokenInfo :: "('k, 'i) session_codec \<Rightarrow> token_response \<Rightarrow> 'f gsession \<Rightarrow> 'f gsession" where
  "SetTokenInfo D tokenResp s =
     put_value cTokenInfoSessionKey (VBytes (sc_json_Text D (enc_token_response tokenResp))) s"

definition decode_token :: "('k, 'i) session_codec \<Rightarrow> string \<Rightarrow> token_response option" where
  "decode_token D b =
     (case sc_json_Parse D b of
        None \<Rightarrow> None
      | Some j \<Rightarrow> (case dec_token_response (Some j) of Ok t \<Rightarrow> Some t | _ \<Rightarrow> None))"

definition GetTokenInfo :: "('k, 'i) session_codec \<Rightarrow> 'f gsession \<Rightarrow> (token_response option, auth_error) res" where
  "GetTokenInfo D = get_decoded cTokenInfoSessionKey (decode_token D)"

definition SetIssuer :: "string \<Rightarrow> 'f gsession \<Rightarrow> 'f gsession" where
  "SetIssuer issuer s = put_value cIssuerSessionKey (VString issuer) s"

definition GetIssuer :: "'f gsession \<Rightarrow> (string \<times> bool, auth_error) res" where
  "GetIssuer = get_string cIssuerSessionKey"

definition SetPDSURL :: "string \<Rightarrow> 'f gsession \<Rightarrow> 'f gsession" where
  "SetPDSURL pdsURL s = put_value cPDSURLSessionKey (VString pdsURL) s"

definition GetPDSURL :: "'f gsession \<Rightarrow> (string \<times> bool, auth_error) res" where
  "GetPDSURL = get_string cPDSURLSessionKey"

definition SetIdentity ::
  "('k, 'i) session_codec \<Rightarrow> 'i \<Rightarrow> 'f gsession \<Rightarrow> ('f gsession, auth_error) res"
where
  "SetIdentity D identity s =
     bind_res (ok_or (ValueUndecodable cIdentitySessionKey) (sc_MarshalIdentity D identity)) (\<lambda>b.
       Ok (put_value cIdentitySessionKey (VBytes b) s))"

definition GetIdentity :: "('k, 'i) session_codec \<Rightarrow> 'f gsession \<Rightarrow> ('i option, auth_error) res" where
  "GetIdentity D = get_decoded cIdentitySessionKey (sc_UnmarshalIdentity D)"

definition cookie_nonces :: "'f gsession nonce_provider" where
  "cookie_nonces =
     \<lparr>GetDpopNonce = get_string cNonceSessionKey,
      SetDpopNonce = (\<lambda>nonce s. (put_value cNonceSessionKey (VString nonce) s, Ok ()))\<rparr>"

interpretation cookie_nonces: nonce_store cookie_nonces
  by unfold_locales (simp_all add: cookie_nonces_def get_string_def put_value_def)

section \<open>Opening a session\<close>

text \<open>\<open>key\<close> is the freshly generated one, \<open>None\<close> when the generation fails.\<close>

definition newCookieSession ::
  "('k, 'i) session_codec \<Rightarrow> ('j, 'f) session_store \<Rightarrow> 'k option \<Rightarrow> 'i \<Rightarrow> string \<Rightarrow> 'j
   \<Rightarrow> ('f gsession, auth_error) res"
where
  "newCookieSession D T key identity pdsURL jar =
     (case st_New T SessionKeyDpop jar of
        (session, Some e) \<Rightarrow> Err e
      | (session, None) \<Rightarrow>
          bind_res (ok_or KeyGenerationFailed key) (\<lambda>key.
          bind_res (SetDpopKey D key session) (\<lambda>s.
          bind_res (SetIdentity D identity s) (\<lambda>s.
            Ok (SetPDSURL pdsURL s)))))"

definition getCookieSession :: "('j, 'f) session_store \<Rightarrow> 'j \<Rightarrow> ('f gsession, auth_error) res" where
  "getCookieSession T jar =
     (case st_Get T SessionKeyDpop jar of
        (session, Some e) \<Rightarrow> Err e
      | (session, None) \<Rightarrow>
          (if fmlookup (gs_Values session) cKeySessionKey = None then Err (MissingValue cKeySessionKey)
           else Ok session))"

section \<open>The slots of a session\<close>

text \<open>
  A slot of a session: a name, and what is read back under it after a write; other names do not matter.
\<close>

locale session_slot =
  fixes slot :: string and get :: "'f gsession \<Rightarrow> ('r, auth_error) res"
    and put :: "'v \<Rightarrow> 'f gsession \<Rightarrow> ('f gsession, auth_error) res" and seen :: "'v \<Rightarrow> 'r"
  assumes put_value: "put v s = Ok s' \<Longrightarrow> \<exists>x. s' = put_value slot x s"
    and get_put: "put v s = Ok s' \<Longrightarrow> get s' = Ok (seen v)"
    and get_value: "fmlookup (gs_Values s) slot = fmlookup (gs_Values t) slot \<Longrightarrow> get s = get t"
begin

lemma get_put_other: "k \<noteq> slot \<Longrightarrow> get (put_value k x s) = get s"
  by (rule get_value) (simp add: put_value_def)

lemma put_other: "put v s = Ok s' \<Longrightarrow> k \<noteq> slot \<Longrightarrow> fmlookup (gs_Values s') k = fmlookup (gs_Values s) k"
  using put_value [of v s s'] by (auto simp: put_value_def)

end

lemma get_bytes_put [simp]: "get_bytes k (put_value k (VBytes b) s) = Ok (Some b)"
  by (simp add: get_bytes_def put_value_def)

lemma get_string_put [simp]: "get_string k (put_value k (VString v) s) = Ok (v, True)"
  by (simp add: get_string_def put_value_def)

interpretation issuer: session_slot cIssuerSessionKey GetIssuer "\<lambda>v s. Ok (SetIssuer v s)" "\<lambda>v. (v, True)"
  by unfold_locales (auto simp: GetIssuer_def SetIssuer_def get_string_def put_value_def)

interpretation pds_url: session_slot cPDSURLSessionKey GetPDSURL "\<lambda>v s. Ok (SetPDSURL v s)" "\<lambda>v. (v, True)"
  by unfold_locales (auto simp: GetPDSURL_def SetPDSURL_def get_string_def put_value_def)

lemma get_decoded_put [simp]:
  "dec b = Some v \<Longrightarrow> get_decoded k dec (put_value k (VBytes b) s) = Ok (Some v)"
  by (simp add: get_decoded_def)

lemma get_decoded_cong:
  "fmlookup (gs_Values s) k = fmlookup (gs_Values t) k \<Longrightarrow> get_decoded k dec s = get_decoded k dec t"
  by (simp add: get_decoded_def get_bytes_def)

lemma key_slot:
  "codec_laws D \<Longrightarrow> session_slot cKeySessionKey (GetDpopKey D) (SetDpopKey D) Some"
  by unfold_locales
    (auto simp: GetDpopKey_def SetDpopKey_def codec_laws_def elim!: bind_res_OkE intro: get_decoded_cong)

lemma identity_slot:
  "codec_laws D \<Longrightarrow> session_slot cIdentitySessionKey (GetIdentity D) (SetIdentity D) Some"
  by unfold_locales
    (auto simp: GetIdentity_def SetIdentity_def codec_laws_def elim!: bind_res_OkE intro: get_decoded_cong)

lemma token_slot:
  "codec_laws D \<Longrightarrow> session_slot cTokenInfoSessionKey (GetTokenInfo D) (\<lambda>t s. Ok (SetTokenInfo D t s)) Some"
  by unfold_locales
    (auto simp: GetTokenInfo_def SetTokenInfo_def codec_laws_def decode_token_def intro: get_decoded_cong)

section \<open>Sessions under a client\<close>

text \<open>What a client does to the session that holds its nonces: it writes nonces.\<close>

definition same_but_nonce :: "'f gsession \<Rightarrow> 'f gsession \<Rightarrow> bool" where
  "same_but_nonce s t \<longleftrightarrow> (\<forall>k. k \<noteq> cNonceSessionKey \<longrightarrow> fmlookup (gs_Values t) k = fmlookup (gs_Values s) k)"

lemma same_but_nonce_refl [simp]: "same_but_nonce s s"
  by (simp add: same_but_nonce_def)

lemma same_but_nonce_trans: "same_but_nonce s t \<Longrightarrow> same_but_nonce t u \<Longrightarrow> same_but_nonce s u"
  by (simp add: same_but_nonce_def)

lemma same_but_nonce_set [simp]: "same_but_nonce s (fst (SetDpopNonce cookie_nonces n s))"
  by (simp add: same_but_nonce_def cookie_nonces_def put_value_def)

lemma dpop_Do_session:
  assumes "dp_nonceProvider C = cookie_nonces"
  shows "same_but_nonce (fst sw) (fst (fst (dpop_Do E H C d1 d2 req sw)))"
proof -
  obtain s w where sw: "sw = (s, w)" by (cases sw)
  obtain s' w' r where run: "dpop_Do E H C d1 d2 req (s, w) = ((s', w'), r)" by (metis prod.collapse)
  then have "same_but_nonce s s'"
    by (cases rule: dpop_Do_cases) (auto simp: assms)
  with sw run show ?thesis by simp
qed

text \<open>The getters other than that of the nonce agree on such sessions.\<close>

lemma getters_frame:
  assumes "same_but_nonce s t"
  shows "GetDpopKey D t = GetDpopKey D s" "GetTokenInfo D t = GetTokenInfo D s" "GetIdentity D t = GetIdentity D s"
    "GetPDSURL t = GetPDSURL s" "GetIssuer t = GetIssuer s"
  using assms
  by (auto simp: same_but_nonce_def GetDpopKey_def GetTokenInfo_def GetIdentity_def GetPDSURL_def GetIssuer_def
      get_string_def session_keys intro!: get_decoded_cong)

lemma getters_put_other:
  "k \<noteq> cKeySessionKey \<Longrightarrow> GetDpopKey D (put_value k x s) = GetDpopKey D s"
  "k \<noteq> cTokenInfoSessionKey \<Longrightarrow> GetTokenInfo D (put_value k x s) = GetTokenInfo D s"
  "k \<noteq> cIdentitySessionKey \<Longrightarrow> GetIdentity D (put_value k x s) = GetIdentity D s"
  "k \<noteq> cPDSURLSessionKey \<Longrightarrow> GetPDSURL (put_value k x s) = GetPDSURL s"
  "k \<noteq> cIssuerSessionKey \<Longrightarrow> GetIssuer (put_value k x s) = GetIssuer s"
  by (auto simp: put_value_def GetDpopKey_def GetTokenInfo_def GetIdentity_def GetPDSURL_def GetIssuer_def
      get_string_def intro!: get_decoded_cong)

lemma session_keys_distinct [simp]:
  "cPDSURLSessionKey \<noteq> cKeySessionKey" "cPDSURLSessionKey \<noteq> cIdentitySessionKey"
  "cPDSURLSessionKey \<noteq> cTokenInfoSessionKey" "cPDSURLSessionKey \<noteq> cIssuerSessionKey"
  "cIdentitySessionKey \<noteq> cKeySessionKey" "cIssuerSessionKey \<noteq> cKeySessionKey"
  "cIssuerSessionKey \<noteq> cTokenInfoSessionKey" "cIssuerSessionKey \<noteq> cIdentitySessionKey"
  "cIssuerSessionKey \<noteq> cPDSURLSessionKey" "cTokenInfoSessionKey \<noteq> cKeySessionKey"
  "cTokenInfoSessionKey \<noteq> cIdentitySessionKey" "cTokenInfoSessionKey \<noteq> cPDSURLSessionKey"
  "cNonceSessionKey \<noteq> cKeySessionKey" "cTokenInfoSessionKey \<noteq> cIssuerSessionKey"
  by (simp_all add: session_keys)

text \<open>A new session holds the key, the identity and the PDS that it was made for.\<close>

lemma newCookieSession_Ok:
  assumes "codec_laws D" and "newCookieSession D T key i pds jar = Ok s"
  shows "\<exists>k. key = Some k \<and> GetDpopKey D s = Ok (Some k) \<and> GetIdentity D s = Ok (Some i) \<and>
    GetPDSURL s = Ok (pds, True) \<and> cKeySessionKey |\<in>| fmdom (gs_Values s)"
proof -
  obtain s0 k s1 s2 where k: "key = Some k" and s1: "SetDpopKey D k s0 = Ok s1"
    and s2: "SetIdentity D i s1 = Ok s2" and s: "s = SetPDSURL pds s2"
    using assms(2) by (auto simp: newCookieSession_def bind_res_Ok_iff split: prod.splits option.splits)
  note key = key_slot [OF assms(1)] and ident = identity_slot [OF assms(1)]
  have "GetDpopKey D s1 = Ok (Some k)" by (rule session_slot.get_put [OF key s1])
  moreover have "GetIdentity D s2 = Ok (Some i)" by (rule session_slot.get_put [OF ident s2])
  moreover have "fmlookup (gs_Values s1) cKeySessionKey \<noteq> None"
    using session_slot.put_value [OF key s1] by (auto simp: put_value_def)
  moreover obtain x where "s2 = put_value cIdentitySessionKey x s1"
    using session_slot.put_value [OF ident s2] by auto
  moreover have "cKeySessionKey |\<in>| fmdom (gs_Values s)" if "fmlookup (gs_Values s1) cKeySessionKey \<noteq> None"
    using that by (auto simp: s SetPDSURL_def calculation(4) put_value_def fmlookup_dom_iff)
  ultimately show ?thesis
    using k by (simp add: s SetPDSURL_def getters_put_other GetPDSURL_def)
qed

end
