(* ===== verification/OAuthClient.thy ===== *)
theory OAuthClient
  imports AuthSession "HOL-Library.List_Lexorder" "HOL-Library.Char_ord"
begin

text \<open>
  The client of the authorization server of a user's PDS: \<open>internal/auth/oauth_client.go\<close>.

  The state of a call is the session that holds the nonce and the world behind the network.  Signing the
  client assertion, the PKCE challenge and what is read out of an identity are parameters; what the code
  draws at random or reads from the clock (in seconds) is in \<open>oauth_draws\<close>.
\<close>

section \<open>Form values\<close>

definition hex_digit :: "nat \<Rightarrow> char" where
  "hex_digit n = (if n < 10 then char_of (48 + n) else char_of (55 + n))"

definition unreserved :: "char \<Rightarrow> bool" where
  "unreserved c \<longleftrightarrow> ascii_letter 65 c \<or> ascii_letter 97 c \<or> (48 \<le> (of_char c :: nat) \<and> of_char c < (58 :: nat)) \<or>
     c \<in> set ''-_.~''"

definition query_escape :: "string \<Rightarrow> string" where
  "query_escape s =
     concat (map (\<lambda>c. if unreserved c then [c] else if c = CHR '' '' then ''+''
       else [CHR ''%'', hex_digit (byte c div 16), hex_digit (byte c mod 16)]) s)"

fun join_amp :: "string list \<Rightarrow> string" where
  "join_amp [] = ''''"
| "join_amp [x] = x"
| "join_amp (x # xs) = x @ ''&'' @ join_amp xs"

text \<open>\<open>url.Values\<close> with one value for each name; they are printed in the order of the names.\<close>

type_synonym url_values = "(string, string) fmap"

definition values_Encode :: "url_values \<Rightarrow> string" where
  "values_Encode m =
     join_amp (map (\<lambda>k. query_escape k @ ''='' @ query_escape (the (fmlookup m k)))
       (sorted_list_of_fset (fmdom m)))"

section \<open>The client\<close>

record 'jwk client_metadata =
  ClientName :: string
  ClientId :: string
  ClientUri :: string
  ApplicationType :: string
  GrantTypes :: "string list"
  cm_Scope :: string
  ResponseTypes :: "string list"
  RedirectUris :: "string list"
  TokenEndpointAuthMethod :: string
  TokenEndpointAuthSigner :: string
  DpopBoundAccessTokens :: bool
  Jwks :: "'jwk list"

record assertion_claims =
  ac_Issuer :: string
  ac_Subject :: string
  ac_Audience :: "string list"
  ac_Expiry :: int
  ac_IssuedAt :: int
  ac_ID :: string

record ('k, 'i, 'jwk, 'w) oauth_env =
  oe_dpop :: "'k dpop_env"
  oe_Do :: "('w, auth_error) http_client"
  oe_Get :: "string \<Rightarrow> 'w \<Rightarrow> 'w \<times> (http_response, auth_error) res"
  oe_PDSEndpoint :: "'i \<Rightarrow> string"
  oe_Handle :: "'i \<Rightarrow> string"
  oe_Public :: "'jwk \<Rightarrow> 'jwk"
  oe_SignAssertion :: "'jwk \<Rightarrow> assertion_claims \<Rightarrow> string option"
  oe_S256Challenge :: "string \<Rightarrow> string"

record 'jwk oauth_client =
  oc_clientId :: string
  oc_clientUri :: string
  oc_redirectUri :: string
  oc_secretJwk :: 'jwk

record oauth_draws =
  od_verifier :: string
  od_stateBytes :: "string option"
  od_assertionID :: string
  od_now1 :: int
  od_now2 :: int
  od_dpop1 :: "string \<times> int"
  od_dpop2 :: "string \<times> int"

text \<open>\<open>secret\<close> is what the JSON of the key decodes to.\<close>

definition NewOAuthClient ::
  "string \<Rightarrow> string \<Rightarrow> string \<Rightarrow> 'jwk option \<Rightarrow> ('jwk oauth_client, auth_error) res"
where
  "NewOAuthClient clientId clientUri redirectUri secret =
     bind_res (ok_or BadJSON secret) (\<lambda>secretJwk.
       Ok \<lparr>oc_clientId = clientId, oc_clientUri = clientUri, oc_redirectUri = redirectUri,
           oc_secretJwk = secretJwk\<rparr>)"

definition ClientMetadata ::
  "('k, 'i, 'jwk, 'w) oauth_env \<Rightarrow> 'jwk oauth_client \<Rightarrow> 'jwk client_metadata"
where
  "ClientMetadata E c =
     \<lparr>ClientName = ''Habitat'', ClientId = oc_clientId c, ClientUri = oc_clientUri c,
      ApplicationType = ''web'', GrantTypes = [''authorization_code'', ''refresh_token''],
      cm_Scope = ''atproto transition:generic'', ResponseTypes = [''code''],
      RedirectUris = [oc_redirectUri c], TokenEndpointAuthMethod = ''private_key_jwt'',
      TokenEndpointAuthSigner = ''ES256'', DpopBoundAccessTokens = True,
      Jwks = [oe_Public E (oc_secretJwk c)]\<rparr>"

record authorize_state =
  as_Verifier :: string
  as_State :: string
  as_TokenEndpoint :: string

definition assertion_type :: string where
  "assertion_type = ''urn:ietf:params:oauth:client-assertion-type:jwt-bearer''"

definition getClientAssertion ::
  "('k, 'i, 'jwk, 'w) oauth_env \<Rightarrow> 'jwk oauth_client \<Rightarrow> string \<Rightarrow> oauth_draws \<Rightarrow> (string, auth_error) res"
where
  "getClientAssertion E c audience D =
     ok_or SigningFailed (oe_SignAssertion E (oc_secretJwk c)
       \<lparr>ac_Issuer = oc_clientId c, ac_Subject = oc_clientId c, ac_Audience = [audience],
        ac_Expiry = od_now1 D + 5 * 60, ac_IssuedAt = od_now2 D,
        ac_ID = generateNonce (od_assertionID D)\<rparr>)"

section \<open>Finding the authorization server\<close>

fun dec_string_elem :: "json \<Rightarrow> (string, decode_error) res" where
  "dec_string_elem j = dec_string (Some j)"

fun dec_strings :: "json option \<Rightarrow> (string list, decode_error) res" where
  "dec_strings None = Ok []"
| "dec_strings (Some JNull) = Ok []"
| "dec_strings (Some (JArr xs)) =
     (if list_all (\<lambda>x. is_Ok (dec_string_elem x)) xs then Ok (map (\<lambda>x. the_Ok (dec_string_elem x)) xs)
      else Err TypeMismatch)"
| "dec_strings (Some _) = Err TypeMismatch"

definition decode_body ::
  "'k dpop_env \<Rightarrow> ((string, json) fmap \<Rightarrow> ('a, decode_error) res) \<Rightarrow> http_response \<Rightarrow> ('a, auth_error) res"
where
  "decode_body E dec resp =
     bind_res (ok_or BadJSON (de_json_Parse E (hs_Body resp))) (\<lambda>j.
       map_err (\<lambda>_. BadJSON) (bind_res (ok_or NotAnObject (as_object (Some j))) dec))"

definition fetchOAuthProtectedResource ::
  "('k, 'i, 'jwk, 'w) oauth_env \<Rightarrow> 'i \<Rightarrow> 'w \<Rightarrow> 'w \<times> (string list, auth_error) res"
where
  "fetchOAuthProtectedResource E i w =
     sbind (w, mapAuthServerURL (oe_dpop E) (oe_PDSEndpoint E i @ ''/.well-known/oauth-protected-resource'')) (\<lambda>url w.
     sbind (oe_Get E url w) (\<lambda>resp w.
       (w, if hs_StatusCode resp \<noteq> 200 then Err (UnexpectedStatus (hs_StatusCode resp))
           else decode_body (oe_dpop E) (\<lambda>m. dec_strings (fmlookup m ''authorization_servers'')) resp)))"

record authorization_server =
  Issuer :: string
  TokenEndpoint :: string
  PAREndpoint :: string
  AuthEndpoint :: string

definition dec_authorization_server :: "(string, json) fmap \<Rightarrow> (authorization_server, decode_error) res" where
  "dec_authorization_server m =
     bind_res (dec_field m ''issuer'') (\<lambda>i.
     bind_res (dec_field m ''token_endpoint'') (\<lambda>t.
     bind_res (dec_field m ''pushed_authorization_request_endpoint'') (\<lambda>p.
     bind_res (dec_field m ''authorization_endpoint'') (\<lambda>a.
       Ok \<lparr>Issuer = i, TokenEndpoint = t, PAREndpoint = p, AuthEndpoint = a\<rparr>))))"

definition fetchOauthAuthorizationServer ::
  "('k, 'i, 'jwk, 'w) oauth_env \<Rightarrow> string list \<Rightarrow> 'w \<Rightarrow> 'w \<times> (authorization_server, auth_error) res"
where
  "fetchOauthAuthorizationServer E servers w =
     (case servers of
        [] \<Rightarrow> (w, Err NoAuthorizationServer)
      | first # rest \<Rightarrow>
          sbind (w, ok_or BadURL (de_URL_Parse (oe_dpop E) first)) (\<lambda>authServerURL w.
          sbind (oe_Get E (de_URL_String (oe_dpop E)
              (authServerURL\<lparr>u_Path := ''/.well-known/oauth-authorization-server''\<rparr>)) w) (\<lambda>resp w.
            (w, if hs_StatusCode resp \<noteq> 200 then Err (UnexpectedStatus (hs_StatusCode resp))
                else decode_body (oe_dpop E) dec_authorization_server resp))))"

section \<open>Requests to the authorization server\<close>

text \<open>\<open>http.NewRequest\<close> with a form as its body fails for a URL that does not parse.\<close>

definition form_request ::
  "('k, 'i, 'jwk, 'w) oauth_env \<Rightarrow> string \<Rightarrow> string \<Rightarrow> (http_request, auth_error) res"
where
  "form_request E url body =
     bind_res (ok_or BadURL (de_URL_Parse (oe_dpop E) url)) (\<lambda>u.
       Ok \<lparr>hq_Method = ''POST'', hq_URL = u,
           hq_Header = hdr_Set ''Content-Type'' ''application/x-www-form-urlencoded'' fmempty, hq_Body = body\<rparr>)"

definition par_params ::
  "('k, 'i, 'jwk, 'w) oauth_env \<Rightarrow> 'jwk oauth_client \<Rightarrow> 'i \<Rightarrow> string \<Rightarrow> string \<Rightarrow> string \<Rightarrow> url_values"
where
  "par_params E c identity state verifier clientAssertion =
     fmap_of_list
       [(''client_id'', oc_clientId c), (''redirect_uri'', oc_redirectUri c),
        (''code_challenge'', oe_S256Challenge E verifier), (''code_challenge_method'', ''S256''),
        (''state'', state), (''respose_mode'', ''query''), (''response_type'', ''code''),
        (''scope'', ''atproto transition:generic''), (''client_assertion_type'', assertion_type),
        (''client_assertion'', clientAssertion), (''login_hint'', oe_Handle E identity)]"

definition makePushedAuthorizationRequest ::
  "('k, 'i, 'jwk, 'w) oauth_env \<Rightarrow> 'jwk oauth_client \<Rightarrow> ('k, 's) dpop_client \<Rightarrow> oauth_draws \<Rightarrow> 'i
   \<Rightarrow> authorization_server \<Rightarrow> string \<Rightarrow> string \<Rightarrow> 's \<times> 'w \<Rightarrow> ('s \<times> 'w) \<times> (string, auth_error) res"
where
  "makePushedAuthorizationRequest E c C D identity server state verifier sw =
     sbind (sw, getClientAssertion E c (Issuer server) D) (\<lambda>clientAssertion sw.
     sbind (sw, mapAuthServerURL (oe_dpop E) (PAREndpoint server)) (\<lambda>parUrl sw.
     sbind (sw, form_request E parUrl
        (values_Encode (par_params E c identity state verifier clientAssertion))) (\<lambda>req sw.
     sbind (dpop_Do (oe_dpop E) (oe_Do E) C (od_dpop1 D) (od_dpop2 D) req sw) (\<lambda>resp sw.
       (sw, if hs_StatusCode resp \<noteq> 201 then Err (UnexpectedStatus (hs_StatusCode resp))
            else decode_body (oe_dpop E) (\<lambda>m. dec_field m ''request_uri'') resp)))))"

text \<open>Running a call that only uses the world.\<close>

definition in_world ::
  "('w \<Rightarrow> 'w \<times> ('a, 'e) res) \<Rightarrow> 's \<times> 'w \<Rightarrow> ('s \<times> 'w) \<times> ('a, 'e) res"
where
  "in_world f sw = (case f (snd sw) of (w, r) \<Rightarrow> ((fst sw, w), r))"

text \<open>
  \<open>Authorize\<close>: the error of parsing the authorization endpoint is ignored, and the nil URL is written to.
\<close>

definition Authorize ::
  "('k, 'i, 'jwk, 'w) oauth_env \<Rightarrow> 'jwk oauth_client \<Rightarrow> ('k, 's) dpop_client \<Rightarrow> oauth_draws \<Rightarrow> 'i
   \<Rightarrow> 's \<times> 'w \<Rightarrow> ('s \<times> 'w) \<times> (string \<times> authorize_state, auth_error) res"
where
  "Authorize E c C D i sw =
     sbind (in_world (fetchOAuthProtectedResource E i) sw) (\<lambda>pr sw.
     sbind (in_world (fetchOauthAuthorizationServer E pr) sw) (\<lambda>serverMetadata sw.
     sbind (sw, ok_or RandomFailed (od_stateBytes D)) (\<lambda>stateBytes sw.
       let verifier = od_verifier D; state = map to_url (base64_encode stateBytes) in
       sbind (makePushedAuthorizationRequest E c C D i serverMetadata state verifier sw) (\<lambda>requestUri sw.
         (sw,
          (case de_URL_Parse (oe_dpop E) (AuthEndpoint serverMetadata) of
             None \<Rightarrow> Panic
           | Some redirectUrl \<Rightarrow>
               Ok (de_URL_String (oe_dpop E) (redirectUrl\<lparr>u_RawQuery :=
                     values_Encode (fmap_of_list [(''client_id'', oc_clientId c), (''request_uri'', requestUri)])\<rparr>),
                   \<lparr>as_Verifier = verifier, as_State = state,
                    as_TokenEndpoint = TokenEndpoint serverMetadata\<rparr>)))))))"

definition read_token_response ::
  "('k, 'i, 'jwk, 'w) oauth_env \<Rightarrow> http_response \<Rightarrow> (token_response, auth_error) res"
where
  "read_token_response E resp =
     (if hs_StatusCode resp \<noteq> 200 then Err (UnexpectedStatus (hs_StatusCode resp))
      else if hs_ReadFails resp then Err BodyUnreadable
      else bind_res (ok_or BadJSON (de_json_Parse (oe_dpop E) (hs_Body resp))) (\<lambda>j.
        map_err (\<lambda>_. BadJSON) (dec_token_response (Some j))))"

definition exchange_params ::
  "'jwk oauth_client \<Rightarrow> string \<Rightarrow> authorize_state \<Rightarrow> string \<Rightarrow> url_values"
where
  "exchange_params c code state clientAssertion =
     fmap_of_list
       [(''client_id'', oc_clientId c), (''grant_type'', ''authorization_code''),
        (''redirect_uri'', oc_redirectUri c), (''code'', code), (''code_verifier'', as_Verifier state),
        (''client_assertion_type'', assertion_type), (''client_assertion'', clientAssertion)]"

definition ExchangeCode ::
  "('k, 'i, 'jwk, 'w) oauth_env \<Rightarrow> 'jwk oauth_client \<Rightarrow> ('k, 's) dpop_client \<Rightarrow> oauth_draws \<Rightarrow> string \<Rightarrow> string
   \<Rightarrow> authorize_state \<Rightarrow> 's \<times> 'w \<Rightarrow> ('s \<times> 'w) \<times> (token_response, auth_error) res"
where
  "ExchangeCode E c C D code issuer state sw =
     sbind (sw, getClientAssertion E c issuer D) (\<lambda>clientAssertion sw.
     sbind (sw, form_request E (as_TokenEndpoint state)
        (values_Encode (exchange_params c code state clientAssertion))) (\<lambda>req sw.
     sbind (dpop_Do (oe_dpop E) (oe_Do E) C (od_dpop1 D) (od_dpop2 D) req sw) (\<lambda>resp sw.
       (sw, read_token_response E resp))))"

text \<open>\<open>RefreshToken\<close> ignores the error of \<open>http.NewRequest\<close> and uses the nil request.\<close>

definition refresh_params :: "'jwk oauth_client \<Rightarrow> string \<Rightarrow> string \<Rightarrow> url_values" where
  "refresh_params c refreshToken clientAssertion =
     fmap_of_list
       [(''client_id'', oc_clientId c), (''grant_type'', ''refresh_token''), (''refresh_token'', refreshToken),
        (''client_assertion_type'', assertion_type), (''client_assertion'', clientAssertion)]"

definition RefreshToken_call ::
  "('k, 'i, 'jwk, 'w) oauth_env \<Rightarrow> 'jwk oauth_client \<Rightarrow> ('k, 's) dpop_client \<Rightarrow> oauth_draws \<Rightarrow> 'i \<Rightarrow> string
   \<Rightarrow> string \<Rightarrow> 's \<times> 'w \<Rightarrow> ('s \<times> 'w) \<times> (token_response, auth_error) res"
where
  "RefreshToken_call E c C D identity issuer refreshToken sw =
     sbind (in_world (fetchOAuthProtectedResource E identity) sw) (\<lambda>pr sw.
     sbind (in_world (fetchOauthAuthorizationServer E pr) sw) (\<lambda>serverMetadata sw.
     sbind (sw, getClientAssertion E c issuer D) (\<lambda>clientAssertion sw.
       (case form_request E (TokenEndpoint serverMetadata)
               (values_Encode (refresh_params c refreshToken clientAssertion)) of
          Ok req \<Rightarrow>
            sbind (dpop_Do (oe_dpop E) (oe_Do E) C (od_dpop1 D) (od_dpop2 D) req sw) (\<lambda>resp sw.
              (sw, read_token_response E resp))
        | _ \<Rightarrow> (sw, Panic)))))"

section \<open>What a call does to the session\<close>

lemma sbind_session:
  assumes "same_but_nonce s (fst (fst p))"
    and "\<And>x. snd p = Ok x \<Longrightarrow> same_but_nonce (fst (fst p)) (fst (fst (f x (fst p))))"
  shows "same_but_nonce s (fst (fst (sbind p f)))"
  using assms by (cases "(p, f)" rule: sbind.cases) (auto intro: same_but_nonce_trans)

lemma in_world_session [simp]: "fst (fst (in_world f sw)) = fst sw"
  by (simp add: in_world_def split: prod.splits)

lemma PAR_session:
  "dp_nonceProvider C = cookie_nonces \<Longrightarrow> fst sw = s \<Longrightarrow>
    same_but_nonce s (fst (fst (makePushedAuthorizationRequest E c C D i server state verifier sw)))"
  unfolding makePushedAuthorizationRequest_def
  by (intro sbind_session) (auto intro: dpop_Do_session)

lemma dpop_Do_session':
  "dp_nonceProvider C = cookie_nonces \<Longrightarrow> fst sw = s \<Longrightarrow>
    same_but_nonce s (fst (fst (dpop_Do E H C d1 d2 req sw)))"
  using dpop_Do_session by blast

lemma Authorize_session:
  "dp_nonceProvider C = cookie_nonces \<Longrightarrow> same_but_nonce (fst sw) (fst (fst (Authorize E c C D i sw)))"
  unfolding Authorize_def Let_def
  by (intro sbind_session) (auto intro!: PAR_session)

lemma ExchangeCode_session:
  "dp_nonceProvider C = cookie_nonces \<Longrightarrow>
    same_but_nonce (fst sw) (fst (fst (ExchangeCode E c C D code issuer state sw)))"
  unfolding ExchangeCode_def
  by (intro sbind_session) (auto intro: dpop_Do_session)

lemma RefreshToken_session:
  "dp_nonceProvider C = cookie_nonces \<Longrightarrow>
    same_but_nonce (fst sw) (fst (fst (RefreshToken_call E c C D identity issuer token sw)))"
  unfolding RefreshToken_call_def
  by (intro sbind_session) (auto split: res.splits intro!: sbind_session dpop_Do_session')

end
