(* ===== verification/AuthHandlers.thy ===== *)
theory AuthHandlers
  imports OAuthClient Http
begin

text \<open>
  The login of a user and the forwarding of XRPC requests: \<open>internal/auth/login_handler.go\<close>,
  \<open>broker.go\<close> and \<open>dummy_directory.go\<close>.

  A handler reads the cookies that came with the request and collects those of the response; what the
  browser sends with its next request are the latter.  Form values that cannot be parsed are \<open>None\<close>.
\<close>

datatype auth_text =
    Plain string
  | AuthErrorText auth_error
  | JsonText json
  | RedirectText string
  | BytesText string

type_synonym auth_response = "auth_text response"

definition http_Redirect :: "string \<Rightarrow> nat \<Rightarrow> auth_response \<Rightarrow> auth_response" where
  "http_Redirect url code w = Write (RedirectText url) (WriteHeader code (Header_Set ''Location'' url w))"

abbreviation StatusSeeOther :: nat where "StatusSeeOther \<equiv> 303"

record ('j, 'f, 'k, 'i, 'jwk, 'w) auth_env =
  ae_env :: "('k, 'i, 'jwk, 'w) oauth_env"
  ae_client :: "'jwk oauth_client"
  ae_store :: "('j, 'f) session_store"
  ae_codec :: "('k, 'i) session_codec"
  ae_ParseAtIdentifier :: "string \<Rightarrow> string option"
  ae_Lookup :: "string \<Rightarrow> 'w \<Rightarrow> 'w \<times> ('i, auth_error) res"
  ae_atproto_pds :: "'i \<Rightarrow> string option"
  ae_DID :: "'i \<Rightarrow> string"

section \<open>Logging in\<close>

definition enc_authorize_state :: "authorize_state \<Rightarrow> json" where
  "enc_authorize_state s =
     JObj (fmap_of_list [(''v'', JStr (as_Verifier s)), (''s'', JStr (as_State s)), (''te'', JStr (as_TokenEndpoint s))])"

definition dec_authorize_state :: "json option \<Rightarrow> (authorize_state, decode_error) res" where
  "dec_authorize_state b =
     bind_res (ok_or NotAnObject (as_object b)) (\<lambda>m.
     bind_res (dec_field m ''v'') (\<lambda>v.
     bind_res (dec_field m ''s'') (\<lambda>s.
     bind_res (dec_field m ''te'') (\<lambda>te.
       Ok \<lparr>as_Verifier = v, as_State = s, as_TokenEndpoint = te\<rparr>))))"

lemma dec_enc_authorize_state [simp]: "dec_authorize_state (Some (enc_authorize_state s)) = Ok s"
  by (simp add: dec_authorize_state_def enc_authorize_state_def dec_field_def)

abbreviation server_error :: "auth_error \<Rightarrow> auth_response" where
  "server_error e \<equiv> http_Error (AuthErrorText e) StatusInternalServerError empty_response"

text \<open>\<open>cookieSession.Save\<close>: a failure is written to the response, and the handler goes on.\<close>

definition session_Save ::
  "('j, 'f) session_store \<Rightarrow> 'f gsession \<Rightarrow> 'j \<times> auth_response \<Rightarrow> 'j \<times> auth_response"
where
  "session_Save T s jr =
     (case st_Save T SessionKeyDpop s (fst jr) of
        (j, Ok _) \<Rightarrow> (j, snd jr)
      | (j, Err e) \<Rightarrow> (j, Write (AuthErrorText e) (WriteHeader StatusInternalServerError (snd jr)))
      | (j, Panic) \<Rightarrow> (j, snd jr))"

text \<open>
  The login handler; \<open>None\<close> as the response is a panic.  The state is the cookies of the response and the
  world.  \<open>key\<close> is the generated key.
\<close>

definition login_ServeHTTP ::
  "('j, 'f, 'k, 'i, 'jwk, 'w) auth_env \<Rightarrow> oauth_draws \<Rightarrow> 'k option \<Rightarrow> (string \<Rightarrow> string) option \<Rightarrow> 'j \<Rightarrow> 'w
   \<Rightarrow> ('j \<times> 'w) \<times> auth_response option"
where
  "login_ServeHTTP A D key form jar w =
     (case form of
        None \<Rightarrow> ((jar, w), Some (http_Error (Plain ''invalid form'') StatusBadRequest empty_response))
      | Some form \<Rightarrow>
     (case ae_ParseAtIdentifier A (form ''handle'') of
        None \<Rightarrow> ((jar, w), Some (http_Error (Plain ''invalid identifier'') StatusBadRequest empty_response))
      | Some atid \<Rightarrow>
     (case ae_Lookup A atid w of
        (w, Err e) \<Rightarrow> ((jar, w), Some (server_error e))
      | (w, Panic) \<Rightarrow> ((jar, w), None)
      | (w, Ok i) \<Rightarrow>
     (case ae_atproto_pds A i of
        None \<Rightarrow> ((jar, w), Some (http_Error (Plain ''no pds url in identity'') StatusInternalServerError empty_response))
      | Some pdsURL \<Rightarrow>
     (case newCookieSession (ae_codec A) (ae_store A) key i pdsURL jar of
        Err e \<Rightarrow> ((jar, w), Some (server_error e))
      | Panic \<Rightarrow> ((jar, w), None)
      | Ok dpopSession \<Rightarrow>
     (case GetDpopKey (ae_codec A) dpopSession of
        Ok (Some key) \<Rightarrow>
     (case Authorize (ae_env A) (ae_client A) (NewDpopHttpClient key cookie_nonces []) D i (dpopSession, w) of
        ((s, w), Err e) \<Rightarrow> ((jar, w), Some (server_error e))
      | ((s, w), Panic) \<Rightarrow> ((jar, w), None)
      | ((s, w), Ok (redirect, state)) \<Rightarrow>
          (let session = st_AddFlash (ae_store A)
                 (VBytes (sc_json_Text (ae_codec A) (enc_authorize_state state)))
                 (fst (st_New (ae_store A) SessionKeyAuth jar));
               (jar, resp) = session_Save (ae_store A) s (jar, empty_response) in
           (case st_Save (ae_store A) SessionKeyAuth session jar of
              (jar, Ok _) \<Rightarrow> ((jar, w), Some (http_Redirect redirect StatusSeeOther resp))
            | (jar, Err e) \<Rightarrow> ((jar, w), Some (http_Error (AuthErrorText e) StatusInternalServerError resp))
            | (jar, Panic) \<Rightarrow> ((jar, w), None))))
      | _ \<Rightarrow> ((jar, w), Some (http_Error (Plain ''no key in session'') StatusInternalServerError empty_response))))))))"

definition metadata_ServeHTTP ::
  "('jwk client_metadata \<Rightarrow> json) \<Rightarrow> ('j, 'f, 'k, 'i, 'jwk, 'w) auth_env \<Rightarrow> auth_response"
where
  "metadata_ServeHTTP enc A =
     Write (JsonText (enc (ClientMetadata (ae_env A) (ae_client A))))
       (Header_Set ''Content-Type'' ''application/json'' empty_response)"

section \<open>Coming back from the authorization server\<close>

text \<open>
  The callback: the query parameters \<open>code\<close> and \<open>iss\<close> are used, \<open>state\<close> is not read.  The last component are
  the cookies set next to those of the sessions.
\<close>

definition callback_ServeHTTP ::
  "('j, 'f, 'k, 'i, 'jwk, 'w) auth_env \<Rightarrow> oauth_draws \<Rightarrow> (string \<Rightarrow> string) \<Rightarrow> 'j \<Rightarrow> 'w
   \<Rightarrow> ('j \<times> 'w) \<times> auth_response option \<times> (string \<times> string) list"
where
  "callback_ServeHTTP A D query jar0 w =
     (case st_Get (ae_store A) SessionKeyAuth jar0 of
        (_, Some e) \<Rightarrow> ((jar0, w), Some (server_error e), [])
      | (session, None) \<Rightarrow>
     (case st_Flashes (ae_store A) session of (session, flashes) \<Rightarrow>
     (case st_Save (ae_store A) SessionKeyAuth session jar0 of
        (jar, Err e) \<Rightarrow> ((jar, w), Some (server_error e), [])
      | (jar, Panic) \<Rightarrow> ((jar, w), None, [])
      | (jar, Ok _) \<Rightarrow>
     (case flashes of
        [] \<Rightarrow> ((jar, w), Some (http_Error (Plain ''no state in session'') StatusBadRequest empty_response), [])
      | VBytes stateJson # _ \<Rightarrow>
     (case map_err (\<lambda>_. BadJSON)
         (bind_res (ok_or NotAnObject (sc_json_Parse (ae_codec A) stateJson)) (\<lambda>j. dec_authorize_state (Some j))) of
        Err e \<Rightarrow> ((jar, w), Some (server_error e), [])
      | Panic \<Rightarrow> ((jar, w), None, [])
      | Ok state \<Rightarrow>
     (case getCookieSession (ae_store A) jar0 of
        Err e \<Rightarrow> ((jar, w), Some (server_error e), [])
      | Panic \<Rightarrow> ((jar, w), None, [])
      | Ok dpopSession \<Rightarrow>
     (case GetDpopKey (ae_codec A) dpopSession of
        Ok (Some key) \<Rightarrow>
     (case ExchangeCode (ae_env A) (ae_client A) (NewDpopHttpClient key cookie_nonces []) D
         (query ''code'') (query ''iss'') state (dpopSession, w) of
        ((s, w), Err e) \<Rightarrow> ((jar, w), Some (server_error e), [])
      | ((s, w), Panic) \<Rightarrow> ((jar, w), None, [])
      | ((s, w), Ok tokenResp) \<Rightarrow>
          (let s = SetIssuer (query ''iss'') (SetTokenInfo (ae_codec A) tokenResp s) in
     (case GetIdentity (ae_codec A) s of
        Ok (Some i) \<Rightarrow>
          (let cookies = [(''handle'', oe_Handle (ae_env A) i), (''did'', ae_DID A i)] in
     (case GetPDSURL s of
        Ok (pdsURL, True) \<Rightarrow>
          (let cookies = (if pdsURL = '''' then cookies else cookies @ [(''pds_url'', pdsURL)]);
               (jar, resp) = session_Save (ae_store A) s (jar, empty_response) in
           ((jar, w), Some (http_Redirect ''/'' StatusSeeOther resp), cookies))
      | _ \<Rightarrow> ((jar, w), Some (http_Error (Plain ''no pds url in session'') StatusInternalServerError empty_response), cookies)))
      | _ \<Rightarrow> ((jar, w), Some (http_Error (Plain ''no identity in session'') StatusInternalServerError empty_response), []))))
      | _ \<Rightarrow> ((jar, w), Some (http_Error (Plain ''no key in session'') StatusInternalServerError empty_response), []))))
      | _ \<Rightarrow> ((jar, w), Some (http_Error (Plain ''invalid state in session'') StatusBadRequest empty_response), [])))))"

section \<open>Forwarding XRPC requests\<close>

text \<open>
  \<open>getForwardReq\<close>; \<open>body\<close> is \<open>None\<close> when the body of the request cannot be read.  The names in the header of
  a request are canonical, and a name without values adds nothing.
\<close>

definition getForwardReq ::
  "('j, 'f, 'k, 'i, 'jwk, 'w) auth_env \<Rightarrow> http_request \<Rightarrow> string option \<Rightarrow> 'f gsession
   \<Rightarrow> (http_request, auth_error) res"
where
  "getForwardReq A r body s =
     (case GetPDSURL s of
        Ok (pdsURL, True) \<Rightarrow>
          bind_res (ok_or BadURL (de_URL_Parse (oe_dpop (ae_env A)) pdsURL)) (\<lambda>parsedPDSURL.
          bind_res (ok_or BodyUnreadable body) (\<lambda>bodyCopy.
            Ok \<lparr>hq_Method = hq_Method r,
                hq_URL = \<lparr>u_Scheme = u_Scheme parsedPDSURL, u_Host = u_Host parsedPDSURL,
                          u_Path = u_Path (hq_URL r), u_RawQuery = u_RawQuery (hq_URL r)\<rparr>,
                hq_Header = fmfilter (\<lambda>k. k \<noteq> ''Authorization'' \<and> k \<noteq> ''Content-Length'' \<and>
                  fmlookup (hq_Header r) k \<noteq> Some []) (hq_Header r),
                hq_Body = bodyCopy\<rparr>))
      | _ \<Rightarrow> Err (MissingValue cPDSURLSessionKey))"

definition getForwardingDpopClient ::
  "('j, 'f, 'k, 'i, 'jwk, 'w) auth_env \<Rightarrow> string \<Rightarrow> http_request \<Rightarrow> 'f gsession
   \<Rightarrow> (('k, 'f gsession) dpop_client, auth_error) res"
where
  "getForwardingDpopClient A htuURL r s =
     (case GetDpopKey (ae_codec A) s of
        Ok (Some key) \<Rightarrow>
          (case GetTokenInfo (ae_codec A) s of
             Ok (Some tokenInfo) \<Rightarrow>
               (case GetPDSURL s of
                  Ok (pdsURL, True) \<Rightarrow>
                    bind_res (ok_or BadURL (de_URL_Parse (oe_dpop (ae_env A)) pdsURL)) (\<lambda>parsedURL.
                      Ok (NewDpopHttpClient key cookie_nonces
                        (WithAccessToken (AccessToken tokenInfo) #
                         (if HasPrefix (u_Host parsedURL) ''host.docker.internal''
                          then [WithHTU (path_Join [htuURL, u_Path (hq_URL r)])] else []))))
                | _ \<Rightarrow> Err (MissingValue cPDSURLSessionKey))
           | _ \<Rightarrow> Err (MissingValue cTokenInfoSessionKey))
      | _ \<Rightarrow> Err (MissingValue cKeySessionKey))"

definition refreshSession ::
  "('j, 'f, 'k, 'i, 'jwk, 'w) auth_env \<Rightarrow> oauth_draws \<Rightarrow> 'f gsession \<times> 'w
   \<Rightarrow> ('f gsession \<times> 'w) \<times> (unit, auth_error) res"
where
  "refreshSession A D sw =
     (case GetDpopKey (ae_codec A) (fst sw) of
        Ok (Some key) \<Rightarrow>
          (case GetIdentity (ae_codec A) (fst sw) of
             Ok (Some identity) \<Rightarrow>
               (case GetIssuer (fst sw) of
                  Ok (issuer, True) \<Rightarrow>
                    (case GetTokenInfo (ae_codec A) (fst sw) of
                       Ok (Some tokenInfo) \<Rightarrow>
                         sbind (RefreshToken_call (ae_env A) (ae_client A) (NewDpopHttpClient key cookie_nonces []) D
                             identity issuer (RefreshToken tokenInfo) sw) (\<lambda>tokenResp sw.
                           ((SetTokenInfo (ae_codec A) tokenResp (fst sw), snd sw), Ok ()))
                     | _ \<Rightarrow> (sw, Err (MissingValue cTokenInfoSessionKey)))
                | _ \<Rightarrow> (sw, Err (MissingValue cIssuerSessionKey)))
           | _ \<Rightarrow> (sw, Err (MissingValue cIdentitySessionKey)))
      | _ \<Rightarrow> (sw, Err (MissingValue cKeySessionKey)))"

text \<open>The answer of the PDS is written out: its header unless one was written before, status and body.\<close>

definition write_out :: "http_response \<Rightarrow> auth_response \<Rightarrow> auth_response \<times> header" where
  "write_out resp w =
     (Write (BytesText (hs_Body resp)) (WriteHeader (hs_StatusCode resp) w),
      if rsp_Status w = None then hs_Header resp else fmempty)"

record broker_draws =
  bd_first :: "(string \<times> int) \<times> (string \<times> int)"
  bd_refresh :: oauth_draws
  bd_second :: "(string \<times> int) \<times> (string \<times> int)"

text \<open>The broker: the third component of the result is the header that was forwarded.\<close>

definition broker_ServeHTTP ::
  "('j, 'f, 'k, 'i, 'jwk, 'w) auth_env \<Rightarrow> string \<Rightarrow> broker_draws \<Rightarrow> http_request \<Rightarrow> string option \<Rightarrow> 'j \<Rightarrow> 'w
   \<Rightarrow> ('j \<times> 'w) \<times> (auth_response \<times> header) option"
where
  "broker_ServeHTTP A htuURL D r body jar w =
     (let send = (\<lambda>C d q sw. dpop_Do (oe_dpop (ae_env A)) (oe_Do (ae_env A)) C (fst d) (snd d) q sw);
          failed = (\<lambda>e resp. Some (http_Error (AuthErrorText e) StatusInternalServerError resp, fmempty)) in
     (case getCookieSession (ae_store A) jar of
        Err e \<Rightarrow> ((jar, w), failed e empty_response)
      | Panic \<Rightarrow> ((jar, w), None)
      | Ok s \<Rightarrow>
     (case getForwardingDpopClient A htuURL r s of
        Err e \<Rightarrow> ((jar, w), failed e empty_response)
      | Panic \<Rightarrow> ((jar, w), None)
      | Ok C \<Rightarrow>
     (case getForwardReq A r body s of
        Err e \<Rightarrow> ((jar, w), failed e empty_response)
      | Panic \<Rightarrow> ((jar, w), None)
      | Ok q \<Rightarrow>
     (case send C (bd_first D) q (s, w) of
        ((s, w), Err e) \<Rightarrow> ((jar, w), failed e empty_response)
      | ((s, w), Panic) \<Rightarrow> ((jar, w), None)
      | ((s, w), Ok resp) \<Rightarrow>
          if hs_StatusCode resp \<noteq> StatusUnauthorized then ((jar, w), Some (write_out resp empty_response))
          else
     (case refreshSession A (bd_refresh D) (s, w) of
        ((s, w), Err e) \<Rightarrow> ((jar, w), Some (http_Error (AuthErrorText e) StatusUnauthorized empty_response, fmempty))
      | ((s, w), Panic) \<Rightarrow> ((jar, w), None)
      | ((s, w), Ok _) \<Rightarrow>
          (case session_Save (ae_store A) s (jar, empty_response) of (jar, out) \<Rightarrow>
     (case getForwardReq A r body s of
        Err e \<Rightarrow> ((jar, w), failed e out)
      | Panic \<Rightarrow> ((jar, w), None)
      | Ok q \<Rightarrow>
     (case getForwardingDpopClient A htuURL r s of
        Err e \<Rightarrow> ((jar, w), failed e out)
      | Panic \<Rightarrow> ((jar, w), None)
      | Ok C \<Rightarrow>
     (case send C (bd_second D) q (s, w) of
        ((s, w), Err e) \<Rightarrow> ((jar, w), failed e out)
      | ((s, w), Panic) \<Rightarrow> ((jar, w), None)
      | ((s, w), Ok resp) \<Rightarrow>
          (case session_Save (ae_store A) s (jar, out) of (jar, out) \<Rightarrow>
            ((jar, w), Some (write_out resp out)))))))))))))"

section \<open>The directory of the development set-up\<close>

datatype directory_error = Unimplemented

record dummy_identity =
  di_DID :: string
  di_Services :: "(string, string) fmap"

definition NewDummyDirectory :: "string \<Rightarrow> string" where "NewDummyDirectory url = url"

definition dummy_LookupHandle :: "string \<Rightarrow> string \<Rightarrow> (dummy_identity, directory_error) res" where
  "dummy_LookupHandle d handle = Err Unimplemented"

definition dummy_LookupDID :: "string \<Rightarrow> string \<Rightarrow> (dummy_identity, directory_error) res" where
  "dummy_LookupDID d did = Err Unimplemented"

definition dummy_Lookup :: "string \<Rightarrow> string \<Rightarrow> (dummy_identity, directory_error) res" where
  "dummy_Lookup d atid =
     Ok \<lparr>di_DID = atid, di_Services = fmap_of_list [(''atproto_pds'', d)]\<rparr>"

definition dummy_Purge :: "string \<Rightarrow> string \<Rightarrow> (unit, directory_error) res" where
  "dummy_Purge d atid = Err Unimplemented"

section \<open>What comes back from the authorization server\<close>

text \<open>
  The documented behaviour of a session store: what is saved under a name is there at the next request,
  other names are not touched, and a flash is read after those that were there before.
\<close>

definition store_laws :: "('j, 'f) session_store \<Rightarrow> bool" where
  "store_laws T \<longleftrightarrow>
     st_Get T = st_New T \<and>
     (\<forall>n s j. snd (st_Save T n s j) = Ok () \<and> st_New T n (fst (st_Save T n s j)) = (s, None) \<and>
        (\<forall>m. m \<noteq> n \<longrightarrow> st_New T m (fst (st_Save T n s j)) = st_New T m j)) \<and>
     (\<forall>v s. snd (st_Flashes T (st_AddFlash T v s)) = snd (st_Flashes T s) @ [v])"

definition saved_jar :: "('j, 'f) session_store \<Rightarrow> string \<Rightarrow> 'f gsession \<Rightarrow> 'j \<Rightarrow> 'j" where
  "saved_jar T n s j = fst (st_Save T n s j)"

lemma saved:
  assumes "store_laws T"
  shows "st_Save T n s j = (saved_jar T n s j, Ok ())" and "st_New T n (saved_jar T n s j) = (s, None)"
    and "m \<noteq> n \<Longrightarrow> st_New T m (saved_jar T n s j) = st_New T m j" and "st_Get T = st_New T"
    and "snd (st_Flashes T (st_AddFlash T v s)) = snd (st_Flashes T s) @ [v]"
proof -
  note laws = assms [unfolded store_laws_def]
  have "snd (st_Save T n s j) = Ok ()" using laws by blast
  then show "st_Save T n s j = (saved_jar T n s j, Ok ())"
    by (cases "st_Save T n s j") (simp add: saved_jar_def)
  show "st_New T n (saved_jar T n s j) = (s, None)" using laws unfolding saved_jar_def by blast
  show "st_New T m (saved_jar T n s j) = st_New T m j" if "m \<noteq> n"
    using laws that unfolding saved_jar_def by blast
  show "st_Get T = st_New T" using laws by blast
  show "snd (st_Flashes T (st_AddFlash T v s)) = snd (st_Flashes T s) @ [v]" using laws by blast
qed

lemma session_names [simp]: "SessionKeyAuth \<noteq> SessionKeyDpop" "SessionKeyDpop \<noteq> SessionKeyAuth"
  by (simp_all add: SessionKeyAuth_def SessionKeyDpop_def)

lemma session_Save_eq:
  "store_laws T \<Longrightarrow> session_Save T s (j, resp) = (saved_jar T SessionKeyDpop s j, resp)"
  by (simp add: session_Save_def saved(1))

abbreviation pending :: "('j, 'f, 'k, 'i, 'jwk, 'w) auth_env \<Rightarrow> 'j \<Rightarrow> 'f session_value list" where
  "pending A jar \<equiv> snd (st_Flashes (ae_store A) (fst (st_New (ae_store A) SessionKeyAuth jar)))"

text \<open>\<open>ready A jar k s\<close>: the cookies hold the session \<open>s\<close> of a login with the key \<open>k\<close>.\<close>

definition ready :: "('j, 'f, 'k, 'i, 'jwk, 'w) auth_env \<Rightarrow> 'j \<Rightarrow> 'k \<Rightarrow> 'f gsession \<Rightarrow> bool" where
  "ready A jar k s \<longleftrightarrow>
     st_New (ae_store A) SessionKeyDpop jar = (s, None) \<and> snd (st_New (ae_store A) SessionKeyAuth jar) = None \<and>
     fmlookup (gs_Values s) cKeySessionKey \<noteq> None \<and> GetDpopKey (ae_codec A) s = Ok (Some k) \<and>
     (\<exists>i. GetIdentity (ae_codec A) s = Ok (Some i)) \<and> (\<exists>pds. GetPDSURL s = Ok (pds, True))"

text \<open>
  \<open>exchanges A jar k s state\<close>: with these cookies the callback exchanges the code of its query with the key,
  the session and the state, answers with the outcome, and keeps the token.
\<close>

definition exchanges ::
  "('j, 'f, 'k, 'i, 'jwk, 'w) auth_env \<Rightarrow> 'j \<Rightarrow> 'k \<Rightarrow> 'f gsession \<Rightarrow> authorize_state \<Rightarrow> bool"
where
  "exchanges A jar k s state \<longleftrightarrow>
     (\<forall>D query w s' w' r.
        ExchangeCode (ae_env A) (ae_client A) (NewDpopHttpClient k cookie_nonces []) D (query ''code'')
          (query ''iss'') state (s, w) = ((s', w'), r) \<longrightarrow>
        (\<exists>jar' resp cookies. callback_ServeHTTP A D query jar w = ((jar', w'), resp, cookies) \<and>
           (case r of
              Err e \<Rightarrow> resp = Some (server_error e)
            | Panic \<Rightarrow> resp = None
            | Ok tok \<Rightarrow> resp = Some (http_Redirect ''/'' StatusSeeOther empty_response) \<and>
                (\<exists>t. getCookieSession (ae_store A) jar' = Ok t \<and> GetDpopKey (ae_codec A) t = Ok (Some k) \<and>
                   GetTokenInfo (ae_codec A) t = Ok (Some tok) \<and> GetIssuer t = Ok (query ''iss'', True)))))"

lemma provider_of_new [simp]:
  "dp_nonceProvider (NewDpopHttpClient k P opts) = P" "dp_key (NewDpopHttpClient k P opts) = k"
  by (simp_all add: NewDpopHttpClient_def)

lemma decoded_state:
  "codec_laws D \<Longrightarrow>
    bind_res (ok_or NotAnObject (sc_json_Parse D (sc_json_Text D (enc_authorize_state state))))
      (\<lambda>j. dec_authorize_state (Some j)) = Ok state"
  by (simp add: codec_laws_def)

text \<open>What the callback leaves in the session.\<close>

lemma token_in_session:
  assumes "codec_laws D" and "same_but_nonce s s'"
  shows "GetTokenInfo D (SetIssuer iss (SetTokenInfo D tok s')) = Ok (Some tok)"
    "GetIssuer (SetIssuer iss (SetTokenInfo D tok s')) = Ok (iss, True)"
    "GetDpopKey D (SetIssuer iss (SetTokenInfo D tok s')) = GetDpopKey D s"
    "GetIdentity D (SetIssuer iss (SetTokenInfo D tok s')) = GetIdentity D s"
    "GetPDSURL (SetIssuer iss (SetTokenInfo D tok s')) = GetPDSURL s"
    "fmlookup (gs_Values (SetIssuer iss (SetTokenInfo D tok s'))) cKeySessionKey = fmlookup (gs_Values s) cKeySessionKey"
proof -
  have "GetTokenInfo D (SetTokenInfo D tok s') = Ok (Some tok)"
    using session_slot.get_put [OF token_slot [OF assms(1)]] by blast
  then show "GetTokenInfo D (SetIssuer iss (SetTokenInfo D tok s')) = Ok (Some tok)"
    by (simp add: SetIssuer_def getters_put_other)
qed (simp_all add: SetIssuer_def SetTokenInfo_def getters_put_other getters_frame [OF assms(2)] GetIssuer_def,
    use assms(2) in \<open>simp add: put_value_def same_but_nonce_def session_keys\<close>)

lemma callback_exchanges:
  assumes laws: "store_laws (ae_store A)" "codec_laws (ae_codec A)" and ready: "ready A jar k s"
    and flash: "pending A jar = VBytes (sc_json_Text (ae_codec A) (enc_authorize_state state)) # rest"
  shows "exchanges A jar k s state"
  unfolding exchanges_def
proof (intro allI impI)
  fix D query w s' w' r
  assume run: "ExchangeCode (ae_env A) (ae_client A) (NewDpopHttpClient k cookie_nonces []) D (query ''code'')
    (query ''iss'') state (s, w) = ((s', w'), r)"
  have frame: "same_but_nonce s s'" using ExchangeCode_session [of "NewDpopHttpClient k cookie_nonces []" "(s, w)"] run
    by (metis fst_conv provider_of_new(1))
  obtain i where i: "GetIdentity (ae_codec A) s = Ok (Some i)" using ready by (auto simp: ready_def)
  obtain pds where pds: "GetPDSURL s = Ok (pds, True)" using ready by (auto simp: ready_def)
  obtain ses where new: "st_New (ae_store A) SessionKeyAuth jar = (ses, None)"
    using ready by (cases "st_New (ae_store A) SessionKeyAuth jar") (simp add: ready_def)
  obtain ses' where fl: "st_Flashes (ae_store A) ses =
      (ses', VBytes (sc_json_Text (ae_codec A) (enc_authorize_state state)) # rest)"
    using flash new by (cases "st_Flashes (ae_store A) ses") simp
  have cookie: "getCookieSession (ae_store A) jar = Ok s" and key: "GetDpopKey (ae_codec A) s = Ok (Some k)"
    using ready by (auto simp: getCookieSession_def ready_def saved(4) [OF laws(1)])
  note start = callback_ServeHTTP_def saved(4) [OF laws(1)] new fl saved(1) [OF laws(1)]
    decoded_state [OF laws(2)] cookie key run
  show "\<exists>jar' resp cookies. callback_ServeHTTP A D query jar w = ((jar', w'), resp, cookies) \<and>
    (case r of Err e \<Rightarrow> resp = Some (server_error e) | Panic \<Rightarrow> resp = None
     | Ok tok \<Rightarrow> resp = Some (http_Redirect ''/'' StatusSeeOther empty_response) \<and>
         (\<exists>t. getCookieSession (ae_store A) jar' = Ok t \<and> GetDpopKey (ae_codec A) t = Ok (Some k) \<and>
            GetTokenInfo (ae_codec A) t = Ok (Some tok) \<and> GetIssuer t = Ok (query ''iss'', True)))"
  proof (cases r)
    case (Ok tok)
    let ?t = "SetIssuer (query ''iss'') (SetTokenInfo (ae_codec A) tok s')"
    have "getCookieSession (ae_store A) (saved_jar (ae_store A) SessionKeyDpop ?t j) = Ok ?t" for j
      using ready token_in_session(6) [OF laws(2) frame]
      by (auto simp: getCookieSession_def ready_def saved [OF laws(1)])
    then show ?thesis
      by (simp add: start Ok token_in_session [OF laws(2) frame] i pds key session_Save_eq [OF laws(1)] Let_def)
  qed (simp_all add: start)
qed

text \<open>A login that is answered with a redirect leaves its session and, as the last flash, its state.\<close>

lemma login_leaves:
  assumes laws: "store_laws (ae_store A)" "codec_laws (ae_codec A)"
    and run: "login_ServeHTTP A D key form jar w = ((jar', w'), Some out)"
    and out: "rsp_Status out = Some StatusSeeOther"
  obtains i s0 w0 k s redirect state where
    "Authorize (ae_env A) (ae_client A) (NewDpopHttpClient k cookie_nonces []) D i (s0, w0) =
      ((s, w'), Ok (redirect, state))"
    "key = Some k" "out = http_Redirect redirect StatusSeeOther empty_response" "ready A jar' k s"
    "pending A jar' = pending A jar @ [VBytes (sc_json_Text (ae_codec A) (enc_authorize_state state))]"
proof -
  have no: "rsp_Status (http_Error e c empty_response) = Some c" for e :: auth_text and c
    by (simp add: http_Error_def Write_def WriteHeader_def)
  note start = run [unfolded login_ServeHTTP_def]
  obtain f where f: "form = Some f" using start out by (cases form) (auto simp: no)
  note start = start [unfolded f option.case]
  obtain atid where atid: "ae_ParseAtIdentifier A (f ''handle'') = Some atid"
    using start out by (cases "ae_ParseAtIdentifier A (f ''handle'')") (auto simp: no)
  note start = start [unfolded atid option.case]
  obtain w0 r where look: "ae_Lookup A atid w = (w0, r)" by (cases "ae_Lookup A atid w")
  note start = start [unfolded look prod.case]
  obtain i where i: "r = Ok i" using start out by (cases r) (auto simp: no)
  note start = start [unfolded i res.case]
  obtain pds where pds: "ae_atproto_pds A i = Some pds"
    using start out by (cases "ae_atproto_pds A i") (auto simp: no)
  note start = start [unfolded pds option.case]
  obtain s0 where new: "newCookieSession (ae_codec A) (ae_store A) key i pds jar = Ok s0"
    using start out by (cases "newCookieSession (ae_codec A) (ae_store A) key i pds jar") (auto simp: no)
  obtain k where k: "key = Some k" "GetDpopKey (ae_codec A) s0 = Ok (Some k)"
    using newCookieSession_Ok [OF laws(2) new] by blast
  note start = start [unfolded new k(2) res.case option.case]
  obtain s w1 r where auth': "Authorize (ae_env A) (ae_client A) (NewDpopHttpClient k cookie_nonces []) D i (s0, w0) =
      ((s, w1), r)" by (metis prod.collapse)
  note start = start [unfolded auth' prod.case]
  obtain redirect state where r: "r = Ok (redirect, state)" using start out by (cases r) (auto simp: no)
  have w1: "w1 = w'" and jar': "jar' = saved_jar (ae_store A) SessionKeyAuth (st_AddFlash (ae_store A)
      (VBytes (sc_json_Text (ae_codec A) (enc_authorize_state state))) (fst (st_New (ae_store A) SessionKeyAuth jar)))
      (saved_jar (ae_store A) SessionKeyDpop s jar)"
    and redirect: "out = http_Redirect redirect StatusSeeOther empty_response"
    using start by (simp_all add: r Let_def session_Save_eq [OF laws(1)] saved(1) [OF laws(1)])
  note auth = auth' [unfolded w1 r]
  have frame: "same_but_nonce s0 s"
    using Authorize_session [of "NewDpopHttpClient k cookie_nonces []" "(s0, w0)"] auth
    by (metis fst_conv provider_of_new(1))
  have "fmlookup (gs_Values s) cKeySessionKey \<noteq> None"
    using newCookieSession_Ok [OF laws(2) new] frame
    by (auto simp: same_but_nonce_def session_keys fmlookup_dom_iff)
  with newCookieSession_Ok [OF laws(2) new] k have "ready A jar' k s"
    by (auto simp: ready_def jar' saved [OF laws(1)] getters_frame [OF frame])
  moreover have "pending A jar' = pending A jar @ [VBytes (sc_json_Text (ae_codec A) (enc_authorize_state state))]"
    by (simp add: jar' saved [OF laws(1)])
  ultimately show ?thesis using that auth k(1) redirect by blast
qed


text \<open>
  C27: a login that was given up spoils the next one: after two logins without a callback in between, the
  callback of the second one exchanges its code with the verifier and the token endpoint of the first one, and
  with the key of the second one.
\<close>

theorem abandoned_login_spoils_next:
  fixes A :: "('j, 'f, 'k, 'i, 'jwk, 'w) auth_env"
  assumes "store_laws (ae_store A)" and "codec_laws (ae_codec A)" and "pending A jar = []"
    and "login_ServeHTTP A D1 key1 form1 jar w = ((jar1, w1), Some out1)" and "rsp_Status out1 = Some StatusSeeOther"
    and "login_ServeHTTP A D2 key2 form2 jar1 w2 = ((jar2, w3), Some out2)" and "rsp_Status out2 = Some StatusSeeOther"
  shows "\<exists>i1 (s01 :: 'f gsession) w01 k1 s1 redirect1 state1 i2 s02 w02 k2 s2 redirect2 state2.
    Authorize (ae_env A) (ae_client A) (NewDpopHttpClient k1 cookie_nonces []) D1 i1 (s01, w01) =
      ((s1, w1), Ok (redirect1, state1)) \<and>
    Authorize (ae_env A) (ae_client A) (NewDpopHttpClient k2 cookie_nonces []) D2 i2 (s02, w02) =
      ((s2, w3), Ok (redirect2, state2)) \<and>
    key2 = Some k2 \<and> out2 = http_Redirect redirect2 StatusSeeOther empty_response \<and>
    exchanges A jar2 k2 s2 state1"
proof -
  obtain i1 s01 w01 k1 s1 redirect1 state1 where first:
    "Authorize (ae_env A) (ae_client A) (NewDpopHttpClient k1 cookie_nonces []) D1 i1 (s01, w01) =
      ((s1, w1), Ok (redirect1, state1))"
    "key1 = Some k1" "out1 = http_Redirect redirect1 StatusSeeOther empty_response" "ready A jar1 k1 s1"
    "pending A jar1 = pending A jar @ [VBytes (sc_json_Text (ae_codec A) (enc_authorize_state state1))]"
    by (rule login_leaves [OF assms(1,2,4,5)])
  obtain i2 s02 w02 k2 s2 redirect2 state2 where second:
    "Authorize (ae_env A) (ae_client A) (NewDpopHttpClient k2 cookie_nonces []) D2 i2 (s02, w02) =
      ((s2, w3), Ok (redirect2, state2))"
    "key2 = Some k2" "out2 = http_Redirect redirect2 StatusSeeOther empty_response" "ready A jar2 k2 s2"
    "pending A jar2 = pending A jar1 @ [VBytes (sc_json_Text (ae_codec A) (enc_authorize_state state2))]"
    by (rule login_leaves [OF assms(1,2,6,7)])
  have "exchanges A jar2 k2 s2 state1"
    by (rule callback_exchanges [OF assms(1,2) second(4)]) (simp add: second(5) first(5) assms(3))
  with first(1) second(1,2,3) show ?thesis by blast
qed

text \<open>
  An instance for the witnesses: a store that keeps flashes under a name of their own, a directory that knows
  everybody, and a network that always answers.
\<close>

datatype flash = Flash "flash session_value list"

definition flashes_of :: "flash gsession \<Rightarrow> flash session_value list" where
  "flashes_of s = (case fmlookup (gs_Values s) ''_flash'' of Some (VOther (Flash fs)) \<Rightarrow> fs | _ \<Rightarrow> [])"

definition map_store :: "(string \<Rightarrow> flash gsession, flash) session_store" where
  "map_store =
     \<lparr>st_New = (\<lambda>n j. (j n, None)), st_Get = (\<lambda>n j. (j n, None)), st_Save = (\<lambda>n s j. (j(n := s), Ok ())),
      st_AddFlash = (\<lambda>v s. put_value ''_flash'' (VOther (Flash (flashes_of s @ [v]))) s),
      st_Flashes = (\<lambda>s. (s\<lparr>gs_Values := fmdrop ''_flash'' (gs_Values s)\<rparr>, flashes_of s))\<rparr>"

lemma map_store_laws: "store_laws map_store"
  by (simp add: store_laws_def map_store_def flashes_of_def put_value_def)

instance json :: countable
  by countable_datatype

definition demo_codec :: "(unit, string) session_codec" where
  "demo_codec =
     \<lparr>sc_MarshalECPrivateKey = (\<lambda>k. Some ''''), sc_ParseECPrivateKey = (\<lambda>b. Some ()),
      sc_MarshalIdentity = Some, sc_UnmarshalIdentity = Some,
      sc_json_Text = (\<lambda>j. replicate (to_nat j) CHR ''x''), sc_json_Parse = (\<lambda>s. Some (from_nat (length s)))\<rparr>"

lemma demo_codec_laws: "codec_laws demo_codec"
  by (simp add: codec_laws_def demo_codec_def)

definition demo_env :: "(unit, string, unit, unit) oauth_env" where
  "demo_env =
     \<lparr>oe_dpop = plain_env
        \<lparr>de_URL_Parse := \<lambda>s. Some \<lparr>u_Scheme = '''', u_Host = '''', u_Path = s, u_RawQuery = ''''\<rparr>,
         de_json_Parse := \<lambda>s. Some (JObj (fmap_of_list [(''authorization_servers'', JArr [JStr ''as''])]))\<rparr>,
      oe_Do = (\<lambda>q w. (w, Ok \<lparr>hs_StatusCode = 201, hs_Header = fmempty, hs_Body = '''', hs_ReadFails = False\<rparr>)),
      oe_Get = (\<lambda>u w. (w, Ok \<lparr>hs_StatusCode = 200, hs_Header = fmempty, hs_Body = '''', hs_ReadFails = False\<rparr>)),
      oe_PDSEndpoint = (\<lambda>i. ''pds''), oe_Handle = (\<lambda>i. i), oe_Public = (\<lambda>j. j),
      oe_SignAssertion = (\<lambda>j c. Some ''''), oe_S256Challenge = (\<lambda>v. v)\<rparr>"

definition demo_auth :: "(string \<Rightarrow> flash gsession, flash, unit, string, unit, unit) auth_env" where
  "demo_auth =
     \<lparr>ae_env = demo_env,
      ae_client = \<lparr>oc_clientId = ''id'', oc_clientUri = '''', oc_redirectUri = '''', oc_secretJwk = ()\<rparr>,
      ae_store = map_store, ae_codec = demo_codec, ae_ParseAtIdentifier = Some,
      ae_Lookup = (\<lambda>a w. (w, Ok a)), ae_atproto_pds = (\<lambda>i. Some ''pds''), ae_DID = (\<lambda>i. i)\<rparr>"

definition demo_draws :: "string \<Rightarrow> oauth_draws" where
  "demo_draws v =
     \<lparr>od_verifier = v, od_stateBytes = Some '''', od_assertionID = '''', od_now1 = 0, od_now2 = 0,
      od_dpop1 = ('''', 0), od_dpop2 = ('''', 0)\<rparr>"

lemma demo_login:
  assumes "fmlookup (gs_Values (jar SessionKeyDpop)) cNonceSessionKey = None"
  shows "\<exists>jar' out. login_ServeHTTP demo_auth (demo_draws v) (Some ()) (Some (\<lambda>k. ''alice'')) jar () =
    ((jar', ()), Some out) \<and> rsp_Status out = Some StatusSeeOther \<and>
    fmlookup (gs_Values (jar' SessionKeyDpop)) cNonceSessionKey = None"
  using assms
  apply (simp add: login_ServeHTTP_def demo_auth_def demo_draws_def demo_env_def plain_env_def demo_codec_def map_store_def
      newCookieSession_def SetDpopKey_def SetIdentity_def SetPDSURL_def GetDpopKey_def get_decoded_def get_bytes_def
      put_value_def session_keys Authorize_def in_world_def fetchOAuthProtectedResource_def mapAuthServerURL_def
      decode_body_def fetchOauthAuthorizationServer_def dec_authorization_server_def dec_field_def
      makePushedAuthorizationRequest_def getClientAssertion_def form_request_def dpop_Do_def dpop_sign_def
      generateClaims_def cookie_nonces_def get_string_def NewDpopHttpClient_def Let_def
      isUseDPopNonceError_def session_Save_def)
  apply (simp add: http_Redirect_def Write_def WriteHeader_def Header_Set_def)
  done

abbreviation no_cookies :: "string \<Rightarrow> flash gsession" where
  "no_cookies \<equiv> \<lambda>n. \<lparr>gs_Values = fmempty\<rparr>"

lemma demo_laws: "store_laws (ae_store demo_auth)" "codec_laws (ae_codec demo_auth)" "pending demo_auth no_cookies = []"
  using map_store_laws demo_codec_laws by (simp_all add: demo_auth_def map_store_def flashes_of_def)


lemma abandoned_login_spoils_next_witness:
  "\<exists>jar1 out1 jar2 out2 i1 (s01 :: flash gsession) w01 k1 s1 redirect1 state1 i2 s02 w02 k2 s2 redirect2 state2.
    login_ServeHTTP demo_auth (demo_draws ''v1'') (Some ()) (Some (\<lambda>k. ''alice'')) no_cookies () =
      ((jar1, ()), Some out1) \<and>
    login_ServeHTTP demo_auth (demo_draws ''v2'') (Some ()) (Some (\<lambda>k. ''alice'')) jar1 () =
      ((jar2, ()), Some out2) \<and>
    Authorize (ae_env demo_auth) (ae_client demo_auth) (NewDpopHttpClient k1 cookie_nonces [])
      (demo_draws ''v1'') i1 (s01, w01) = ((s1, ()), Ok (redirect1, state1)) \<and>
    Authorize (ae_env demo_auth) (ae_client demo_auth) (NewDpopHttpClient k2 cookie_nonces [])
      (demo_draws ''v2'') i2 (s02, w02) = ((s2, ()), Ok (redirect2, state2)) \<and>
    Some () = Some k2 \<and> out2 = http_Redirect redirect2 StatusSeeOther empty_response \<and>
    exchanges demo_auth jar2 k2 s2 state1"
proof -
  obtain jar1 out1 where one: "login_ServeHTTP demo_auth (demo_draws ''v1'') (Some ()) (Some (\<lambda>k. ''alice''))
      no_cookies () = ((jar1, ()), Some out1)" "rsp_Status out1 = Some StatusSeeOther"
    and jar1: "fmlookup (gs_Values (jar1 SessionKeyDpop)) cNonceSessionKey = None"
    using demo_login [of no_cookies "''v1''"] by auto
  obtain jar2 out2 where two: "login_ServeHTTP demo_auth (demo_draws ''v2'') (Some ()) (Some (\<lambda>k. ''alice''))
      jar1 () = ((jar2, ()), Some out2)" "rsp_Status out2 = Some StatusSeeOther"
    using demo_login [of jar1 "''v2''"] jar1 by auto
  from one(1) two(1) abandoned_login_spoils_next [OF demo_laws one two] show ?thesis by blast
qed

section \<open>What the broker forwards\<close>

text \<open>The request for the PDS has the call of the client, and none of its credentials.\<close>

lemma getForwardReq_Ok:
  assumes "getForwardReq A r body s = Ok q"
  shows "hq_Method q = hq_Method r" "u_Path (hq_URL q) = u_Path (hq_URL r)"
    "u_RawQuery (hq_URL q) = u_RawQuery (hq_URL r)" "body = Some (hq_Body q)"
    "fmlookup (hq_Header q) ''Authorization'' = None"
    "\<exists>pds u. GetPDSURL s = Ok (pds, True) \<and> de_URL_Parse (oe_dpop (ae_env A)) pds = Some u \<and>
       u_Host (hq_URL q) = u_Host u"
  using assms
  by (auto simp: getForwardReq_def bind_res_Ok_iff split: res.splits prod.splits bool.splits)

lemma getForwardingDpopClient_Ok:
  assumes "getForwardingDpopClient A htu r s = Ok C"
  shows "dp_nonceProvider C = cookie_nonces"
    "\<exists>k t. GetDpopKey (ae_codec A) s = Ok (Some k) \<and> GetTokenInfo (ae_codec A) s = Ok (Some t) \<and> dp_key C = k \<and>
       opt_AccessToken (dp_opts C) = AccessToken t"
  using assms
  by (auto simp: getForwardingDpopClient_def bind_res_Ok_iff NewDpopHttpClient_def WithAccessToken_def WithHTU_def
      split: res.splits prod.splits bool.splits option.splits if_splits)

text \<open>
  A PDS that demands a nonce is asked on behalf of the client, with its method, path, query and body, and
  with the token of the session, never with the credentials that came with the request; its answer is
  relayed.  But the cookies are not written, so that a nonce learned on the way is lost: with the same
  cookies every later request has to be sent twice again.
\<close>

theorem broker_relays_without_learning:
  assumes "oe_Do (ae_env A) = logged H" and "getCookieSession (ae_store A) jar = Ok s"
    and "getForwardingDpopClient A htu r s = Ok C" and "getForwardReq A r body s = Ok fwd"
    and "signing_laws (oe_dpop (ae_env A)) nonce_of" and "demands (oe_dpop (ae_env A)) H n nonce_of"
    and "GetDpopNonce cookie_nonces s = Ok (m, ok)"
    and "\<And>q w resp. nonce_wanted (oe_dpop (ae_env A)) H q w = None \<Longrightarrow> snd (H q w) = Ok resp \<Longrightarrow>
      hs_StatusCode resp \<noteq> StatusUnauthorized"
  shows "\<exists>w' reqs resp. broker_ServeHTTP A htu D r body jar (w, l) =
      ((jar, (w', l @ reqs)), Some (write_out resp empty_response)) \<and>
    length reqs = (if (if ok then m else '''') = n then 1 else 2) \<and>
    (\<forall>q \<in> set reqs. attempt (oe_dpop (ae_env A)) C fwd q) \<and>
    hq_Method fwd = hq_Method r \<and> u_Path (hq_URL fwd) = u_Path (hq_URL r) \<and>
    u_RawQuery (hq_URL fwd) = u_RawQuery (hq_URL r) \<and> body = Some (hq_Body fwd) \<and>
    (\<exists>t. GetTokenInfo (ae_codec A) s = Ok (Some t) \<and> opt_AccessToken (dp_opts C) = AccessToken t)"
proof -
  let ?E = "oe_dpop (ae_env A)"
  note C = getForwardingDpopClient_Ok [OF assms(3)]
  have store: "nonce_store (dp_nonceProvider C)" by (simp add: C(1) cookie_nonces.nonce_store_axioms)
  obtain s' w' l' x where run: "dpop_Do ?E (logged H) C (fst (bd_first D)) (snd (bd_first D)) fwd (s, (w, l)) =
    ((s', (w', l')), x)" by (metis prod.collapse)
  obtain reqs where reqs: "l' = l @ reqs" "\<forall>q \<in> set reqs. attempt ?E C fwd q"
    using dpop_Do_sends [OF store run] by blast
  note reach = dpop_Do_reaches [OF store assms(5,6) _ run, of m ok, unfolded C(1), OF assms(7)]
  obtain resp where resp: "x = Ok resp" using reach by (auto simp: is_Ok_iff)
  obtain q v where q: "nonce_wanted ?E H q v = None"
    "map_res hs_StatusCode (\<lambda>e. e) x = map_res hs_StatusCode (\<lambda>e. e) (snd (H q v))"
    using reach by blast
  then have "hs_StatusCode resp \<noteq> StatusUnauthorized"
    using assms(8) [OF q(1)] by (cases "snd (H q v)") (auto simp: resp)
  then have "broker_ServeHTTP A htu D r body jar (w, l) =
      ((jar, (w', l @ reqs)), Some (write_out resp empty_response))"
    using run by (simp add: broker_ServeHTTP_def assms(1-4) resp reqs(1))
  moreover have "length reqs = (if (if ok then m else '''') = n then 1 else 2)"
    using reach reqs(1) by (simp split: if_splits)
  ultimately show ?thesis
    using reqs(2) getForwardReq_Ok(1-4) [OF assms(4)] C(2) by blast
qed

definition demo_broker :: "(string \<Rightarrow> flash gsession, flash, unit, string, unit, unit \<times> http_request list) auth_env" where
  "demo_broker =
     \<lparr>ae_env =
        \<lparr>oe_dpop = plain_env\<lparr>de_URL_Parse :=
           \<lambda>s. Some \<lparr>u_Scheme = ''https'', u_Host = s, u_Path = '''', u_RawQuery = ''''\<rparr>\<rparr>,
         oe_Do = logged strict_server, oe_Get = (\<lambda>u w. (w, Err BadURL)), oe_PDSEndpoint = (\<lambda>i. ''pds''),
         oe_Handle = (\<lambda>i. i), oe_Public = (\<lambda>j. j), oe_SignAssertion = (\<lambda>j c. None), oe_S256Challenge = (\<lambda>v. v)\<rparr>,
      ae_client = \<lparr>oc_clientId = ''id'', oc_clientUri = '''', oc_redirectUri = '''', oc_secretJwk = ()\<rparr>,
      ae_store = map_store, ae_codec = demo_codec, ae_ParseAtIdentifier = Some,
      ae_Lookup = (\<lambda>a w. (w, Ok a)), ae_atproto_pds = (\<lambda>i. Some ''pds''), ae_DID = (\<lambda>i. i)\<rparr>"

definition demo_session :: "flash gsession" where
  "demo_session =
     SetTokenInfo demo_codec \<lparr>AccessToken = ''tok'', RefreshToken = '''', Scope = '''', TokenType = '''', ExpiresIn = 0\<rparr>
       (SetPDSURL ''pds'' (put_value cKeySessionKey (VBytes '''') \<lparr>gs_Values = fmempty\<rparr>))"

abbreviation demo_broker_draws :: broker_draws where
  "demo_broker_draws \<equiv>
     \<lparr>bd_first = (('''', 0), ('''', 1)), bd_refresh = demo_draws '''', bd_second = (('''', 2), ('''', 3))\<rparr>"

lemma demo_session_reads:
  "getCookieSession map_store (\<lambda>n. demo_session) = Ok demo_session"
  "GetDpopKey demo_codec demo_session = Ok (Some ())" "GetPDSURL demo_session = Ok (''pds'', True)"
  "GetTokenInfo demo_codec demo_session =
    Ok (Some \<lparr>AccessToken = ''tok'', RefreshToken = '''', Scope = '''', TokenType = '''', ExpiresIn = 0\<rparr>)"
  "GetDpopNonce cookie_nonces demo_session = Ok ('''', False)"
proof -
  show "GetTokenInfo demo_codec demo_session =
      Ok (Some \<lparr>AccessToken = ''tok'', RefreshToken = '''', Scope = '''', TokenType = '''', ExpiresIn = 0\<rparr>)"
    unfolding demo_session_def by (rule session_slot.get_put [OF token_slot [OF demo_codec_laws]]) simp
qed (simp_all add: demo_session_def SetTokenInfo_def SetPDSURL_def put_value_def session_keys getCookieSession_def
    map_store_def GetDpopKey_def GetPDSURL_def get_decoded_def get_bytes_def get_string_def demo_codec_def cookie_nonces_def)

lemma broker_relays_without_learning_witness:
  "\<exists>C fwd w' reqs resp.
    getForwardingDpopClient demo_broker ''https://node'' plain_request demo_session = Ok C \<and>
    getForwardReq demo_broker plain_request (Some '''') demo_session = Ok fwd \<and>
    broker_ServeHTTP demo_broker ''https://node'' demo_broker_draws plain_request (Some '''') (\<lambda>n. demo_session)
      ((), []) = (((\<lambda>n. demo_session), (w', [] @ reqs)), Some (write_out resp empty_response)) \<and>
    length reqs = (if (if False then '''' else '''') = ''n1'' then 1 else 2) \<and>
    (\<forall>q \<in> set reqs. attempt (oe_dpop (ae_env demo_broker)) C fwd q) \<and>
    hq_Method fwd = hq_Method plain_request \<and> u_Path (hq_URL fwd) = u_Path (hq_URL plain_request) \<and>
    u_RawQuery (hq_URL fwd) = u_RawQuery (hq_URL plain_request) \<and> Some '''' = Some (hq_Body fwd) \<and>
    (\<exists>t. GetTokenInfo (ae_codec demo_broker) demo_session = Ok (Some t) \<and>
      opt_AccessToken (dp_opts C) = AccessToken t)"
proof -
  obtain C where C: "getForwardingDpopClient demo_broker ''https://node'' plain_request demo_session = Ok C"
    by (simp add: getForwardingDpopClient_def demo_broker_def demo_session_reads)
  obtain fwd where fwd: "getForwardReq demo_broker plain_request (Some '''') demo_session = Ok fwd"
    by (simp add: getForwardReq_def demo_broker_def demo_session_reads)
  have dpop: "nonce_wanted (oe_dpop (ae_env demo_broker)) strict_server q w =
      (if hdr_Get ''DPoP'' (hq_Header q) = ''n1'' then None else Some ''n1'')" for q w
    by (simp add: demo_broker_def nonce_wanted_def strict_server_def isUseDPopNonceError_def hdr_Get_Set HasPrefix_def)
  have "demands (oe_dpop (ae_env demo_broker)) strict_server ''n1'' (\<lambda>t. t)"
    by (simp add: demands_def dpop) (simp add: strict_server_def)
  moreover have "signing_laws (oe_dpop (ae_env demo_broker)) (\<lambda>t. t)"
    by (simp add: signing_laws_def demo_broker_def plain_env_def)
  moreover have "hs_StatusCode resp \<noteq> StatusUnauthorized"
    if "nonce_wanted (oe_dpop (ae_env demo_broker)) strict_server q w = None" "snd (strict_server q w) = Ok resp" for q w resp
    using that by (auto simp: dpop strict_server_def split: if_splits)
  moreover have "oe_Do (ae_env demo_broker) = logged strict_server" "ae_store demo_broker = map_store"
    by (simp_all add: demo_broker_def)
  ultimately show ?thesis
    using C fwd broker_relays_without_learning [OF _ _ C fwd, of strict_server "\<lambda>n. demo_session" "\<lambda>t. t" "''n1''" "''''" False]
      demo_session_reads(1,5) by metis
qed

end
