(* ===== verification/NodeOAuth.thy ===== *)
theory NodeOAuth
  imports AuthHandlers NodeMain
begin

text \<open>
  The OAuth client of the node: \<open>GetRoutes\<close> of \<open>internal/auth/login_handler.go\<close>, and where its URLs lead through
  the proxy.  The generation of a key from a source of random bytes, and the JSON of the key, are parameters.
\<close>

record 'key json_web_key =
  jw_Key :: 'key
  jw_KeyID :: string
  jw_Algorithm :: string
  jw_Use :: string

text \<open>The source of random bytes is a constant.\<close>

definition key_entropy :: string where
  "key_entropy = concat (replicate 1024 ''hello world'')"

definition auth_client ::
  "(string \<Rightarrow> 'key option) \<Rightarrow> ('key json_web_key \<Rightarrow> 'text option) \<Rightarrow> ('text \<Rightarrow> 'jwk option) \<Rightarrow> node_config
   \<Rightarrow> ('jwk oauth_client, auth_error) res"
where
  "auth_client GenerateKey marshal unmarshal nodeConfig =
     bind_res (ok_or KeyGenerationFailed (GenerateKey key_entropy)) (\<lambda>key.
     bind_res (ok_or BadJSON
       (marshal \<lparr>jw_Key = key, jw_KeyID = ''habitat'', jw_Algorithm = ''ES256'', jw_Use = ''sig''\<rparr>)) (\<lambda>jwk.
       let baseClientURL = ExternalURL nodeConfig in
       NewOAuthClient (baseClientURL @ ''/habitat/api/client-metadata.json'') baseClientURL
         (baseClientURL @ ''/habitat/api/auth-callback'') (unmarshal jwk)))"

lemma auth_client_Ok:
  assumes "auth_client gen marshal unmarshal n = Ok c"
  shows "oc_clientId c = ExternalURL n @ ''/habitat/api'' @ ''/client-metadata.json''"
    and "oc_redirectUri c = ExternalURL n @ ''/habitat/api'' @ ''/auth-callback''"
  using assms by (auto simp: auth_client_def NewOAuthClient_def bind_res_Ok_iff Let_def)

lemma auth_client_key:
  assumes "auth_client gen marshal unmarshal n = Ok c" and "auth_client gen marshal unmarshal m = Ok c'"
  shows "oc_secretJwk c = oc_secretJwk c'"
  using assms by (auto simp: auth_client_def NewOAuthClient_def bind_res_Ok_iff Let_def)



end
