(* ===== verification/OAuthServer.thy ===== *)
theory OAuthServer
  imports AuthHandlers
begin

text \<open>
  The authorization server for apps: \<open>internal/oauthserver\<close>.

  The server is stateless: codes and tokens are encrypted sessions.  The authenticated encryption
  (\<open>nacl/secretbox\<close>), CBOR and the OAuth provider (\<open>ory/fosite\<close>) are parameters; bytes are the characters of
  a string, times are seconds.
\<close>

section \<open>Sessions: session.go\<close>

record auth_session =
  ses_Subject :: string
  ses_ExpiresAt :: int
  ses_DpopKey :: string
  ses_TokenInfo :: "token_response option"
  ses_ClientID :: string
  ses_Scopes :: "string list"
  ses_State :: string
  ses_PKCEChallenge :: string

text \<open>What implements \<open>fosite.Session\<close> here; a type assertion to \<open>authSession\<close> panics on the others.\<close>

datatype fosite_session = AuthSession auth_session | DefaultSession | NilSession

fun as_auth_session :: "fosite_session \<Rightarrow> (auth_session, 'e) res" where
  "as_auth_session (AuthSession s) = Ok s"
| "as_auth_session _ = Panic"

type_synonym form = "(string, string list) fmap"

definition form_Get :: "form \<Rightarrow> string \<Rightarrow> string" where
  "form_Get f k = (case fmlookup f k of Some (v # vs) \<Rightarrow> v | _ \<Rightarrow> '''')"

text \<open>\<open>fosite.Request\<close>.\<close>

record 'jwk requester =
  rq_Client :: "'jwk client_metadata option"
  rq_Session :: fosite_session
  rq_RequestedScope :: "string list"
  rq_Form :: form
  rq_State :: string

definition newAuthorizeSession ::
  "'jwk requester \<Rightarrow> string \<Rightarrow> token_response \<Rightarrow> (auth_session, auth_error) res"
where
  "newAuthorizeSession req dpopKey tokenInfo =
     (case rq_Client req of
        None \<Rightarrow> Panic
      | Some client \<Rightarrow>
          Ok \<lparr>ses_Subject = form_Get (rq_Form req) ''handle'', ses_ExpiresAt = 0, ses_DpopKey = dpopKey,
              ses_TokenInfo = Some tokenInfo, ses_ClientID = ClientId client,
              ses_Scopes = rq_RequestedScope req, ses_State = rq_State req,
              ses_PKCEChallenge = form_Get (rq_Form req) ''code_challenge''\<rparr>)"

definition newAccessTokenSession :: "auth_session \<Rightarrow> auth_session" where
  "newAccessTokenSession s =
     \<lparr>ses_Subject = ses_Subject s, ses_ExpiresAt = 0, ses_DpopKey = ses_DpopKey s,
      ses_TokenInfo = ses_TokenInfo s, ses_ClientID = '''', ses_Scopes = ses_Scopes s, ses_State = '''',
      ses_PKCEChallenge = ''''\<rparr>"

definition GetExpiresAt :: "auth_session \<Rightarrow> int" where "GetExpiresAt s = ses_ExpiresAt s"
definition GetSubject :: "auth_session \<Rightarrow> string" where "GetSubject s = ses_Subject s"
definition GetUsername :: "auth_session \<Rightarrow> string" where "GetUsername s = ses_Subject s"
definition SetExpiresAt :: "int \<Rightarrow> auth_session \<Rightarrow> auth_session" where "SetExpiresAt e s = s\<lparr>ses_ExpiresAt := e\<rparr>"

section \<open>Clients: client.go\<close>

definition cl_GetAudience :: "'jwk client_metadata \<Rightarrow> string list" where "cl_GetAudience c = []"
definition cl_GetGrantTypes :: "'jwk client_metadata \<Rightarrow> string list" where "cl_GetGrantTypes c = GrantTypes c"
definition cl_GetHashedSecret :: "'jwk client_metadata \<Rightarrow> string" where "cl_GetHashedSecret c = ''''"
definition cl_GetID :: "'jwk client_metadata \<Rightarrow> string" where "cl_GetID c = ClientId c"
definition cl_GetRedirectURIs :: "'jwk client_metadata \<Rightarrow> string list" where "cl_GetRedirectURIs c = RedirectUris c"
definition cl_GetResponseTypes :: "'jwk client_metadata \<Rightarrow> string list" where "cl_GetResponseTypes c = ResponseTypes c"
definition cl_GetScopes :: "'jwk client_metadata \<Rightarrow> string list" where "cl_GetScopes c = split_byte CHR '' '' (cm_Scope c)"
definition cl_IsPublic :: "'jwk client_metadata \<Rightarrow> bool" where "cl_IsPublic c = True"

section \<open>Tokens: strategy.go\<close>

text \<open>\<open>Seal\<close> gives the box without the nonce that the code puts in front of it.\<close>

record crypto =
  cr_Encode :: "auth_session \<Rightarrow> string option"
  cr_Decode :: "string \<Rightarrow> auth_session option"
  cr_Seal :: "string \<Rightarrow> string \<Rightarrow> string \<Rightarrow> string"
  cr_Open :: "string \<Rightarrow> string \<Rightarrow> string \<Rightarrow> string option"

record strategy =
  sg_key :: string

definition zero_byte :: char where "zero_byte = char_of (0 :: nat)"

definition newStrategy :: "string \<Rightarrow> strategy" where
  "newStrategy key = \<lparr>sg_key = take 32 (key @ replicate 32 zero_byte)\<rparr>"

text \<open>\<open>nonce\<close> are the 24 bytes that are read at random, \<open>None\<close> when that fails.\<close>

definition encrypt ::
  "crypto \<Rightarrow> strategy \<Rightarrow> string option \<Rightarrow> auth_session \<Rightarrow> (string, auth_error) res"
where
  "encrypt K S nonce data =
     bind_res (ok_or (ValueUndecodable ''session'') (cr_Encode K data)) (\<lambda>b.
     bind_res (ok_or RandomFailed nonce) (\<lambda>nonce.
       Ok (raw_url_encode (nonce @ cr_Seal K (sg_key S) nonce b))))"

text \<open>\<open>decrypt\<close> slices the first 24 bytes without looking at the length.\<close>

definition decrypt_bytes :: "crypto \<Rightarrow> strategy \<Rightarrow> string \<Rightarrow> (string, auth_error) res" where
  "decrypt_bytes K S token =
     bind_res (ok_or NotDecrypted (raw_url_decode token)) (\<lambda>b.
       if length b < 24 then Panic
       else ok_or NotDecrypted (cr_Open K (sg_key S) (take 24 b) (drop 24 b)))"

definition decrypt :: "crypto \<Rightarrow> strategy \<Rightarrow> string \<Rightarrow> (auth_session, auth_error) res" where
  "decrypt K S token =
     bind_res (decrypt_bytes K S token) (\<lambda>d. ok_or (ValueUndecodable ''session'') (cr_Decode K d))"

definition check_token :: "crypto \<Rightarrow> strategy \<Rightarrow> string \<Rightarrow> (unit, auth_error) res" where
  "check_token K S token = bind_res (decrypt_bytes K S token) (\<lambda>d. Ok ())"

definition AccessTokenSignature :: "string \<Rightarrow> string" where "AccessTokenSignature token = token"
definition RefreshTokenSignature :: "string \<Rightarrow> string" where "RefreshTokenSignature token = token"
definition AuthorizeCodeSignature :: "string \<Rightarrow> string" where "AuthorizeCodeSignature token = token"

text \<open>A token is its own signature.\<close>

definition GenerateAccessToken ::
  "crypto \<Rightarrow> strategy \<Rightarrow> string option \<Rightarrow> 'jwk requester \<Rightarrow> (string \<times> string, auth_error) res"
where
  "GenerateAccessToken K S nonce req =
     bind_res (as_auth_session (rq_Session req)) (\<lambda>s.
     bind_res (encrypt K S nonce (newAccessTokenSession s)) (\<lambda>token. Ok (token, token)))"

definition GenerateRefreshToken ::
  "crypto \<Rightarrow> strategy \<Rightarrow> string option \<Rightarrow> 'jwk requester \<Rightarrow> (string \<times> string, auth_error) res"
where
  "GenerateRefreshToken K S nonce req =
     bind_res (as_auth_session (rq_Session req)) (\<lambda>s.
     bind_res (encrypt K S nonce s) (\<lambda>token. Ok (token, token)))"

definition GenerateAuthorizeCode ::
  "crypto \<Rightarrow> strategy \<Rightarrow> string option \<Rightarrow> 'jwk requester \<Rightarrow> (string \<times> string, auth_error) res"
where
  "GenerateAuthorizeCode K S nonce req =
     bind_res (as_auth_session (rq_Session req)) (\<lambda>s.
     bind_res (encrypt K S nonce s) (\<lambda>token. Ok (token, token)))"

definition ValidateAccessToken ::
  "crypto \<Rightarrow> strategy \<Rightarrow> 'jwk requester \<Rightarrow> string \<Rightarrow> (unit, auth_error) res"
where
  "ValidateAccessToken K S req token = check_token K S token"

definition ValidateRefreshToken ::
  "crypto \<Rightarrow> strategy \<Rightarrow> 'jwk requester \<Rightarrow> string \<Rightarrow> (unit, auth_error) res"
where
  "ValidateRefreshToken K S req token = check_token K S token"

definition ValidateAuthorizeCode ::
  "crypto \<Rightarrow> strategy \<Rightarrow> 'jwk requester \<Rightarrow> string \<Rightarrow> (unit, auth_error) res"
where
  "ValidateAuthorizeCode K S req token = check_token K S token"

section \<open>The store: storage.go\<close>

fun dec_bool :: "json option \<Rightarrow> (bool, decode_error) res" where
  "dec_bool None = Ok False"
| "dec_bool (Some JNull) = Ok False"
| "dec_bool (Some (JBool b)) = Ok b"
| "dec_bool (Some _) = Err TypeMismatch"

definition dec_client_metadata ::
  "(json option \<Rightarrow> ('jwk list, decode_error) res) \<Rightarrow> (string, json) fmap
   \<Rightarrow> ('jwk client_metadata, decode_error) res"
where
  "dec_client_metadata dec_jwks m =
     bind_res (dec_field m ''client_name'') (\<lambda>name.
     bind_res (dec_field m ''client_id'') (\<lambda>cid.
     bind_res (dec_field m ''client_uri'') (\<lambda>uri.
     bind_res (dec_field m ''application_type'') (\<lambda>app.
     bind_res (dec_strings (fmlookup m ''grant_types'')) (\<lambda>grants.
     bind_res (dec_field m ''scope'') (\<lambda>scope.
     bind_res (dec_strings (fmlookup m ''response_types'')) (\<lambda>responses.
     bind_res (dec_strings (fmlookup m ''redirect_uris'')) (\<lambda>redirects.
     bind_res (dec_field m ''token_endpoint_auth_method'') (\<lambda>auth_method.
     bind_res (dec_field m ''token_endpoint_auth_signing_alg'') (\<lambda>signer.
     bind_res (dec_bool (fmlookup m ''dpop_bound_access_tokens'')) (\<lambda>bound.
     bind_res (dec_jwks (fmlookup m ''jwks'')) (\<lambda>jwks.
       Ok \<lparr>ClientName = name, ClientId = cid, ClientUri = uri, ApplicationType = app, GrantTypes = grants,
           cm_Scope = scope, ResponseTypes = responses, RedirectUris = redirects,
           TokenEndpointAuthMethod = auth_method, TokenEndpointAuthSigner = signer,
           DpopBoundAccessTokens = bound, Jwks = jwks\<rparr>))))))))))))"

record ('k, 'jwk, 'w, 'm) token_store =
  ts_dpop :: "'k dpop_env"
  ts_Get :: "string \<Rightarrow> 'w \<Rightarrow> 'w \<times> (http_response, auth_error) res"
  ts_dec_jwks :: "json option \<Rightarrow> ('jwk list, decode_error) res"
  ts_memory_SetJWT :: "string \<Rightarrow> int \<Rightarrow> 'm \<Rightarrow> 'm \<times> (unit, auth_error) res"
  ts_strategy :: strategy
  ts_memory :: 'm

definition newStore ::
  "'k dpop_env \<Rightarrow> (string \<Rightarrow> 'w \<Rightarrow> 'w \<times> (http_response, auth_error) res)
   \<Rightarrow> (json option \<Rightarrow> ('jwk list, decode_error) res) \<Rightarrow> (string \<Rightarrow> int \<Rightarrow> 'm \<Rightarrow> 'm \<times> (unit, auth_error) res) \<Rightarrow> 'm
   \<Rightarrow> strategy \<Rightarrow> ('k, 'jwk, 'w, 'm) token_store"
where
  "newStore E get jwks setJWT memory strat =
     \<lparr>ts_dpop = E, ts_Get = get, ts_dec_jwks = jwks, ts_memory_SetJWT = setJWT, ts_strategy = strat,
      ts_memory = memory\<rparr>"

definition ClientAssertionJWTValid ::
  "('k, 'jwk, 'w, 'm) token_store \<Rightarrow> string \<Rightarrow> (unit, auth_error) res"
where
  "ClientAssertionJWTValid T jti = Panic"

text \<open>The status of the answer is not looked at.\<close>

definition GetClient ::
  "('k, 'jwk, 'w, 'm) token_store \<Rightarrow> string \<Rightarrow> 'w \<Rightarrow> 'w \<times> ('jwk client_metadata, auth_error) res"
where
  "GetClient T cid w =
     sbind (ts_Get T cid w) (\<lambda>resp w.
       (w, decode_body (ts_dpop T) (dec_client_metadata (ts_dec_jwks T)) resp))"

definition SetClientAssertionJWT ::
  "string \<Rightarrow> int \<Rightarrow> ('k, 'jwk, 'w, 'm) token_store \<Rightarrow> ('k, 'jwk, 'w, 'm) token_store \<times> (unit, auth_error) res"
where
  "SetClientAssertionJWT jti expiry T =
     (case ts_memory_SetJWT T jti expiry (ts_memory T) of (m, r) \<Rightarrow> (T\<lparr>ts_memory := m\<rparr>, r))"

definition CreateAuthorizeCodeSession ::
  "string \<Rightarrow> 'jwk requester \<Rightarrow> ('k, 'jwk, 'w, 'm) token_store
   \<Rightarrow> ('k, 'jwk, 'w, 'm) token_store \<times> (unit, auth_error) res"
where
  "CreateAuthorizeCodeSession code request T = (T, Ok ())"

definition GetAuthorizeCodeSession ::
  "crypto \<Rightarrow> string \<Rightarrow> ('k, 'jwk, 'w, 'm) token_store \<Rightarrow> 'w \<Rightarrow> 'w \<times> ('jwk requester, auth_error) res"
where
  "GetAuthorizeCodeSession K code T w =
     sbind (w, map_err NotFound (decrypt K (ts_strategy T) code)) (\<lambda>data w.
     sbind (case GetClient T (ses_ClientID data) w of (w, r) \<Rightarrow> (w, map_err NotFound r)) (\<lambda>client w.
       (w, Ok \<lparr>rq_Client = Some client, rq_Session = AuthSession data, rq_RequestedScope = ses_Scopes data,
               rq_Form = fmempty, rq_State = ''''\<rparr>)))"

definition InvalidateAuthorizeCodeSession ::
  "string \<Rightarrow> ('k, 'jwk, 'w, 'm) token_store \<Rightarrow> ('k, 'jwk, 'w, 'm) token_store \<times> (unit, auth_error) res"
where
  "InvalidateAuthorizeCodeSession code T = (T, Ok ())"

definition CreatePKCERequestSession ::
  "string \<Rightarrow> 'jwk requester \<Rightarrow> ('k, 'jwk, 'w, 'm) token_store
   \<Rightarrow> ('k, 'jwk, 'w, 'm) token_store \<times> (unit, auth_error) res"
where
  "CreatePKCERequestSession sig requester T = (T, Ok ())"

definition DeletePKCERequestSession ::
  "string \<Rightarrow> ('k, 'jwk, 'w, 'm) token_store \<Rightarrow> ('k, 'jwk, 'w, 'm) token_store \<times> (unit, auth_error) res"
where
  "DeletePKCERequestSession sig T = (T, Ok ())"

definition GetPKCERequestSession ::
  "string \<Rightarrow> fosite_session \<Rightarrow> ('k, 'jwk, 'w, 'm) token_store \<Rightarrow> ('jwk requester, auth_error) res"
where
  "GetPKCERequestSession sig session T =
     bind_res (as_auth_session session) (\<lambda>s.
       Ok \<lparr>rq_Client = None, rq_Session = NilSession, rq_RequestedScope = [],
           rq_Form = fmap_of_list
             [(''code_challenge'', [ses_PKCEChallenge s]), (''code_challenge_method'', [''S256''])],
           rq_State = ''''\<rparr>)"

definition CreateAccessTokenSession ::
  "string \<Rightarrow> 'jwk requester \<Rightarrow> ('k, 'jwk, 'w, 'm) token_store
   \<Rightarrow> ('k, 'jwk, 'w, 'm) token_store \<times> (unit, auth_error) res"
where
  "CreateAccessTokenSession sig requester T = (T, Ok ())"

definition GetAccessTokenSession ::
  "crypto \<Rightarrow> string \<Rightarrow> ('k, 'jwk, 'w, 'm) token_store \<Rightarrow> ('jwk requester, auth_error) res"
where
  "GetAccessTokenSession K sig T =
     bind_res (map_err NotFound (decrypt K (ts_strategy T) sig)) (\<lambda>sess.
       Ok \<lparr>rq_Client = None, rq_Session = AuthSession sess, rq_RequestedScope = [], rq_Form = fmempty,
           rq_State = ''''\<rparr>)"

definition DeleteAccessTokenSession ::
  "string \<Rightarrow> ('k, 'jwk, 'w, 'm) token_store \<Rightarrow> ('k, 'jwk, 'w, 'm) token_store \<times> (unit, auth_error) res"
where
  "DeleteAccessTokenSession sig T = (T, Ok ())"

definition RevokeAccessToken ::
  "string \<Rightarrow> ('k, 'jwk, 'w, 'm) token_store \<Rightarrow> ('k, 'jwk, 'w, 'm) token_store \<times> (unit, auth_error) res"
where
  "RevokeAccessToken requestID T = (T, Err NotSupported)"

definition CreateRefreshTokenSession ::
  "string \<Rightarrow> string \<Rightarrow> 'jwk requester \<Rightarrow> ('k, 'jwk, 'w, 'm) token_store
   \<Rightarrow> ('k, 'jwk, 'w, 'm) token_store \<times> (unit, auth_error) res"
where
  "CreateRefreshTokenSession sig accessSig request T = (T, Ok ())"

definition DeleteRefreshTokenSession ::
  "string \<Rightarrow> ('k, 'jwk, 'w, 'm) token_store \<Rightarrow> ('k, 'jwk, 'w, 'm) token_store \<times> (unit, auth_error) res"
where
  "DeleteRefreshTokenSession sig T = (T, Ok ())"

text \<open>A nil requester, and no error.\<close>

definition GetRefreshTokenSession ::
  "string \<Rightarrow> ('k, 'jwk, 'w, 'm) token_store \<Rightarrow> ('jwk requester option, auth_error) res"
where
  "GetRefreshTokenSession sig T = Ok None"

definition RotateRefreshToken ::
  "string \<Rightarrow> string \<Rightarrow> ('k, 'jwk, 'w, 'm) token_store
   \<Rightarrow> ('k, 'jwk, 'w, 'm) token_store \<times> (unit, auth_error) res"
where
  "RotateRefreshToken requestID sig T = (T, Ok ())"

definition RevokeRefreshToken ::
  "string \<Rightarrow> ('k, 'jwk, 'w, 'm) token_store \<Rightarrow> ('k, 'jwk, 'w, 'm) token_store \<times> (unit, auth_error) res"
where
  "RevokeRefreshToken requestID T = (T, Err NotSupported)"

section \<open>The server: oauth\_server.go\<close>

text \<open>
  The provider: it parses the requests (\<open>None\<close> is a form that cannot be parsed) and writes the answers.
  A request that is refused comes back with its error.
\<close>

record ('jwk, 'w, 'x) provider_ops =
  pv_NewAuthorizeRequest :: "form option \<Rightarrow> 'w \<Rightarrow> 'w \<times> ('jwk requester \<times> auth_error option)"
  pv_WriteAuthorizeError :: "'jwk requester \<Rightarrow> auth_error \<Rightarrow> auth_response \<Rightarrow> auth_response"
  pv_NewAuthorizeResponse :: "'jwk requester \<Rightarrow> fosite_session \<Rightarrow> 'w \<Rightarrow> 'w \<times> ('x, auth_error) res"
  pv_WriteAuthorizeResponse :: "'jwk requester \<Rightarrow> 'x \<Rightarrow> auth_response \<Rightarrow> auth_response"
  pv_NewAccessRequest :: "form option \<Rightarrow> fosite_session \<Rightarrow> 'w \<Rightarrow> 'w \<times> ('jwk requester \<times> auth_error option)"
  pv_NewAccessResponse :: "'jwk requester \<Rightarrow> 'w \<Rightarrow> 'w \<times> ('x, auth_error) res"
  pv_WriteAccessError :: "'jwk requester \<Rightarrow> auth_error \<Rightarrow> auth_response \<Rightarrow> auth_response"
  pv_WriteAccessResponse :: "'jwk requester \<Rightarrow> 'x \<Rightarrow> auth_response \<Rightarrow> auth_response"
  pv_IntrospectToken :: "string \<Rightarrow> string list \<Rightarrow> 'w \<Rightarrow> 'w \<times> ('jwk requester, auth_error) res"
  pv_WriteIntrospectionError :: "auth_error \<Rightarrow> auth_response \<Rightarrow> auth_response"

text \<open>What a session of a pending authorization holds.\<close>

record auth_request_flash =
  arf_Form :: form
  arf_DpopKey :: string
  arf_AuthorizeState :: authorize_state

definition sessionName :: string where "sessionName = ''auth-session''"

record ('j, 'k, 'i, 'jwk, 'w, 'x) oauth_server =
  os_provider :: "('jwk, 'w, 'x) provider_ops"
  os_sessionStore :: "('j, auth_request_flash) session_store"
  os_env :: "('k, 'i, 'jwk, 'w) oauth_env"
  os_oauthClient :: "'jwk oauth_client"
  os_ParseAtIdentifier :: "string \<Rightarrow> string option"
  os_Lookup :: "string \<Rightarrow> 'w \<Rightarrow> 'w \<times> ('i, auth_error) res"
  os_KeyBytes :: "'k \<Rightarrow> string option"
  os_ParseRawPrivateKey :: "string \<Rightarrow> 'k option"

text \<open>The configuration of the provider: its secret, and the grants that are composed.\<close>

datatype grant = AuthorizeExplicit | RefreshTokenGrant | PKCE | TokenIntrospection

definition server_secret :: string where "server_secret = ''my super secret signing password''"

definition NewOAuthServer ::
  "(string \<Rightarrow> (strategy \<Rightarrow> 't) \<Rightarrow> strategy \<Rightarrow> grant list \<Rightarrow> ('jwk, 'w, 'x) provider_ops) \<Rightarrow> (strategy \<Rightarrow> 't)
   \<Rightarrow> ('k, 'i, 'jwk, 'w) oauth_env \<Rightarrow> 'jwk oauth_client \<Rightarrow> ('j, auth_request_flash) session_store
   \<Rightarrow> (string \<Rightarrow> string option) \<Rightarrow> (string \<Rightarrow> 'w \<Rightarrow> 'w \<times> ('i, auth_error) res)
   \<Rightarrow> ('k \<Rightarrow> string option) \<Rightarrow> (string \<Rightarrow> 'k option) \<Rightarrow> ('j, 'k, 'i, 'jwk, 'w, 'x) oauth_server"
where
  "NewOAuthServer compose new_store env oauthClient sessionStore parse lookup key_bytes parse_key =
     \<lparr>os_provider = compose server_secret new_store (newStrategy server_secret)
        [AuthorizeExplicit, RefreshTokenGrant, PKCE, TokenIntrospection],
      os_sessionStore = sessionStore, os_env = env, os_oauthClient = oauthClient,
      os_ParseAtIdentifier = parse, os_Lookup = lookup, os_KeyBytes = key_bytes,
      os_ParseRawPrivateKey = parse_key\<rparr>"

text \<open>
  \<open>LogAndHTTPError\<close> calls the error's method: a nil error (here \<open>None\<close>) panics.  The result of a handler is
  \<open>None\<close> when it panics.
\<close>

fun log_http_error :: "auth_error option \<Rightarrow> nat \<Rightarrow> auth_response \<Rightarrow> auth_response option" where
  "log_http_error None code w = None"
| "log_http_error (Some e) code w = Some (http_Error (AuthErrorText e) code w)"

definition HandleAuthorize ::
  "('j, 'k, 'i, 'jwk, 'w, 'x) oauth_server \<Rightarrow> oauth_draws \<Rightarrow> 'k option \<Rightarrow> form option \<Rightarrow> 'j \<Rightarrow> 'w
   \<Rightarrow> ('j \<times> 'w) \<times> auth_response option"
where
  "HandleAuthorize S D key form jar w =
     (case pv_NewAuthorizeRequest (os_provider S) form w of
        (w, requester, Some e) \<Rightarrow>
          ((jar, w), Some (pv_WriteAuthorizeError (os_provider S) requester e empty_response))
      | (w, requester, None) \<Rightarrow>
     (case form of
        None \<Rightarrow> ((jar, w), log_http_error None StatusBadRequest empty_response)
      | Some form \<Rightarrow>
     (case os_ParseAtIdentifier S (form_Get form ''handle'') of
        None \<Rightarrow> ((jar, w), log_http_error (Some (ValueUndecodable ''handle'')) StatusBadRequest empty_response)
      | Some atid \<Rightarrow>
     (case os_Lookup S atid w of
        (w, Err e) \<Rightarrow> ((jar, w), log_http_error (Some e) StatusInternalServerError empty_response)
      | (w, Panic) \<Rightarrow> ((jar, w), None)
      | (w, Ok i) \<Rightarrow>
     (case key of
        None \<Rightarrow> ((jar, w), log_http_error (Some KeyGenerationFailed) StatusInternalServerError empty_response)
      | Some dpopKey \<Rightarrow>
     (case Authorize (os_env S) (os_oauthClient S) (NewDpopHttpClient dpopKey nonceProvider []) D i ('''', w) of
        ((n, w), Err e) \<Rightarrow> ((jar, w), log_http_error (Some e) StatusInternalServerError empty_response)
      | ((n, w), Panic) \<Rightarrow> ((jar, w), None)
      | ((n, w), Ok (redirect, state)) \<Rightarrow>
     (case os_KeyBytes S dpopKey of
        None \<Rightarrow> ((jar, w), log_http_error (Some (ValueUndecodable ''key'')) StatusInternalServerError empty_response)
      | Some dpopKeyBytes \<Rightarrow>
          (let authorizeSession = st_AddFlash (os_sessionStore S)
                 (VOther \<lparr>arf_Form = rq_Form requester, arf_DpopKey = dpopKeyBytes, arf_AuthorizeState = state\<rparr>)
                 (fst (st_New (os_sessionStore S) sessionName jar)) in
     (case st_Save (os_sessionStore S) sessionName authorizeSession jar of
        (jar, Err e) \<Rightarrow> ((jar, w), log_http_error (Some e) StatusInternalServerError empty_response)
      | (jar, Panic) \<Rightarrow> ((jar, w), None)
      | (jar, Ok _) \<Rightarrow> ((jar, w), Some (http_Redirect redirect StatusSeeOther empty_response)))))))))))"

text \<open>
  The callback: the form of the pending request is printed into a URL and parsed again, which gives the
  same form.  The error of saving the session without its flashes is ignored.
\<close>

definition HandleCallback ::
  "('j, 'k, 'i, 'jwk, 'w, 'x) oauth_server \<Rightarrow> oauth_draws \<Rightarrow> (string \<Rightarrow> string) \<Rightarrow> 'j \<Rightarrow> 'w
   \<Rightarrow> ('j \<times> 'w) \<times> auth_response option"
where
  "HandleCallback S D query jar0 w =
     (case st_Get (os_sessionStore S) sessionName jar0 of
        (_, Some e) \<Rightarrow> ((jar0, w), log_http_error (Some e) StatusInternalServerError empty_response)
      | (authorizeSession, None) \<Rightarrow>
     (case st_Flashes (os_sessionStore S) authorizeSession of (authorizeSession, flashes) \<Rightarrow>
     (let jar = fst (st_Save (os_sessionStore S) sessionName authorizeSession jar0) in
     (case flashes of
        VOther arf # _ \<Rightarrow>
     (case pv_NewAuthorizeRequest (os_provider S) (Some (arf_Form arf)) w of
        (w, authRequest, Some e) \<Rightarrow> ((jar, w), log_http_error (Some e) StatusBadRequest empty_response)
      | (w, authRequest, None) \<Rightarrow>
     (case os_ParseRawPrivateKey S (arf_DpopKey arf) of
        None \<Rightarrow> ((jar, w), log_http_error (Some (ValueUndecodable ''key'')) StatusBadRequest empty_response)
      | Some dpopKey \<Rightarrow>
     (case ExchangeCode (os_env S) (os_oauthClient S) (NewDpopHttpClient dpopKey nonceProvider []) D
         (query ''code'') (query ''iss'') (arf_AuthorizeState arf) ('''', w) of
        ((n, w), Err e) \<Rightarrow> ((jar, w), log_http_error (Some e) StatusInternalServerError empty_response)
      | ((n, w), Panic) \<Rightarrow> ((jar, w), None)
      | ((n, w), Ok tokenInfo) \<Rightarrow>
     (case newAuthorizeSession authRequest (arf_DpopKey arf) tokenInfo of
        Ok session \<Rightarrow>
     (case pv_NewAuthorizeResponse (os_provider S) authRequest (AuthSession session) w of
        (w, Err e) \<Rightarrow> ((jar, w), log_http_error (Some e) StatusInternalServerError empty_response)
      | (w, Panic) \<Rightarrow> ((jar, w), None)
      | (w, Ok resp) \<Rightarrow>
          ((jar, w), Some (pv_WriteAuthorizeResponse (os_provider S) authRequest resp empty_response)))
      | _ \<Rightarrow> ((jar, w), None)))))
      | _ \<Rightarrow> ((jar, w), log_http_error None StatusBadRequest empty_response)))))"

definition HandleToken ::
  "('j, 'k, 'i, 'jwk, 'w, 'x) oauth_server \<Rightarrow> string \<Rightarrow> form option \<Rightarrow> 'w \<Rightarrow> 'w \<times> auth_response option"
where
  "HandleToken S origin form w =
     (let out = Header_Set ''Access-Control-Allow-Origin'' origin empty_response in
     (case pv_NewAccessRequest (os_provider S) form DefaultSession w of
        (w, req, Some e) \<Rightarrow> (w, Some (pv_WriteAccessError (os_provider S) req e out))
      | (w, req, None) \<Rightarrow>
     (case pv_NewAccessResponse (os_provider S) req w of
        (w, Err e) \<Rightarrow> (w, Some (pv_WriteAccessError (os_provider S) req e out))
      | (w, Panic) \<Rightarrow> (w, None)
      | (w, Ok resp) \<Rightarrow> (w, Some (pv_WriteAccessResponse (os_provider S) req resp out)))))"

definition HandleClientMetadata ::
  "('jwk client_metadata \<Rightarrow> json) \<Rightarrow> ('j, 'k, 'i, 'jwk, 'w, 'x) oauth_server \<Rightarrow> auth_response"
where
  "HandleClientMetadata enc S =
     Write (JsonText (enc (ClientMetadata (os_env S) (os_oauthClient S))))
       (Header_Set ''Content-Type'' ''application/json'' empty_response)"

text \<open>
  \<open>Validate\<close>: the third component of the result is the DID and the client for the PDS.  The result is a panic
  when the session is another one than the code expects or has no token.
\<close>

definition os_Validate ::
  "('j, 'k, 'i, 'jwk, 'w, 'x) oauth_server \<Rightarrow> auth_response \<Rightarrow> string \<Rightarrow> string list \<Rightarrow> 'w
   \<Rightarrow> 'w \<times> (auth_response \<times> (string \<times> ('k, string) dpop_client) option, auth_error) res"
where
  "os_Validate S out token scopes w =
     (case pv_IntrospectToken (os_provider S) token scopes w of
        (w, Err e) \<Rightarrow> (w, Ok (pv_WriteIntrospectionError (os_provider S) e out, None))
      | (w, Panic) \<Rightarrow> (w, Panic)
      | (w, Ok ar) \<Rightarrow>
          (w, bind_res (as_auth_session (rq_Session ar)) (\<lambda>session.
            (case os_ParseRawPrivateKey S (ses_DpopKey session) of
               None \<Rightarrow> Ok (http_Error (AuthErrorText (ValueUndecodable ''key'')) StatusBadRequest out, None)
             | Some dpopKey \<Rightarrow>
                 (case ses_TokenInfo session of
                    None \<Rightarrow> Panic
                  | Some tokenInfo \<Rightarrow>
                      Ok (out, Some (ses_Subject session,
                        NewDpopHttpClient dpopKey nonceProvider [WithAccessToken (AccessToken tokenInfo)])))))))"

section \<open>What codes and tokens carry\<close>

text \<open>
  The documented behaviour of the encryption: a decoder reads what the encoder wrote, and a box opens under
  a key and a nonce to the text that was sealed under them, and to nothing else.
\<close>

definition crypto_laws :: "crypto \<Rightarrow> bool" where
  "crypto_laws K \<longleftrightarrow>
     (\<forall>s b. cr_Encode K s = Some b \<longrightarrow> cr_Decode K b = Some s) \<and>
     (\<forall>k n m c. cr_Open K k n c = Some m \<longleftrightarrow> c = cr_Seal K k n m)"

lemma sealed_opens [simp]: "crypto_laws K \<Longrightarrow> cr_Open K k n (cr_Seal K k n m) = Some m"
  by (simp add: crypto_laws_def)

lemma decrypt_bytes_Ok_iff:
  assumes "crypto_laws K"
  shows "decrypt_bytes K S t = Ok m \<longleftrightarrow>
    (\<exists>nonce. length nonce = 24 \<and> raw_url_decode t = Some (nonce @ cr_Seal K (sg_key S) nonce m))"
proof
  assume "decrypt_bytes K S t = Ok m"
  then obtain b where b: "raw_url_decode t = Some b" "\<not> length b < 24"
    and "cr_Open K (sg_key S) (take 24 b) (drop 24 b) = Some m"
    by (auto simp: decrypt_bytes_def bind_res_Ok_iff split: if_splits)
  then have "drop 24 b = cr_Seal K (sg_key S) (take 24 b) m" using assms by (simp add: crypto_laws_def)
  with b show "\<exists>nonce. length nonce = 24 \<and> raw_url_decode t = Some (nonce @ cr_Seal K (sg_key S) nonce m)"
    by (intro exI [of _ "take 24 b"]) (metis append_take_drop_id length_take min_absorb2 not_le_imp_less)
qed (use assms in \<open>auto simp: decrypt_bytes_def\<close>)

lemma encrypted_opens:
  assumes "crypto_laws K" and "encrypt K S (Some nonce) s = Ok t" and "length nonce = 24"
  shows "decrypt K S t = Ok s" and "check_token K S t = Ok ()"
proof -
  obtain b where b: "cr_Encode K s = Some b" "t = raw_url_encode (nonce @ cr_Seal K (sg_key S) nonce b)"
    using assms(2) by (auto simp: encrypt_def bind_res_Ok_iff)
  then have "decrypt_bytes K S t = Ok b" using assms by (auto simp: decrypt_bytes_Ok_iff)
  moreover have "cr_Decode K b = Some s" using b assms(1) by (simp add: crypto_laws_def)
  ultimately show "decrypt K S t = Ok s" "check_token K S t = Ok ()"
    by (simp_all add: decrypt_def check_token_def)
qed

text \<open>An instance for the witnesses: an encoder for two sessions, and a box that shows what it holds.\<close>

definition demo_token :: token_response where
  "demo_token = \<lparr>AccessToken = ''tok'', RefreshToken = '''', Scope = '''', TokenType = '''', ExpiresIn = 0\<rparr>"

definition demo_ses :: auth_session where
  "demo_ses =
     \<lparr>ses_Subject = ''alice'', ses_ExpiresAt = 0, ses_DpopKey = ''key'', ses_TokenInfo = Some demo_token,
      ses_ClientID = ''app'', ses_Scopes = [''a''], ses_State = '''', ses_PKCEChallenge = ''ch''\<rparr>"

definition demo_crypto :: crypto where
  "demo_crypto =
     \<lparr>cr_Encode = (\<lambda>s. if s = demo_ses then Some ''0'' else if s = newAccessTokenSession demo_ses then Some ''1'' else None),
      cr_Decode = (\<lambda>b. if b = ''0'' then Some demo_ses else if b = ''1'' then Some (newAccessTokenSession demo_ses) else None),
      cr_Seal = (\<lambda>k n m. k @ n @ m),
      cr_Open = (\<lambda>k n c. if take (length (k @ n)) c = k @ n then Some (drop (length (k @ n)) c) else None)\<rparr>"

abbreviation demo_nonce :: string where "demo_nonce \<equiv> replicate 24 CHR ''n''"

lemma demo_crypto_laws: "crypto_laws demo_crypto"
proof -
  have "take (length (k @ n)) c = k @ n \<and> drop (length (k @ n)) c = m \<longleftrightarrow> c = k @ n @ m" for k n c m :: string
    by (metis append.assoc append_eq_conv_conj)
  then show ?thesis by (auto simp: crypto_laws_def demo_crypto_def split: if_splits)
qed

lemma demo_encrypt:
  "\<exists>t. encrypt demo_crypto (newStrategy ''k'') (Some demo_nonce) demo_ses = Ok t"
  "\<exists>t. encrypt demo_crypto (newStrategy ''k'') (Some demo_nonce) (newAccessTokenSession demo_ses) = Ok t"
  by (simp_all add: encrypt_def demo_crypto_def)

text \<open>
  C28: a token that the server makes opens to the session it was made for, and a token that opens was sealed
  under the key of the server: its text is the encoding of a nonce and a box for a session.
\<close>

theorem token_opens_iff_sealed:
  assumes "crypto_laws K"
  shows "(encrypt K S (Some nonce) s = Ok t \<longrightarrow> length nonce = 24 \<longrightarrow> decrypt K S t = Ok s) \<and>
    (decrypt K S t' = Ok s' \<longleftrightarrow>
       (\<exists>nonce b. length nonce = 24 \<and> raw_url_decode t' = Some (nonce @ cr_Seal K (sg_key S) nonce b) \<and>
          cr_Decode K b = Some s'))"
  using encrypted_opens(1) [OF assms]
  by (auto simp: decrypt_def bind_res_Ok_iff decrypt_bytes_Ok_iff [OF assms])

lemma token_opens_iff_sealed_witness:
  "\<exists>t. encrypt demo_crypto (newStrategy ''k'') (Some demo_nonce) demo_ses = Ok t \<and>
    decrypt demo_crypto (newStrategy ''k'') t = Ok demo_ses \<and>
    (\<exists>nonce b. length nonce = 24 \<and> cr_Decode demo_crypto b = Some demo_ses \<and>
       raw_url_decode t = Some (nonce @ cr_Seal demo_crypto (sg_key (newStrategy ''k'')) nonce b))"
proof -
  obtain t where t: "encrypt demo_crypto (newStrategy ''k'') (Some demo_nonce) demo_ses = Ok t"
    using demo_encrypt(1) by blast
  have "length demo_nonce = 24" by simp
  with t have "decrypt demo_crypto (newStrategy ''k'') t = Ok demo_ses"
    using token_opens_iff_sealed [OF demo_crypto_laws, of "newStrategy ''k''" demo_nonce demo_ses t t demo_ses] by blast
  with t show ?thesis
    using token_opens_iff_sealed [OF demo_crypto_laws, of "newStrategy ''k''" demo_nonce demo_ses t t demo_ses] by blast
qed

lemma short_token_panics: "raw_url_decode t = Some b \<Longrightarrow> length b < 24 \<Longrightarrow> decrypt K S t = Panic"
  by (simp add: decrypt_def decrypt_bytes_def)

text \<open>
  The documented behaviour of the introspection, when no scopes are asked for: a token whose session the store
  finds and the strategy validates is answered with that request.
\<close>

definition introspects ::
  "crypto \<Rightarrow> ('jwk, 'w, 'x) provider_ops \<Rightarrow> ('k, 'jwk, 'w, 'm) token_store \<Rightarrow> bool"
where
  "introspects K P T \<longleftrightarrow>
     (\<forall>t w req. GetAccessTokenSession K t T = Ok req \<longrightarrow> ValidateAccessToken K (ts_strategy T) req t = Ok () \<longrightarrow>
        pv_IntrospectToken P t [] w = (w, Ok req))"

lemma validate_opened:
  assumes "introspects K (os_provider S) T" and "decrypt K (ts_strategy T) t = Ok s"
    and "check_token K (ts_strategy T) t = Ok ()"
    and "os_ParseRawPrivateKey S (ses_DpopKey s) = Some k" and "ses_TokenInfo s = Some tok"
  shows "os_Validate S out t [] w = (w, Ok (out, Some (ses_Subject s,
    NewDpopHttpClient k nonceProvider [WithAccessToken (AccessToken tok)])))"
proof -
  have "pv_IntrospectToken (os_provider S) t [] w =
      (w, Ok \<lparr>rq_Client = None, rq_Session = AuthSession s, rq_RequestedScope = [], rq_Form = fmempty, rq_State = ''''\<rparr>)"
    using assms(1-3) unfolding introspects_def by (simp add: GetAccessTokenSession_def ValidateAccessToken_def)
  with assms(4,5) show ?thesis by (simp add: os_Validate_def)
qed

text \<open>
  An access token is accepted for the user, with the DPoP key and the PDS token of its session, whatever
  its time of expiry.  So is a refresh token, and so is an authorization code: the three are not told apart.
\<close>

theorem every_token_is_an_access_token:
  assumes "crypto_laws K" and "introspects K (os_provider S) T" and "length nonce = 24"
    and "rq_Session req = AuthSession s"
    and "GenerateAccessToken K (ts_strategy T) (Some nonce) req = Ok (t, sig) \<or>
      GenerateRefreshToken K (ts_strategy T) (Some nonce) req = Ok (t, sig) \<or>
      GenerateAuthorizeCode K (ts_strategy T) (Some nonce) req = Ok (t, sig)"
    and "os_ParseRawPrivateKey S (ses_DpopKey s) = Some k" and "ses_TokenInfo s = Some tok"
  shows "os_Validate S out t [] w = (w, Ok (out, Some (ses_Subject s,
    NewDpopHttpClient k nonceProvider [WithAccessToken (AccessToken tok)])))"
proof -
  obtain s' where s': "encrypt K (ts_strategy T) (Some nonce) s' = Ok t" "s' = s \<or> s' = newAccessTokenSession s"
    using assms(4,5)
    by (auto simp: GenerateAccessToken_def GenerateRefreshToken_def GenerateAuthorizeCode_def bind_res_Ok_iff)
  then have "ses_DpopKey s' = ses_DpopKey s" "ses_TokenInfo s' = ses_TokenInfo s" "ses_Subject s' = ses_Subject s"
    by (auto simp: newAccessTokenSession_def)
  with validate_opened [OF assms(2) encrypted_opens [OF assms(1) s'(1) assms(3)], of k tok] assms(6,7)
  show ?thesis by simp
qed

text \<open>
  C29: a code carries the authorization: at the token endpoint it gives the client, the scopes and the PKCE
  challenge of the request it was made for, and the access token made from it belongs to the handle, the DPoP
  key and the PDS token of that authorization.  It does so after it was invalidated, too.
\<close>

theorem code_carries_authorization:
  assumes "crypto_laws K" and "newAuthorizeSession req key tok = Ok s" and "rq_Client req = Some c"
    and "GenerateAuthorizeCode K (ts_strategy T) (Some n1) (req\<lparr>rq_Session := AuthSession s\<rparr>) = Ok (code, sg1)"
    and "length n1 = 24" and "length n2 = 24" and "GetClient T (ClientId c) w = (w', Ok c')"
  shows "\<exists>r p. GetAuthorizeCodeSession K code (fst (InvalidateAuthorizeCodeSession code T)) w = (w', Ok r) \<and>
    rq_Client r = Some c' \<and> rq_RequestedScope r = rq_RequestedScope req \<and>
    GetPKCERequestSession code (rq_Session r) T = Ok p \<and>
    form_Get (rq_Form p) ''code_challenge'' = form_Get (rq_Form req) ''code_challenge'' \<and>
    (\<forall>token sg2. GenerateAccessToken K (ts_strategy T) (Some n2) r = Ok (token, sg2) \<longrightarrow>
       (\<exists>a s2. GetAccessTokenSession K token T = Ok a \<and> rq_Session a = AuthSession s2 \<and>
          ses_Subject s2 = form_Get (rq_Form req) ''handle'' \<and> ses_DpopKey s2 = key \<and>
          ses_TokenInfo s2 = Some tok \<and> ses_Scopes s2 = rq_RequestedScope req))"
proof -
  have s: "ses_Subject s = form_Get (rq_Form req) ''handle''" "ses_DpopKey s = key" "ses_TokenInfo s = Some tok"
    "ses_ClientID s = ClientId c" "ses_Scopes s = rq_RequestedScope req"
    "ses_PKCEChallenge s = form_Get (rq_Form req) ''code_challenge''"
    using assms(2,3) by (auto simp: newAuthorizeSession_def)
  have "encrypt K (ts_strategy T) (Some n1) s = Ok code"
    using assms(4) by (auto simp: GenerateAuthorizeCode_def bind_res_Ok_iff)
  then have code: "decrypt K (ts_strategy T) code = Ok s" by (rule encrypted_opens(1) [OF assms(1) _ assms(5)])
  have token: "GetAccessTokenSession K token T = Ok \<lparr>rq_Client = None, rq_Session = AuthSession (newAccessTokenSession s),
      rq_RequestedScope = [], rq_Form = fmempty, rq_State = ''''\<rparr>"
    if "encrypt K (ts_strategy T) (Some n2) (newAccessTokenSession s) = Ok token" for token
    using encrypted_opens(1) [OF assms(1) that assms(6)] by (simp add: GetAccessTokenSession_def)
  show ?thesis
    by (auto simp: GetAuthorizeCodeSession_def InvalidateAuthorizeCodeSession_def code s assms(7)
        GetPKCERequestSession_def form_Get_def GenerateAccessToken_def bind_res_Ok_iff token newAccessTokenSession_def)
qed

text \<open>A provider that does what is documented, a store and a server over it, for the witnesses.\<close>

definition demo_store :: "(unit, unit, unit, unit) token_store" where
  "demo_store =
     newStore (plain_env\<lparr>de_json_Parse := \<lambda>s. Some (JObj (fmap_of_list [(''client_id'', JStr ''app'')]))\<rparr>)
       (\<lambda>u w. (w, Ok \<lparr>hs_StatusCode = 200, hs_Header = fmempty, hs_Body = '''', hs_ReadFails = False\<rparr>))
       (\<lambda>j. Ok []) (\<lambda>j e m. (m, Ok ())) () (newStrategy ''k'')"

definition demo_request :: "unit requester" where
  "demo_request =
     \<lparr>rq_Client = Some \<lparr>ClientName = '''', ClientId = ''app'', ClientUri = '''', ApplicationType = '''',
        GrantTypes = [], cm_Scope = '''', ResponseTypes = [], RedirectUris = [], TokenEndpointAuthMethod = '''',
        TokenEndpointAuthSigner = '''', DpopBoundAccessTokens = False, Jwks = []\<rparr>,
      rq_Session = AuthSession demo_ses, rq_RequestedScope = [''a''],
      rq_Form = fmap_of_list [(''handle'', [''alice'']), (''code_challenge'', [''ch''])], rq_State = ''''\<rparr>"

definition demo_provider :: "(unit, unit, unit) provider_ops" where
  "demo_provider =
     \<lparr>pv_NewAuthorizeRequest = (\<lambda>f w. (w, demo_request, None)), pv_WriteAuthorizeError = (\<lambda>r e out. out),
      pv_NewAuthorizeResponse = (\<lambda>r s w. (w, Ok ())), pv_WriteAuthorizeResponse = (\<lambda>r x out. out),
      pv_NewAccessRequest = (\<lambda>f s w. (w, demo_request, None)), pv_NewAccessResponse = (\<lambda>r w. (w, Ok ())),
      pv_WriteAccessError = (\<lambda>r e out. out), pv_WriteAccessResponse = (\<lambda>r x out. out),
      pv_IntrospectToken = (\<lambda>t scopes w. (w, bind_res (GetAccessTokenSession demo_crypto t demo_store) (\<lambda>req.
        bind_res (ValidateAccessToken demo_crypto (ts_strategy demo_store) req t) (\<lambda>u. Ok req)))),
      pv_WriteIntrospectionError = (\<lambda>e out. out)\<rparr>"

definition demo_server :: "(unit, string, string, unit, unit, unit) oauth_server" where
  "demo_server =
     \<lparr>os_provider = demo_provider,
      os_sessionStore =
        \<lparr>st_New = (\<lambda>n j. (\<lparr>gs_Values = fmempty\<rparr>, None)), st_Get = (\<lambda>n j. (\<lparr>gs_Values = fmempty\<rparr>, None)),
         st_Save = (\<lambda>n s j. (j, Ok ())), st_AddFlash = (\<lambda>v s. s), st_Flashes = (\<lambda>s. (s, []))\<rparr>,
      os_env =
        \<lparr>oe_dpop = \<lparr>de_Signed = (\<lambda>k c. None), de_sha256 = (\<lambda>s. s), de_URL_String = u_Path,
           de_URL_Parse = (\<lambda>s. None), de_json_Parse = (\<lambda>s. None)\<rparr>,
         oe_Do = (\<lambda>q w. (w, Err BadURL)), oe_Get = (\<lambda>u w. (w, Err BadURL)), oe_PDSEndpoint = (\<lambda>i. i),
         oe_Handle = (\<lambda>i. i), oe_Public = (\<lambda>j. j), oe_SignAssertion = (\<lambda>j c. None), oe_S256Challenge = (\<lambda>v. v)\<rparr>,
      os_oauthClient = \<lparr>oc_clientId = '''', oc_clientUri = '''', oc_redirectUri = '''', oc_secretJwk = ()\<rparr>,
      os_ParseAtIdentifier = Some, os_Lookup = (\<lambda>a w. (w, Ok a)), os_KeyBytes = Some,
      os_ParseRawPrivateKey = Some\<rparr>"

lemma demo_introspects: "introspects demo_crypto (os_provider demo_server) demo_store"
  by (auto simp: introspects_def demo_server_def demo_provider_def)

lemma demo_strategy [simp]: "ts_strategy demo_store = newStrategy ''k''"
  by (simp add: demo_store_def newStore_def)

lemma every_token_is_an_access_token_witness:
  "\<exists>code. GenerateAuthorizeCode demo_crypto (ts_strategy demo_store) (Some demo_nonce) demo_request = Ok (code, code) \<and>
    os_Validate demo_server empty_response code [] () = ((), Ok (empty_response, Some (ses_Subject demo_ses,
      NewDpopHttpClient ''key'' nonceProvider [WithAccessToken (AccessToken demo_token)])))"
proof -
  obtain t where "encrypt demo_crypto (newStrategy ''k'') (Some demo_nonce) demo_ses = Ok t"
    using demo_encrypt(1) by blast
  then have code: "GenerateAuthorizeCode demo_crypto (ts_strategy demo_store) (Some demo_nonce) demo_request = Ok (t, t)"
    by (simp add: GenerateAuthorizeCode_def demo_request_def)
  have "rq_Session demo_request = AuthSession demo_ses" by (simp add: demo_request_def)
  moreover have "os_ParseRawPrivateKey demo_server (ses_DpopKey demo_ses) = Some ''key''"
    by (simp add: demo_server_def demo_ses_def)
  moreover have "ses_TokenInfo demo_ses = Some demo_token" by (simp add: demo_ses_def)
  ultimately show ?thesis
    using code every_token_is_an_access_token [OF demo_crypto_laws demo_introspects, of demo_nonce demo_request demo_ses t t]
    by (intro exI [of _ t] conjI code) simp
qed

lemma demo_client: "\<exists>c. GetClient demo_store ''app'' () = ((), Ok c)"
  by (simp add: GetClient_def demo_store_def newStore_def decode_body_def dec_client_metadata_def dec_field_def)

lemma code_carries_authorization_witness:
  "\<exists>code c' r p. GetAuthorizeCodeSession demo_crypto code (fst (InvalidateAuthorizeCodeSession code demo_store)) () =
      ((), Ok r) \<and>
    rq_Client r = Some c' \<and> rq_RequestedScope r = rq_RequestedScope demo_request \<and>
    GetPKCERequestSession code (rq_Session r) demo_store = Ok p \<and>
    form_Get (rq_Form p) ''code_challenge'' = form_Get (rq_Form demo_request) ''code_challenge'' \<and>
    (\<forall>token sg2. GenerateAccessToken demo_crypto (ts_strategy demo_store) (Some demo_nonce) r = Ok (token, sg2) \<longrightarrow>
       (\<exists>a s2. GetAccessTokenSession demo_crypto token demo_store = Ok a \<and> rq_Session a = AuthSession s2 \<and>
          ses_Subject s2 = form_Get (rq_Form demo_request) ''handle'' \<and> ses_DpopKey s2 = ''key'' \<and>
          ses_TokenInfo s2 = Some demo_token \<and> ses_Scopes s2 = rq_RequestedScope demo_request))"
proof -
  obtain t where t: "encrypt demo_crypto (newStrategy ''k'') (Some demo_nonce) demo_ses = Ok t"
    using demo_encrypt(1) by blast
  obtain c where c: "rq_Client demo_request = Some c" "ClientId c = ''app''" by (simp add: demo_request_def)
  obtain c' where c': "GetClient demo_store (ClientId c) () = ((), Ok c')" using demo_client c(2) by auto
  have new: "newAuthorizeSession demo_request ''key'' demo_token = Ok demo_ses"
    by (simp add: newAuthorizeSession_def demo_request_def demo_ses_def form_Get_def)
  have "GenerateAuthorizeCode demo_crypto (ts_strategy demo_store) (Some demo_nonce)
      (demo_request\<lparr>rq_Session := AuthSession demo_ses\<rparr>) = Ok (t, t)"
    using t by (simp add: GenerateAuthorizeCode_def)
  from code_carries_authorization [OF demo_crypto_laws new c(1) this _ _ c', of demo_nonce] show ?thesis by auto
qed

end
