(* ===== verification/PriviMain.thy ===== *)
theory PriviMain
  imports Privi OAuthServer FileSystem
begin

text \<open>
  The private data server as a program: \<open>cmd/privi/main.go\<close> and \<open>cmd/privi/flags.go\<close>, which put together the
  repository, the permission store and the authorization server.

  \<open>log.Fatal\<close> ends the program: it is an error of the setup.  What the libraries give (\<open>urfave/cli\<close>, gorm,
  \<open>go-jose\<close>) is a parameter.  The multiplexer of \<open>net/http\<close> is modelled for the patterns used here, which have
  no method, no wildcard and no trailing slash, and for paths without percent escapes.
\<close>

section \<open>Flags\<close>

text \<open>A flag with its default; \<open>fl_Sources\<close>: its value may come from the environment and a profile.\<close>

record flag =
  fl_Name :: string
  fl_Required :: bool
  fl_Value :: "string option"
  fl_Sources :: bool

definition cDebug :: string where "cDebug = ''debug''"
definition cDomain :: string where "cDomain = ''domain''"
definition cDb :: string where "cDb = ''db''"
definition cPort :: string where "cPort = ''port''"
definition cHttpsCerts :: string where "cHttpsCerts = ''httpscerts''"
definition cKeyFile :: string where "cKeyFile = ''keyfile''"
definition cPgUrl :: string where "cPgUrl = ''pgurl''"

text \<open>The flags, and the groups of which only one may be set.\<close>

definition getFlags :: "flag list \<times> flag list list" where
  "getFlags =
     ([\<lparr>fl_Name = cDebug, fl_Required = False, fl_Value = None, fl_Sources = True\<rparr>,
       \<lparr>fl_Name = ''profile'', fl_Required = False, fl_Value = None, fl_Sources = False\<rparr>,
       \<lparr>fl_Name = cDomain, fl_Required = True, fl_Value = None, fl_Sources = True\<rparr>,
       \<lparr>fl_Name = cPort, fl_Required = False, fl_Value = Some ''8000'', fl_Sources = True\<rparr>,
       \<lparr>fl_Name = cHttpsCerts, fl_Required = False, fl_Value = None, fl_Sources = True\<rparr>,
       \<lparr>fl_Name = cKeyFile, fl_Required = False, fl_Value = Some ''./key.jwk'', fl_Sources = True\<rparr>],
      [[\<lparr>fl_Name = cDb, fl_Required = False, fl_Value = Some ''./repo.db'', fl_Sources = True\<rparr>],
       [\<lparr>fl_Name = cPgUrl, fl_Required = False, fl_Value = None, fl_Sources = True\<rparr>]])"

text \<open>A chain of sources gives the value of the first one that has one.\<close>

fun chain_Lookup :: "(unit \<Rightarrow> string option) list \<Rightarrow> string option" where
  "chain_Lookup [] = None"
| "chain_Lookup (s # ss) = (case s () of Some v \<Rightarrow> Some v | None \<Rightarrow> chain_Lookup ss)"

text \<open>\<open>yaml file name\<close>: the value of a name in a profile.  Every round of the loop points to \<open>profiles[0]\<close>.\<close>

definition profilesSource_Lookup :: "(string \<Rightarrow> string \<Rightarrow> string option) \<Rightarrow> string list \<Rightarrow> string \<Rightarrow> string option" where
  "profilesSource_Lookup yaml profiles name = chain_Lookup (map (\<lambda>_ _. yaml (profiles ! 0) name) profiles)"

definition getSources ::
  "(string \<Rightarrow> string option) \<Rightarrow> (string \<Rightarrow> string \<Rightarrow> string option) \<Rightarrow> string list \<Rightarrow> string \<Rightarrow> string option"
where
  "getSources env yaml profiles name =
     chain_Lookup [\<lambda>_. env (''HABITAT_'' @ map to_upper name), \<lambda>_. profilesSource_Lookup yaml profiles name]"

text \<open>The value of a flag: the argument, else its sources, else its default, else empty.\<close>

record cli =
  cli_Args :: "string \<Rightarrow> string option"
  cli_Env :: "string \<Rightarrow> string option"
  cli_Yaml :: "string \<Rightarrow> string \<Rightarrow> string option"
  cli_Profiles :: "string list"

definition flag_default :: "string \<Rightarrow> string" where
  "flag_default name =
     (case find (\<lambda>f. fl_Name f = name) (fst getFlags @ concat (snd getFlags)) of
        Some f \<Rightarrow> (case fl_Value f of Some v \<Rightarrow> v | None \<Rightarrow> '''')
      | None \<Rightarrow> '''')"

definition cmd_String :: "cli \<Rightarrow> string \<Rightarrow> string" where
  "cmd_String c name =
     (case cli_Args c name of
        Some v \<Rightarrow> v
      | None \<Rightarrow>
          (case getSources (cli_Env c) (cli_Yaml c) (cli_Profiles c) name of
             Some v \<Rightarrow> v
           | None \<Rightarrow> flag_default name))"

lemma chain_Lookup_same: "chain_Lookup (map (\<lambda>_ _. x) ys) = (if ys = [] then None else x)"
  by (induction ys) (auto split: option.splits)

text \<open>Of several profiles only the first is ever read.\<close>

theorem only_first_profile_counts:
  "profilesSource_Lookup yaml profiles name =
     (case profiles of [] \<Rightarrow> None | p # _ \<Rightarrow> yaml p name)"
  by (cases profiles) (simp_all add: profilesSource_Lookup_def chain_Lookup_same del: list.map)

section \<open>Setting up\<close>

datatype setup_error =
    OpenDBFailed
  | FindingKeyFile os_error
  | KeyUnavailable
  | WritingKey os_error
  | OAuthClientFailed auth_error
  | RepoSetupFailed
  | PermissionsSetupFailed

text \<open>\<open>gorm.Open\<close> on a Postgres URL or an SQLite file.\<close>

definition setupDB ::
  "(string \<Rightarrow> 'g option) \<Rightarrow> (string \<Rightarrow> 'g option) \<Rightarrow> cli \<Rightarrow> ('g, setup_error) res"
where
  "setupDB postgres_Open sqlite_Open cmd =
     (let postgresUrl = cmd_String cmd cPgUrl in
      if postgresUrl \<noteq> '''' then ok_or OpenDBFailed (postgres_Open postgresUrl)
      else ok_or OpenDBFailed (sqlite_Open (cmd_String cmd cDb)))"

text \<open>Migrating the tables of the repository and of the permissions may fail.\<close>

definition setupPriviServer ::
  "('g \<Rightarrow> 'd repo option) \<Rightarrow> ('g \<Rightarrow> 'p perm_store option) \<Rightarrow> 'g
   \<Rightarrow> ('p perm_store \<Rightarrow> 'd repo \<Rightarrow> ('d, 'p, 'k, 'o) privi_server)
   \<Rightarrow> (('d, 'p, 'k, 'o) privi_server, setup_error) res"
where
  "setupPriviServer new_repo new_store db new_server =
     bind_res (ok_or RepoSetupFailed (new_repo db)) (\<lambda>repo.
     bind_res (ok_or PermissionsSetupFailed (new_store db)) (\<lambda>adapter.
       Ok (new_server adapter repo)))"

text \<open>\<open>os.WriteFile\<close> and \<open>os.ReadFile\<close> on the tree of files.\<close>

definition os_WriteFile :: "string list \<Rightarrow> string \<Rightarrow> fs \<Rightarrow> fs \<times> (unit, os_error) res" where
  "os_WriteFile p c t =
     (case os_Create p t of
        (t', Ok _) \<Rightarrow> (write_start p c t', Ok ())
      | (t', r) \<Rightarrow> (t', r))"

definition os_ReadFile :: "string list \<Rightarrow> fs \<Rightarrow> (string, os_error) res" where
  "os_ReadFile p t =
     (case os_Stat p t of
        Ok (FileNode c) \<Rightarrow> Ok c
      | Ok DirNode \<Rightarrow> Err IsDirectory
      | Err e \<Rightarrow> Err e
      | Panic \<Rightarrow> Panic)"

text \<open>
  The key of the OAuth client: a file that does not exist is made from a fresh key (\<open>fresh\<close>, its JSON
  document); the error of reading an existing one is overwritten, with no bytes read.
\<close>

definition key_bytes :: "string list \<Rightarrow> string option \<Rightarrow> fs \<Rightarrow> fs \<times> (string, setup_error) res" where
  "key_bytes keyFile fresh t =
     (case os_Stat keyFile t of
        Err e \<Rightarrow>
          if e \<noteq> NotExist then (t, Err (FindingKeyFile e))
          else
            (case fresh of
               None \<Rightarrow> (t, Err KeyUnavailable)
             | Some jwkBytes \<Rightarrow>
                 (case os_WriteFile keyFile jwkBytes t of
                    (t', r) \<Rightarrow> (t', bind_res (map_err WritingKey r) (\<lambda>_. Ok jwkBytes))))
      | Panic \<Rightarrow> (t, Panic)
      | Ok _ \<Rightarrow> (t, Ok (case os_ReadFile keyFile t of Ok jwkBytes \<Rightarrow> jwkBytes | _ \<Rightarrow> '''')))"

definition setupOAuthClient ::
  "(string \<Rightarrow> 'jwk option) \<Rightarrow> string \<Rightarrow> string \<Rightarrow> ('jwk oauth_client, setup_error) res"
where
  "setupOAuthClient jwk_Unmarshal domain jwkBytes =
     map_err OAuthClientFailed
       (NewOAuthClient (''https://'' @ domain @ ''/client-metadata.json'') (''https://'' @ domain)
          (''https://'' @ domain @ ''/oauth-callback'') (jwk_Unmarshal jwkBytes))"

text \<open>\<open>new_server\<close> is \<open>NewOAuthServer\<close> with everything but the client.\<close>

definition setupOAuthServer ::
  "string list \<Rightarrow> cli \<Rightarrow> (string \<Rightarrow> 'jwk option) \<Rightarrow> ('jwk oauth_client \<Rightarrow> ('j, 'k, 'i, 'jwk, 'w, 'x) oauth_server)
   \<Rightarrow> string option \<Rightarrow> fs \<Rightarrow> fs \<times> (('j, 'k, 'i, 'jwk, 'w, 'x) oauth_server, setup_error) res"
where
  "setupOAuthServer cwd cmd jwk_Unmarshal new_server fresh t =
     (case key_bytes (locate cwd (cmd_String cmd cKeyFile)) fresh t of
        (t', r) \<Rightarrow>
          (t', bind_res r (\<lambda>jwkBytes.
             bind_res (setupOAuthClient jwk_Unmarshal (cmd_String cmd cDomain) jwkBytes) (\<lambda>client.
               Ok (new_server client)))))"

section \<open>Middleware and multiplexer\<close>

text \<open>
  A request as the server gets it.  \<open>mr_Form\<close> is its form (query and body), \<open>None\<close> when it cannot be parsed,
  \<open>mr_URLValue\<close> a value of its query; \<open>mr_DumpFails\<close>: reading the body for the log gives an error.
\<close>

record main_request = request +
  mr_Method :: string
  mr_Path :: string
  mr_Form :: "form option"
  mr_URLValue :: "string \<Rightarrow> string"
  mr_DumpFails :: bool

datatype main_text =
    OAuthPart auth_text
  | PriviPart "auth_text privi_text"
  | DidDocument string
  | DumpErrorText
  | MovedText string
  | PageNotFoundText

type_synonym main_response = "main_text response"
type_synonym 's web_handler = "main_request \<Rightarrow> main_response \<Rightarrow> 's \<Rightarrow> 's \<times> main_response option"

definition loggingMiddleware :: "'s web_handler \<Rightarrow> 's web_handler" where
  "loggingMiddleware next r w s =
     (if mr_DumpFails r then (s, Some (http_Error DumpErrorText StatusInternalServerError w)) else next r w s)"

abbreviation StatusNoContent :: nat where "StatusNoContent \<equiv> 204"
abbreviation StatusMovedPermanently :: nat where "StatusMovedPermanently \<equiv> 301"

definition corsMiddleware :: "'s web_handler \<Rightarrow> 's web_handler" where
  "corsMiddleware next r w s =
     (let w = Header_Set ''Access-Control-Max-Age'' ''86400''
          (Header_Set ''Access-Control-Allow-Headers'' ''Content-Type, Authorization, habitat-auth-method, User-Agent''
          (Header_Set ''Access-Control-Allow-Methods'' ''GET, POST, PUT, DELETE, OPTIONS''
          (Header_Set ''Access-Control-Allow-Origin'' ''*'' w))) in
      if mr_Method r = ''OPTIONS'' then (s, Some (WriteHeader StatusNoContent w))
      else next r w s)"

text \<open>
  \<open>http.ServeMux\<close>: a path that is not clean is redirected, with its query, to the clean one.
\<close>

definition cleanPath :: "string \<Rightarrow> string" where
  "cleanPath p =
     (if p = '''' then ''/''
      else
        (let p = (if HasPrefix p ''/'' then p else CHR ''/'' # p); np = path_Clean p in
         if last p = CHR ''/'' \<and> np \<noteq> ''/'' then np @ ''/'' else np))"

definition mux_ServeHTTP :: "(string \<times> 's web_handler) list \<Rightarrow> 's web_handler" where
  "mux_ServeHTTP routes r w s =
     (if mr_Method r \<noteq> ''CONNECT'' \<and> cleanPath (mr_Path r) \<noteq> mr_Path r
      then
        (let url = cleanPath (mr_Path r) @ (if rq_Query r = '''' then '''' else CHR ''?'' # rq_Query r) in
         (s, Some (Write (MovedText url) (WriteHeader StatusMovedPermanently (Header_Set ''Location'' url w)))))
      else
        (case map_of routes (mr_Path r) of
           Some h \<Rightarrow> h r w s
         | None \<Rightarrow> (s, Some (http_Error PageNotFoundText StatusNotFound w))))"

section \<open>The routes\<close>

text \<open>
  The state of the program: the records, the permissions, the cookies of the sessions and the world of the
  OAuth client.  The answer of a handler, made on an empty response, goes under the headers that the
  middleware has set; nothing is written before the handler runs.
\<close>

record ('d, 'p, 'j, 'w) main_state =
  ms_Data :: 'd
  ms_Perms :: 'p
  ms_Jar :: 'j
  ms_World :: 'w

definition answer :: "('b \<Rightarrow> main_text) \<Rightarrow> main_response \<Rightarrow> 'b response \<Rightarrow> main_response" where
  "answer part w out =
     \<lparr>rsp_Status = rsp_Status out, rsp_Header = rsp_Header w ++\<^sub>f rsp_Header out,
      rsp_Body = rsp_Body w @ map part (rsp_Body out)\<rparr>"

text \<open>
  \<open>oauthServer.Validate\<close> as the private data server calls it: \<open>token_of\<close> is the token of a request
  (\<open>fosite.AccessTokenFromRequest\<close>), no scopes are asked for, and the client for the PDS is dropped.
  The introspection reads, so that the world that it leaves is not kept.
\<close>

definition validate_request ::
  "(request \<Rightarrow> string) \<Rightarrow> ('j, 'k, 'i, 'jwk, 'w, 'x) oauth_server \<Rightarrow> 'w \<Rightarrow> request \<Rightarrow> auth_text privi_response
   \<Rightarrow> (auth_text privi_response \<times> string option, privi_error) res"
where
  "validate_request token_of A v r w =
     (case os_Validate A \<lparr>rsp_Status = rsp_Status w, rsp_Header = rsp_Header w, rsp_Body = []\<rparr> (token_of r) [] v of
        (_, Ok (out, client)) \<Rightarrow>
          Ok (\<lparr>rsp_Status = rsp_Status out, rsp_Header = rsp_Header out,
               rsp_Body = rsp_Body w @ map OAuthText (rsp_Body out)\<rparr>, map_option fst client)
      | _ \<Rightarrow> Panic)"

definition with_oauth ::
  "(request \<Rightarrow> string) \<Rightarrow> ('j, 'k, 'i, 'jwk, 'w, 'x) oauth_server \<Rightarrow> 'w \<Rightarrow> ('d, 'p, 'q, auth_text) privi_server
   \<Rightarrow> ('d, 'p, 'q, auth_text) privi_server"
where
  "with_oauth token_of A v S = S\<lparr>sv_oauth_Validate := validate_request token_of A v\<rparr>"

text \<open>What the handlers draw for one request.\<close>

record 'k main_draws =
  md_Uuid :: string
  md_OAuth :: oauth_draws
  md_Key :: "'k option"

definition newline :: string where "newline = [CHR 0x0A]"

definition did_document :: "string \<Rightarrow> string" where
  "did_document domain = concat (map (\<lambda>l. l @ newline)
     [''{'',
      ''  \"id\": \"did:web:'' @ domain @ ''\",'',
      ''  \"@context\": ['',
      ''    \"https://www.w3.org/ns/did/v1\",'',
      ''    \"https://w3id.org/security/multikey/v1\", '',
      ''    \"https://w3id.org/security/suites/secp256k1-2019/v1\"'',
      ''  ],'',
      ''  \"service\": ['',
      ''    {'',
      ''      \"id\": \"#habitat\",'',
      ''      \"serviceEndpoint\": \"https://'' @ domain @ ''\",'',
      ''      \"type\": \"HabitatServer\"'',
      ''    }'',
      ''  ]'']) @ ''}''"

definition run_routes ::
  "(request \<Rightarrow> string) \<Rightarrow> ('jwk client_metadata \<Rightarrow> json) \<Rightarrow> ('j, 'k, 'i, 'jwk, 'w, 'x) oauth_server
   \<Rightarrow> ('d, 'p, 'q, auth_text) privi_server \<Rightarrow> string \<Rightarrow> 'k main_draws
   \<Rightarrow> (string \<times> ('d, 'p, 'j, 'w) main_state web_handler) list"
where
  "run_routes token_of enc oauthServer priviServer domain D =
     [(''/oauth-callback'', \<lambda>r w s.
         (case HandleCallback oauthServer (md_OAuth D) (mr_URLValue r) (ms_Jar s) (ms_World s) of
            ((j, v), out) \<Rightarrow> (s\<lparr>ms_Jar := j, ms_World := v\<rparr>, map_option (answer OAuthPart w) out))),
      (''/client-metadata.json'', \<lambda>r w s. (s, Some (answer OAuthPart w (HandleClientMetadata enc oauthServer)))),
      (''/oauth/authorize'', \<lambda>r w s.
         (case HandleAuthorize oauthServer (md_OAuth D) (md_Key D) (mr_Form r) (ms_Jar s) (ms_World s) of
            ((j, v), out) \<Rightarrow> (s\<lparr>ms_Jar := j, ms_World := v\<rparr>, map_option (answer OAuthPart w) out))),
      (''/oauth/token'', \<lambda>r w s.
         (case HandleToken oauthServer (rq_Header r ''Origin'') (mr_Form r) (ms_World s) of
            (v, out) \<Rightarrow> (s\<lparr>ms_World := v\<rparr>, map_option (answer OAuthPart w) out))),
      (''/xrpc/com.habitat.putRecord'', \<lambda>r w s.
         (case PutRecord (with_oauth token_of oauthServer (ms_World s) priviServer) (md_Uuid D) (request.truncate r) (ms_Data s) of
            (d, out) \<Rightarrow> (s\<lparr>ms_Data := d\<rparr>, map_option (answer PriviPart w) out))),
      (''/xrpc/com.habitat.getRecord'', \<lambda>r w s.
         (s, map_option (answer PriviPart w)
            (GetRecord (with_oauth token_of oauthServer (ms_World s) priviServer) (request.truncate r) (ms_Perms s) (ms_Data s)))),
      (''/xrpc/com.habitat.listRecords'', \<lambda>r w s.
         (s, map_option (answer PriviPart w)
            (ListRecords (with_oauth token_of oauthServer (ms_World s) priviServer) (request.truncate r) (ms_Perms s) (ms_Data s)))),
      (''/xrpc/network.habitat.uploadBlob'', \<lambda>r w s.
         (case UploadBlob (with_oauth token_of oauthServer (ms_World s) priviServer) (request.truncate r) (ms_Data s) of
            (d, out) \<Rightarrow> (s\<lparr>ms_Data := d\<rparr>, map_option (answer PriviPart w) out))),
      (''/xrpc/com.habitat.listPermissions'', \<lambda>r w s.
         (s, map_option (answer PriviPart w) (ListPermissions priviServer (request.truncate r) (ms_Perms s)))),
      (''/xrpc/com.habitat.addPermission'', \<lambda>r w s.
         (case AddPermission priviServer (request.truncate r) (ms_Perms s) of
            (p, out) \<Rightarrow> (s\<lparr>ms_Perms := p\<rparr>, map_option (answer PriviPart w) out))),
      (''/xrpc/com.habitat.removePermission'', \<lambda>r w s.
         (case RemovePermission priviServer (request.truncate r) (ms_Perms s) of
            (p, out) \<Rightarrow> (s\<lparr>ms_Perms := p\<rparr>, map_option (answer PriviPart w) out))),
      (''/.well-known/did.json'', \<lambda>r w s. (s, Some (Write (DidDocument (did_document domain)) w)))]"

definition run_ServeHTTP ::
  "(request \<Rightarrow> string) \<Rightarrow> ('jwk client_metadata \<Rightarrow> json) \<Rightarrow> ('j, 'k, 'i, 'jwk, 'w, 'x) oauth_server
   \<Rightarrow> ('d, 'p, 'q, auth_text) privi_server \<Rightarrow> cli \<Rightarrow> 'k main_draws \<Rightarrow> ('d, 'p, 'j, 'w) main_state web_handler"
where
  "run_ServeHTTP token_of enc oauthServer priviServer cmd D =
     corsMiddleware (loggingMiddleware
       (mux_ServeHTTP (run_routes token_of enc oauthServer priviServer (cmd_String cmd cDomain) D)))"

text \<open>How the server listens: the names of the certificate files are appended to the flag as they are.\<close>

datatype listen = ListenAndServe string | ListenAndServeTLS string string string

definition run_listen :: "cli \<Rightarrow> listen" where
  "run_listen cmd =
     (let addr = CHR '':'' # cmd_String cmd cPort; certs = cmd_String cmd cHttpsCerts in
      if certs = '''' then ListenAndServe addr
      else ListenAndServeTLS addr (certs @ ''fullchain.pem'') (certs @ ''privkey.pem''))"

section \<open>The key file\<close>

lemma os_WriteFile_Ok:
  assumes "wf_fs t" and "os_WriteFile p c t = (t', Ok u)"
  shows "file_content t' q = (if q = p then Some c else file_content t q)" and "wf_fs t'"
proof -
  obtain t1 v where "os_Create p t = (t1, Ok v)" "t' = write_start p c t1"
    using assms(2) by (auto simp: os_WriteFile_def split: prod.splits res.splits)
  with create_content [OF assms(1)] show "file_content t' q = (if q = p then Some c else file_content t q)" "wf_fs t'"
    by auto
qed

lemma os_ReadFile_content:
  assumes "wf_fs t" and "file_content t p = Some c"
  shows "os_ReadFile p t = Ok c" and "os_Stat p t = Ok (FileNode c)"
proof -
  have "fmlookup t p = Some (FileNode c)"
    using assms(2) by (auto simp: file_content_def split: option.splits node.splits)
  from Stat_wf [OF assms(1) this] show "os_Stat p t = Ok (FileNode c)" "os_ReadFile p t = Ok c"
    by (simp_all add: os_ReadFile_def)
qed

lemma key_bytes_again:
  assumes "wf_fs t" and "key_bytes p fresh t = (t', Ok jwk)"
  shows "key_bytes p fresh' t' = (t', Ok jwk)" and "wf_fs t'"
    and "q \<noteq> p \<Longrightarrow> file_content t' q = file_content t q"
    and "os_Stat p t = Err NotExist \<Longrightarrow> fresh = Some jwk \<and> file_content t' p = Some jwk"
proof -
  have "(t' = t \<and> is_Ok (os_Stat p t)) \<or> (os_Stat p t = Err NotExist \<and> fresh = Some jwk \<and> os_WriteFile p jwk t = (t', Ok ()))"
    using assms(2)
    by (auto simp: key_bytes_def bind_res_Ok_iff map_err_Ok_iff split: res.splits if_splits option.splits prod.splits)
  then have "key_bytes p fresh' t' = (t', Ok jwk) \<and> wf_fs t' \<and> (q \<noteq> p \<longrightarrow> file_content t' q = file_content t q) \<and>
      (os_Stat p t = Err NotExist \<longrightarrow> fresh = Some jwk \<and> file_content t' p = Some jwk)"
  proof (elim disjE conjE)
    assume "t' = t" and "is_Ok (os_Stat p t)"
    then show ?thesis using assms by (cases "os_Stat p t") (auto simp: key_bytes_def)
  next
    assume "fresh = Some jwk" and w: "os_WriteFile p jwk t = (t', Ok ())"
    note new = os_WriteFile_Ok [OF assms(1) w]
    from new(1) [of p] have "file_content t' p = Some jwk" by simp
    from os_ReadFile_content [OF new(2) this] new \<open>fresh = Some jwk\<close> show ?thesis
      by (simp add: key_bytes_def)
  qed
  then show "key_bytes p fresh' t' = (t', Ok jwk)" "wf_fs t'"
    "q \<noteq> p \<Longrightarrow> file_content t' q = file_content t q"
    "os_Stat p t = Err NotExist \<Longrightarrow> fresh = Some jwk \<and> file_content t' p = Some jwk" by auto
qed

text \<open>
  C31: the key of the OAuth client survives a restart: when a setup has succeeded, every later one with the
  same flags leaves the files as they are and gives the same server, whatever key it would draw; a key that
  was missing is the drawn one, and no other file is touched.
\<close>

theorem key_survives_restart:
  assumes "wf_fs t" and "setupOAuthServer cwd cmd jwk_Unmarshal new_server fresh t = (t', Ok A)"
  shows "setupOAuthServer cwd cmd jwk_Unmarshal new_server fresh' t' = (t', Ok A) \<and>
    (\<forall>q. q \<noteq> locate cwd (cmd_String cmd cKeyFile) \<longrightarrow> file_content t' q = file_content t q) \<and>
    (os_Stat (locate cwd (cmd_String cmd cKeyFile)) t = Err NotExist \<longrightarrow>
       file_content t' (locate cwd (cmd_String cmd cKeyFile)) = fresh)"
proof -
  obtain jwk where k: "key_bytes (locate cwd (cmd_String cmd cKeyFile)) fresh t = (t', Ok jwk)"
    using assms(2) by (auto simp: setupOAuthServer_def bind_res_Ok_iff split: prod.splits)
  note again = key_bytes_again [OF assms(1) k]
  show ?thesis using assms(2) k again by (auto simp: setupOAuthServer_def)
qed

section \<open>Who writes with OAuth\<close>

text \<open>
  The documented behaviour of the introspection, in the other direction: it accepts a token only with the
  request that the store finds for it and the strategy validates.
\<close>

definition introspects_only ::
  "crypto \<Rightarrow> ('jwk, 'w, 'x) provider_ops \<Rightarrow> ('k, 'jwk, 'w, 'm) token_store \<Rightarrow> bool"
where
  "introspects_only K P T \<longleftrightarrow>
     (\<forall>t w w' req. pv_IntrospectToken P t [] w = (w', Ok req) \<longrightarrow>
        GetAccessTokenSession K t T = Ok req \<and> ValidateAccessToken K (ts_strategy T) req t = Ok ())"

lemma validate_request_Some:
  assumes "introspects_only K (os_provider A) T" and "validate_request token_of A v r w = Ok (w', Some did)"
  shows "\<exists>s. decrypt K (ts_strategy T) (token_of r) = Ok s \<and> did = ses_Subject s"
proof -
  obtain v' out client where o': "os_Validate A \<lparr>rsp_Status = rsp_Status w, rsp_Header = rsp_Header w, rsp_Body = []\<rparr>
      (token_of r) [] v = (v', Ok (out, Some (did, client)))"
    using assms(2) by (auto simp: validate_request_def split: prod.splits res.splits)
  then obtain req where req: "pv_IntrospectToken (os_provider A) (token_of r) [] v = (v', Ok req)"
    and s: "\<exists>s. rq_Session req = AuthSession s \<and> did = ses_Subject s"
    by (cases "pv_IntrospectToken (os_provider A) (token_of r) [] v";
        cases "snd (pv_IntrospectToken (os_provider A) (token_of r) [] v)";
        cases "rq_Session (case snd (pv_IntrospectToken (os_provider A) (token_of r) [] v) of Ok q \<Rightarrow> q)")
      (auto simp: os_Validate_def split: option.splits)
  have "GetAccessTokenSession K (token_of r) T = Ok req"
    using assms(1) req unfolding introspects_only_def by blast
  then show ?thesis using s by (auto simp: GetAccessTokenSession_def bind_res_Ok_iff map_err_Ok_iff)
qed

lemma with_oauth_simps [simp]:
  "sv_oauth_Validate (with_oauth token_of A v S) = validate_request token_of A v"
  "sv_repo (with_oauth token_of A v S) = sv_repo S" "sv_perms (with_oauth token_of A v S) = sv_perms S"
  "resolve_repo (with_oauth token_of A v S) = resolve_repo S"
  by (simp_all add: with_oauth_def resolve_repo_def fun_eq_iff)

text \<open>What \<open>PutRecord\<close> does to the data when the caller is known.\<close>

definition put_data :: "('d, 'p, 'k, 'o) privi_server \<Rightarrow> string \<Rightarrow> put_request \<Rightarrow> string \<Rightarrow> 'd \<Rightarrow> 'd" where
  "put_data S uuid req owner d =
     fst (store_putRecord (sv_repo S) owner (pr_Collection req) (pr_Record req)
       (if pr_Rkey req = '''' then uuid else pr_Rkey req) (Some True) d)"

lemma PutRecord_accepted:
  assumes "getAuthedUser S r empty_response = Ok (w, Some did)" and "PutRecord S uuid r d = (d', resp)"
    and "dec_put_request (rq_Body r) = Ok req" and "resolve_repo S (pr_Repo req) = Ok did"
  shows "d' = put_data S uuid req did d"
proof -
  obtain d1 x where p: "store_putRecord (sv_repo S) did (pr_Collection req) (pr_Record req)
      (if pr_Rkey req = '''' then uuid else pr_Rkey req) (Some True) d = (d1, x)"
    by fastforce
  have "d' = d1" using assms p by (cases x) (simp_all add: PutRecord_def with_user_def Let_def)
  then show ?thesis by (simp add: put_data_def p)
qed

lemma PutRecord_changes:
  assumes "getAuthedUser S r empty_response = Ok (w, Some did)" and "PutRecord S uuid r d = (d', resp)" and "d' \<noteq> d"
  obtains req where "dec_put_request (rq_Body r) = Ok req" and "resolve_repo S (pr_Repo req) = Ok did"
proof -
  obtain req where req: "dec_put_request (rq_Body r) = Ok req"
    using assms by (cases "dec_put_request (rq_Body r)") (simp_all add: PutRecord_def with_user_def)
  obtain owner where owner: "resolve_repo S (pr_Repo req) = Ok owner"
    using assms req by (cases "resolve_repo S (pr_Repo req)") (simp_all add: PutRecord_def with_user_def)
  have "owner = did"
    using assms req owner by (cases "owner = did") (simp_all add: PutRecord_def with_user_def)
  with req owner show thesis by (simp add: that)
qed

lemma PutRecord_unknown:
  assumes "\<And>w did. getAuthedUser S r empty_response \<noteq> Ok (w, Some did)" and "PutRecord S uuid r d = (d', resp)"
  shows "d' = d"
  using assms by (cases "getAuthedUser S r empty_response") (auto simp: PutRecord_def with_user_def split: option.splits prod.splits)

lemma forged_token_opens:
  assumes "crypto_laws K" and "introspects K (os_provider A) T" and "cr_Encode K s = Some b" and "length nonce = 24"
    and "token_of r = raw_url_encode (nonce @ cr_Seal K (sg_key (ts_strategy T)) nonce b)"
    and "os_ParseRawPrivateKey A (ses_DpopKey s) = Some k" and "ses_TokenInfo s = Some tok"
  shows "validate_request token_of A v r empty_response = Ok (empty_response, Some (ses_Subject s))"
proof -
  have "encrypt K (ts_strategy T) (Some nonce) s = Ok (token_of r)" using assms(3,5) by (simp add: encrypt_def)
  from validate_opened [OF assms(2) encrypted_opens [OF assms(1) this assms(4)] assms(6,7)]
  show ?thesis by (simp add: validate_request_def empty_response_def)
qed

text \<open>
  C30: with OAuth, data is written only in the repository whose DID is the subject of the session in the token:
  a caller whose session has a handle as its subject writes nothing.  Any session passes that is sealed with
  the server's secret, which is a constant of the source, and neither the subject nor the token of the PDS in
  it need come from a login.
\<close>

theorem oauth_puts_for_session_subject:
  assumes "crypto_laws K" and "introspects K (os_provider A) T" and "introspects_only K (os_provider A) T"
    and "ts_strategy T = newStrategy server_secret"
    and "rq_Header r ''Habitat-Auth-Method'' = ''oauth''"
    and "PutRecord (with_oauth token_of A v S) uuid r d = (d', resp)"
  shows "(d' \<noteq> d \<longrightarrow> (\<exists>s req. decrypt K (ts_strategy T) (token_of r) = Ok s \<and>
       dec_put_request (rq_Body r) = Ok req \<and> resolve_repo S (pr_Repo req) = Ok (ses_Subject s) \<and>
       d' = put_data S uuid req (ses_Subject s) d)) \<and>
    (\<forall>s b nonce req. cr_Encode K s = Some b \<longrightarrow> length nonce = 24 \<longrightarrow>
       token_of r = raw_url_encode (nonce @ cr_Seal K (sg_key (newStrategy server_secret)) nonce b) \<longrightarrow>
       os_ParseRawPrivateKey A (ses_DpopKey s) \<noteq> None \<longrightarrow> ses_TokenInfo s \<noteq> None \<longrightarrow>
       dec_put_request (rq_Body r) = Ok req \<longrightarrow> resolve_repo S (pr_Repo req) = Ok (ses_Subject s) \<longrightarrow>
       d' = put_data S uuid req (ses_Subject s) d)"
proof -
  let ?S = "with_oauth token_of A v S"
  have user: "getAuthedUser ?S r w = validate_request token_of A v r w" for w
    using assms(5) by (simp add: getAuthedUser_def)
  have data: "put_data ?S uuid req did = put_data S uuid req did" for req did
    by (simp add: put_data_def fun_eq_iff)
  have "\<exists>s req. decrypt K (ts_strategy T) (token_of r) = Ok s \<and> dec_put_request (rq_Body r) = Ok req \<and>
      resolve_repo S (pr_Repo req) = Ok (ses_Subject s) \<and> d' = put_data S uuid req (ses_Subject s) d" if "d' \<noteq> d"
  proof -
    obtain w did where w: "getAuthedUser ?S r empty_response = Ok (w, Some did)"
      using PutRecord_unknown [OF _ assms(6)] \<open>d' \<noteq> d\<close> by blast
    obtain req where req: "dec_put_request (rq_Body r) = Ok req" "resolve_repo ?S (pr_Repo req) = Ok did"
      by (rule PutRecord_changes [OF w assms(6) \<open>d' \<noteq> d\<close>])
    note put = PutRecord_accepted [OF w assms(6) req]
    obtain s where s: "decrypt K (ts_strategy T) (token_of r) = Ok s" "did = ses_Subject s"
      using validate_request_Some [OF assms(3) w [unfolded user]] by blast
    show ?thesis using put req s by (intro exI conjI) (simp_all add: data)
  qed
  moreover have "d' = put_data S uuid req (ses_Subject s) d"
    if "cr_Encode K s = Some b" "length nonce = 24"
      "token_of r = raw_url_encode (nonce @ cr_Seal K (sg_key (newStrategy server_secret)) nonce b)"
      "os_ParseRawPrivateKey A (ses_DpopKey s) \<noteq> None" "ses_TokenInfo s \<noteq> None"
      "dec_put_request (rq_Body r) = Ok req" "resolve_repo S (pr_Repo req) = Ok (ses_Subject s)" for s b nonce req
  proof -
    obtain k tok where k: "os_ParseRawPrivateKey A (ses_DpopKey s) = Some k" "ses_TokenInfo s = Some tok"
      using \<open>os_ParseRawPrivateKey A (ses_DpopKey s) \<noteq> None\<close> \<open>ses_TokenInfo s \<noteq> None\<close> by blast
    have "getAuthedUser ?S r empty_response = Ok (empty_response, Some (ses_Subject s))"
      unfolding user by (rule forged_token_opens [OF assms(1,2) _ _ _ k]) (use assms(4) that in simp_all)
    from PutRecord_accepted [OF this assms(6)] that show ?thesis by (simp add: data)
  qed
  ultimately show ?thesis by blast
qed

section \<open>The theorems applied\<close>

definition plain_cli :: cli where
  "plain_cli =
     \<lparr>cli_Args = (\<lambda>_. None), cli_Env = (\<lambda>_. None),
      cli_Yaml = (\<lambda>f n. if f = ''dev.yaml'' \<and> n = cDomain then Some ''privi.test'' else None), cli_Profiles = [''dev.yaml'']\<rparr>"

lemma plain_cli_values: "cmd_String plain_cli cKeyFile = ''./key.jwk''" "cmd_String plain_cli cDomain = ''privi.test''"
  by (simp_all add: cmd_String_def plain_cli_def getSources_def profilesSource_Lookup_def flag_default_def getFlags_def
      cDomain_def cKeyFile_def cDebug_def cPort_def cHttpsCerts_def)

lemma key_path: "locate [''srv''] ''./key.jwk'' = [''srv'', ''key.jwk'']"
  by code_simp

lemma key_survives_restart_witness:
  "\<exists>t'. setupOAuthServer [''srv''] plain_cli (\<lambda>_. Some ()) (\<lambda>_. demo_server) (Some ''k1'')
      (fmap_of_list [([], DirNode), ([''srv''], DirNode)]) = (t', Ok demo_server) \<and>
    setupOAuthServer [''srv''] plain_cli (\<lambda>_. Some ()) (\<lambda>_. demo_server) (Some ''k2'') t' = (t', Ok demo_server) \<and>
    file_content t' [''srv'', ''key.jwk''] = Some ''k1''"
proof -
  let ?t = "fmap_of_list [([], DirNode), ([''srv''], DirNode)] :: fs"
  have wf: "wf_fs ?t" by (auto simp: wf_fs_def)
  have st: "os_Stat [''srv'', ''key.jwk''] ?t = Err NotExist" by (simp add: os_Stat_def file_above_def)
  obtain t' where "setupOAuthServer [''srv''] plain_cli (\<lambda>_. Some ()) (\<lambda>_. demo_server) (Some ''k1'') ?t = (t', Ok demo_server)"
    using st by (simp add: setupOAuthServer_def plain_cli_values key_path key_bytes_def os_WriteFile_def os_Create_def
        os_OpenFile_def file_above_def setupOAuthClient_def NewOAuthClient_def)
  with key_survives_restart [OF wf this] st show ?thesis by (auto simp: plain_cli_values key_path)
qed

definition secret_store :: "(unit, unit, unit, unit) token_store" where
  "secret_store = demo_store\<lparr>ts_strategy := newStrategy server_secret\<rparr>"

definition secret_server :: "(unit, string, string, unit, unit, unit) oauth_server" where
  "secret_server = demo_server\<lparr>os_provider := demo_provider\<lparr>pv_IntrospectToken := (\<lambda>t scopes w.
     (w, bind_res (GetAccessTokenSession demo_crypto t secret_store) (\<lambda>req.
       bind_res (ValidateAccessToken demo_crypto (ts_strategy secret_store) req t) (\<lambda>u. Ok req))))\<rparr>\<rparr>"

lemma secret_introspects:
  "introspects demo_crypto (os_provider secret_server) secret_store"
  "introspects_only demo_crypto (os_provider secret_server) secret_store"
  by (auto simp: introspects_def introspects_only_def secret_server_def bind_res_Ok_iff)

definition alice_server :: "(repo_record list, permission list, string, auth_text) privi_server" where
  "alice_server =
     \<lparr>sv_perms = sqlite_store list_table, sv_repo = sample_repo, sv_ParseAtIdentifier = Some, sv_Lookup = Some,
      sv_PublicKey = Some, sv_jwt_Parse = (\<lambda>token key. None), sv_oauth_Validate = (\<lambda>_ w. Ok (w, None)),
      sv_decode_get = (\<lambda>_. None), sv_decode_list = (\<lambda>_. None)\<rparr>"

definition forged_token :: string where
  "forged_token = raw_url_encode (demo_nonce @ cr_Seal demo_crypto (sg_key (newStrategy server_secret)) demo_nonce ''0'')"

lemma oauth_puts_for_session_subject_witness:
  "\<exists>r resp d'. rq_Header r ''Habitat-Auth-Method'' = ''oauth'' \<and>
    PutRecord (with_oauth (\<lambda>_. forged_token) secret_server () alice_server) ''k'' r [] = (d', resp) \<and> map rec_Did d' = [''alice'']"
proof -
  let ?r = "\<lparr>rq_Header = (\<lambda>h. if h = ''Habitat-Auth-Method'' then ''oauth'' else ''''),
      rq_Body = Some (JObj (fmap_of_list [(''collection'', JStr ''com.x''), (''repo'', JStr ''alice'')])),
      rq_Bytes = None, rq_Query = ''''\<rparr>"
  let ?req = "\<lparr>pr_Collection = ''com.x'', pr_Record = None, pr_Repo = ''alice'', pr_Rkey = ''''\<rparr>"
  have h: "rq_Header ?r ''Habitat-Auth-Method'' = ''oauth''" by simp
  have req: "dec_put_request (rq_Body ?r) = Ok ?req" by (simp add: dec_put_request_def dec_field_def)
  obtain d' resp where put: "PutRecord (with_oauth (\<lambda>_. forged_token) secret_server () alice_server) ''k'' ?r [] = (d', resp)"
    by fastforce
  have st: "ts_strategy secret_store = newStrategy server_secret" by (simp add: secret_store_def)
  have s: "cr_Encode demo_crypto demo_ses = Some ''0''" "os_ParseRawPrivateKey secret_server (ses_DpopKey demo_ses) \<noteq> None"
    "ses_TokenInfo demo_ses \<noteq> None" "resolve_repo alice_server (pr_Repo ?req) = Ok (ses_Subject demo_ses)"
    by (simp_all add: demo_crypto_def secret_server_def demo_server_def demo_ses_def resolve_repo_def alice_server_def)
  note put_by = oauth_puts_for_session_subject [OF demo_crypto_laws secret_introspects st h put, THEN conjunct2]
  have "d' = put_data alice_server ''k'' ?req (ses_Subject demo_ses) []"
    using put_by s req by (metis forged_token_def length_replicate)
  then have d': "map rec_Did d' = [''alice'']"
    by (simp add: put_data_def demo_ses_def alice_server_def store_putRecord_def repo_putRecord_def sample_repo_def
        NewSQLiteRepo_def list_repo_def)
  show ?thesis
  proof (rule exI [of _ ?r], rule exI [of _ resp], rule exI [of _ d'], intro conjI)
    show "PutRecord (with_oauth (\<lambda>_. forged_token) secret_server () alice_server) ''k'' ?r [] = (d', resp)" by (rule put)
  qed (rule h d')+
qed

end
