(* ===== verification/PriviParts.thy ===== *)
theory PriviParts
  imports Privi
begin

text \<open>
  The parts of \<open>internal/privi\<close> that no handler calls: the limit of a blob from the options of SQLite
  (\<open>getMaxBlobSize\<close> in \<open>repo.go\<close>), the rest of \<open>signing_method.go\<close>, and the random keys of \<open>encrypter.go\<close>.
\<close>

section \<open>The limit of a blob\<close>

text \<open>\<open>strconv.Atoi\<close> on 64 bits.\<close>

datatype atoi_error = AtoiSyntax | AtoiRange

definition dec_value :: "string \<Rightarrow> int" where
  "dec_value s = foldl (\<lambda>n c. 10 * n + (of_char c - 48)) 0 s"

definition strconv_Atoi :: "string \<Rightarrow> (int, atoi_error) res" where
  "strconv_Atoi s =
     (let neg = (s \<noteq> '''' \<and> hd s = CHR ''-'');
          ds = (if s \<noteq> '''' \<and> (hd s = CHR ''-'' \<or> hd s = CHR ''+'') then tl s else s) in
      if ds = '''' \<or> \<not> set ds \<subseteq> set ''0123456789'' then Err AtoiSyntax
      else
        let n = dec_value ds in
        if (if neg then 2 ^ 63 < n else 2 ^ 63 \<le> n) then Err AtoiRange
        else Ok (if neg then - n else n))"

datatype blob_size_error = DBFailed | PragmaFailed | BadMaxLength atoi_error | NoMaxLength

text \<open>The rows of \<open>PRAGMA compile_options\<close>; one that cannot be scanned counts as an empty string.\<close>

fun max_length_loop :: "string option list \<Rightarrow> (int, blob_size_error) res" where
  "max_length_loop [] = Err NoMaxLength"
| "max_length_loop (row # rows) =
     (let opt = (case row of None \<Rightarrow> '''' | Some s \<Rightarrow> s) in
      if HasPrefix opt ''MAX_LENGTH='' then map_err BadMaxLength (strconv_Atoi (drop (length ''MAX_LENGTH='') opt))
      else max_length_loop rows)"

definition getMaxBlobSize :: "bool \<Rightarrow> string option list option \<Rightarrow> (int, blob_size_error) res" where
  "getMaxBlobSize db_ok query =
     (if \<not> db_ok then Err DBFailed else bind_res (ok_or PragmaFailed query) max_length_loop)"

lemma dec_value_nonneg: "set s \<subseteq> set ''0123456789'' \<Longrightarrow> 0 \<le> dec_value s"
proof (induction s rule: rev_induct)
  case (snoc c s)
  then have "0 \<le> dec_value s" "c \<in> set ''0123456789''" by auto
  moreover from this(2) have "(48 :: int) \<le> of_char c" by auto
  ultimately show ?case by (simp add: dec_value_def)
qed (simp add: dec_value_def)

lemma strconv_Atoi_bounds: "strconv_Atoi s = Ok n \<Longrightarrow> - (2 ^ 63) \<le> n \<and> n < 2 ^ 63"
  using dec_value_nonneg [of "tl s"] dec_value_nonneg [of s]
  by (auto simp: strconv_Atoi_def Let_def split: if_splits)

text \<open>
  The limit is the number of the first row that has the prefix, whatever follows; it is an integer of the machine.
\<close>

theorem max_blob_size_of_first_row:
  assumes "\<forall>row \<in> set before. \<forall>s. row = Some s \<longrightarrow> \<not> HasPrefix s ''MAX_LENGTH=''"
  shows "getMaxBlobSize True (Some (before @ Some (''MAX_LENGTH='' @ s) # rest)) = map_err BadMaxLength (strconv_Atoi s) \<and>
    (\<forall>n. getMaxBlobSize True (Some (before @ Some (''MAX_LENGTH='' @ s) # rest)) = Ok n \<longrightarrow> - (2 ^ 63) \<le> n \<and> n < 2 ^ 63)"
proof -
  have "max_length_loop (before @ Some (''MAX_LENGTH='' @ s) # rest) = map_err BadMaxLength (strconv_Atoi s)"
    using assms
  proof (induction before)
    case (Cons row rows)
    then show ?case by (cases row) (auto simp: HasPrefix_def)
  qed (simp add: HasPrefix_def)
  then show ?thesis using strconv_Atoi_bounds by (auto simp: getMaxBlobSize_def map_err_Ok_iff)
qed

lemma max_blob_size_of_first_row_witness:
  "getMaxBlobSize True (Some [Some ''ENABLE_FTS5'', Some ''MAX_LENGTH=1000'', Some ''MAX_LENGTH=7'']) = Ok 1000"
proof -
  have "strconv_Atoi ''1000'' = Ok 1000" by (simp add: strconv_Atoi_def dec_value_def)
  then show ?thesis
    using max_blob_size_of_first_row [of "[Some ''ENABLE_FTS5'']" "''1000''" "[Some ''MAX_LENGTH=7'']"]
    by (simp add: HasPrefix_def)
qed

section \<open>Signatures and keys\<close>

definition secp256k1_Sign :: "string \<Rightarrow> 'k sig_key \<Rightarrow> (string option, sig_error) res" where
  "secp256k1_Sign signingString key = Ok None"

definition hex_digit :: "nat \<Rightarrow> char" where
  "hex_digit n = ''0123456789abcdef'' ! n"

definition hex_EncodeToString :: "string \<Rightarrow> string" where
  "hex_EncodeToString bytes = concat (map (\<lambda>b. [hex_digit (of_char b div 16), hex_digit (of_char b mod 16)]) bytes)"

text \<open>\<open>random\<close>: the bytes that \<open>rand.Read\<close> gives, if it does.\<close>

definition randomKey :: "nat \<Rightarrow> (nat \<Rightarrow> string option) \<Rightarrow> (string, unit) res" where
  "randomKey numBytes random =
     (case random numBytes of None \<Rightarrow> Panic | Some bytes \<Rightarrow> Ok (hex_EncodeToString bytes))"

definition TestOnlyNewRandomKey :: "(nat \<Rightarrow> string option) \<Rightarrow> (string, unit) res" where
  "TestOnlyNewRandomKey random = randomKey 16 random"

lemma hex_digit_inj: "m < 16 \<Longrightarrow> n < 16 \<Longrightarrow> hex_digit m = hex_digit n \<longleftrightarrow> m = n"
  unfolding hex_digit_def by (subst nth_eq_iff_index_eq) simp_all

lemma hex_byte_inj:
  "hex_digit (of_char b div 16) = hex_digit (of_char c div 16) \<and> hex_digit (of_char b mod 16) = hex_digit (of_char c mod 16)
     \<longleftrightarrow> b = c"
proof -
  have "(of_char x :: nat) < 16 * 16" for x by simp
  then have "(of_char x :: nat) div 16 < 16" for x by (simp add: less_mult_imp_div_less)
  then have "hex_digit (of_char b div 16) = hex_digit (of_char c div 16) \<longleftrightarrow> (of_char b :: nat) div 16 = of_char c div 16"
    by (rule hex_digit_inj) fact
  moreover have "hex_digit (of_char b mod 16) = hex_digit (of_char c mod 16) \<longleftrightarrow> (of_char b :: nat) mod 16 = of_char c mod 16"
    by (rule hex_digit_inj) simp_all
  moreover have "(of_char b :: nat) = of_char c \<longleftrightarrow> b = c" by simp
  moreover have "(of_char b :: nat) div 16 = of_char c div 16 \<and> (of_char b :: nat) mod 16 = of_char c mod 16 \<longleftrightarrow>
      (of_char b :: nat) = of_char c"
    by (metis div_mult_mod_eq)
  ultimately show ?thesis by metis
qed

lemma length_hex: "length (hex_EncodeToString bs) = 2 * length bs"
  by (induction bs) (simp_all add: hex_EncodeToString_def)

text \<open>A key has two characters for each byte, and different bytes give different keys.\<close>

lemma random_keys_differ:
  assumes "TestOnlyNewRandomKey r = Ok k" and "TestOnlyNewRandomKey r' = Ok k'" and "\<And>n b. r n = Some b \<Longrightarrow> length b = n"
  shows "length k = 32" and "k = k' \<longleftrightarrow> r 16 = r' 16"
proof -
  obtain b b' where b: "r 16 = Some b" "k = hex_EncodeToString b" "r' 16 = Some b'" "k' = hex_EncodeToString b'"
    using assms(1,2) by (auto simp: TestOnlyNewRandomKey_def randomKey_def split: option.splits)
  have "hex_EncodeToString b = hex_EncodeToString b' \<longleftrightarrow> b = b'" for b b'
  proof (induction b arbitrary: b')
    case Nil
    show ?case by (cases b') (simp_all add: hex_EncodeToString_def)
  next
    case (Cons c cs)
    show ?case
    proof (cases b')
      case (Cons d ds)
      then show ?thesis using Cons.IH [of ds] hex_byte_inj [of c d] by (auto simp: hex_EncodeToString_def)
    qed (simp add: hex_EncodeToString_def)
  qed
  then show "k = k' \<longleftrightarrow> r 16 = r' 16" using b by simp
  show "length k = 32" using assms(3) [OF b(1)] b(2) by (simp add: length_hex)
qed

end
