(* ===== verification/NodeCtl.thy ===== *)
theory NodeCtl
  imports NodeMain Router
begin

text \<open>
  The command line tool of the node, \<open>cmd/node_ctrl/main.go\<close>, and what becomes of its requests: they go to the
  API server, whose routes are those of \<open>main_routes\<close>, behind the router of \<open>internal/node/api\<close>.

  A request is its method, path and JSON body; the library of the command line, the network and the printing
  are outside.  The multiplexer of \<open>net/http\<close> is modelled for clean paths and for patterns of which no two with
  wildcards match one path.
\<close>

section \<open>Commands\<close>

datatype ctl_command =
    StartProcess string
  | StopProcess string
  | ListProcesses
  | GetState
  | ListApps
  | InstallApp
  | UninstallApp

datatype ctl_error =
    CommandNotFound string
  | FlagRequired string
  | Unimplemented
  | RequestFailed
  | ReadingFailed
  | ResponseNotJSON string

definition required_flag :: "(string \<Rightarrow> string option) \<Rightarrow> string \<Rightarrow> (string \<Rightarrow> ctl_command) \<Rightarrow> (ctl_command, ctl_error) res" where
  "required_flag flags name f = bind_res (ok_or (FlagRequired name) (flags name)) (\<lambda>v. Ok (f v))"

text \<open>The commands and their subcommands, with the values of the flags.\<close>

definition find_command :: "(string \<Rightarrow> string option) \<Rightarrow> string \<Rightarrow> string \<Rightarrow> (ctl_command, ctl_error) res" where
  "find_command flags cmd sub =
     (if cmd = ''process'' then
        (if sub = ''start'' then required_flag flags ''app'' StartProcess
         else if sub = ''stop'' then required_flag flags ''id'' StopProcess
         else if sub = ''list'' then Ok ListProcesses
         else Err (CommandNotFound sub))
      else if cmd = ''node'' then
        (if sub = ''state'' then Ok GetState else Err (CommandNotFound sub))
      else if cmd = ''app'' then
        (if sub = ''list'' then Ok ListApps
         else if sub = ''install'' then Ok InstallApp
         else if sub = ''uninstall'' then Ok UninstallApp
         else Err (CommandNotFound sub))
      else Err (CommandNotFound cmd))"

record ctl_request =
  cq_Method :: string
  cq_Host :: string
  cq_Path :: string
  cq_Body :: "json option"

definition ctl_get :: "string \<Rightarrow> string \<Rightarrow> ctl_request" where
  "ctl_get port p = \<lparr>cq_Method = ''GET'', cq_Host = ''localhost:'' @ port, cq_Path = p, cq_Body = None\<rparr>"

definition ctl_post :: "string \<Rightarrow> string \<Rightarrow> json \<Rightarrow> ctl_request" where
  "ctl_post port p j = \<lparr>cq_Method = ''POST'', cq_Host = ''localhost:'' @ port, cq_Path = p, cq_Body = Some j\<rparr>"

definition startProcess_request :: "string \<Rightarrow> string \<Rightarrow> ctl_request" where
  "startProcess_request port app =
     ctl_post port ''/node/processes/start'' (JObj (fmap_of_list [(''app_id'', JStr app)]))"

definition stopProcess_request :: "string \<Rightarrow> string \<Rightarrow> ctl_request" where
  "stopProcess_request port i =
     ctl_post port ''/node/processes/stop'' (JObj (fmap_of_list [(''process_id'', JStr i)]))"

definition listProcesses_request :: "string \<Rightarrow> ctl_request" where
  "listProcesses_request port = ctl_get port ''/node/processes/list''"

definition getState_request :: "string \<Rightarrow> ctl_request" where
  "getState_request port = ctl_get port ''/node/state''"

definition listApps_request :: "string \<Rightarrow> ctl_request" where
  "listApps_request port = ctl_get port ''/node/apps/list''"

definition installApp_action :: "('a, ctl_error) res" where "installApp_action = Err Unimplemented"
definition uninstallApp_action :: "('a, ctl_error) res" where "uninstallApp_action = Err Unimplemented"

text \<open>What a command sends.\<close>

fun command_request :: "string \<Rightarrow> ctl_command \<Rightarrow> (ctl_request, ctl_error) res" where
  "command_request port (StartProcess app) = Ok (startProcess_request port app)"
| "command_request port (StopProcess i) = Ok (stopProcess_request port i)"
| "command_request port ListProcesses = Ok (listProcesses_request port)"
| "command_request port GetState = Ok (getState_request port)"
| "command_request port ListApps = Ok (listApps_request port)"
| "command_request port InstallApp = installApp_action"
| "command_request port UninstallApp = uninstallApp_action"

section \<open>Answers\<close>

text \<open>An answer: its status code, the text of its status, and what reading its body gives.\<close>

record ctl_response =
  cs_StatusCode :: nat
  cs_Status :: string
  cs_Body :: "string option"

definition printResponse :: "(string \<Rightarrow> json option) \<Rightarrow> ctl_response \<Rightarrow> (json, ctl_error) res" where
  "printResponse json_Parse rsp =
     bind_res (ok_or ReadingFailed (cs_Body rsp)) (\<lambda>slurp.
     bind_res
       (if cs_StatusCode rsp \<noteq> StatusOK then Ok (JStr slurp)
        else if length slurp > 0 then ok_or (ResponseNotJSON slurp) (json_Parse slurp)
        else Ok JNull) (\<lambda>body.
       Ok (JObj (fmap_of_list [(''status'', JStr (cs_Status rsp)), (''body'', body)]))))"

definition run_ctl ::
  "(string \<Rightarrow> json option) \<Rightarrow> (ctl_request \<Rightarrow> 'w \<Rightarrow> 'w \<times> ctl_response option) \<Rightarrow> string
   \<Rightarrow> (string \<Rightarrow> string option) \<Rightarrow> string \<Rightarrow> string \<Rightarrow> 'w \<Rightarrow> 'w \<times> (json, ctl_error) res"
where
  "run_ctl json_Parse send port flags cmd sub w =
     (case bind_res (find_command flags cmd sub) (command_request port) of
        Ok q \<Rightarrow>
          (case send q w of
             (w', None) \<Rightarrow> (w', Err RequestFailed)
           | (w', Some rsp) \<Rightarrow> (w', printResponse json_Parse rsp))
      | Err e \<Rightarrow> (w, Err e)
      | Panic \<Rightarrow> (w, Panic))"

section \<open>The multiplexer\<close>

text \<open>A pattern and a path, by segments: \<open>{name}\<close> stands for one segment, \<open>{name...}\<close> for all that follow.\<close>

definition is_wildcard :: "string \<Rightarrow> bool" where
  "is_wildcard s \<longleftrightarrow> HasPrefix s ''{'' \<and> HasSuffix s ''}''"

definition is_multi :: "string \<Rightarrow> bool" where
  "is_multi s \<longleftrightarrow> HasPrefix s ''{'' \<and> HasSuffix s ''...}''"

fun segments_match :: "string list \<Rightarrow> string list \<Rightarrow> bool" where
  "segments_match [] ss = (ss = [])"
| "segments_match (p # ps) ss =
     (if is_multi p then ss \<noteq> []
      else (case ss of [] \<Rightarrow> False | s # ss \<Rightarrow> (if is_wildcard p then s \<noteq> '''' else p = s) \<and> segments_match ps ss))"

definition pattern_matches :: "string \<Rightarrow> string \<Rightarrow> bool" where
  "pattern_matches pattern p = segments_match (split_byte (CHR ''/'') pattern) (split_byte (CHR ''/'') p)"

text \<open>The pattern that is the path itself is the most specific one.\<close>

definition mux_route :: "(string \<times> 'h) list \<Rightarrow> string \<Rightarrow> 'h option" where
  "mux_route routes p =
     (case map_of routes p of
        Some h \<Rightarrow> Some h
      | None \<Rightarrow> map_option snd (find (\<lambda>(pattern, _). pattern_matches pattern p) routes))"

text \<open>
  The API server: the router over the routes of the node, for any handlers; \<open>None\<close> is a request that is never
  answered, and a path without a route is answered by the multiplexer.
\<close>

definition api_routes ::
  "(string \<times> string \<Rightarrow> 'r \<Rightarrow> route_text response \<Rightarrow> route_text response) \<Rightarrow> node_config \<Rightarrow> ('r, route_text) route list"
where
  "api_routes handlers n = map (\<lambda>(m, pattern). NewBasicRoute m pattern (handlers (m, pattern))) (main_routes n)"

definition api_ServeHTTP ::
  "(string \<times> string \<Rightarrow> 'r \<Rightarrow> route_text response \<Rightarrow> route_text response) \<Rightarrow> node_config \<Rightarrow> ('r \<Rightarrow> string) \<Rightarrow> ('r \<Rightarrow> string)
   \<Rightarrow> 'r \<Rightarrow> route_text response option"
where
  "api_ServeHTTP handlers n meth path r =
     (case mux_route (NewRouter meth (api_routes handlers n)) (path r) of
        Some h \<Rightarrow> h r empty_response
      | None \<Rightarrow> Some (WriteHeader StatusNotFound empty_response))"

section \<open>What becomes of the commands\<close>

lemma router_routes:
  "NewRouter meth (api_routes handlers n) =
     map (\<lambda>r. (snd r, processed_ServeHTTP meth (NewBasicRoute (fst r) (snd r) (handlers r)))) (main_routes n)"
  by (simp add: NewRouter_def api_routes_def NewBasicRoute_def split_beta)

lemma map_of_routes: "map_of (map (\<lambda>r. (snd r, f r)) rs) p = map_option f (find (\<lambda>r. snd r = p) rs)"
  by (induction rs) auto

lemma find_routes: "find (\<lambda>(k, _). P k) (map (\<lambda>r. (snd r, f r)) rs) = map_option (\<lambda>r. (snd r, f r)) (find (\<lambda>r. P (snd r)) rs)"
  by (induction rs) auto

text \<open>A request for a registered path, with its method, is taken by the route of that path.\<close>

lemma main_routes_distinct: "distinct (map snd (main_routes n))"
proof -
  have "distinct (map snd ([(''GET'', ''/version'')] @ auth_GetRoutes @ CtrlServer_GetRoutes
      @ [(''GET'', ''/app_store/available_apps'')] @ privi_GetRoutes))"
    by code_simp
  then show ?thesis by (auto simp: main_routes_def)
qed

lemma find_snd_distinct:
  "distinct (map snd rs) \<Longrightarrow> r \<in> set rs \<Longrightarrow> find (\<lambda>x. snd x = snd r) rs = Some r"
  by (induction rs) (auto simp: image_iff)

lemma registered_unanswered:
  assumes "(meth r, path r) \<in> set (main_routes n)"
  shows "api_ServeHTTP handlers n meth path r = None"
proof -
  have "find (\<lambda>x. snd x = path r) (main_routes n) = Some (meth r, path r)"
    using find_snd_distinct [OF main_routes_distinct assms] by simp
  then show ?thesis
    by (simp add: api_ServeHTTP_def mux_route_def router_routes map_of_routes NewBasicRoute_def
        processed_route_never_reaches_handler)
qed

lemmas request_defs =
  startProcess_request_def stopProcess_request_def listProcesses_request_def getState_request_def listApps_request_def
  ctl_get_def ctl_post_def installApp_action_def uninstallApp_action_def

lemma registered_routes:
  "(''POST'', ''/node/processes/start'') \<in> set CtrlServer_GetRoutes" "(''POST'', ''/node/processes/stop'') \<in> set CtrlServer_GetRoutes"
  "(''GET'', ''/node/processes/list'') \<in> set CtrlServer_GetRoutes" "(''GET'', ''/node/state'') \<in> set CtrlServer_GetRoutes"
  by (simp_all add: CtrlServer_GetRoutes_def)

lemma command_routes:
  assumes "command_request port cmd = Ok q" and "cmd \<noteq> ListApps"
  shows "(cq_Method q, cq_Path q) \<in> set CtrlServer_GetRoutes"
proof -
  have "q \<in> {startProcess_request port app |app. True} \<union> {stopProcess_request port i |i. True} \<union>
      {listProcesses_request port, getState_request port}"
    using assms by (cases cmd) (auto simp: installApp_action_def uninstallApp_action_def)
  then show ?thesis using registered_routes by (auto simp only: request_defs ctl_request.simps Un_iff mem_Collect_eq insert_iff empty_iff)
qed

lemma apps_list_unrouted:
  "mux_route (map (\<lambda>r. (snd r, f r)) (main_routes n)) ''/node/apps/list'' = None"
proof -
  have "list_all (\<lambda>r. snd r \<noteq> ''/node/apps/list'' \<and> \<not> pattern_matches (snd r) ''/node/apps/list'')
      ([(''GET'', ''/version''), (''GET'', ''/app_store/available_apps'')] @ auth_GetRoutes @ CtrlServer_GetRoutes @ privi_GetRoutes)"
    by code_simp
  then have "snd r \<noteq> ''/node/apps/list'' \<and> \<not> pattern_matches (snd r) ''/node/apps/list''" if "r \<in> set (main_routes n)" for r
    using that unfolding main_routes_def list_all_iff set_append by (cases "Environment n = EnvironmentDev") auto
  then have "find (\<lambda>r. snd r = ''/node/apps/list'') (main_routes n) = None"
    and "find (\<lambda>r. pattern_matches (snd r) ''/node/apps/list'') (main_routes n) = None"
    unfolding find_None_iff by blast+
  then show ?thesis unfolding mux_route_def map_of_routes find_routes by simp
qed

text \<open>
  C33: every command that sends a request sends one that the server's handler decodes to the value of the
  flag, and all but \<open>app list\<close> name a route of the node with its method.  None is served: \<open>app list\<close> has
  no route, and the router never comes back from a request that its route admits.
\<close>

theorem node_ctl_commands_unserved:
  assumes "command_request port cmd = Ok q"
  shows "api_ServeHTTP handlers n cq_Method cq_Path q =
      (if cmd = ListApps then Some (WriteHeader StatusNotFound empty_response) else None) \<and>
    (cmd \<noteq> ListApps \<longrightarrow> (cq_Method q, cq_Path q) \<in> set CtrlServer_GetRoutes) \<and>
    (\<forall>app. cmd = StartProcess app \<longrightarrow> decode_body (\<lambda>m. dec_str m ''app_id'') (cq_Body q) = Ok app) \<and>
    (\<forall>i. cmd = StopProcess i \<longrightarrow> decode_body (\<lambda>m. dec_str m ''process_id'') (cq_Body q) = Ok i)"
proof (cases "cmd = ListApps")
  case True
  then have "cq_Path q = ''/node/apps/list''" using assms by (auto simp: listApps_request_def ctl_get_def)
  then have "api_ServeHTTP handlers n cq_Method cq_Path q = Some (WriteHeader StatusNotFound empty_response)"
    by (simp add: api_ServeHTTP_def router_routes apps_list_unrouted)
  with True show ?thesis by simp
next
  case False
  note route = command_routes [OF assms False]
  then have "(cq_Method q, cq_Path q) \<in> set (main_routes n)" by (auto simp: main_routes_def)
  then have "api_ServeHTTP handlers n cq_Method cq_Path q = None" by (rule registered_unanswered)
  with route False assms show ?thesis
    by (auto simp: request_defs decode_body_def dec_str_def)
qed

lemma node_ctl_commands_unserved_witness:
  "(\<exists>q. command_request ''3000'' (StartProcess ''a1'') = Ok q \<and>
      api_ServeHTTP (\<lambda>_ _ w. w) demo_config cq_Method cq_Path q = None) \<and>
    (\<exists>q. command_request ''3000'' ListApps = Ok q \<and>
      api_ServeHTTP (\<lambda>_ _ w. w) demo_config cq_Method cq_Path q = Some (WriteHeader StatusNotFound empty_response))"
  using node_ctl_commands_unserved [of "''3000''" "StartProcess ''a1''" _ "\<lambda>_ _ w. w" demo_config]
    node_ctl_commands_unserved [of "''3000''" ListApps _ "\<lambda>_ _ w. w" demo_config]
  by simp

end
