(* ===== verification/Lexgen.thy ===== *)
theory Lexgen
  imports FileSystem HttpClient "HOL-Library.List_Lexorder" "HOL-Library.Char_ord" "HOL-Library.Multiset"
begin

text \<open>
  The generator of Go types from lexicons: \<open>cmd/lexgen/main.go\<close>.

  The types of the schema library are the fields that the code reads; a map is the list of its entries in the
  order in which it is visited, a nil map or pointer is \<open>None\<close>.  Parsing JSON and formatting Go code are
  parameters.
\<close>

section \<open>Schemas\<close>

datatype type_schema = TypeSchema
  (ts_Type: string) (ts_Ref: string) (ts_Items: "type_schema option")
  (ts_Properties: "(string \<times> type_schema option) list option") (ts_Required: "string list")
  (ts_Parameters: "type_schema option") (ts_Input: "type_schema option option")
  (ts_Output: "type_schema option option") (ts_Record: "type_schema option")

record lex_schema =
  lx_ID :: string
  lx_Defs :: "(string \<times> type_schema option) list"

record lex_package =
  lp_GoPackage :: string
  lp_Prefix :: string
  lp_Outdir :: string

section \<open>Names\<close>

text \<open>
  \<open>strings.ToUpper\<close> of a text of one byte: a byte that is no character of its own becomes the replacement
  character.
\<close>

definition ToUpper_byte :: "char \<Rightarrow> string" where
  "ToUpper_byte c =
     (if of_char c < (128 :: nat) then [to_upper c] else [CHR 0xEF, CHR 0xBF, CHR 0xBD])"

fun upper_first :: "string \<Rightarrow> string" where
  "upper_first [] = []"
| "upper_first (c # cs) = ToUpper_byte c @ cs"

definition toFieldName :: "string \<Rightarrow> string" where
  "toFieldName name =
     (let result = concat (map upper_first (split_byte CHR ''_'' name)) in
      concat (map upper_first (split_byte CHR ''-'' result)))"

definition toTypeName :: "string \<Rightarrow> string" where
  "toTypeName id' = concat (map toFieldName (split_byte CHR ''.'' id'))"

definition resolveRef :: "string \<Rightarrow> string \<Rightarrow> lex_schema option \<Rightarrow> string" where
  "resolveRef ref lexiconID lexSchema =
     (if HasPrefix ref ''#'' then toTypeName lexiconID @ toFieldName (TrimPrefix ref ''#'') else toTypeName ref)"

fun schemaToGoType :: "type_schema option \<Rightarrow> string \<Rightarrow> lex_schema option \<Rightarrow> string" where
  "schemaToGoType None lexiconID lexSchema = ''interface{}''"
| "schemaToGoType (Some (TypeSchema t ref items ps req pa i out r)) lexiconID lexSchema =
     (if t = ''string'' then ''string''
      else if t = ''integer'' then ''int64''
      else if t = ''boolean'' then ''bool''
      else if t = ''number'' then ''float64''
      else if t = ''unknown'' then ''interface{}''
      else if t = ''array''
      then (if items \<noteq> None then ''[]'' @ schemaToGoType items lexiconID lexSchema else ''[]interface{}'')
      else if t = ''object'' then ''map[string]interface{}''
      else if t = ''ref'' then (if ref \<noteq> '''' then resolveRef ref lexiconID lexSchema else ''interface{}'')
      else ''interface{}'')"

section \<open>Code\<close>

abbreviation newline :: string where "newline \<equiv> [CHR 0x0A]"
abbreviation quote_mark :: string where "quote_mark \<equiv> [CHR 0x22]"

text \<open>The lines for the properties of a struct, the same in all generators; the properties are a map, or nil.\<close>

definition field_line :: "type_schema \<Rightarrow> string \<Rightarrow> lex_schema option \<Rightarrow> string \<Rightarrow> string" where
  "field_line s lexiconID schema propName =
     (let goType = schemaToGoType (the (map_of (the (ts_Properties s)) propName)) lexiconID schema;
          jsonTag = (if propName \<in> set (ts_Required s) then propName else propName @ '',omitempty'') in
      [CHR 0x09] @ toFieldName propName @ '' '' @ goType @ '' `json:'' @ quote_mark @ jsonTag @ quote_mark @ ''`'' @ newline)"

definition struct_fields :: "type_schema \<Rightarrow> string \<Rightarrow> lex_schema option \<Rightarrow> string" where
  "struct_fields s lexiconID schema =
     (case ts_Properties s of
        None \<Rightarrow> ''''
      | Some props \<Rightarrow> concat (map (field_line s lexiconID schema) (sort (map fst props))))"

definition struct_code :: "string \<Rightarrow> string \<Rightarrow> type_schema \<Rightarrow> string \<Rightarrow> lex_schema option \<Rightarrow> string" where
  "struct_code typeName comment s lexiconID schema =
     ''// '' @ typeName @ '' represents '' @ comment @ newline @
     ''type '' @ typeName @ '' struct {'' @ newline @ struct_fields s lexiconID schema @ ''}'' @ newline @ newline"

definition def_type_name :: "string \<Rightarrow> string \<Rightarrow> string" where
  "def_type_name id' defName =
     (let typeName = toTypeName id' in if defName \<noteq> ''main'' then typeName @ toFieldName defName else typeName)"

text \<open>\<open>Some (Some s)\<close> is an input or output with a schema.\<close>

fun body_code :: "string \<Rightarrow> string \<Rightarrow> type_schema option option \<Rightarrow> string \<Rightarrow> lex_schema option \<Rightarrow> string" where
  "body_code typeName comment (Some (Some s)) id' schema = struct_code typeName comment s id' schema"
| "body_code typeName comment _ id' schema = ''''"

definition generateQueryCode :: "string \<Rightarrow> string \<Rightarrow> type_schema \<Rightarrow> lex_schema option \<Rightarrow> string" where
  "generateQueryCode id' defName defData schema =
     (let typeName = def_type_name id' defName in
      (case ts_Parameters defData of
         None \<Rightarrow> ''''
       | Some p \<Rightarrow> struct_code (typeName @ ''Params'') (''the input parameters for '' @ id') p id' schema)
      @ body_code (typeName @ ''Output'') (''the output for '' @ id') (ts_Output defData) id' schema)"

definition generateProcedureCode :: "string \<Rightarrow> string \<Rightarrow> type_schema \<Rightarrow> lex_schema option \<Rightarrow> string" where
  "generateProcedureCode id' defName defData schema =
     (let typeName = def_type_name id' defName in
      body_code (typeName @ ''Input'') (''the input for '' @ id') (ts_Input defData) id' schema
      @ body_code (typeName @ ''Output'') (''the output for '' @ id') (ts_Output defData) id' schema)"

definition generateRecordCode :: "string \<Rightarrow> string \<Rightarrow> type_schema \<Rightarrow> string" where
  "generateRecordCode id' defName defData =
     (case ts_Record defData of
        None \<Rightarrow> ''''
      | Some r \<Rightarrow> struct_code (def_type_name id' defName) (''a '' @ id' @ '' record'') r id' None)"

definition generateObjectCode :: "string \<Rightarrow> string \<Rightarrow> type_schema \<Rightarrow> string" where
  "generateObjectCode id' defName defData =
     struct_code (toTypeName id' @ toFieldName defName) (''a '' @ defName @ '' object'') defData id' None"

record generated_file =
  gf_Name :: string
  gf_Package :: string
  gf_Content :: string

datatype lexgen_error =
    ConfigUnread
  | ConfigUnparsed
  | WalkFailed
  | LexiconUnread string
  | LexiconUnparsed string
  | MkdirFailed os_error
  | Unformattable
  | WriteFailed os_error

text \<open>The generators never fail; other types than these four are passed over, and a nil definition panics.\<close>

definition def_code :: "lex_schema \<Rightarrow> string \<times> type_schema option \<Rightarrow> (string, lexgen_error) res" where
  "def_code lx nd =
     (case nd of
        (defName, None) \<Rightarrow> Panic
      | (defName, Some defData) \<Rightarrow>
          Ok (if ts_Type defData = ''query'' then generateQueryCode (lx_ID lx) defName defData (Some lx)
              else if ts_Type defData = ''procedure'' then generateProcedureCode (lx_ID lx) defName defData (Some lx)
              else if ts_Type defData = ''record'' then generateRecordCode (lx_ID lx) defName defData
              else if ts_Type defData = ''object'' then generateObjectCode (lx_ID lx) defName defData
              else ''''))"

fun defs_code :: "lex_schema \<Rightarrow> (string \<times> type_schema option) list \<Rightarrow> (string, lexgen_error) res" where
  "defs_code lx [] = Ok ''''"
| "defs_code lx (nd # rest) =
     bind_res (def_code lx nd) (\<lambda>code. bind_res (defs_code lx rest) (\<lambda>codes. Ok (code @ codes)))"

definition ReplaceAll :: "char \<Rightarrow> char \<Rightarrow> string \<Rightarrow> string" where
  "ReplaceAll a b s = map (\<lambda>c. if c = a then b else c) s"

definition generateCode :: "lex_schema \<Rightarrow> lex_package \<Rightarrow> (generated_file, lexgen_error) res" where
  "generateCode lx cfg =
     (let name = ReplaceAll CHR ''.'' CHR ''_'' (TrimPrefix (lx_ID lx) (lp_Prefix cfg @ ''.'')) in
      bind_res (defs_code lx (lx_Defs lx)) (\<lambda>codes.
        Ok \<lparr>gf_Name = name @ ''.go'', gf_Package = lp_GoPackage cfg,
            gf_Content = ''package '' @ lp_GoPackage cfg @ newline @ newline @
              ''// Code generated by lexgen. DO NOT EDIT.'' @ newline @ newline @ codes\<rparr>))"

section \<open>Files\<close>

record lexgen_env =
  le_Configs :: "string \<Rightarrow> lex_package list option"
  le_Schema :: "string \<Rightarrow> lex_schema option"
  le_Format :: "string \<Rightarrow> string option"
  le_cwd :: "string list"

text \<open>The callers keep empty paths away, which lead nowhere.\<close>

definition os_ReadFile :: "string list \<Rightarrow> fs \<Rightarrow> string option" where
  "os_ReadFile p t = (case os_Stat p t of Ok (FileNode c) \<Rightarrow> Some c | _ \<Rightarrow> None)"

text \<open>
  \<open>filepath.WalkDir\<close>: a directory before what is in it, and that in the order of the names.  This is the order
  of the paths as lists of names.
\<close>

definition os_WalkDir :: "string list \<Rightarrow> fs \<Rightarrow> (string list \<times> node) list option" where
  "os_WalkDir dir t =
     (if is_Ok (os_Stat dir t)
      then Some (map (\<lambda>p. (p, the (fmlookup t p))) (filter (prefix dir) (sorted_list_of_fset (fmdom t))))
      else None)"

definition is_lexicon :: "string list \<times> node \<Rightarrow> bool" where
  "is_lexicon pn = (snd pn \<noteq> DirNode \<and> HasSuffix (last (fst pn)) ''.json'')"

definition parseLexicon :: "lexgen_env \<Rightarrow> string list \<Rightarrow> fs \<Rightarrow> (lex_schema, lexgen_error) res" where
  "parseLexicon L p t =
     bind_res (ok_or (LexiconUnread (last p)) (os_ReadFile p t)) (\<lambda>data. ok_or (LexiconUnparsed (last p)) (le_Schema L data))"

fun generate_loop ::
  "lexgen_env \<Rightarrow> lex_package \<Rightarrow> fs \<Rightarrow> string list list \<Rightarrow> (generated_file list, lexgen_error) res"
where
  "generate_loop L cfg t [] = Ok []"
| "generate_loop L cfg t (p # ps) =
     bind_res (parseLexicon L p t) (\<lambda>lx.
     bind_res (generateCode lx cfg) (\<lambda>g.
     bind_res (generate_loop L cfg t ps) (\<lambda>gs. Ok (g # gs))))"

definition writeGeneratedFile :: "lexgen_env \<Rightarrow> generated_file \<Rightarrow> string \<Rightarrow> fs \<Rightarrow> fs \<times> (unit, lexgen_error) res" where
  "writeGeneratedFile L g outDir t =
     (case (if outDir = '''' then (t, Err NotExist) else os_MkdirAll (locate (le_cwd L) outDir) t) of
        (t1, Err e) \<Rightarrow> (t1, Err (MkdirFailed e))
      | (t1, Panic) \<Rightarrow> (t1, Panic)
      | (t1, Ok _) \<Rightarrow>
          (case le_Format L (gf_Content g) of
             None \<Rightarrow> (t1, Err Unformattable)
           | Some formatted \<Rightarrow>
               (let p = locate (le_cwd L) (path_Join [outDir, gf_Name g]) in
                case os_Create p t1 of
                  (t2, Ok _) \<Rightarrow> (write_start p formatted t2, Ok ())
                | (t2, Err e) \<Rightarrow> (t2, Err (WriteFailed e))
                | (t2, Panic) \<Rightarrow> (t2, Panic))))"

fun write_loop :: "lexgen_env \<Rightarrow> string \<Rightarrow> generated_file list \<Rightarrow> fs \<Rightarrow> fs \<times> (unit, lexgen_error) res" where
  "write_loop L outDir [] t = (t, Ok ())"
| "write_loop L outDir (g # gs) t = sbind (writeGeneratedFile L g outDir t) (\<lambda>_ t. write_loop L outDir gs t)"

definition lexicons_of :: "lexgen_env \<Rightarrow> lex_package \<Rightarrow> string \<Rightarrow> fs \<Rightarrow> (string list list, lexgen_error) res" where
  "lexicons_of L cfg lexiconsDir t =
     (let prefixPath = path_Join [lexiconsDir, ReplaceAll CHR ''.'' CHR ''/'' (lp_Prefix cfg)] in
      map_err (\<lambda>_. WalkFailed) (bind_res (if prefixPath = '''' then Err () else ok_or () (os_WalkDir (locate (le_cwd L) prefixPath) t)) (\<lambda>visited.
        Ok (map fst (filter is_lexicon visited)))))"

definition processConfig :: "lexgen_env \<Rightarrow> lex_package \<Rightarrow> string \<Rightarrow> fs \<Rightarrow> fs \<times> (unit, lexgen_error) res" where
  "processConfig L cfg lexiconsDir t =
     sbind (t, bind_res (lexicons_of L cfg lexiconsDir t) (generate_loop L cfg t)) (\<lambda>generatedFiles t.
       write_loop L (lp_Outdir cfg) generatedFiles t)"

fun configs_loop :: "lexgen_env \<Rightarrow> string \<Rightarrow> lex_package list \<Rightarrow> fs \<Rightarrow> fs \<times> (unit, lexgen_error) res" where
  "configs_loop L lexiconsDir [] t = (t, Ok ())"
| "configs_loop L lexiconsDir (cfg # cfgs) t =
     sbind (processConfig L cfg lexiconsDir t) (\<lambda>_ t. configs_loop L lexiconsDir cfgs t)"

definition lexgen_run :: "lexgen_env \<Rightarrow> string \<Rightarrow> string \<Rightarrow> fs \<Rightarrow> fs \<times> (unit, lexgen_error) res" where
  "lexgen_run L configPath lexiconsDir t =
     sbind (t, bind_res (ok_or ConfigUnread (if configPath = '''' then None else os_ReadFile (locate (le_cwd L) configPath) t)) (\<lambda>data.
                 ok_or ConfigUnparsed (le_Configs L data))) (\<lambda>configs t.
       configs_loop L lexiconsDir configs t)"

section \<open>The names are names of Go\<close>

definition ascii_letter_any :: "char \<Rightarrow> bool" where
  "ascii_letter_any c \<longleftrightarrow> ascii_letter 65 c \<or> ascii_letter 97 c"

definition go_letter_or_digit :: "char \<Rightarrow> bool" where
  "go_letter_or_digit c \<longleftrightarrow> ascii_letter_any c \<or> (48 \<le> (of_char c :: nat) \<and> of_char c < (58 :: nat))"

text \<open>An exported identifier, and the names that lexicons give to definitions, properties and themselves.\<close>

definition exported :: "string \<Rightarrow> bool" where
  "exported n \<longleftrightarrow> n \<noteq> '''' \<and> ascii_letter 65 (hd n) \<and> list_all go_letter_or_digit n"

definition lexicon_name :: "string \<Rightarrow> bool" where
  "lexicon_name n \<longleftrightarrow> n \<noteq> '''' \<and> ascii_letter_any (hd n) \<and>
     list_all (\<lambda>c. go_letter_or_digit c \<or> c \<in> {CHR ''_'', CHR ''-''}) n"

text \<open>A part of a type name may start with a digit, as the parts of a domain may.\<close>

definition lexicon_id :: "string \<Rightarrow> bool" where
  "lexicon_id n \<longleftrightarrow> n \<noteq> '''' \<and> ascii_letter_any (hd n) \<and>
     list_all (\<lambda>c. go_letter_or_digit c \<or> c \<in> {CHR ''_'', CHR ''-'', CHR ''.''}) n"

definition upper_or_same :: "char \<Rightarrow> char \<Rightarrow> bool" where
  "upper_or_same x y \<longleftrightarrow> y = x \<or> y = to_upper x"

lemma to_upper_letter:
  "ascii_letter_any c \<Longrightarrow> ascii_letter 65 (to_upper c)"
  "\<not> ascii_letter 97 c \<Longrightarrow> to_upper c = c"
  by (auto simp: ascii_letter_any_def to_upper_def ascii_letter_def)

lemma to_upper_idem [simp]: "to_upper (to_upper c) = to_upper c"
  by (cases "ascii_letter 97 c") (auto simp: to_upper_def ascii_letter_def)

lemma upper_or_same_trans: "upper_or_same x y \<Longrightarrow> upper_or_same y z \<Longrightarrow> upper_or_same x z"
  by (auto simp: upper_or_same_def)

lemma upper_or_same_keeps:
  assumes "upper_or_same x y"
  shows "go_letter_or_digit x \<Longrightarrow> go_letter_or_digit y" and "(of_char x :: nat) < 128 \<Longrightarrow> (of_char y :: nat) < 128"
    and "\<not> ascii_letter 97 x \<Longrightarrow> y = x"
proof -
  show "go_letter_or_digit y" if "go_letter_or_digit x"
  proof (cases "ascii_letter 97 x")
    case True
    then have "ascii_letter 65 (to_upper x)" by (intro to_upper_letter(1)) (simp add: ascii_letter_any_def)
    then show ?thesis using assms that by (auto simp: upper_or_same_def go_letter_or_digit_def ascii_letter_any_def)
  next
    case False
    then show ?thesis using assms that to_upper_letter(2) by (auto simp: upper_or_same_def)
  qed
  show "(of_char y :: nat) < 128" if "(of_char x :: nat) < 128"
    using assms that by (auto simp: upper_or_same_def to_upper_def ascii_letter_def)
  show "y = x" if "\<not> ascii_letter 97 x"
    using assms that to_upper_letter(2) by (auto simp: upper_or_same_def)
qed

definition ascii :: "string \<Rightarrow> bool" where
  "ascii s \<longleftrightarrow> list_all (\<lambda>c. of_char c < (128 :: nat)) s"

text \<open>
  Cutting at a byte and starting each part with a capital drops the byte and raises some letters; the first
  byte is raised.
\<close>

lemma upper_first_same: "ascii s \<Longrightarrow> list_all2 upper_or_same s (upper_first s)"
  by (cases s) (auto simp: ascii_def ToUpper_byte_def upper_or_same_def intro: list_all2_refl)

lemma split_parts:
  "ascii acc \<Longrightarrow> ascii s \<Longrightarrow> c \<notin> set acc \<Longrightarrow>
    list_all2 upper_or_same (rev acc @ filter (\<lambda>x. x \<noteq> c) s) (concat (map upper_first (split_at_byte c acc s)))"
proof (induction s arbitrary: acc)
  case Nil
  then show ?case using upper_first_same [of "rev acc"] by (simp add: ascii_def list_all_iff)
next
  case (Cons x s)
  show ?case
  proof (cases "x = c")
    case True
    have "list_all2 upper_or_same (rev acc) (upper_first (rev acc))"
      using Cons.prems(1) by (intro upper_first_same) (simp add: ascii_def list_all_iff)
    moreover have "list_all2 upper_or_same (filter (\<lambda>x. x \<noteq> c) s) (concat (map upper_first (split_at_byte c [] s)))"
      using Cons.IH [of "[]"] Cons.prems(2) by (simp add: ascii_def)
    ultimately show ?thesis using True by (simp add: list_all2_appendI)
  next
    case False
    with Cons.IH [of "x # acc"] Cons.prems show ?thesis by (simp add: ascii_def)
  qed
qed

lemma hd_split_at_byte:
  "rev acc @ s \<noteq> [] \<Longrightarrow> hd (rev acc @ s) \<noteq> c \<Longrightarrow> c \<notin> set acc \<Longrightarrow>
    \<exists>r ps. split_at_byte c acc s = (hd (rev acc @ s) # r) # ps"
proof (induction s arbitrary: acc)
  case Nil
  then show ?case by (cases "rev acc") auto
next
  case (Cons x s)
  show ?case
  proof (cases "x = c")
    case True
    then have "rev acc \<noteq> []" using Cons.prems(2) by auto
    with True show ?thesis by (cases "rev acc") auto
  next
    case False
    with Cons.IH [of "x # acc"] Cons.prems show ?thesis by simp
  qed
qed

lemma list_all2_image:
  "list_all2 P xs ys \<Longrightarrow> y \<in> set ys \<Longrightarrow> \<exists>x \<in> set xs. P x y"
  "list_all2 P xs ys \<Longrightarrow> x \<in> set xs \<Longrightarrow> \<exists>y \<in> set ys. P x y"
  by (induction rule: list_all2_induct) auto

lemma upper_or_same_member:
  "list_all2 upper_or_same xs ys \<Longrightarrow> x \<in> set xs \<Longrightarrow> \<not> ascii_letter 97 x \<Longrightarrow> x \<in> set ys"
  using list_all2_image(2) [of upper_or_same xs ys x] upper_or_same_keeps(3) [of x] by blast

lemma cut_once:
  fixes c :: char
  assumes "ascii s"
  defines "m \<equiv> concat (map upper_first (split_byte c s))"
  shows "list_all2 upper_or_same (filter (\<lambda>x. x \<noteq> c) s) m" and "ascii m"
    and "s \<noteq> [] \<Longrightarrow> hd s \<noteq> c \<Longrightarrow> m \<noteq> [] \<and> hd m = to_upper (hd s)"
proof -
  show p: "list_all2 upper_or_same (filter (\<lambda>x. x \<noteq> c) s) m"
    using split_parts [of "[]" s c] assms(1) by (simp add: m_def split_byte_def ascii_def)
  show "ascii m"
    unfolding ascii_def list_all_iff
  proof
    fix y assume "y \<in> set m"
    then obtain x where "x \<in> set s" "upper_or_same x y" using list_all2_image(1) [OF p] by auto
    with assms(1) show "(of_char y :: nat) < 128"
      using upper_or_same_keeps(2) by (auto simp: ascii_def list_all_iff)
  qed
  show "m \<noteq> [] \<and> hd m = to_upper (hd s)" if s: "s \<noteq> []" "hd s \<noteq> c"
  proof -
    obtain r ps where "split_byte c s = (hd s # r) # ps"
      using hd_split_at_byte [of "[]" s c] s by (auto simp: split_byte_def)
    moreover have "(of_char (hd s) :: nat) < 128" using assms(1) s(1) by (cases s) (auto simp: ascii_def)
    ultimately show ?thesis by (simp add: m_def ToUpper_byte_def)
  qed
qed

lemma toFieldName_chars:
  assumes "ascii s"
  shows "y \<in> set (toFieldName s) \<Longrightarrow> \<exists>x \<in> set s. x \<notin> {CHR ''_'', CHR ''-''} \<and> upper_or_same x y"
    and "x \<in> set s \<Longrightarrow> x \<notin> {CHR ''_'', CHR ''-''} \<Longrightarrow> \<not> ascii_letter 97 x \<Longrightarrow> x \<in> set (toFieldName s)"
    and "s \<noteq> [] \<Longrightarrow> ascii_letter_any (hd s) \<Longrightarrow> toFieldName s \<noteq> [] \<and> hd (toFieldName s) = to_upper (hd s)"
proof -
  let ?m = "concat (map upper_first (split_byte CHR ''_'' s))"
  note first = cut_once [OF assms, of "CHR ''_''"]
  note second = cut_once [OF first(2), of "CHR ''-''"]
  have f: "toFieldName s = concat (map upper_first (split_byte CHR ''-'' ?m))" by (simp add: toFieldName_def)
  show "\<exists>x \<in> set s. x \<notin> {CHR ''_'', CHR ''-''} \<and> upper_or_same x y" if y: "y \<in> set (toFieldName s)"
  proof -
    obtain z where "z \<in> set (filter (\<lambda>x. x \<noteq> CHR ''-'') ?m)" and zy: "upper_or_same z y"
      using list_all2_image(1) [OF second(1) y [unfolded f]] by blast
    then have z: "z \<in> set ?m" "z \<noteq> CHR ''-''" by simp_all
    obtain x where "x \<in> set (filter (\<lambda>x. x \<noteq> CHR ''_'') s)" and xz: "upper_or_same x z"
      using list_all2_image(1) [OF first(1) z(1)] by blast
    then have x: "x \<in> set s" "x \<noteq> CHR ''_''" by simp_all
    have "x \<noteq> CHR ''-''"
      using z(2) upper_or_same_keeps(3) [OF xz] by (auto simp: ascii_letter_def)
    with x upper_or_same_trans [OF xz zy] show ?thesis by blast
  qed
  show "x \<in> set (toFieldName s)" if "x \<in> set s" "x \<notin> {CHR ''_'', CHR ''-''}" "\<not> ascii_letter 97 x"
  proof -
    have "x \<in> set ?m" by (rule upper_or_same_member [OF first(1) _ that(3)]) (use that in simp)
    then show ?thesis unfolding f by (intro upper_or_same_member [OF second(1) _ that(3)]) (use that in simp)
  qed
  show "toFieldName s \<noteq> [] \<and> hd (toFieldName s) = to_upper (hd s)" if "s \<noteq> []" "ascii_letter_any (hd s)"
  proof -
    have "hd s \<noteq> CHR ''_''" using that(2) by (auto simp: ascii_letter_any_def ascii_letter_def)
    then have m: "?m \<noteq> []" "hd ?m = to_upper (hd s)" using first(3) that(1) by auto
    have "hd ?m \<noteq> CHR ''-''"
      using to_upper_letter(1) [OF that(2)] m(2) by (auto simp: ascii_letter_def)
    then show ?thesis using second(3) m f by simp
  qed
qed

lemma lexicon_name_ascii: "lexicon_name s \<Longrightarrow> ascii s" "lexicon_id s \<Longrightarrow> ascii s"
  by (auto simp: lexicon_name_def lexicon_id_def ascii_def list_all_iff go_letter_or_digit_def ascii_letter_any_def
      ascii_letter_def)

lemma toFieldName_exported:
  assumes "lexicon_name s"
  shows "exported (toFieldName s)"
proof -
  note a = lexicon_name_ascii(1) [OF assms]
  have s: "s \<noteq> []" "ascii_letter_any (hd s)" using assms by (auto simp: lexicon_name_def)
  have "go_letter_or_digit y" if "y \<in> set (toFieldName s)" for y
    using toFieldName_chars(1) [OF a that] assms upper_or_same_keeps(1)
    by (auto simp: lexicon_name_def list_all_iff)
  with toFieldName_chars(3) [OF a s] to_upper_letter(1) [OF s(2)] show ?thesis
    by (simp add: exported_def list_all_iff)
qed

lemma split_at_byte_subset: "x \<in> set (split_at_byte c acc s) \<Longrightarrow> set x \<subseteq> set acc \<union> (set s)"
  by (induction s arbitrary: acc) (fastforce split: if_splits)+

lemma part_of_id:
  assumes "part \<in> set (split_byte CHR ''.'' s)" and "ascii s"
  shows "set part \<subseteq> set s - {CHR ''.''}" and "ascii part"
  using assms split_at_byte_subset [of part "CHR ''.''" "[]" s] split_byte_no_sep [of part "CHR ''.''" s]
  by (auto simp: split_byte_def ascii_def list_all_iff)

lemma in_split_byte:
  assumes "x \<in> set s" and "x \<noteq> c"
  shows "\<exists>part \<in> set (split_byte c s). x \<in> set part"
proof -
  have "x \<in> set acc \<union> set s \<Longrightarrow> \<exists>part \<in> set (split_at_byte c acc s). x \<in> set part" for acc
    using assms(2)
  proof (induction s arbitrary: acc)
    case (Cons a s)
    from Cons.prems(2) show ?case using Cons.IH [of "[]"] Cons.IH [of "a # acc"] Cons.prems(1) by auto
  qed auto
  from this [of "[]"] assms(1) show ?thesis by (simp add: split_byte_def)
qed

lemma toTypeName_exported:
  assumes "lexicon_id s"
  shows "exported (toTypeName s)"
proof -
  note a = lexicon_name_ascii(2) [OF assms]
  have s: "s \<noteq> []" "ascii_letter_any (hd s)" using assms by (auto simp: lexicon_id_def)
  have "hd s \<noteq> CHR ''.''" using s(2) by (auto simp: ascii_letter_any_def ascii_letter_def)
  then obtain r ps where parts: "split_byte CHR ''.'' s = (hd s # r) # ps"
    using hd_split_at_byte [of "[]" s "CHR ''.''"] s(1) by (auto simp: split_byte_def)
  have "ascii (hd s # r)" using part_of_id(2) [OF _ a, of "hd s # r"] parts by simp
  from toFieldName_chars(3) [OF this] s(2)
  have h: "toTypeName s \<noteq> []" "hd (toTypeName s) = to_upper (hd s)"
    by (auto simp: toTypeName_def parts)
  have "go_letter_or_digit y" if y: "y \<in> set (toTypeName s)" for y
  proof -
    obtain part where part: "part \<in> set (split_byte CHR ''.'' s)" "y \<in> set (toFieldName part)"
      using y by (auto simp: toTypeName_def)
    obtain x where "x \<in> set part" "x \<notin> {CHR ''_'', CHR ''-''}" "upper_or_same x y"
      using toFieldName_chars(1) [OF part_of_id(2) [OF part(1) a] part(2)] by blast
    then show ?thesis
      using part_of_id(1) [OF part(1) a] assms upper_or_same_keeps(1) by (fastforce simp: lexicon_id_def list_all_iff)
  qed
  with h to_upper_letter(1) [OF s(2)] show ?thesis by (simp add: exported_def list_all_iff)
qed

text \<open>
  C39: the generated names are exported identifiers of Go: those of fields, of types, and of types that a local
  reference leads to. A reference to a definition of another lexicon is not: its type keeps the sign that
  separates the two names.
\<close>

theorem generated_names_are_identifiers:
  assumes "lexicon_id lexiconID" and "lexicon_name defName" and "ascii other" and "CHR ''#'' \<in> set other" and "hd other \<noteq> CHR ''#''"
  shows "exported (toFieldName defName) \<and> exported (def_type_name lexiconID defName) \<and>
    exported (resolveRef (CHR ''#'' # defName) lexiconID schema) \<and>
    \<not> exported (resolveRef other lexiconID schema)"
proof -
  have app: "exported (a @ b)" if "exported a" "exported b" for a b
    using that by (cases a) (auto simp: exported_def)
  note e = toFieldName_exported [OF assms(2)] toTypeName_exported [OF assms(1)]
  have no: "\<not> HasPrefix other ''#''" using assms(4,5) by (cases other) (auto simp: HasPrefix_def)
  obtain part where "part \<in> set (split_byte CHR ''.'' other)" "CHR ''#'' \<in> set part"
    using in_split_byte [OF assms(4), of "CHR ''.''"] by auto
  then have "CHR ''#'' \<in> set (toTypeName other)"
    using toFieldName_chars(2) [OF part_of_id(2) [OF _ assms(3)], of part "CHR ''#''"]
    by (auto simp: toTypeName_def ascii_letter_def)
  moreover have "\<not> go_letter_or_digit CHR ''#''"
    by (simp add: go_letter_or_digit_def ascii_letter_any_def ascii_letter_def)
  ultimately have "\<not> exported (toTypeName other)" unfolding exported_def list_all_iff by blast
  then show ?thesis
    using e app no by (simp add: def_type_name_def Let_def resolveRef_def HasPrefix_def TrimPrefix_def)
qed

section \<open>The order of maps\<close>

lemma schemaToGoType_schema: "schemaToGoType s lexiconID schema = schemaToGoType s lexiconID None"
  by (induction s lexiconID schema rule: schemaToGoType.induct) (simp_all add: resolveRef_def)

lemma struct_code_schema: "struct_code n c s lexiconID schema = struct_code n c s lexiconID None"
proof -
  have "field_line s lexiconID schema = field_line s lexiconID None"
    using schemaToGoType_schema [of _ lexiconID schema] by (simp add: field_line_def fun_eq_iff)
  then show ?thesis unfolding struct_code_def struct_fields_def by (simp only:)
qed

lemma def_code_schema: "lx_ID lx = lx_ID ly \<Longrightarrow> def_code lx nd = def_code ly nd"
proof -
  have "body_code n c b i schema = body_code n c b i None" for n c b i and schema :: "lex_schema option"
    using struct_code_schema [of n c _ i schema] by (cases "(n, c, b, i, schema)" rule: body_code.cases) simp_all
  note irrelevant = this struct_code_schema
  have "generateQueryCode i d s (Some lx) = generateQueryCode i d s (Some ly)"
    "generateProcedureCode i d s (Some lx) = generateProcedureCode i d s (Some ly)" for i d s
    unfolding generateQueryCode_def generateProcedureCode_def
    by (simp_all only: irrelevant [of _ _ _ _ "Some lx"] irrelevant [of _ _ _ _ "Some ly"])
  then show ?thesis if "lx_ID lx = lx_ID ly" using that by (simp add: def_code_def split: prod.splits option.splits)
qed

lemma defs_code_Ok:
  "defs_code lx ds = Ok c \<longleftrightarrow>
    (\<forall>nd \<in> set ds. is_Ok (def_code lx nd)) \<and> c = concat (map (\<lambda>nd. the_Ok (def_code lx nd)) ds)"
proof (induction ds arbitrary: c)
  case (Cons nd ds)
  then show ?case by (cases "def_code lx nd"; cases "defs_code lx ds") auto
qed auto

definition with_properties :: "(string \<times> type_schema option) list \<Rightarrow> type_schema \<Rightarrow> type_schema" where
  "with_properties ps s =
     TypeSchema (ts_Type s) (ts_Ref s) (ts_Items s) (Some ps) (ts_Required s) (ts_Parameters s) (ts_Input s)
       (ts_Output s) (ts_Record s)"

lemma struct_fields_order:
  assumes "distinct (map fst ps)" and "mset ps = mset qs"
  shows "struct_fields (with_properties ps s) lexiconID schema = struct_fields (with_properties qs s) lexiconID schema"
proof -
  have m: "mset (map fst ps) = mset (map fst qs)" using assms(2) by simp
  then have "distinct (map fst qs)" using assms(1) by (metis mset_eq_imp_distinct_iff)
  then have "map_of ps = map_of qs" using assms(1,2) by (metis map_of_inject_set mset_eq_setD)
  moreover have "sort (map fst ps) = sort (map fst qs)" by (rule properties_for_sort) (simp_all add: assms(2))
  ultimately show ?thesis
    by (simp add: struct_fields_def with_properties_def field_line_def [abs_def])
qed

text \<open>
  The code of a struct does not depend on the order in which the map of its properties is visited; but the
  definitions are written in the order in which their map is visited, so that two runs give the same
  blocks in two orders.
\<close>

theorem generated_code_up_to_order:
  assumes "generateCode lx cfg = Ok g" and "mset defs = mset (lx_Defs lx)"
  shows "(\<exists>h codes codes'. gf_Content g = h @ concat codes \<and> mset codes' = mset codes \<and>
      generateCode (lx\<lparr>lx_Defs := defs\<rparr>) cfg = Ok (g\<lparr>gf_Content := h @ concat codes'\<rparr>)) \<and>
    (\<forall>ps qs s schema. distinct (map fst ps) \<longrightarrow> mset ps = mset qs \<longrightarrow>
       struct_fields (with_properties ps s) lexiconID schema = struct_fields (with_properties qs s) lexiconID schema)"
proof -
  let ?ly = "lx\<lparr>lx_Defs := defs\<rparr>"
  let ?code = "\<lambda>nd. the_Ok (def_code lx nd)"
  have same: "def_code ?ly = def_code lx" by (rule ext, rule def_code_schema) simp
  obtain c where c: "defs_code lx (lx_Defs lx) = Ok c"
    using assms(1) by (auto simp: generateCode_def Let_def bind_res_Ok_iff)
  have ok: "\<forall>nd \<in> set defs. is_Ok (def_code lx nd)"
    using c assms(2) mset_eq_setD [OF assms(2)] by (simp add: defs_code_Ok)
  have "defs_code ?ly defs = Ok (concat (map ?code defs))"
    unfolding defs_code_Ok same using ok by simp
  then have "\<exists>h. gf_Content g = h @ concat (map ?code (lx_Defs lx)) \<and>
      generateCode ?ly cfg = Ok (g\<lparr>gf_Content := h @ concat (map ?code defs)\<rparr>)"
    using assms(1) c by (auto simp: generateCode_def Let_def bind_res_Ok_iff defs_code_Ok)
  moreover have "mset (map ?code defs) = mset (map ?code (lx_Defs lx))" using assms(2) by simp
  ultimately show ?thesis using struct_fields_order by blast
qed

section \<open>What is written\<close>

definition generated_path :: "lexgen_env \<Rightarrow> lex_package \<Rightarrow> generated_file \<Rightarrow> string list" where
  "generated_path L cfg g = locate (le_cwd L) (path_Join [lp_Outdir cfg, gf_Name g])"

lemma writeGeneratedFile_Ok:
  assumes "wf_fs t" and "writeGeneratedFile L g (lp_Outdir cfg) t = (t', Ok u)"
  shows "wf_fs t' \<and> le_Format L (gf_Content g) \<noteq> None \<and>
    file_content t' q = (if generated_path L cfg g = q then le_Format L (gf_Content g) else file_content t q)"
proof -
  let ?dir = "locate (le_cwd L) (lp_Outdir cfg)" and ?p = "generated_path L cfg g"
  obtain t1 formatted t2 v where 1: "os_MkdirAll ?dir t = (t1, Ok v)" "le_Format L (gf_Content g) = Some formatted"
    and c: "os_Create ?p t1 = (t2, Ok v)" and t': "t' = write_start ?p formatted t2"
    using assms(2)
    by (auto simp: writeGeneratedFile_def generated_path_def Let_def split: prod.splits res.splits option.splits if_splits)
  have "wf_fs t1" using wf_MkdirAll [OF assms(1), of ?dir] 1(1) by simp
  from create_content [OF this c] MkdirAll_content [of ?dir t q] 1 show ?thesis by (auto simp: t')
qed

lemma wf_writeGeneratedFile: "wf_fs t \<Longrightarrow> wf_fs (fst (writeGeneratedFile L g outDir t))"
proof -
  assume wf: "wf_fs t"
  let ?dir = "locate (le_cwd L) outDir" and ?p = "locate (le_cwd L) (path_Join [outDir, gf_Name g])"
  obtain t1 r where m: "os_MkdirAll ?dir t = (t1, r)" by (cases "os_MkdirAll ?dir t")
  have wf1: "wf_fs t1" using wf_MkdirAll [OF wf, of ?dir] m by simp
  obtain t2 r2 where c: "os_Create ?p t1 = (t2, r2)" by (cases "os_Create ?p t1")
  have "wf_fs t2" using wf_Create [OF wf1, of ?p] c by simp
  moreover have "r2 = Ok u \<Longrightarrow> wf_fs (write_start ?p f t2)" for u f
    using create_content(2) [OF wf1] c by blast
  ultimately show ?thesis
    using wf wf1 m c by (auto simp: writeGeneratedFile_def Let_def split: res.splits option.splits)
qed

text \<open>What becomes of the file \<open>q\<close> when the generated files are written one after the other.\<close>

definition last_written :: "lexgen_env \<Rightarrow> lex_package \<Rightarrow> generated_file list \<Rightarrow> string list \<Rightarrow> string option \<Rightarrow> string option" where
  "last_written L cfg gs q old = fold (\<lambda>g old. if generated_path L cfg g = q then le_Format L (gf_Content g) else old) gs old"

lemma write_loop_content:
  assumes "wf_fs t" and "write_loop L (lp_Outdir cfg) gs t = (t', Ok u)"
  shows "file_content t' q = last_written L cfg gs q (file_content t q)"
  using assms
proof (induction gs arbitrary: t)
  case (Cons g gs)
  obtain t1 v where w: "writeGeneratedFile L g (lp_Outdir cfg) t = (t1, Ok v)"
    and rest: "write_loop L (lp_Outdir cfg) gs t1 = (t', Ok u)"
    using Cons.prems(2) by (auto elim: sbind_OkE)
  from writeGeneratedFile_Ok [OF Cons.prems(1) w, of q] Cons.IH [OF _ rest] show ?case
    by (auto simp: last_written_def)
qed (simp add: last_written_def)

lemma wf_write_loop: "wf_fs t \<Longrightarrow> wf_fs (fst (write_loop L outDir gs t))"
proof (induction gs arbitrary: t)
  case (Cons g gs)
  show ?case
    using Cons.IH [of "fst (writeGeneratedFile L g outDir t)"] wf_writeGeneratedFile [OF Cons.prems, of L g outDir]
    by (cases "writeGeneratedFile L g outDir t"; cases "snd (writeGeneratedFile L g outDir t)") auto
qed simp

text \<open>
  A package is generated as a whole or not at all: when a lexicon of it cannot be read or parsed, no file
  changes, and the error is reported; when the run succeeds, every file has the formatted code of the last
  lexicon whose name leads to it, or is what it was.
\<close>

theorem package_written_as_a_whole:
  assumes "wf_fs t" and "processConfig L cfg lexiconsDir t = (t', r)"
  shows "wf_fs t' \<and>
    (case bind_res (lexicons_of L cfg lexiconsDir t) (generate_loop L cfg t) of
       Ok gs \<Rightarrow> r = Ok () \<longrightarrow> (\<forall>q. file_content t' q = last_written L cfg gs q (file_content t q))
     | Err e \<Rightarrow> t' = t \<and> r = Err e
     | Panic \<Rightarrow> t' = t \<and> r = Panic)"
proof (cases "bind_res (lexicons_of L cfg lexiconsDir t) (generate_loop L cfg t)")
  case (Ok gs)
  then have "write_loop L (lp_Outdir cfg) gs t = (t', r)" using assms(2) by (simp add: processConfig_def)
  then show ?thesis
    using wf_write_loop [OF assms(1), of L "lp_Outdir cfg" gs] write_loop_content [OF assms(1), of L cfg gs t'] Ok
    by auto
qed (use assms in \<open>auto simp: processConfig_def\<close>)

section \<open>The theorems applied\<close>

definition type_of :: "string \<Rightarrow> type_schema" where
  "type_of t = TypeSchema t '''' None None [] None None None None"

text \<open>The lexicon \<open>network.habitat.repo.getRecord\<close> of the repository.\<close>

definition getRecord_lexicon :: lex_schema where
  "getRecord_lexicon =
     \<lparr>lx_ID = ''network.habitat.repo.getRecord'',
      lx_Defs = [(''main'', Some (TypeSchema ''query'' '''' None None []
        (Some (TypeSchema ''params'' '''' None
           (Some [(''repo'', Some (type_of ''string'')), (''collection'', Some (type_of ''string'')), (''rkey'', Some (type_of ''string''))])
           [''repo'', ''collection'', ''rkey''] None None None None))
        None
        (Some (Some (TypeSchema ''object'' '''' None
           (Some [(''uri'', Some (type_of ''string'')), (''value'', Some (type_of ''unknown''))]) [''uri'', ''value'']
           None None None None)))
        None))]\<rparr>"

definition habitat_package :: lex_package where
  "habitat_package = \<lparr>lp_GoPackage = ''habitat'', lp_Prefix = ''network.habitat'', lp_Outdir = ''/out''\<rparr>"

text \<open>Up to formatting this is the file \<open>api/habitat/repo_getRecord.go\<close>.\<close>

lemma getRecord_generated:
  "\<exists>g. generateCode getRecord_lexicon habitat_package = Ok g \<and> gf_Name g = ''repo_getRecord.go'' \<and>
    gf_Content g = ''package habitat'' @ newline @ newline @ ''// Code generated by lexgen. DO NOT EDIT.'' @ newline @ newline
      @ ''// NetworkHabitatRepoGetRecordParams represents the input parameters for network.habitat.repo.getRecord'' @ newline
      @ ''type NetworkHabitatRepoGetRecordParams struct {'' @ newline
      @ [CHR 0x09] @ ''Collection string `json:'' @ quote_mark @ ''collection'' @ quote_mark @ ''`'' @ newline
      @ [CHR 0x09] @ ''Repo string `json:'' @ quote_mark @ ''repo'' @ quote_mark @ ''`'' @ newline
      @ [CHR 0x09] @ ''Rkey string `json:'' @ quote_mark @ ''rkey'' @ quote_mark @ ''`'' @ newline
      @ ''}'' @ newline @ newline
      @ ''// NetworkHabitatRepoGetRecordOutput represents the output for network.habitat.repo.getRecord'' @ newline
      @ ''type NetworkHabitatRepoGetRecordOutput struct {'' @ newline
      @ [CHR 0x09] @ ''Uri string `json:'' @ quote_mark @ ''uri'' @ quote_mark @ ''`'' @ newline
      @ [CHR 0x09] @ ''Value interface{} `json:'' @ quote_mark @ ''value'' @ quote_mark @ ''`'' @ newline
      @ ''}'' @ newline @ newline"
  by (rule exI [of _ "the_Ok (generateCode getRecord_lexicon habitat_package)"]) code_simp

lemma generated_names_are_identifiers_witness:
  "exported (resolveRef ''#item_view'' ''network.habitat.repo.getRecord'' None) \<and>
   \<not> exported (resolveRef ''com.atproto.label.defs#label'' ''network.habitat.repo.getRecord'' None)"
proof -
  have "lexicon_id ''network.habitat.repo.getRecord''" "lexicon_name ''item_view''"
    "ascii ''com.atproto.label.defs#label''"
    by code_simp+
  from generated_names_are_identifiers [OF this] show ?thesis by simp
qed

definition demo_lexicon :: "(string \<times> type_schema option) list \<Rightarrow> lex_schema" where
  "demo_lexicon defs = \<lparr>lx_ID = ''network.habitat.x'', lx_Defs = defs\<rparr>"

lemma demo_orders:
  "gf_Content (the_Ok (generateCode (demo_lexicon [(''a'', Some (type_of ''object'')), (''b'', Some (type_of ''object''))]) habitat_package))
   \<noteq> gf_Content (the_Ok (generateCode (demo_lexicon [(''b'', Some (type_of ''object'')), (''a'', Some (type_of ''object''))]) habitat_package))"
  "is_Ok (generateCode (demo_lexicon [(''a'', Some (type_of ''object'')), (''b'', Some (type_of ''object''))]) habitat_package)"
  by code_simp+

lemma generated_code_up_to_order_witness:
  "\<exists>h codes codes' g. generateCode (demo_lexicon [(''a'', Some (type_of ''object'')), (''b'', Some (type_of ''object''))]) habitat_package
      = Ok (g\<lparr>gf_Content := h @ concat codes\<rparr>) \<and>
    generateCode (demo_lexicon [(''b'', Some (type_of ''object'')), (''a'', Some (type_of ''object''))]) habitat_package
      = Ok (g\<lparr>gf_Content := h @ concat codes'\<rparr>) \<and> mset codes' = mset codes"
proof -
  let ?a = "(''a'', Some (type_of ''object''))" and ?b = "(''b'', Some (type_of ''object''))"
  obtain g where g: "generateCode (demo_lexicon [?a, ?b]) habitat_package = Ok g"
    using demo_orders(2) by (auto simp: is_Ok_iff)
  have "mset [?b, ?a] = mset (lx_Defs (demo_lexicon [?a, ?b]))" by (simp add: demo_lexicon_def)
  note both = conjunct1 [OF generated_code_up_to_order [OF g this]]
  have "(demo_lexicon [?a, ?b])\<lparr>lx_Defs := [?b, ?a]\<rparr> = demo_lexicon [?b, ?a]" by (simp add: demo_lexicon_def)
  with both obtain h codes codes' where
    "gf_Content g = h @ concat codes" "mset codes' = mset codes"
    "generateCode (demo_lexicon [?b, ?a]) habitat_package = Ok (g\<lparr>gf_Content := h @ concat codes'\<rparr>)"
    by metis
  moreover from this(1) have "g = g\<lparr>gf_Content := h @ concat codes\<rparr>" by simp
  ultimately show ?thesis using g by metis
qed

definition demo_lexgen :: lexgen_env where
  "demo_lexgen =
     \<lparr>le_Configs = (\<lambda>_. None), le_Schema = (\<lambda>s. if s = ''x'' then Some getRecord_lexicon else None),
      le_Format = (\<lambda>s. Some s), le_cwd = []\<rparr>"

definition demo_lexicons :: "string \<Rightarrow> fs" where
  "demo_lexicons c = fmap_of_list [([], DirNode), ([''lex''], DirNode), ([''lex'', ''network''], DirNode),
     ([''lex'', ''network'', ''habitat''], DirNode), ([''lex'', ''network'', ''habitat'', ''a.json''], FileNode c)]"

lemma wf_demo_lexicons: "wf_fs (demo_lexicons c)"
  by (rule wf_fsI) (auto simp: demo_lexicons_def append_eq_Cons_conv split: if_splits)

lemma demo_lexicons_of:
  "lexicons_of demo_lexgen habitat_package ''/lex'' (demo_lexicons ''x'') = Ok [[''lex'', ''network'', ''habitat'', ''a.json'']]"
  "snd (processConfig demo_lexgen habitat_package ''/lex'' (demo_lexicons ''x'')) = Ok ()"
  by code_simp+

lemma package_written_as_a_whole_witness:
  "\<exists>g t'. processConfig demo_lexgen habitat_package ''/lex'' (demo_lexicons ''x'') = (t', Ok ()) \<and>
     generateCode getRecord_lexicon habitat_package = Ok g \<and>
     file_content t' [''out'', ''repo_getRecord.go''] = Some (gf_Content g)"
proof -
  let ?t = "demo_lexicons ''x''"
  obtain t' where run: "processConfig demo_lexgen habitat_package ''/lex'' ?t = (t', Ok ())"
    using demo_lexicons_of(2) by (metis prod.collapse)
  obtain g where g: "generateCode getRecord_lexicon habitat_package = Ok g" "gf_Name g = ''repo_getRecord.go''"
    using getRecord_generated by blast
  have "parseLexicon demo_lexgen [''lex'', ''network'', ''habitat'', ''a.json''] ?t = Ok getRecord_lexicon"
    by code_simp
  then have gs: "bind_res (lexicons_of demo_lexgen habitat_package ''/lex'' ?t) (generate_loop demo_lexgen habitat_package ?t) = Ok [g]"
    using g(1) by (simp add: demo_lexicons_of(1))
  have "generated_path demo_lexgen habitat_package g = locate [] (path_Join [''/out'', ''repo_getRecord.go''])"
    by (simp add: generated_path_def g(2)) (simp add: demo_lexgen_def habitat_package_def)
  also have "locate [] (path_Join [''/out'', ''repo_getRecord.go'']) = [''out'', ''repo_getRecord.go'']" by code_simp
  finally have "last_written demo_lexgen habitat_package [g] [''out'', ''repo_getRecord.go''] old = Some (gf_Content g)" for old
    by (simp add: last_written_def) (simp add: demo_lexgen_def)
  with package_written_as_a_whole [OF wf_demo_lexicons run] gs run g(1) show ?thesis by auto
qed

end
