(* ===== verification/Spec2Isabelle.thy ===== *)
theory Spec2Isabelle
  imports BffDemo BffRace WebPackages NodeBoot Interleaving NodeServers Funnel NodeOAuth PriviMain PriviParts NodeCtl Lexgen
begin

text \<open>
  A model of the Habitat node: the program that runs the applications of a household, proxies requests to them,
  keeps private records next to a public AT Protocol repository, and logs its users in.

  \<^bold>\<open>The parts of the program.\<close>  A node keeps a state document (users, applications, processes, proxy rules) that is
  changed by transitions only; each transition is validated, applied as a JSON patch, checked against the schema of
  its version, and written to a file.  The controller serves requests over this database: it asks a package manager
  and a process driver to act, proposes the transition that records it, and adds the rules of the application to the
  reverse proxy.  The proxy forwards requests to applications and to the API server of the node, whose routes are
  those of the controller, of the login and of the private data server.  The private data server keeps records in a
  SQLite repository and asks a permission store who may read them; its callers are known by a signed token or by a
  session of the OAuth server.  Separate programs are the private data server alone, the command line tool, the
  demonstration of the authentication between nodes, and the generator of Go types.

  \<^bold>\<open>How code becomes definitions.\<close>  A Go function that returns \<open>(T, error)\<close> is a function into \<open>res\<close> (\<open>GoPrelude\<close>):
  \<open>Ok\<close>, \<open>Err\<close>, or \<open>Panic\<close> for a run-time panic.  Structs are records, tagged interfaces datatypes, maps \<open>fmap\<close> with
  an extra argument for the order in which Go visits them where that order can be seen, nil an \<open>option\<close>.  State is
  passed along: an operation takes the world and returns it.  Handlers return their response as a value
  (\<open>Http\<close>).  Definitions keep the names of the functions they model, with the prefix of their
  receiver where two would clash.  Code outside the repository is a record of functions (\<open>env\<close>, \<open>crypto\<close>,
  \<open>jwt_lib\<close>, \<open>perm_table\<close>, \<open>enforcer\<close>, \<open>oauth_env\<close>, \<open>cert_lib\<close>, \<open>viper_lib\<close>, \<open>machine\<close> and others), and what
  is relied on is a predicate over it whose name ends in \<open>_laws\<close>; each is shown to hold of a concrete instance,
  to which the theorems are then applied.

  \<^bold>\<open>Shared theories.\<close>  \<open>GoPrelude\<close> (results, strings as bytes, maps), \<open>Json\<close> (documents, decoding, patches),
  \<open>Base64\<close> (round trip), \<open>Http\<close> (responses, \<open>path.Clean\<close> and \<open>path.Join\<close>), \<open>HttpClient\<close> (headers with
  canonical names), \<open>FileSystem\<close> (a tree of files with the operations of \<open>os\<close>).

  \<^bold>\<open>The state of the node\<close> (\<open>internal/node/state\<close>, \<open>internal/app\<close>, \<open>internal/process\<close>).
  \<^item> \<open>AppTypes\<close>, \<open>NodeState\<close>: the records with their JSON codecs, and the queries of \<open>state.go\<close>.
  \<^item> \<open>SchemaVersion\<close>, \<open>DataMigrations\<close>: \<open>schema.go\<close> and \<open>migrations.go\<close>.  The migrations that are needed between
    two versions are exactly the steps between them; migrating keeps users, applications and processes.
  \<^item> \<open>Transitions\<close>: the nine transitions of \<open>transitions.go\<close> with their validation and their patches; for each one
    the abstract effect that its patch has on a state.
  \<^item> \<open>StateDB\<close>: the proposal loop of \<open>json.go\<close> and the file database of \<open>db.go\<close>.  Accepted proposals refine the
    abstract effects and keep the invariant \<open>wf_state\<close>; memory and disk agree over every history.
  \<^item> \<open>Documents\<close>: the document in the database is the marshalled state itself, after every list of transitions with
    migrations among them (\<open>means\<close> is the effect of a transition, with that of a migration); of the documents that
    merely decode to a state, \<open>StateDB\<close> speaks.

  \<^bold>\<open>Running applications.\<close>
  \<^item> \<open>ProcessManager\<close>: drivers, the manager, and the Docker driver and package manager (\<open>internal/process\<close>,
    \<open>internal/docker\<close>).  \<open>WebPackages\<close>: \<open>internal/web/package_manager.go\<close> over the tree of files.
  \<^item> \<open>ReverseProxy\<close>: rules, their matching and ranking, handlers (\<open>internal/node/reverse_proxy\<close>).
  \<^item> \<open>Controller\<close>, \<open>CtrlServer\<close>: \<open>controller.go\<close> and the handlers of \<open>server.go\<close>, on every branch.
  \<^item> \<open>NodeConfig\<close>, \<open>NodeMain\<close>: \<open>config.go\<close>, the default rules and the initial state of \<open>cmd/node/main.go\<close>.
  \<^item> \<open>NodeRun\<close>: what the requests of a node amount to, as the step relation \<open>move\<close>: a proposal, a
    change outside, a rule added, a restart; the writes of proposals may fail.  \<open>NodeBoot\<close>: the whole start, and that
    from it on every sequence of moves leaves a node whose memory and proxy are sound, and its file too when no write
    failed: a restart then finds the database that the node had.
  \<^item> \<open>Interleaving\<close>: handlers that run at the same time.  A handler is a program, a tree of atomic actions, which is
    proved to be the handler of \<open>CtrlServer\<close> when it runs alone; in a pool of programs the actions come in any order.
    Every interleaving is a sequence of moves, ends, and answers every request.
  \<^item> \<open>NodeServers\<close>: \<open>internal/node/server/server.go\<close>, the listeners, the listing of apps, and the end of \<open>main\<close>
    as the step relation \<open>run_step\<close> over its goroutines.  The measure \<open>work_left\<close> bounds the shutdown.
    \<open>Funnel\<close>: the program \<open>cmd/funnel\<close>, its flags and, as the relation \<open>funnel_step\<close>, its serving and its shutdown, which
    has a deadline where that of the node waits for its clients.
  \<^item> \<open>Router\<close>: \<open>internal/node/api\<close>.  \<open>NodeCtl\<close>: \<open>cmd/node_ctrl/main.go\<close> and what the node does with its requests.
    \<open>NodeOAuth\<close>: the OAuth client of the node, and where its URLs lead through the proxy.

  \<^bold>\<open>Private data.\<close>
  \<^item> \<open>Permissions\<close>: the three stores of \<open>internal/permissions\<close>; the SQLite store refines a set of grants, with the
    operator LIKE written out.  \<open>Casbin\<close>: the model of \<open>model.conf\<close>, the refinement for the store over casbin through
    the locale \<open>grant_store\<close>, of which both stores are interpretations, and how the two stores agree.
  \<^item> \<open>Privi\<close>: \<open>internal/privi\<close>.  Records are written by the owner only, and read by those with a grant; what
    was put is read back, and pages continue each other.  \<open>PriviMain\<close>: the program \<open>cmd/privi\<close>.  \<open>PriviParts\<close>: what no handler calls, the limit of
    a blob from the options of SQLite and the random keys.

  \<^bold>\<open>Logging in.\<close>
  \<^item> \<open>Dpop\<close>, \<open>AuthSession\<close>, \<open>OAuthClient\<close>, \<open>AuthHandlers\<close>: \<open>internal/auth\<close>.  The DPoP client sends at most two
    requests and reaches a server that demands a nonce; a login can be completed by its callback.
  \<^item> \<open>OAuthServer\<close>: \<open>internal/oauthserver\<close>.  Tokens open to the session sealed in them and to no other.
  \<^item> \<open>BffAuth\<close>, \<open>BffDemo\<close>: \<open>internal/bffauth\<close> with its demonstration programs.  A challenge gives at most one token.
    \<open>BffRace\<close>: with its requests interleaved, which keeps every token with the holder of the key, but not one.
    The keys that \<open>keygen\<close> prints let the demonstration succeed; the client in \<open>client.go\<close> is a stub.

  \<^bold>\<open>Tools.\<close>  \<open>Lexgen\<close>: \<open>cmd/lexgen/main.go\<close>.

  \<^bold>\<open>Interfaces.\<close>  The locales are \<open>state_client\<close> (the client interface of the database), \<open>read_grants\<close> and \<open>grant_store\<close>
  (permission stores), \<open>session_persister\<close> (challenge sessions), \<open>nonce_store\<close> and \<open>session_slot\<close> (values kept in a
  session).  Each is interpreted by the definitions of the code.

  \<^bold>\<open>Recursion and bounds.\<close>  Loops over lists and maps are structural.  The matching of LIKE and the splitting of strings
  are \<open>function\<close>s with a measure on lengths.  The route that calls itself (\<open>processed_ServeHTTP\<close>) is a
  \<open>partial_function\<close>, where \<open>None\<close> is the call that does not return, which is proved of it.  No
  definition uses fuel.  The code does no arithmetic on machine integers that can overflow: sizes and counters
  are natural numbers, and times are integers; \<open>strconv.Atoi\<close> has its range of 64 bits written out.

  \<^bold>\<open>What is not modelled.\<close>
  \<^item> The libraries: Docker, gorm and SQLite, casbin, fosite, viper, the JSON schema, patch and diff libraries, cookies,
    cryptography, identities, YAML and templates, tailscale.  They are parameters.
  \<^item> Logging; helpers of tests; generated types of \<open>api/habitat\<close> that carry no behaviour beyond what \<open>Privi\<close> decodes;
    \<open>toES256K\<close>, which nothing calls.
  \<^item> The encryption in \<open>privi/encrypter.go\<close>, which is commented out: the server uses the encrypter that does nothing.
  \<^item> The memory model of Go: reading, proposing and \<open>AddRule\<close> are atomic.  The database has a lock; the map of proxy rules
    has none (a comment says so), so that a data race on it is outside.
  \<^item> In the relation \<open>move\<close> a restart follows a write that did not fail, since the file may hold anything after one
    that did; and migrations go to versions from v0.0.4 on, whose states have all four maps.  Those to older
    versions are treated in \<open>DataMigrations\<close>.
\<close>

end
